(* ===== verification/Efsn_Prelude.thy ===== *)
theory Efsn_Prelude
  imports Main "HOL-Library.Word" "HOL-Library.Monad_Syntax" "HOL-Library.Multiset"
begin

text \<open>
  Shared vocabulary of the development: the machine integers of the Go code, the representation
  of panics and of error values, and the generic facts on words, lists and association tables that
  the component theories use.

  \<^item> A Go \<open>uint64\<close> is a \<open>64 word\<close>, so that \<open>+\<close> and \<open>-\<close> wrap as they do in Go.
  \<^item> A \<open>common.Hash\<close> (32 bytes) is a \<open>256 word\<close>, a \<open>common.Address\<close> (20 bytes) a \<open>160 word\<close>.
  \<^item> A \<open>*big.Int\<close> is an \<open>int\<close>; where the code tests it against \<open>nil\<close> it is an \<open>int option\<close>.
  \<^item> A run-time panic is the value \<open>None\<close> of an option type, so that code that may panic is
    written in the option monad; an \<open>error\<close> result is a value of a datatype of its own.
\<close>

type_synonym uint8 = "8 word"
type_synonym uint64 = "64 word"
type_synonym Hash = "256 word"
type_synonym Address = "160 word"
type_synonym bytes = "8 word list"

named_theorems word_order_simps "rewriting of word bounds shifted by one"

lemma word_less_dec_iff [word_order_simps]:
  fixes a b t :: "'a::len word"
  assumes "a < b"
  shows "t \<le> b - 1 \<longleftrightarrow> t < b"
  using assms by (auto simp: less_eq_dec_iff)

lemma word_inc_le_iff [word_order_simps]:
  fixes a b t :: "'a::len word"
  assumes "a < b"
  shows "a + 1 \<le> t \<longleftrightarrow> a < t"
  using assms by (auto simp: inc_less_eq_iff)

lemma option_eqI: "(\<And>u. x = Some u \<longleftrightarrow> y = Some u) \<Longrightarrow> x = y"
  by (cases x; cases y) auto

lemma map_of_insert_mset:
  assumes "mset ys = add_mset (k, v) (mset xs)" "distinct (map fst xs)" "k \<notin> fst ` set xs"
  shows "distinct (map fst ys) \<and> map_of ys = (map_of xs)(k \<mapsto> v)"
proof -
  have m: "mset ys = mset ((k, v) # xs)" using assms(1) by simp
  then have "mset (map fst ys) = mset (map fst ((k, v) # xs))" by (metis mset_map)
  then have d: "distinct (map fst ys)"
    using mset_eq_imp_distinct_iff [of "map fst ys"] assms(2,3) by fastforce
  have "map_of ys = map_of ((k, v) # xs)"
    using map_of_inject_set [OF d, of "(k, v) # xs"] mset_eq_setD [OF m] assms(2,3) by simp
  with d show ?thesis by simp
qed

lemma map_of_remove_mset:
  assumes "mset xs = add_mset (k, v) (mset ys)" "distinct (map fst xs)"
  shows "distinct (map fst ys) \<and> map_of xs k = Some v \<and> map_of ys = (map_of xs)(k := None)"
proof -
  have "mset (map fst xs) = mset (k # map fst ys)" using assms(1) by (metis fst_conv image_mset_add_mset mset.simps(2) mset_map)
  then have "distinct (k # map fst ys)"
    using mset_eq_imp_distinct_iff assms(2) by blast
  then have d: "distinct (map fst ys)" "k \<notin> fst ` set ys" by simp_all
  have "map_of xs = (map_of ys)(k \<mapsto> v)" using map_of_insert_mset [OF assms(1) d] by simp
  moreover have "map_of ys k = None" using d(2) by (simp add: map_of_eq_None_iff)
  ultimately show ?thesis using d(1) by (simp add: fun_eq_iff)
qed

end
