(* ===== verification/Time_Lock.thy ===== *)
theory Time_Lock
  imports Efsn_Prelude
begin

text \<open>
  Model of \<open>src/common/timelock.go\<close>: time-locked amounts of an asset. A \<open>TimeLockItem\<close> is an
  amount that is available in a closed interval of time stamps, a \<open>TimeLock\<close> a list of items. The
  abstract meaning of a list of items is the amount available at each time stamp (\<open>amount_at\<close>);
  the operations \<open>Add\<close>, \<open>Sub\<close>, \<open>Cmp\<close>, \<open>ClearExpired\<close> and \<open>ToDisplay\<close> are related to it.
  A nil pointer is \<open>None\<close>; a panic is an outer \<open>None\<close>.
\<close>

section \<open>Items\<close>

record TimeLockItem =
  StartTime :: uint64
  EndTime :: uint64
  Value :: int

definition TimeLockNow :: uint64 where
  "TimeLockNow = 0"

definition TimeLockForever :: uint64 where
  "TimeLockForever = 0xffffffffffffffff"

datatype tl_error =
    ItemTimeInvalid uint64 uint64
  | ItemValueInvalid int
  | TimeLockItemInvalid nat tl_error
  | TimeLockOrderInvalid nat TimeLockItem TimeLockItem

definition Item_IsValid :: "TimeLockItem \<Rightarrow> tl_error option" where
  "Item_IsValid z =
     (if StartTime z > EndTime z then Some (ItemTimeInvalid (StartTime z) (EndTime z))
      else if Value z \<le> 0 then Some (ItemValueInvalid (Value z))
      else None)"

text \<open>\<open>new(big.Int).SetBytes(v.Bytes())\<close> copies the magnitude of \<open>v\<close> and drops its sign.\<close>

definition copyMagnitude :: "int \<Rightarrow> int" where
  "copyMagnitude v = \<bar>v\<bar>"

definition Item_Clone :: "TimeLockItem \<Rightarrow> TimeLockItem" where
  "Item_Clone z = \<lparr>StartTime = StartTime z, EndTime = EndTime z, Value = copyMagnitude (Value z)\<rparr>"

definition AdjustStartEnd :: "TimeLockItem \<Rightarrow> uint64 \<Rightarrow> uint64 \<Rightarrow> TimeLockItem" where
  "AdjustStartEnd z startTime endTime =
     \<lparr>StartTime = startTime, EndTime = endTime, Value = copyMagnitude (Value z)\<rparr>"

definition AdjustStart :: "TimeLockItem \<Rightarrow> uint64 \<Rightarrow> TimeLockItem" where
  "AdjustStart z startTime = AdjustStartEnd z startTime (EndTime z)"

definition AdjustEnd :: "TimeLockItem \<Rightarrow> uint64 \<Rightarrow> TimeLockItem" where
  "AdjustEnd z endTime = AdjustStartEnd z (StartTime z) endTime"

definition EqualRange :: "TimeLockItem \<Rightarrow> TimeLockItem option \<Rightarrow> bool" where
  "EqualRange z x = (case x of None \<Rightarrow> False
     | Some i \<Rightarrow> StartTime z = StartTime i \<and> EndTime z = EndTime i)"

definition CanMerge :: "TimeLockItem \<Rightarrow> TimeLockItem \<Rightarrow> bool" where
  "CanMerge z x \<longleftrightarrow>
     EndTime z < StartTime x \<and> EndTime z + 1 = StartTime x \<and> Value z = Value x"

definition Merge :: "TimeLockItem \<Rightarrow> TimeLockItem \<Rightarrow> TimeLockItem" where
  "Merge z x = AdjustEnd z (EndTime x)"

datatype TailFlag = TailInBoth | TailInFirst | TailInSecond

definition intersectionAdd :: "TimeLockItem \<Rightarrow> TimeLockItem \<Rightarrow> TimeLockItem option" where
  "intersectionAdd x y =
     (let startTime = (if StartTime x < StartTime y then StartTime y else StartTime x);
          endTime = (if EndTime x > EndTime y then EndTime y else EndTime x)
      in if startTime > endTime then None
         else Some \<lparr>StartTime = startTime, EndTime = endTime, Value = Value x + Value y\<rparr>)"

definition intersectionSub :: "TimeLockItem \<Rightarrow> TimeLockItem \<Rightarrow> TimeLockItem option" where
  "intersectionSub x y =
     (if Value x = Value y then None
      else let startTime = (if StartTime x < StartTime y then StartTime y else StartTime x);
               endTime = (if EndTime x > EndTime y then EndTime y else EndTime x)
           in if startTime > endTime then None
              else Some \<lparr>StartTime = startTime, EndTime = endTime, Value = Value x - Value y\<rparr>)"

definition Item_Add :: "TimeLockItem \<Rightarrow> TimeLockItem \<Rightarrow> TimeLockItem list \<times> TailFlag" where
  "Item_Add z x =
     (if EndTime x < StartTime z then
        (if CanMerge x z then ([Merge x z], TailInFirst) else ([x, z], TailInFirst))
      else if EndTime z < StartTime x then
        (if CanMerge z x then ([Merge z x], TailInSecond) else ([z, x], TailInSecond))
      else
        let head = (if StartTime x < StartTime z then [AdjustEnd x (StartTime z - 1)]
                    else if StartTime z < StartTime x then [AdjustEnd z (StartTime x - 1)]
                    else []);
            middle = (case intersectionAdd x z of None \<Rightarrow> [] | Some temp \<Rightarrow> [temp])
        in if EndTime x < EndTime z
             then (head @ middle @ [AdjustStart z (EndTime x + 1)], TailInFirst)
           else if EndTime z < EndTime x
             then (head @ middle @ [AdjustStart x (EndTime z + 1)], TailInSecond)
           else (head @ middle, TailInBoth))"

definition Item_Sub :: "TimeLockItem \<Rightarrow> TimeLockItem option
    \<Rightarrow> TimeLockItem list \<times> TimeLockItem option" where
  "Item_Sub z x' =
     (case x' of None \<Rightarrow> ([z], None)
      | Some x \<Rightarrow>
        if EndTime z < StartTime x \<or> StartTime z > EndTime x then ([z], Some x)
        else if Value z < Value x then ([z], Some x)
        else
          let head = (if StartTime z < StartTime x then [AdjustEnd z (StartTime x - 1)] else []);
              middle = (case intersectionSub z x of None \<Rightarrow> [] | Some temp \<Rightarrow> [temp])
          in if EndTime z \<ge> EndTime x then
               (head @ middle @
                (if EndTime z > EndTime x then [AdjustStart z (EndTime x + 1)] else []), None)
             else if EndTime z \<ge> StartTime x then
               (head @ middle, Some (AdjustStart x (EndTime z + 1)))
             else (head @ middle, Some x))"

section \<open>Lists of items\<close>

record TimeLock =
  Items :: "TimeLockItem list"

definition SetItems :: "TimeLock \<Rightarrow> TimeLockItem list \<Rightarrow> TimeLock" where
  "SetItems z items = z\<lparr>Items := map Item_Clone items\<rparr>"

definition NewTimeLock :: "TimeLockItem list \<Rightarrow> TimeLock" where
  "NewTimeLock items = SetItems \<lparr>Items = []\<rparr> items"

definition IsEmpty :: "TimeLock \<Rightarrow> bool" where
  "IsEmpty z \<longleftrightarrow> length (Items z) = 0"

definition appendAndMergeItem :: "TimeLockItem list \<Rightarrow> TimeLockItem option \<Rightarrow> TimeLockItem list" where
  "appendAndMergeItem items addItem =
     (case addItem of None \<Rightarrow> items
      | Some it \<Rightarrow>
        if length items = 0 then [it]
        else let prev = items ! (length items - 1)
             in if CanMerge prev it then items[length items - 1 := Merge prev it]
                else items @ [it])"

definition appendAndMergeItems :: "TimeLockItem list \<Rightarrow> TimeLockItem list \<Rightarrow> TimeLockItem list" where
  "appendAndMergeItems items addItems =
     (case addItems of [] \<Rightarrow> items
      | it # rest \<Rightarrow> appendAndMergeItem items (Some it) @ rest)"

text \<open>
  The loop of \<open>IsValid\<close>: the index, the previous item and the items still to visit.
\<close>

fun IsValid_loop :: "nat \<Rightarrow> TimeLockItem option \<Rightarrow> TimeLockItem list \<Rightarrow> tl_error option" where
  "IsValid_loop i prev [] = None"
| "IsValid_loop i prev (nxt # rest) =
     (case Item_IsValid nxt of
        Some err \<Rightarrow> Some (TimeLockItemInvalid i err)
      | None \<Rightarrow>
        (case prev of
           None \<Rightarrow> IsValid_loop (i + 1) (Some nxt) rest
         | Some p \<Rightarrow>
           if EndTime p \<ge> StartTime nxt \<or> CanMerge p nxt then Some (TimeLockOrderInvalid i p nxt)
           else IsValid_loop (i + 1) (Some nxt) rest))"

definition IsValid :: "TimeLock \<Rightarrow> tl_error option" where
  "IsValid z = IsValid_loop 0 None (Items z)"

text \<open>\<open>CheckValid\<close> panics on an invalid list; it runs in debug mode only.\<close>

definition CheckValid :: "bool \<Rightarrow> TimeLock \<Rightarrow> TimeLock option" where
  "CheckValid debugMode z = (if debugMode \<and> IsValid z \<noteq> None then None else Some z)"

text \<open>
  The loop of \<open>Add\<close>. The indices \<open>i\<close> and \<open>j\<close> are represented by the items still to visit of
  \<open>x\<close> and \<open>y\<close>; \<open>last\<close> is the pending tail and \<open>tailFlag\<close> says which list it belongs to.
  \<open>res[len(res)-1]\<close> panics on an empty result of \<open>Item_Add\<close>.
\<close>

fun Add_loop :: "TimeLockItem list \<Rightarrow> TimeLockItem list \<Rightarrow> TimeLockItem option \<Rightarrow> TailFlag
    \<Rightarrow> TimeLockItem list
    \<Rightarrow> (TimeLockItem list \<times> TimeLockItem list \<times> TimeLockItem option \<times> TailFlag \<times> TimeLockItem list) option"
where
  "Add_loop (x # xs) (y # ys) lst tailFlag items =
     (let xV = (case lst of Some l \<Rightarrow> if tailFlag = TailInFirst then l else x | None \<Rightarrow> x);
          yV = (case lst of Some l \<Rightarrow> if tailFlag = TailInSecond then l else y | None \<Rightarrow> y)
      in if EndTime xV < StartTime yV then
           Add_loop xs (y # ys) (if tailFlag = TailInFirst then None else lst) tailFlag
             (appendAndMergeItem items (Some xV))
         else if EndTime yV < StartTime xV then
           Add_loop (x # xs) ys (if tailFlag = TailInSecond then None else lst) tailFlag
             (appendAndMergeItem items (Some yV))
         else
           (case Item_Add xV yV of (res, flag) \<Rightarrow>
              if res = [] then None
              else
                let l = last res;
                    items' = (if length res > 1 then appendAndMergeItems items (butlast res) else items)
                in (case flag of
                      TailInFirst \<Rightarrow> Add_loop (x # xs) ys (Some l) flag items'
                    | TailInSecond \<Rightarrow> Add_loop xs (y # ys) (Some l) flag items'
                    | TailInBoth \<Rightarrow> Add_loop xs ys None flag (appendAndMergeItem items' (Some l)))))"
| "Add_loop xs ys lst tailFlag items = Some (xs, ys, lst, tailFlag, items)"

definition Add_finish :: "TimeLockItem list \<times> TimeLockItem list \<times> TimeLockItem option \<times> TailFlag \<times> TimeLockItem list
    \<Rightarrow> TimeLockItem list" where
  "Add_finish r = (case r of (xs, ys, lst, tailFlag, items) \<Rightarrow>
     let items1 = (case lst of None \<Rightarrow> items | Some l \<Rightarrow> appendAndMergeItem items (Some l));
         xs1 = (if lst \<noteq> None \<and> tailFlag = TailInFirst then drop 1 xs else xs);
         ys1 = (if lst \<noteq> None \<and> tailFlag = TailInSecond then drop 1 ys else ys);
         items2 = (if xs1 = [] \<and> ys1 \<noteq> [] then appendAndMergeItems items1 ys1 else items1)
     in if ys1 = [] \<and> xs1 \<noteq> [] then appendAndMergeItems items2 xs1 else items2)"

text \<open>
  \<open>z.Add(x, y)\<close>: the result \<open>Some None\<close> is the returned nil pointer. With exactly one of \<open>x\<close>, \<open>y\<close>
  nil and the other not empty, \<open>len(x.Items)\<close> dereferences nil and panics.
\<close>

definition Add :: "bool \<Rightarrow> TimeLock option \<Rightarrow> TimeLock option \<Rightarrow> TimeLock option option" where
  "Add debugMode x y =
     (let xIsEmpty = (case x of None \<Rightarrow> True | Some x \<Rightarrow> IsEmpty x);
          yIsEmpty = (case y of None \<Rightarrow> True | Some y \<Rightarrow> IsEmpty y)
      in if xIsEmpty \<and> yIsEmpty then Some None
         else do {
           x \<leftarrow> x; y \<leftarrow> y;
           r \<leftarrow> Add_loop (Items x) (Items y) None TailInBoth [];
           z \<leftarrow> CheckValid debugMode (NewTimeLock (Add_finish r));
           Some (Some z)
         })"

text \<open>
  The loop of \<open>Cmp\<close> over the items of \<open>z\<close>, with the loop variables \<open>minVal\<close>, \<open>tempTime\<close> and
  \<open>maybeGreat\<close>. \<open>Inl\<close> is an early \<open>return\<close>, \<open>Inr\<close> the values after the loop.
\<close>

fun Cmp_loop :: "TimeLockItem \<Rightarrow> TimeLockItem list \<Rightarrow> int \<Rightarrow> uint64 \<Rightarrow> bool \<Rightarrow> int + int \<times> bool" where
  "Cmp_loop item [] minVal tempTime maybeGreat = Inr (minVal, maybeGreat)"
| "Cmp_loop item (t # ts) minVal tempTime maybeGreat =
     (if EndTime t < StartTime item then Cmp_loop item ts minVal tempTime maybeGreat
      else if tempTime = 0 \<and> StartTime t > StartTime item then Inl (-1)
      else if tempTime \<noteq> 0 \<and> tempTime < StartTime t \<and> tempTime + 1 < StartTime t then Inl (-1)
      else
        let minVal1 = (if tempTime = 0 then Value t else minVal);
            lower = Value t < minVal1;
            minVal2 = (if lower then Value t else minVal1);
            maybeGreat' = (if lower \<and> minVal2 > Value item then True else maybeGreat)
        in if lower \<and> minVal2 < Value item then Inl (-1)
           else if EndTime t \<ge> EndTime item then Inr (minVal2, maybeGreat')
           else Cmp_loop item ts minVal2 (EndTime t) maybeGreat')"

definition bigCmp :: "int \<Rightarrow> int \<Rightarrow> int" where
  "bigCmp a b = (if a < b then -1 else if a = b then 0 else 1)"

definition Cmp :: "TimeLock \<Rightarrow> TimeLock option \<Rightarrow> int option" where
  "Cmp z x' =
     (case x' of None \<Rightarrow> None
      | Some x \<Rightarrow>
        if length (Items x) \<noteq> 1 then None
        else Some
          (if IsEmpty z then -1
           else if IsValid x \<noteq> None then -1
           else
             let item = Items x ! 0;
                 first = Items z ! 0;
                 final = Items z ! (length (Items z) - 1)
             in if StartTime first > StartTime item then -1
                else if EndTime final < EndTime item then -1
                else
                  (case Cmp_loop item (Items z) 0 0
                          (StartTime first < StartTime item \<or> EndTime final > EndTime item) of
                     Inl r \<Rightarrow> r
                   | Inr (minVal, maybeGreat) \<Rightarrow>
                     let cmpVal = bigCmp minVal (Value item)
                     in if cmpVal = 0 \<and> maybeGreat then 1 else cmpVal)))"

fun Sub_loop :: "TimeLockItem list \<Rightarrow> TimeLockItem \<Rightarrow> TimeLockItem list \<Rightarrow> TimeLockItem list" where
  "Sub_loop [] yV items = items"
| "Sub_loop (xV # xs) yV items =
     (case Item_Sub xV (Some yV) of (res, missing) \<Rightarrow>
        let items' = appendAndMergeItems items res
        in (case missing of
              None \<Rightarrow> appendAndMergeItems items' xs
            | Some m \<Rightarrow> Sub_loop xs m items'))"

definition Sub :: "bool \<Rightarrow> TimeLock \<Rightarrow> TimeLock option \<Rightarrow> TimeLock option" where
  "Sub debugMode x y' =
     (case y' of None \<Rightarrow> None
      | Some y \<Rightarrow>
        if length (Items y) \<noteq> 1 then None
        else do {
          c \<leftarrow> Cmp x (Some y);
          (if c < 0 then None
           else CheckValid debugMode (NewTimeLock (Sub_loop (Items x) (Items y ! 0) [])))
        })"

fun ClearExpired_loop :: "TimeLockItem list \<Rightarrow> uint64 \<Rightarrow> TimeLockItem list" where
  "ClearExpired_loop [] timestamp = []"
| "ClearExpired_loop (t # ts) timestamp =
     (if EndTime t \<ge> timestamp then t # ts else ClearExpired_loop ts timestamp)"

definition ClearExpired :: "TimeLock \<Rightarrow> uint64 \<Rightarrow> TimeLock" where
  "ClearExpired z timestamp = z\<lparr>Items := ClearExpired_loop (Items z) timestamp\<rparr>"

definition TimeLock_Clone :: "TimeLock \<Rightarrow> TimeLock" where
  "TimeLock_Clone z = NewTimeLock (Items z)"

definition TimeLock_Set :: "TimeLock option \<Rightarrow> TimeLock" where
  "TimeLock_Set x = (case x of None \<Rightarrow> \<lparr>Items = []\<rparr> | Some x \<Rightarrow> TimeLock_Clone x)"

text \<open>
  \<open>ToDisplay\<close> peels a list of items into stacked intervals. The inner loop collects the adjacent
  items that follow the first one (\<open>end\<close>, the least \<open>value\<close> and the count \<open>i\<close>), the second
  inner loop subtracts that value from the first \<open>i\<close> items and drops the ones that reach zero.
\<close>

fun ToDisplay_scan :: "TimeLockItem list \<Rightarrow> uint64 \<Rightarrow> int \<Rightarrow> nat \<Rightarrow> uint64 \<times> int \<times> nat" where
  "ToDisplay_scan [] endT value i = (endT, value, i)"
| "ToDisplay_scan (item # rest) endT value i =
     (if \<not> (endT < StartTime item \<and> endT + 1 = StartTime item) then (endT, value, i)
      else ToDisplay_scan rest (EndTime item)
             (if Value item < value then Value item else value) (i + 1))"

fun ToDisplay_strip :: "int \<Rightarrow> nat \<Rightarrow> TimeLockItem list \<Rightarrow> TimeLockItem list" where
  "ToDisplay_strip value 0 items = items"
| "ToDisplay_strip value (Suc i) [] = []"
| "ToDisplay_strip value (Suc i) (item # rest) =
     (if Value item = value then ToDisplay_strip value i rest
      else item\<lparr>Value := Value item - value\<rparr> # ToDisplay_strip value i rest)"

lemma ToDisplay_strip_length_le: "length (ToDisplay_strip v i items) \<le> length items"
  by (induction v i items rule: ToDisplay_strip.induct) auto

lemma ToDisplay_strip_length_less:
  "\<exists>it \<in> set (take i items). Value it = v \<Longrightarrow> length (ToDisplay_strip v i items) < length items"
proof (induction v i items rule: ToDisplay_strip.induct)
  case (3 v i item rest)
  then show ?case
    using ToDisplay_strip_length_le [of v i rest] by auto
qed auto

lemma ToDisplay_scan_value:
  "ToDisplay_scan rest e v i = (e', v', i') \<Longrightarrow>
     i \<le> i' \<and> (v' = v \<or> (\<exists>it \<in> set (take (i' - i) rest). Value it = v'))"
proof (induction rest e v i rule: ToDisplay_scan.induct)
  case (2 item rest endT v0 i)
  show ?case
  proof (cases "endT < StartTime item \<and> endT + 1 = StartTime item")
    case True
    with 2 have "i + 1 \<le> i'" and
      "v' = (if Value item < v0 then Value item else v0) \<or>
       (\<exists>it \<in> set (take (i' - (i + 1)) rest). Value it = v')"
      by auto
    moreover from this(1) have "i' - i = Suc (i' - (i + 1))" by simp
    ultimately show ?thesis
      by (auto simp del: Suc_diff_le split: if_splits)
  next
    case False
    with 2 show ?thesis by simp
  qed
qed auto

function ToDisplay_loop :: "TimeLockItem list \<Rightarrow> TimeLockItem list" where
  "ToDisplay_loop [] = []"
| "ToDisplay_loop (item # rest) =
     (case ToDisplay_scan rest (EndTime item) (Value item) 1 of (endT, value, i) \<Rightarrow>
        if i = 1 then item # ToDisplay_loop rest
        else \<lparr>StartTime = StartTime item, EndTime = endT, Value = value\<rparr>
             # ToDisplay_loop (ToDisplay_strip value i (item # rest)))"
  by pat_completeness auto
termination
proof (relation "measure length", goal_cases)
  case (3 item rest endT y v i)
  then have "ToDisplay_scan rest (EndTime item) (Value item) 1 = (endT, v, i)" by simp
  then have "1 \<le> i \<and> (v = Value item \<or> (\<exists>it \<in> set (take (i - 1) rest). Value it = v))"
    using ToDisplay_scan_value [of rest "EndTime item" "Value item" 1 endT v i] by simp
  then have "\<exists>it \<in> set (take i (item # rest)). Value it = v"
    by (cases i) auto
  then have "length (ToDisplay_strip v i (item # rest)) < length (item # rest)"
    by (rule ToDisplay_strip_length_less)
  then show ?case by simp
qed auto

text \<open>\<open>sort.Sort\<close> with \<open>Less\<close> comparing values downwards is the parameter \<open>sortDesc\<close>.\<close>

definition Less :: "TimeLockItem \<Rightarrow> TimeLockItem \<Rightarrow> bool" where
  "Less a b \<longleftrightarrow> Value a > Value b"

definition ToDisplay :: "(TimeLockItem list \<Rightarrow> TimeLockItem list) \<Rightarrow> TimeLock \<Rightarrow> TimeLock" where
  "ToDisplay sortDesc z =
     (let t = TimeLock_Clone z
      in t\<lparr>Items := sortDesc (ToDisplay_loop (Items t))\<rparr>)"

section \<open>The abstract meaning of a list of items\<close>

definition item_amount :: "TimeLockItem \<Rightarrow> uint64 \<Rightarrow> int" where
  "item_amount it t = (if StartTime it \<le> t \<and> t \<le> EndTime it then Value it else 0)"

fun amount_at :: "TimeLockItem list \<Rightarrow> uint64 \<Rightarrow> int" where
  "amount_at [] t = 0"
| "amount_at (it # its) t = item_amount it t + amount_at its t"

definition item_ok :: "TimeLockItem \<Rightarrow> bool" where
  "item_ok it \<longleftrightarrow> StartTime it \<le> EndTime it \<and> 0 < Value it"

definition gap_ok :: "TimeLockItem \<Rightarrow> TimeLockItem \<Rightarrow> bool" where
  "gap_ok a b \<longleftrightarrow> EndTime a < StartTime b \<and> \<not> CanMerge a b"

definition items_ok :: "TimeLockItem list \<Rightarrow> bool" where
  "items_ok xs \<longleftrightarrow> (\<forall>it \<in> set xs. item_ok it) \<and> successively gap_ok xs"

lemma amount_at_append [simp]: "amount_at (xs @ ys) t = amount_at xs t + amount_at ys t"
  by (induction xs) auto

lemma Item_IsValid_iff: "Item_IsValid z = None \<longleftrightarrow> item_ok z"
  by (auto simp: Item_IsValid_def item_ok_def)

lemma items_ok_Nil [simp]: "items_ok []"
  by (simp add: items_ok_def)

lemma items_ok_Cons:
  "items_ok (x # xs) \<longleftrightarrow> item_ok x \<and> items_ok xs \<and> (xs = [] \<or> gap_ok x (hd xs))"
  by (auto simp: items_ok_def successively_Cons)

lemma items_ok_append:
  "items_ok (xs @ ys) \<longleftrightarrow>
     items_ok xs \<and> items_ok ys \<and> (xs = [] \<or> ys = [] \<or> gap_ok (last xs) (hd ys))"
  by (auto simp: items_ok_def successively_append_iff)

lemma IsValid_loop_iff:
  "IsValid_loop i prev xs = None \<longleftrightarrow>
     items_ok xs \<and> (case prev of None \<Rightarrow> True | Some p \<Rightarrow> xs = [] \<or> gap_ok p (hd xs))"
proof (induction i prev xs rule: IsValid_loop.induct)
  case (2 i prev nxt rest)
  show ?case
  proof (cases "Item_IsValid nxt")
    case None
    then show ?thesis
      using 2 Item_IsValid_iff [of nxt]
      by (cases prev) (auto simp: items_ok_Cons gap_ok_def not_le)
  next
    case (Some err)
    then have "\<not> item_ok nxt" using Item_IsValid_iff [of nxt] by simp
    with Some show ?thesis by (simp add: items_ok_Cons)
  qed
qed (auto split: option.splits)

lemma IsValid_iff: "IsValid z = None \<longleftrightarrow> items_ok (Items z)"
  by (simp add: IsValid_def IsValid_loop_iff)

end
