(* ===== verification/Time_Lock_Laws.thy ===== *)
theory Time_Lock_Laws
  imports Time_Lock
begin

text \<open>
  The laws of the operations of \<open>Time_Lock\<close>. Every operation keeps the validity of the list of
  items (\<open>items_ok\<close>, which is what \<open>IsValid\<close> tests) and acts on the amount available at each time
  stamp as its name says: \<open>Add\<close> adds amounts, \<open>Sub\<close> subtracts them, \<open>Cmp\<close> decides whether a
  requested amount is covered, \<open>ClearExpired\<close> drops the past, \<open>ToDisplay\<close> changes the
  representation only.
\<close>

section \<open>Appending with a merge\<close>

lemma copyMagnitude_pos [simp]: "0 < v \<Longrightarrow> copyMagnitude v = v"
  by (simp add: copyMagnitude_def)

lemma Item_Clone_ok [simp]: "item_ok it \<Longrightarrow> Item_Clone it = it"
  by (simp add: Item_Clone_def item_ok_def)

lemma items_ok_Clone: "items_ok xs \<Longrightarrow> map Item_Clone xs = xs"
  by (rule map_idI) (simp add: items_ok_def)

lemma NewTimeLock_ok: "items_ok xs \<Longrightarrow> NewTimeLock xs = \<lparr>Items = xs\<rparr>"
  by (simp add: NewTimeLock_def SetItems_def items_ok_Clone)

lemmas adjust_defs = Merge_def AdjustEnd_def AdjustStart_def AdjustStartEnd_def

lemma Merge_amount:
  assumes "CanMerge a b" "item_ok a" "item_ok b"
  shows "item_amount (Merge a b) t = item_amount a t + item_amount b t"
proof -
  from assms(1) have lt: "EndTime a < StartTime b" and eq: "EndTime a + 1 = StartTime b"
    and v: "Value a = Value b"
    by (auto simp: CanMerge_def)
  have "StartTime b \<le> t \<longleftrightarrow> EndTime a < t"
    using word_inc_le_iff [OF lt] eq by simp
  with v assms(2,3) show ?thesis
    by (auto simp: item_amount_def item_ok_def adjust_defs)
qed

lemma Merge_ok:
  assumes "CanMerge a b" "item_ok a" "item_ok b"
  shows "item_ok (Merge a b)"
  using assms by (auto simp: CanMerge_def item_ok_def adjust_defs)

lemma gap_ok_cong:
  "EndTime a = EndTime b \<Longrightarrow> Value a = Value b \<Longrightarrow> gap_ok a c \<longleftrightarrow> gap_ok b c"
  "StartTime c = StartTime d \<Longrightarrow> Value c = Value d \<Longrightarrow> gap_ok a c \<longleftrightarrow> gap_ok a d"
  by (auto simp: gap_ok_def CanMerge_def)

definition fits :: "TimeLockItem list \<Rightarrow> TimeLockItem list \<Rightarrow> bool" where
  "fits items xs \<longleftrightarrow> items = [] \<or> xs = [] \<or> EndTime (last items) < StartTime (hd xs)"

lemma fits_simps [simp]: "fits [] xs" "fits items []"
  by (simp_all add: fits_def)

lemma appendAndMergeItem_cases:
  "appendAndMergeItem items (Some it) =
     (if items = [] then [it]
      else if CanMerge (last items) it then butlast items @ [Merge (last items) it]
      else items @ [it])"
  by (cases items rule: rev_cases) (auto simp: appendAndMergeItem_def Let_def)

lemma appendAndMergeItem_nonempty [simp]: "appendAndMergeItem items (Some it) \<noteq> []"
  by (simp add: appendAndMergeItem_cases)

lemma appendAndMergeItem_last:
  assumes "items_ok items" "item_ok it"
  shows "EndTime (last (appendAndMergeItem items (Some it))) = EndTime it"
    and "Value (last (appendAndMergeItem items (Some it))) = Value it"
  using assms
  by (cases items rule: rev_cases;
      auto simp: appendAndMergeItem_cases items_ok_def item_ok_def adjust_defs CanMerge_def)+

lemma appendAndMergeItem_ok:
  assumes "items_ok items" "item_ok it" "fits items [it]"
  shows "items_ok (appendAndMergeItem items (Some it))"
    and "amount_at (appendAndMergeItem items (Some it)) t = amount_at items t + item_amount it t"
proof -
  consider (empty) "items = []" | (snoc) xs p where "items = xs @ [p]"
    by (cases items rule: rev_cases) auto
  then have "items_ok (appendAndMergeItem items (Some it)) \<and>
    amount_at (appendAndMergeItem items (Some it)) t = amount_at items t + item_amount it t"
  proof cases
    case empty
    with assms show ?thesis by (simp add: appendAndMergeItem_cases items_ok_Cons)
  next
    case snoc
    with assms have p: "item_ok p" "items_ok xs" and lt: "EndTime p < StartTime it"
      and gp: "xs = [] \<or> gap_ok (last xs) p"
      by (auto simp: items_ok_append items_ok_Cons fits_def)
    show ?thesis
    proof (cases "CanMerge p it")
      case True
      have "Value (Merge p it) = Value p" "StartTime (Merge p it) = StartTime p"
        using p by (simp_all add: adjust_defs item_ok_def)
      then have "xs = [] \<or> gap_ok (last xs) (Merge p it)"
        using gp gap_ok_cong(2) [of "Merge p it" p] by simp
      with True snoc p assms(2) show ?thesis
        by (simp add: appendAndMergeItem_cases items_ok_append items_ok_Cons Merge_ok Merge_amount)
    next
      case False
      with lt have "gap_ok p it" by (simp add: gap_ok_def)
      with False snoc assms show ?thesis
        by (simp add: appendAndMergeItem_cases items_ok_append items_ok_Cons)
    qed
  qed
  then show "items_ok (appendAndMergeItem items (Some it))"
    and "amount_at (appendAndMergeItem items (Some it)) t = amount_at items t + item_amount it t"
    by simp_all
qed

lemma appendAndMergeItems_Nil [simp]: "appendAndMergeItems items [] = items"
  by (simp add: appendAndMergeItems_def)

lemma appendAndMergeItems_last:
  assumes "items_ok items" "items_ok adds" "adds \<noteq> []"
  shows "EndTime (last (appendAndMergeItems items adds)) = EndTime (last adds)"
    and "appendAndMergeItems items adds \<noteq> []"
  using assms
  by (cases adds; auto simp: appendAndMergeItems_def items_ok_Cons appendAndMergeItem_last)+

lemma appendAndMergeItems_ok:
  assumes "items_ok items" "items_ok adds" "fits items adds"
  shows "items_ok (appendAndMergeItems items adds)"
    and "amount_at (appendAndMergeItems items adds) t = amount_at items t + amount_at adds t"
proof -
  have "items_ok (appendAndMergeItems items adds) \<and>
    amount_at (appendAndMergeItems items adds) t = amount_at items t + amount_at adds t"
  proof (cases adds)
    case Nil
    with assms show ?thesis by simp
  next
    case (Cons a rest)
    with assms have a: "item_ok a" "items_ok rest" "fits items [a]" "rest = [] \<or> gap_ok a (hd rest)"
      by (auto simp: items_ok_Cons fits_def)
    let ?m = "appendAndMergeItem items (Some a)"
    have "rest = [] \<or> gap_ok (last ?m) (hd rest)"
      using a(4) gap_ok_cong(1) appendAndMergeItem_last [OF assms(1) a(1)] by blast
    with Cons a assms(1) show ?thesis
      by (simp add: appendAndMergeItems_def items_ok_append appendAndMergeItem_ok)
  qed
  then show "items_ok (appendAndMergeItems items adds)"
    and "amount_at (appendAndMergeItems items adds) t = amount_at items t + amount_at adds t"
    by simp_all
qed

section \<open>Addition\<close>

text \<open>
  On two overlapping valid items, \<open>Item_Add\<close> returns a valid list that starts where the earlier
  one starts and has the sum of the amounts; its last element is the part of the item that the
  flag names which lies behind the other item.
\<close>

definition tail_of :: "TimeLockItem \<Rightarrow> TimeLockItem \<Rightarrow> TimeLockItem list \<Rightarrow> bool" where
  "tail_of x y res \<longleftrightarrow>
     butlast res \<noteq> [] \<and> EndTime (last res) = EndTime x \<and> Value (last res) = Value x \<and>
     EndTime y < StartTime (last res) \<and> EndTime (last (butlast res)) = EndTime y"

lemma Item_Add_overlap:
  assumes "item_ok x" "item_ok y" "\<not> EndTime x < StartTime y" "\<not> EndTime y < StartTime x"
    and "Item_Add x y = (res, flag)"
  shows "res \<noteq> []" and "items_ok res" and "StartTime (hd res) = min (StartTime x) (StartTime y)"
    and "amount_at res t = item_amount x t + item_amount y t"
    and "case flag of TailInFirst \<Rightarrow> tail_of x y res | TailInSecond \<Rightarrow> tail_of y x res
         | TailInBoth \<Rightarrow> EndTime (last res) = EndTime x \<and> EndTime x = EndTime y"
proof -
  have pos: "0 < Value x" "0 < Value y" and le: "StartTime x \<le> EndTime x" "StartTime y \<le> EndTime y"
    using assms(1,2) by (auto simp: item_ok_def)
  note facts = assms(3,4,5) pos le
  note defs = Item_Add_def intersectionAdd_def adjust_defs Let_def
  have dec: "a < b \<Longrightarrow> \<not> b \<le> b - 1" "a < b \<Longrightarrow> b - 1 < b" "a < b \<Longrightarrow> a \<le> b - 1" for a b :: uint64
    by (auto simp: word_less_dec_iff not_le [symmetric])
  have inc: "a < b \<Longrightarrow> a < a + 1" "a < b \<Longrightarrow> a + 1 \<le> b" for a b :: uint64
    by (auto simp: word_inc_le_iff [of a b] not_le [symmetric])
  show "res \<noteq> []"
    using facts by (auto simp: defs split: if_splits)
  show "items_ok res"
    using facts
    by (auto simp: defs items_ok_Cons item_ok_def gap_ok_def CanMerge_def dec inc split: if_splits)
  show "StartTime (hd res) = min (StartTime x) (StartTime y)"
    using facts by (auto simp: defs min_def split: if_splits)
  show "amount_at res t = item_amount x t + item_amount y t"
    using facts
    by (auto simp: defs item_amount_def word_less_dec_iff word_inc_le_iff split: if_splits)
  show "case flag of TailInFirst \<Rightarrow> tail_of x y res | TailInSecond \<Rightarrow> tail_of y x res
         | TailInBoth \<Rightarrow> EndTime (last res) = EndTime x \<and> EndTime x = EndTime y"
    using facts by (auto simp: defs tail_of_def inc split: if_splits)
qed

text \<open>
  The state of the loop of \<open>Add\<close>, with the pending tail put back in front of the list it belongs
  to: the result so far fits before what is left of both lists.
\<close>

definition sweep_ok :: "TimeLockItem list \<Rightarrow> TimeLockItem list \<Rightarrow> TimeLockItem list \<Rightarrow> bool" where
  "sweep_ok items xs ys \<longleftrightarrow>
     items_ok items \<and> items_ok xs \<and> items_ok ys \<and> fits items xs \<and> fits items ys"

lemma sweep_ok_sym: "sweep_ok items xs ys \<longleftrightarrow> sweep_ok items ys xs"
  by (auto simp: sweep_ok_def)

lemma gap_ok_hd_fits:
  "items_ok (x # xs) \<Longrightarrow> items \<noteq> [] \<Longrightarrow> EndTime (last items) = EndTime x \<Longrightarrow> fits items xs"
  by (auto simp: items_ok_Cons fits_def gap_ok_def)

lemma sweep_step:
  assumes "sweep_ok items (x # xs) (y # ys)" "EndTime x < StartTime y"
  shows "sweep_ok (appendAndMergeItem items (Some x)) xs (y # ys)"
    and "amount_at (appendAndMergeItem items (Some x)) t = amount_at items t + item_amount x t"
proof -
  from assms have ok: "items_ok items" "items_ok (x # xs)" "item_ok x" "fits items [x]"
    by (auto simp: sweep_ok_def items_ok_Cons fits_def)
  have l: "EndTime (last (appendAndMergeItem items (Some x))) = EndTime x"
    using ok by (simp add: appendAndMergeItem_last)
  show "sweep_ok (appendAndMergeItem items (Some x)) xs (y # ys)"
    using assms ok gap_ok_hd_fits [OF ok(2) _ l] l
    by (auto simp: sweep_ok_def appendAndMergeItem_ok items_ok_Cons fits_def)
  show "amount_at (appendAndMergeItem items (Some x)) t = amount_at items t + item_amount x t"
    using ok by (simp add: appendAndMergeItem_ok)
qed

lemma items_ok_butlast: "items_ok xs \<Longrightarrow> items_ok (butlast xs)"
  by (cases xs rule: rev_cases) (auto simp: items_ok_append)

lemma items_ok_last: "items_ok xs \<Longrightarrow> xs \<noteq> [] \<Longrightarrow> item_ok (last xs)"
  by (simp add: items_ok_def)

lemma amount_at_butlast:
  "xs \<noteq> [] \<Longrightarrow> amount_at (butlast xs) t + item_amount (last xs) t = amount_at xs t"
  by (cases xs rule: rev_cases) auto

lemma hd_butlast: "butlast xs \<noteq> [] \<Longrightarrow> hd (butlast xs) = hd xs"
  by (cases xs) auto

lemma hd_eq_last: "xs \<noteq> [] \<Longrightarrow> butlast xs = [] \<Longrightarrow> hd xs = last xs"
  by (cases xs) (auto split: if_splits)

text \<open>What is appended for a pair of overlapping items, and that its last element still fits.\<close>

lemma overlap_prefix:
  assumes "items_ok items" "items_ok res" "res \<noteq> []" "fits items res"
  defines "items' \<equiv> appendAndMergeItems items (butlast res)"
  shows "items_ok items'"
    and "amount_at items' t + item_amount (last res) t = amount_at items t + amount_at res t"
    and "fits items' [last res]"
proof -
  have bl: "items_ok (butlast res)" using assms(2) by (rule items_ok_butlast)
  have fb: "fits items (butlast res)"
    using assms(4) hd_butlast [of res] by (cases "butlast res = []") (auto simp: fits_def)
  show "items_ok items'"
    unfolding items'_def using assms(1) bl fb by (rule appendAndMergeItems_ok)
  show "amount_at items' t + item_amount (last res) t = amount_at items t + amount_at res t"
    using appendAndMergeItems_ok(2) [OF assms(1) bl fb, of t] amount_at_butlast [OF assms(3), of t]
    by (simp add: items'_def)
  show "fits items' [last res]"
  proof (cases "butlast res = []")
    case True
    then show ?thesis
      using assms(3,4) hd_eq_last [of res] by (simp add: items'_def fits_def)
  next
    case False
    have "gap_ok (last (butlast res)) (last res)"
      using False assms(2,3) by (cases res rule: rev_cases) (auto simp: items_ok_append)
    then show ?thesis
      using appendAndMergeItems_last [OF assms(1) bl False] by (simp add: fits_def items'_def gap_ok_def)
  qed
qed

lemma overlap_tail:
  assumes "items_ok items" "items_ok res" "res \<noteq> []" "fits items res" "tail_of u v res"
    and "items_ok (u # us)" "items_ok (v # vs)"
  shows "sweep_ok (appendAndMergeItems items (butlast res)) (last res # us) vs"
proof -
  let ?items' = "appendAndMergeItems items (butlast res)"
  note pre = overlap_prefix [OF assms(1-4)]
  from assms(5) have ne: "butlast res \<noteq> []" and e: "EndTime (last (butlast res)) = EndTime v"
    and u: "EndTime (last res) = EndTime u" "Value (last res) = Value u"
    by (auto simp: tail_of_def)
  have le: "EndTime (last ?items') = EndTime v" "?items' \<noteq> []"
    using appendAndMergeItems_last [OF assms(1) items_ok_butlast [OF assms(2)] ne] e by auto
  have "items_ok (last res # us)"
    using assms(6) items_ok_last [OF assms(2,3)] gap_ok_cong(1) [OF u] by (auto simp: items_ok_Cons)
  moreover have "fits ?items' vs"
    using assms(7) le(2,1) by (rule gap_ok_hd_fits)
  ultimately show ?thesis
    using pre assms(7) by (auto simp: sweep_ok_def items_ok_Cons fits_def)
qed

lemma sweep_overlap:
  assumes "sweep_ok items (x # xs) (y # ys)"
    and "\<not> EndTime x < StartTime y" "\<not> EndTime y < StartTime x"
    and "Item_Add x y = (res, flag)"
  defines "items' \<equiv> appendAndMergeItems items (butlast res)"
  shows "res \<noteq> []"
    and "amount_at items' t + item_amount (last res) t
           = amount_at items t + item_amount x t + item_amount y t"
    and "flag = TailInFirst \<Longrightarrow> sweep_ok items' (last res # xs) ys"
    and "flag = TailInSecond \<Longrightarrow> sweep_ok items' xs (last res # ys)"
    and "flag = TailInBoth \<Longrightarrow> sweep_ok (appendAndMergeItem items' (Some (last res))) xs ys"
    and "flag = TailInBoth \<Longrightarrow> amount_at (appendAndMergeItem items' (Some (last res))) t
           = amount_at items' t + item_amount (last res) t"
proof -
  from assms(1) have ok: "items_ok items" "item_ok x" "item_ok y" "items_ok (x # xs)" "items_ok (y # ys)"
    and fit: "fits items [x]" "fits items [y]"
    by (auto simp: sweep_ok_def items_ok_Cons fits_def)
  note add = Item_Add_overlap [OF ok(2,3) assms(2-4)]
  have fr: "fits items res"
    using fit add(3) by (auto simp: fits_def min_def split: if_splits)
  note pre = overlap_prefix [OF ok(1) add(2,1) fr, folded items'_def]
  note tail = overlap_tail [OF ok(1) add(2,1) fr, folded items'_def]
  show "res \<noteq> []" by (rule add(1))
  show "amount_at items' t + item_amount (last res) t
           = amount_at items t + item_amount x t + item_amount y t"
    using pre(2) [of t] add(4) [of t] by simp
  show "flag = TailInFirst \<Longrightarrow> sweep_ok items' (last res # xs) ys"
    using tail [of x y xs ys] add(5) ok by simp
  show "flag = TailInSecond \<Longrightarrow> sweep_ok items' xs (last res # ys)"
    using tail [of y x ys xs] add(5) ok by (simp add: sweep_ok_sym)
  assume "flag = TailInBoth"
  with add(5) have e: "EndTime (last res) = EndTime x" "EndTime (last res) = EndTime y" by auto
  let ?m = "appendAndMergeItem items' (Some (last res))"
  have lr: "item_ok (last res)" using add(2,1) by (rule items_ok_last)
  have l: "EndTime (last ?m) = EndTime (last res)"
    using pre(1) lr by (rule appendAndMergeItem_last)
  show "sweep_ok ?m xs ys"
    using pre lr ok e l gap_ok_hd_fits [OF ok(4), of ?m] gap_ok_hd_fits [OF ok(5), of ?m]
    by (auto simp: sweep_ok_def appendAndMergeItem_ok items_ok_Cons)
  show "amount_at ?m t = amount_at items' t + item_amount (last res) t"
    using pre(1) lr pre(3) by (rule appendAndMergeItem_ok)
qed

text \<open>
  The loop: the pending tail replaces the head of the list it belongs to.
\<close>

definition pending :: "TailFlag \<Rightarrow> TailFlag \<Rightarrow> TimeLockItem option \<Rightarrow> TimeLockItem list \<Rightarrow> TimeLockItem list" where
  "pending side tailFlag lst xs =
     (case lst of Some l \<Rightarrow> if tailFlag = side then l # drop 1 xs else xs | None \<Rightarrow> xs)"

definition Add_state_ok :: "TimeLockItem list \<Rightarrow> TimeLockItem list \<Rightarrow> TimeLockItem option \<Rightarrow> TailFlag
    \<Rightarrow> TimeLockItem list \<Rightarrow> bool" where
  "Add_state_ok xs ys lst tailFlag items \<longleftrightarrow>
     (lst \<noteq> None \<longrightarrow> tailFlag = TailInFirst \<and> xs \<noteq> [] \<or> tailFlag = TailInSecond \<and> ys \<noteq> []) \<and>
     sweep_ok items (pending TailInFirst tailFlag lst xs) (pending TailInSecond tailFlag lst ys)"

definition Add_amount :: "TimeLockItem list \<Rightarrow> TimeLockItem list \<Rightarrow> TimeLockItem option \<Rightarrow> TailFlag
    \<Rightarrow> TimeLockItem list \<Rightarrow> uint64 \<Rightarrow> int" where
  "Add_amount xs ys lst tailFlag items t =
     amount_at items t + amount_at (pending TailInFirst tailFlag lst xs) t
       + amount_at (pending TailInSecond tailFlag lst ys) t"

lemma Add_finish_ok:
  assumes "Add_state_ok xs ys lst tailFlag items" "xs = [] \<or> ys = []"
  shows "items_ok (Add_finish (xs, ys, lst, tailFlag, items))"
    and "amount_at (Add_finish (xs, ys, lst, tailFlag, items)) t = Add_amount xs ys lst tailFlag items t"
proof -
  have one: "items_ok (appendAndMergeItems (appendAndMergeItem items (Some l)) us) \<and>
      amount_at (appendAndMergeItems (appendAndMergeItem items (Some l)) us) t
        = amount_at items t + item_amount l t + amount_at us t"
    if "items_ok items" "items_ok (l # us)" "fits items (l # us)" for l us
  proof -
    have l: "item_ok l" "fits items [l]" "items_ok us"
      using that by (auto simp: items_ok_Cons fits_def)
    have "fits (appendAndMergeItem items (Some l)) us"
      using that(2) by (rule gap_ok_hd_fits) (simp_all add: appendAndMergeItem_last that(1) l(1))
    then show ?thesis
      using that(1) l by (simp add: appendAndMergeItems_ok appendAndMergeItem_ok)
  qed
  have "items_ok (Add_finish (xs, ys, lst, tailFlag, items)) \<and>
    amount_at (Add_finish (xs, ys, lst, tailFlag, items)) t = Add_amount xs ys lst tailFlag items t"
  proof (cases lst)
    case None
    with assms show ?thesis
      by (auto simp: Add_state_ok_def Add_finish_def Add_amount_def pending_def sweep_ok_def
          Let_def appendAndMergeItems_ok)
  next
    case (Some l)
    with assms one [of l "drop 1 xs"] one [of l "drop 1 ys"] show ?thesis
      by (cases "drop 1 xs = []"; cases "drop 1 ys = []")
        (auto simp: Add_state_ok_def Add_finish_def Add_amount_def pending_def sweep_ok_def Let_def)
  qed
  then show "items_ok (Add_finish (xs, ys, lst, tailFlag, items))"
    and "amount_at (Add_finish (xs, ys, lst, tailFlag, items)) t = Add_amount xs ys lst tailFlag items t"
    by simp_all
qed

lemma pending_simps [simp]:
  "pending side tailFlag None xs = xs"
  "pending side side (Some l) xs = l # drop 1 xs"
  "pending TailInFirst TailInSecond (Some l) xs = xs"
  "pending TailInSecond TailInFirst (Some l) xs = xs"
  by (simp_all add: pending_def)

lemma Add_loop_ok:
  "Add_state_ok xs ys lst tailFlag items \<Longrightarrow>
     \<exists>r. Add_loop xs ys lst tailFlag items = Some r \<and> items_ok (Add_finish r) \<and>
         (\<forall>t. amount_at (Add_finish r) t = Add_amount xs ys lst tailFlag items t)"
proof (induction xs ys lst tailFlag items rule: Add_loop.induct)
  case (1 x xs y ys lst tailFlag items)
  let ?xV = "case lst of Some l \<Rightarrow> if tailFlag = TailInFirst then l else x | None \<Rightarrow> x"
  let ?yV = "case lst of Some l \<Rightarrow> if tailFlag = TailInSecond then l else y | None \<Rightarrow> y"
  have pend: "pending TailInFirst tailFlag lst (x # xs) = ?xV # xs"
    "pending TailInSecond tailFlag lst (y # ys) = ?yV # ys"
    "pending TailInFirst tailFlag (if tailFlag = TailInFirst then None else lst) xs = xs"
    "pending TailInSecond tailFlag (if tailFlag = TailInFirst then None else lst) (y # ys) = ?yV # ys"
    "pending TailInFirst tailFlag (if tailFlag = TailInSecond then None else lst) (x # xs) = ?xV # xs"
    "pending TailInSecond tailFlag (if tailFlag = TailInSecond then None else lst) ys = ys"
    by (auto simp: pending_def split: option.splits)
  have sw: "sweep_ok items (?xV # xs) (?yV # ys)"
    and fl: "lst \<noteq> None \<Longrightarrow> tailFlag = TailInFirst \<or> tailFlag = TailInSecond"
    using "1.prems" pend(1,2) by (auto simp: Add_state_ok_def)
  consider (left) "EndTime ?xV < StartTime ?yV"
    | (right) "\<not> EndTime ?xV < StartTime ?yV" "EndTime ?yV < StartTime ?xV"
    | (overlap) "\<not> EndTime ?xV < StartTime ?yV" "\<not> EndTime ?yV < StartTime ?xV"
    by blast
  then show ?case
  proof cases
    case left
    note st = sweep_step [OF sw left]
    show ?thesis
      using "1.IH"(1) [OF refl refl left] left st pend fl
      by (auto simp: Let_def Add_state_ok_def Add_amount_def)
  next
    case right
    note st = sweep_step [OF sw [unfolded sweep_ok_sym [of _ "?xV # xs"]] right(2)]
    show ?thesis
      using "1.IH"(2) [OF refl refl right] right st pend fl
      by (auto simp: Let_def Add_state_ok_def Add_amount_def sweep_ok_sym)
  next
    case overlap
    obtain res flag where a: "Item_Add ?xV ?yV = (res, flag)" by fastforce
    note ov = sweep_overlap [OF sw overlap a]
    let ?items' = "appendAndMergeItems items (butlast res)"
    have i': "(if length res > 1 then ?items' else items) = ?items'"
      by (cases res) auto
    note IH = "1.IH"(3-5) [OF refl refl overlap a [symmetric] ov(1) refl refl, unfolded i']
    have eq: "Add_loop (x # xs) (y # ys) lst tailFlag items =
        (case flag of TailInFirst \<Rightarrow> Add_loop (x # xs) ys (Some (last res)) flag ?items'
         | TailInSecond \<Rightarrow> Add_loop xs (y # ys) (Some (last res)) flag ?items'
         | TailInBoth \<Rightarrow> Add_loop xs ys None flag (appendAndMergeItem ?items' (Some (last res))))"
      using overlap a ov(1) i' by (simp add: Let_def)
    show ?thesis
      unfolding eq using IH ov(2-6)
      by (cases flag) (simp_all add: Add_state_ok_def Add_amount_def pend add_ac del: Add_loop.simps)
  qed
qed (use Add_finish_ok in fastforce)+

lemma CheckValid_ok: "items_ok (Items z) \<Longrightarrow> CheckValid debugMode z = Some z"
  by (simp add: CheckValid_def IsValid_iff)

lemma Add_ok:
  assumes "items_ok (Items x)" "items_ok (Items y)" "\<not> (IsEmpty x \<and> IsEmpty y)"
  shows "\<exists>z. Add debugMode (Some x) (Some y) = Some (Some z) \<and> items_ok (Items z) \<and>
           (\<forall>t. amount_at (Items z) t = amount_at (Items x) t + amount_at (Items y) t)"
proof -
  have "Add_state_ok (Items x) (Items y) None TailInBoth []"
    using assms(1,2) by (simp add: Add_state_ok_def sweep_ok_def)
  then obtain r where r: "Add_loop (Items x) (Items y) None TailInBoth [] = Some r"
    "items_ok (Add_finish r)"
    "\<forall>t. amount_at (Add_finish r) t = Add_amount (Items x) (Items y) None TailInBoth [] t"
    using Add_loop_ok by blast
  then show ?thesis
    using assms(3) by (auto simp: Add_def NewTimeLock_ok CheckValid_ok Add_amount_def)
qed

section \<open>Comparison\<close>

text \<open>
  \<open>covers xs item\<close>: at every time stamp of the interval of \<open>item\<close>, the items \<open>xs\<close> hold at least
  the value of \<open>item\<close>.
\<close>

definition covers :: "TimeLockItem list \<Rightarrow> TimeLockItem \<Rightarrow> bool" where
  "covers xs item \<longleftrightarrow>
     (\<forall>t. StartTime item \<le> t \<and> t \<le> EndTime item \<longrightarrow> Value item \<le> amount_at xs t)"

lemma amount_before:
  "items_ok xs \<Longrightarrow> xs = [] \<or> t < StartTime (hd xs) \<Longrightarrow> amount_at xs t = 0"
proof (induction xs)
  case (Cons x xs)
  then have "item_ok x" "t < StartTime x" "items_ok xs" "xs = [] \<or> EndTime x < StartTime (hd xs)"
    by (auto simp: items_ok_Cons gap_ok_def)
  moreover from this have "xs = [] \<or> t < StartTime (hd xs)"
    by (auto simp: item_ok_def)
  ultimately show ?case
    using Cons.IH by (auto simp: item_amount_def)
qed simp

lemma amount_Cons:
  assumes "items_ok (x # xs)"
  shows "t \<le> EndTime x \<Longrightarrow> amount_at (x # xs) t = item_amount x t"
    and "EndTime x < t \<Longrightarrow> amount_at (x # xs) t = amount_at xs t"
proof -
  from assms have ok: "items_ok xs" "xs = [] \<or> EndTime x < StartTime (hd xs)"
    by (auto simp: items_ok_Cons gap_ok_def)
  show "t \<le> EndTime x \<Longrightarrow> amount_at (x # xs) t = item_amount x t"
    using amount_before [OF ok(1), of t] ok(2) order_le_less_trans [of t "EndTime x"] by auto
  show "EndTime x < t \<Longrightarrow> amount_at (x # xs) t = amount_at xs t"
    by (auto simp: item_amount_def)
qed

lemma amount_nonneg: "items_ok xs \<Longrightarrow> 0 \<le> amount_at xs t"
  by (induction xs) (auto simp: items_ok_Cons item_amount_def item_ok_def)

lemma items_ok_span: "items_ok xs \<Longrightarrow> xs \<noteq> [] \<Longrightarrow> StartTime (hd xs) \<le> EndTime (last xs)"
proof (induction xs)
  case (Cons x xs)
  then show ?case
    by (cases xs) (auto simp: items_ok_Cons item_ok_def gap_ok_def)
qed simp

lemma amount_after:
  "items_ok xs \<Longrightarrow> xs = [] \<or> EndTime (last xs) < t \<Longrightarrow> amount_at xs t = 0"
proof (induction xs)
  case (Cons x xs)
  show ?case
  proof (cases "xs = []")
    case True
    with Cons.prems show ?thesis by (auto simp: item_amount_def)
  next
    case False
    with Cons have "amount_at xs t = 0" and "EndTime x < StartTime (hd xs)" and "items_ok xs"
      by (auto simp: items_ok_Cons gap_ok_def)
    moreover from this False Cons.prems have "EndTime x < t"
      using items_ok_span [of xs] by auto
    ultimately show ?thesis by (auto simp: item_amount_def)
  qed
qed simp

definition accepts :: "TimeLockItem \<Rightarrow> int + int \<times> bool \<Rightarrow> bool" where
  "accepts item r = (case r of Inl _ \<Rightarrow> False | Inr (m, _) \<Rightarrow> Value item \<le> m)"

lemma Cmp_loop_Inl: "Cmp_loop item ts m temp g = Inl r \<Longrightarrow> r = -1"
  by (induction item ts m temp g rule: Cmp_loop.induct) (auto simp: Let_def split: if_splits)

text \<open>Requirements on an interval split at the end of the first item.\<close>

lemma range_split:
  assumes "items_ok (x # xs)" "\<forall>u. EndTime x < u \<longrightarrow> P u"
  shows "(\<forall>u. P u \<and> u \<le> e \<longrightarrow> v \<le> amount_at (x # xs) u) \<longleftrightarrow>
    (\<forall>u. P u \<and> u \<le> e \<and> u \<le> EndTime x \<longrightarrow> v \<le> item_amount x u) \<and>
    (\<forall>u. EndTime x < u \<and> u \<le> e \<longrightarrow> v \<le> amount_at xs u)"
proof -
  have "v \<le> amount_at (x # xs) u \<longleftrightarrow>
      (u \<le> EndTime x \<longrightarrow> v \<le> item_amount x u) \<and> (EndTime x < u \<longrightarrow> v \<le> amount_at xs u)" for u
    using amount_Cons [OF assms(1), of u] by (cases "u \<le> EndTime x") (auto simp: not_le)
  then show ?thesis using assms(2) by blast
qed

text \<open>A non-empty part of the interval of an item requires its value.\<close>

lemma range_here:
  assumes "P u0" "u0 \<le> e" "StartTime x \<le> u0" "u0 \<le> EndTime x" "\<And>u. P u \<Longrightarrow> StartTime x \<le> u"
  shows "(\<forall>u. P u \<and> u \<le> e \<and> u \<le> EndTime x \<longrightarrow> v \<le> item_amount x u) \<longleftrightarrow> v \<le> Value x"
  using assms by (auto simp: item_amount_def)

text \<open>The loop after the first item in range: everything up to \<open>temp\<close> is known to hold \<open>m\<close>.\<close>

lemma Cmp_loop_rest:
  assumes "item_ok item"
  shows "items_ok ts \<Longrightarrow> ts \<noteq> [] \<Longrightarrow> temp < StartTime (hd ts) \<Longrightarrow> temp \<noteq> 0 \<Longrightarrow>
    StartTime item \<le> temp \<Longrightarrow> temp < EndTime item \<Longrightarrow> EndTime item \<le> EndTime (last ts) \<Longrightarrow>
    accepts item (Cmp_loop item ts m temp g) \<longleftrightarrow>
      Value item \<le> m \<and> (\<forall>t. temp < t \<and> t \<le> EndTime item \<longrightarrow> Value item \<le> amount_at ts t)"
proof (induction ts arbitrary: m temp g)
  case (Cons t ts)
  have ok: "items_ok ts" and le: "StartTime t \<le> EndTime t" and lt: "temp < StartTime t"
    and gap: "ts = [] \<or> EndTime t < StartTime (hd ts)"
    using Cons.prems(1,3) by (auto simp: items_ok_Cons gap_ok_def item_ok_def)
  have t0: "StartTime item \<le> EndTime t"
    using Cons.prems(5) lt le by auto
  show ?case
  proof (cases "temp + 1 < StartTime t")
    case True
    have "temp + 1 \<le> EndTime item" "temp < temp + 1"
      using Cons.prems(6) lt by (auto simp: word_inc_le_iff not_le [symmetric])
    moreover have "amount_at (t # ts) (temp + 1) = 0"
      using Cons.prems(1) True by (intro amount_before) auto
    ultimately show ?thesis
      using True t0 lt Cons.prems(4) assms
      by (auto simp: accepts_def item_ok_def intro!: exI [of _ "temp + 1"])
  next
    case False
    then have st: "temp < u \<Longrightarrow> StartTime t \<le> u" for u
      by (meson inc_le leI order_trans)
    have "\<forall>u. EndTime t < u \<longrightarrow> temp < u" using lt le by auto
    note split = range_split [where P = "\<lambda>u. temp < u", OF Cons.prems(1) this]
    have here: "(\<forall>u. temp < u \<and> u \<le> EndTime item \<and> u \<le> EndTime t \<longrightarrow> Value item \<le> item_amount t u)
        \<longleftrightarrow> Value item \<le> Value t"
      using lt st [OF Cons.prems(6)] le st by (intro range_here [of _ "StartTime t"]) auto
    show ?thesis
    proof (cases "EndTime item \<le> EndTime t")
      case True
      then have "\<not> (EndTime t < u \<and> u \<le> EndTime item)" for u by auto
      with True False t0 Cons.prems(4) lt show ?thesis
        unfolding split here by (auto simp: accepts_def Let_def)
    next
      case before: False
      then have ne: "ts \<noteq> []" using Cons.prems(7) by auto
      have "EndTime t \<noteq> 0" using lt le by auto
      then have IH: "accepts item (Cmp_loop item ts m' (EndTime t) g') \<longleftrightarrow>
          Value item \<le> m' \<and>
          (\<forall>u. EndTime t < u \<and> u \<le> EndTime item \<longrightarrow> Value item \<le> amount_at ts u)" for m' g'
        using Cons.IH [OF ok ne, of "EndTime t" m' g'] gap ne before t0 Cons.prems(7) by auto
      show ?thesis
        unfolding split here using before False t0 Cons.prems(4) lt IH
        by (auto simp: Let_def accepts_def)
    qed
  qed
qed simp

text \<open>
  The whole loop. An item that ends at time stamp 0 makes \<open>tempTime\<close> 0 again, which the loop
  reads as "no item yet"; \<open>lateStart\<close> excludes it.
\<close>

definition lateStart :: "TimeLockItem list \<Rightarrow> TimeLockItem \<Rightarrow> bool" where
  "lateStart xs item \<longleftrightarrow> StartTime item \<noteq> 0 \<or> (\<forall>it \<in> set xs. EndTime it \<noteq> 0)"

lemma Cmp_loop_first:
  assumes "item_ok item"
  shows "items_ok ts \<Longrightarrow> ts \<noteq> [] \<Longrightarrow> EndTime item \<le> EndTime (last ts) \<Longrightarrow> lateStart ts item \<Longrightarrow>
    accepts item (Cmp_loop item ts m 0 g) \<longleftrightarrow> covers ts item"
proof (induction ts)
  case (Cons t ts)
  have ok: "items_ok ts" and le: "StartTime t \<le> EndTime t" and pos: "0 < Value item"
    and ile: "StartTime item \<le> EndTime item"
    and gap: "ts = [] \<or> EndTime t < StartTime (hd ts)"
    using Cons.prems(1) assms by (auto simp: items_ok_Cons gap_ok_def item_ok_def)
  consider (skip) "EndTime t < StartTime item"
    | (gap) "StartTime item \<le> EndTime t" "StartTime item < StartTime t"
    | (start) "StartTime item \<le> EndTime t" "StartTime t \<le> StartTime item"
    by force
  then show ?case
  proof cases
    case skip
    then have "ts \<noteq> []" using Cons.prems(3) ile by auto
    then have "accepts item (Cmp_loop item ts m 0 g) \<longleftrightarrow> covers ts item"
      using Cons.IH ok Cons.prems(3,4) by (simp add: lateStart_def)
    moreover have "covers (t # ts) item \<longleftrightarrow> covers ts item"
      using amount_Cons(2) [OF Cons.prems(1)] skip unfolding covers_def
      by (metis order_less_le_trans)
    ultimately show ?thesis using skip by simp
  next
    case gap
    then have "amount_at (t # ts) (StartTime item) = 0"
      using Cons.prems(1) by (intro amount_before) auto
    with gap pos ile show ?thesis
      by (auto simp: accepts_def covers_def)
  next
    case start
    have "\<forall>u. EndTime t < u \<longrightarrow> StartTime item \<le> u" using start by auto
    note split = range_split [where P = "\<lambda>u. StartTime item \<le> u", OF Cons.prems(1) this]
    have here: "(\<forall>u. StartTime item \<le> u \<and> u \<le> EndTime item \<and> u \<le> EndTime t
        \<longrightarrow> Value item \<le> item_amount t u) \<longleftrightarrow> Value item \<le> Value t"
      using start ile by (intro range_here [of _ "StartTime item"]) auto
    show ?thesis
    proof (cases "EndTime item \<le> EndTime t")
      case True
      then have "\<not> (EndTime t < u \<and> u \<le> EndTime item)" for u by auto
      with True start show ?thesis
        unfolding covers_def split here by (auto simp: accepts_def Let_def)
    next
      case before: False
      then have ne: "ts \<noteq> []" using Cons.prems(3) by auto
      have "EndTime t \<noteq> 0" using Cons.prems(4) start by (auto simp: lateStart_def)
      then have "accepts item (Cmp_loop item ts (Value t) (EndTime t) g) \<longleftrightarrow>
          Value item \<le> Value t \<and>
          (\<forall>u. EndTime t < u \<and> u \<le> EndTime item \<longrightarrow> Value item \<le> amount_at ts u)"
        using Cmp_loop_rest [OF assms ok ne, of "EndTime t"] \<open>ts = [] \<or> _\<close> ne before start Cons.prems(3)
        by auto
      then show ?thesis
        unfolding covers_def split here using before start by (auto simp: Let_def)
    qed
  qed
qed simp

lemma Cmp_ok:
  assumes "items_ok (Items z)" "Items x = [item]" "item_ok item" "lateStart (Items z) item"
  shows "\<exists>c. Cmp z (Some x) = Some c \<and> (0 \<le> c \<longleftrightarrow> covers (Items z) item)"
proof (cases "Items z = []")
  case True
  then have "\<not> covers (Items z) item"
    using assms(3) by (auto simp: covers_def item_ok_def)
  with True assms(2) show ?thesis by (simp add: Cmp_def IsEmpty_def)
next
  case False
  have val: "IsValid x = None"
    using assms(2,3) by (simp add: IsValid_iff items_ok_Cons)
  have hl: "Items z ! 0 = hd (Items z)" "Items z ! (length (Items z) - 1) = last (Items z)"
    using False by (simp_all add: hd_conv_nth last_conv_nth)
  have ile: "StartTime item \<le> EndTime item" and pos: "0 < Value item"
    using assms(3) by (auto simp: item_ok_def)
  consider (head) "StartTime (hd (Items z)) > StartTime item"
    | (tail) "EndTime (last (Items z)) < EndTime item"
    | (loop) "\<not> StartTime (hd (Items z)) > StartTime item" "EndTime item \<le> EndTime (last (Items z))"
    by force
  then show ?thesis
  proof cases
    case head
    then have "amount_at (Items z) (StartTime item) = 0"
      using assms(1) by (intro amount_before) auto
    then have "\<not> covers (Items z) item" using ile pos by (auto simp: covers_def)
    with head False val assms(2) show ?thesis by (simp add: Cmp_def IsEmpty_def hl)
  next
    case tail
    then have "amount_at (Items z) (EndTime item) = 0"
      using assms(1) by (intro amount_after) auto
    then have "\<not> covers (Items z) item" using ile pos by (auto simp: covers_def)
    with tail False val assms(2) show ?thesis by (simp add: Cmp_def IsEmpty_def hl [simplified] Let_def)
  next
    case loop
    define g where "g \<longleftrightarrow> StartTime (hd (Items z)) < StartTime item \<or> EndTime item < EndTime (last (Items z))"
    define r where "r = Cmp_loop item (Items z) 0 0 g"
    have "accepts item r \<longleftrightarrow> covers (Items z) item"
      unfolding r_def using assms(3,1) False loop(2) assms(4) by (rule Cmp_loop_first)
    moreover have "Cmp z (Some x) = Some (case r of Inl r \<Rightarrow> r | Inr (minVal, maybeGreat) \<Rightarrow>
        let cmpVal = bigCmp minVal (Value item) in if cmpVal = 0 \<and> maybeGreat then 1 else cmpVal)"
      using loop(1) loop(2) [folded not_less] False val assms(2)
      by (simp add: Cmp_def IsEmpty_def hl [simplified] r_def g_def Let_def)
    ultimately show ?thesis
      using Cmp_loop_Inl [of item "Items z" 0 0 g]
      by (auto simp: accepts_def bigCmp_def Let_def r_def split: sum.splits)
  qed
qed

section \<open>Subtraction\<close>

text \<open>
  One step of \<open>Sub\<close> on an item that overlaps the requested interval and holds enough: the rest
  of the request is what lies behind the item.
\<close>

lemma Item_Sub_overlap:
  assumes "item_ok x" "item_ok y" "StartTime x \<le> StartTime y" "StartTime y \<le> EndTime x"
    "Value y \<le> Value x" and "Item_Sub x (Some y) = (res, missing)"
  shows "items_ok res"
    and "res \<noteq> [] \<Longrightarrow> StartTime x \<le> StartTime (hd res) \<and> EndTime (last res) \<le> EndTime x"
    and "missing = (if EndTime y \<le> EndTime x then None else Some (AdjustStart y (EndTime x + 1)))"
    and "amount_at res t = item_amount x t - (if t \<le> EndTime x then item_amount y t else 0)"
proof -
  have pos: "0 < Value x" "0 < Value y" and le: "StartTime x \<le> EndTime x" "StartTime y \<le> EndTime y"
    using assms(1,2) by (auto simp: item_ok_def)
  note facts = assms(3-6) pos le
  note defs = Item_Sub_def intersectionSub_def adjust_defs Let_def
  have dec: "a < b \<Longrightarrow> \<not> b \<le> b - 1" "a < b \<Longrightarrow> b - 1 < b" "a < b \<Longrightarrow> a \<le> b - 1"
    "a < b \<Longrightarrow> b \<le> c \<Longrightarrow> b - 1 \<le> c" for a b c :: uint64
    by (auto simp: word_less_dec_iff not_le [symmetric]) (meson less_imp_le less_le_trans linorder_not_less word_less_dec_iff)
  have inc: "a < b \<Longrightarrow> a < a + 1" "a < b \<Longrightarrow> a + 1 \<le> b" "a < b \<Longrightarrow> \<not> a + 1 \<le> a" for a b :: uint64
    by (auto simp: word_inc_le_iff [of a b] not_le [symmetric])
  have up: "s \<le> e + 1" if "s \<le> e" "e < b" for b s e :: uint64
    using that inc(1) [OF that(2)] by auto
  have mid: "s - 1 < e + 1" if "a < s" "s \<le> e" "e < b" for a b s e :: uint64
    using dec(2) [OF that(1)] that(2) inc(1) [OF that(3)] by auto
  show "items_ok res"
    using facts
    by (auto simp: defs items_ok_Cons item_ok_def gap_ok_def CanMerge_def dec inc mid split: if_splits)
  show "res \<noteq> [] \<Longrightarrow> StartTime x \<le> StartTime (hd res) \<and> EndTime (last res) \<le> EndTime x"
    using facts by (auto simp: defs dec inc up split: if_splits)
  show "missing = (if EndTime y \<le> EndTime x then None else Some (AdjustStart y (EndTime x + 1)))"
    using facts by (auto simp: defs split: if_splits)
  show "amount_at res t = item_amount x t - (if t \<le> EndTime x then item_amount y t else 0)"
    using facts
    by (auto simp: defs item_amount_def word_less_dec_iff word_inc_le_iff split: if_splits)
qed

lemma covers_Cons:
  assumes "items_ok (x # xs)" "item_ok y" "covers (x # xs) y"
  shows "EndTime x < StartTime y \<Longrightarrow> covers xs y"
    and "\<not> EndTime x < StartTime y \<Longrightarrow> StartTime x \<le> StartTime y \<and> Value y \<le> Value x"
    and "\<not> EndTime x < StartTime y \<Longrightarrow> EndTime x < EndTime y \<Longrightarrow>
           item_ok (AdjustStart y (EndTime x + 1)) \<and> covers xs (AdjustStart y (EndTime x + 1))"
proof -
  note here = amount_Cons(1) [OF assms(1)] and later = amount_Cons(2) [OF assms(1)]
  have cov: "StartTime y \<le> t \<Longrightarrow> t \<le> EndTime y \<Longrightarrow> Value y \<le> amount_at (x # xs) t" for t
    using assms(3) by (simp only: covers_def)
  have y: "StartTime y \<le> EndTime y" "0 < Value y"
    using assms(2) by (auto simp: item_ok_def)
  show "covers xs y" if "EndTime x < StartTime y"
    unfolding covers_def
  proof (intro allI impI)
    fix t assume t: "StartTime y \<le> t \<and> t \<le> EndTime y"
    with that have "EndTime x < t" by auto
    with cov [of t] later [of t] t show "Value y \<le> amount_at xs t" by simp
  qed
  show "StartTime x \<le> StartTime y \<and> Value y \<le> Value x" if "\<not> EndTime x < StartTime y"
    using cov [of "StartTime y"] here [of "StartTime y"] that y
    by (auto simp: item_amount_def split: if_splits)
  assume ov: "\<not> EndTime x < StartTime y" and lt: "EndTime x < EndTime y"
  have "Value y \<le> amount_at xs t" if "EndTime x < t" "t \<le> EndTime y" for t
    using cov [of t] later [of t] that ov by auto
  then have "covers xs (AdjustStart y (EndTime x + 1))"
    using y by (simp add: covers_def adjust_defs word_inc_le_iff [OF lt])
  then show "item_ok (AdjustStart y (EndTime x + 1)) \<and> covers xs (AdjustStart y (EndTime x + 1))"
    using lt y by (auto simp: item_ok_def adjust_defs intro: inc_le)
qed

lemma appendAndMergeItems_step:
  assumes "items_ok items" "items_ok (x # xs)" "fits items [x]" "items_ok res"
    and "res \<noteq> [] \<Longrightarrow> StartTime x \<le> StartTime (hd res) \<and> EndTime (last res) \<le> EndTime x"
  shows "items_ok (appendAndMergeItems items res)" "fits (appendAndMergeItems items res) xs"
    and "amount_at (appendAndMergeItems items res) t = amount_at items t + amount_at res t"
proof -
  have x: "StartTime x \<le> EndTime x" "xs = [] \<or> EndTime x < StartTime (hd xs)"
    using assms(2) by (auto simp: items_ok_Cons item_ok_def gap_ok_def)
  have fr: "fits items res"
    using assms(3,5) by (cases "res = []") (auto simp: fits_def)
  show "items_ok (appendAndMergeItems items res)"
    and "amount_at (appendAndMergeItems items res) t = amount_at items t + amount_at res t"
    using appendAndMergeItems_ok [OF assms(1,4) fr] by auto
  show "fits (appendAndMergeItems items res) xs"
  proof (cases "res = []")
    case True
    then show ?thesis using x assms(3) by (auto simp: fits_def)
  next
    case False
    then show ?thesis
      using appendAndMergeItems_last [OF assms(1,4)] assms(5) x(2) by (auto simp: fits_def)
  qed
qed

lemma item_amount_split:
  assumes "item_ok y" "StartTime y \<le> e" "e < EndTime y"
  shows "item_amount y t = (if t \<le> e then item_amount y t else 0) + item_amount (AdjustStart y (e + 1)) t"
  using assms by (auto simp: item_amount_def adjust_defs item_ok_def word_inc_le_iff)

lemma Sub_loop_ok:
  "items_ok items \<Longrightarrow> items_ok xs \<Longrightarrow> item_ok y \<Longrightarrow> fits items xs \<Longrightarrow> covers xs y \<Longrightarrow>
     items_ok (Sub_loop xs y items) \<and>
     (\<forall>t. amount_at (Sub_loop xs y items) t = amount_at items t + amount_at xs t - item_amount y t)"
proof (induction xs y items rule: Sub_loop.induct)
  case (1 y items)
  then have "Value y \<le> 0" by (auto simp: covers_def item_ok_def)
  with 1 show ?case by (simp add: item_ok_def)
next
  case (2 x xs y items)
  have x: "item_ok x" "items_ok xs" "fits items [x]"
    using "2.prems"(2,4) by (auto simp: items_ok_Cons fits_def)
  note cov = covers_Cons [OF "2.prems"(2,3,5)]
  obtain res missing where s: "Item_Sub x (Some y) = (res, missing)" by fastforce
  note step = appendAndMergeItems_step [OF "2.prems"(1,2) x(3), of res]
  show ?case
  proof (cases "EndTime x < StartTime y")
    case True
    then have rm: "res = [x]" "missing = Some y" using s by (auto simp: Item_Sub_def)
    then show ?thesis
      using "2.IH" [OF s [symmetric] refl rm(2)] step s x "2.prems"(3) cov(1) [OF True]
      by (simp add: items_ok_Cons)
  next
    case False
    then have sy: "StartTime y \<le> EndTime x" by simp
    note ov = Item_Sub_overlap [OF x(1) "2.prems"(3) conjunct1 [OF cov(2) [OF False]] sy
        conjunct2 [OF cov(2) [OF False]] s]
    note st = step [OF ov(1,2)]
    show ?thesis
    proof (cases "EndTime y \<le> EndTime x")
      case True
      then have "item_amount y t = (if t \<le> EndTime x then item_amount y t else 0)" for t
        by (auto simp: item_amount_def)
      with True show ?thesis
        using s appendAndMergeItems_ok [OF st(1) x(2) st(2)] st(3) ov(3,4) by simp
    next
      case rest: False
      then have mi: "missing = Some (AdjustStart y (EndTime x + 1))" and lt: "EndTime x < EndTime y"
        using ov(3) by simp_all
      let ?y' = "AdjustStart y (EndTime x + 1)" and ?m = "appendAndMergeItems items res"
      have IH: "items_ok (Sub_loop xs ?y' ?m)"
        "amount_at (Sub_loop xs ?y' ?m) t = amount_at ?m t + amount_at xs t - item_amount ?y' t" for t
        using "2.IH" [OF s [symmetric] refl mi] st(1,2) x(2) cov(3) [OF False lt] by auto
      have "amount_at (Sub_loop xs ?y' ?m) t
          = amount_at items t + amount_at (x # xs) t - item_amount y t" for t
        using IH(2) [of t] st(3) [of t] ov(4) [of t] item_amount_split [OF "2.prems"(3) sy lt, of t]
        by simp
      with IH(1) s mi show ?thesis by simp
    qed
  qed
qed

lemma Sub_ok:
  assumes "items_ok (Items x)" "Items y = [item]" "item_ok item" "lateStart (Items x) item"
    and "covers (Items x) item"
  shows "\<exists>z. Sub debugMode x (Some y) = Some z \<and> items_ok (Items z) \<and>
           (\<forall>t. amount_at (Items z) t = amount_at (Items x) t - item_amount item t)"
proof -
  obtain c where c: "Cmp x (Some y) = Some c" "0 \<le> c"
    using Cmp_ok [OF assms(1-4)] assms(5) by blast
  have "items_ok (Sub_loop (Items x) item []) \<and>
      (\<forall>t. amount_at (Sub_loop (Items x) item []) t = amount_at (Items x) t - item_amount item t)"
    using Sub_loop_ok [of "[]" "Items x" item] assms by simp
  then show ?thesis
    using c assms(2) by (simp add: Sub_def NewTimeLock_ok CheckValid_ok)
qed

lemma Sub_panics:
  assumes "items_ok (Items x)" "Items y = [item]" "item_ok item" "lateStart (Items x) item"
    and "\<not> covers (Items x) item"
  shows "Sub debugMode x (Some y) = None"
  using Cmp_ok [OF assms(1-4)] assms(2,5) by (auto simp: Sub_def)

section \<open>Expiry\<close>

lemma ClearExpired_loop_ok:
  "items_ok xs \<Longrightarrow> items_ok (ClearExpired_loop xs ts) \<and>
     (\<forall>it \<in> set (ClearExpired_loop xs ts). ts \<le> EndTime it) \<and>
     (\<forall>t. ts \<le> t \<longrightarrow> amount_at (ClearExpired_loop xs ts) t = amount_at xs t)"
proof (induction xs)
  case (Cons x xs)
  show ?case
  proof (cases "ts \<le> EndTime x")
    case True
    have "ts \<le> EndTime it" if "it \<in> set (x # xs)" for it
      using that Cons.prems True
    proof (induction xs arbitrary: x)
      case (Cons y ys)
      then have "EndTime x < EndTime y" by (auto simp: items_ok_Cons gap_ok_def item_ok_def)
      with Cons.prems Cons.IH [of y] show ?case by (auto simp: items_ok_Cons)
    qed simp
    with True Cons.prems show ?thesis by simp
  next
    case False
    then have "ts \<le> t \<Longrightarrow> item_amount x t = 0" for t by (auto simp: item_amount_def)
    with False Cons show ?thesis by (simp add: items_ok_Cons)
  qed
qed simp

section \<open>Display\<close>

definition disjoint_items :: "TimeLockItem list \<Rightarrow> bool" where
  "disjoint_items xs \<longleftrightarrow>
     (\<forall>it \<in> set xs. item_ok it) \<and> sorted_wrt (\<lambda>a b. EndTime a < StartTime b) xs"

lemma disjoint_items_Cons [simp]:
  "disjoint_items (x # xs) \<longleftrightarrow>
     item_ok x \<and> (\<forall>y \<in> set xs. EndTime x < StartTime y) \<and> disjoint_items xs"
  by (auto simp: disjoint_items_def)

lemma items_ok_disjoint: "items_ok xs \<Longrightarrow> disjoint_items xs"
proof (induction xs)
  case (Cons x xs)
  have "EndTime x < StartTime y" if "y \<in> set xs" for y
    using that Cons.prems
  proof (induction xs arbitrary: x)
    case (Cons z zs)
    then have "EndTime x < StartTime z" "StartTime z \<le> EndTime z" "items_ok (z # zs)"
      by (auto simp: items_ok_Cons gap_ok_def item_ok_def)
    with Cons.IH [of z] Cons.prems(1) show ?case by fastforce
  qed simp
  with Cons show ?case by (simp add: items_ok_Cons)
qed (simp add: disjoint_items_def)

definition at_value :: "int \<Rightarrow> TimeLockItem \<Rightarrow> TimeLockItem" where
  "at_value v it = it\<lparr>Value := v\<rparr>"

lemma ToDisplay_scan_ok:
  "ToDisplay_scan rest e v i = (e', v', i') \<Longrightarrow> disjoint_items rest \<Longrightarrow>
     i \<le> i' \<and> e \<le> e' \<and> v' \<le> v \<and> (\<forall>it \<in> set (take (i' - i) rest). v' \<le> Value it) \<and> (0 < v \<longrightarrow> 0 < v') \<and>
     (\<forall>c t. amount_at (map (at_value c) (take (i' - i) rest)) t = (if e < t \<and> t \<le> e' then c else 0))"
proof (induction rest e v i rule: ToDisplay_scan.induct)
  case (2 item rest e v0 i)
  show ?case
  proof (cases "e < StartTime item \<and> e + 1 = StartTime item")
    case True
    let ?v = "if Value item < v0 then Value item else v0"
    have ok: "item_ok item" "disjoint_items rest" using "2.prems"(2) by auto
    have IH: "i + 1 \<le> i' \<and> EndTime item \<le> e' \<and> v' \<le> ?v \<and>
      (\<forall>it \<in> set (take (i' - (i + 1)) rest). v' \<le> Value it) \<and> (0 < ?v \<longrightarrow> 0 < v') \<and>
      (\<forall>c t. amount_at (map (at_value c) (take (i' - (i + 1)) rest)) t
         = (if EndTime item < t \<and> t \<le> e' then c else 0))"
      using "2.IH" "2.prems"(1) True ok(2) by simp
    then have "i + 1 \<le> i'" by blast
    then have n: "i' - i = Suc (i' - (i + 1))" by simp
    have e: "StartTime item \<le> t \<longleftrightarrow> e < t" for t
      using True word_inc_le_iff [of e "StartTime item" t] by simp
    have le: "StartTime item \<le> EndTime item" "0 < Value item" using ok by (auto simp: item_ok_def)
    have "item_amount (at_value c item) t = (if e < t \<and> t \<le> EndTime item then c else 0)" for c t
      by (simp add: item_amount_def at_value_def e)
    moreover have "e < EndTime item" using le e by blast
    ultimately show ?thesis
      using IH le unfolding n by (auto split: if_splits)
  next
    case False
    with 2 show ?thesis by auto
  qed
qed auto

lemma ToDisplay_strip_ok:
  "disjoint_items items \<Longrightarrow> \<forall>it \<in> set (take i items). v \<le> Value it \<Longrightarrow>
     disjoint_items (ToDisplay_strip v i items) \<and>
     (\<forall>it \<in> set (ToDisplay_strip v i items). \<exists>it' \<in> set items. StartTime it = StartTime it') \<and>
     (\<forall>t. amount_at (ToDisplay_strip v i items) t
            = amount_at items t - amount_at (map (at_value v) (take i items)) t)"
proof (induction v i items rule: ToDisplay_strip.induct)
  case (3 v i item rest)
  then have IH: "disjoint_items (ToDisplay_strip v i rest)"
    "\<forall>it \<in> set (ToDisplay_strip v i rest). \<exists>it' \<in> set rest. StartTime it = StartTime it'"
    "\<forall>t. amount_at (ToDisplay_strip v i rest) t
            = amount_at rest t - amount_at (map (at_value v) (take i rest)) t"
    by auto
  have "item_amount item t = item_amount (at_value v item) t
      + (if Value item = v then 0 else item_amount (item\<lparr>Value := Value item - v\<rparr>) t)" for t
    by (simp add: item_amount_def at_value_def)
  moreover have "Value item \<noteq> v \<Longrightarrow> item_ok (item\<lparr>Value := Value item - v\<rparr>)"
    using 3 by (auto simp: item_ok_def)
  ultimately show ?case
    using 3 IH by (auto; fastforce)
qed (auto simp: disjoint_items_def)

lemma ToDisplay_loop_ok:
  "disjoint_items items \<Longrightarrow> (\<forall>it \<in> set (ToDisplay_loop items). item_ok it) \<and>
     (\<forall>t. amount_at (ToDisplay_loop items) t = amount_at items t)"
proof (induction items rule: ToDisplay_loop.induct)
  case (2 item rest)
  obtain e v i where sc: "ToDisplay_scan rest (EndTime item) (Value item) 1 = (e, v, i)"
    using prod_cases3 by blast
  have ok: "item_ok item" "disjoint_items rest" using "2.prems" by auto
  note scan = ToDisplay_scan_ok [OF sc ok(2)]
  show ?case
  proof (cases "i = 1")
    case True
    then show ?thesis using "2.IH"(1) [OF sc [symmetric] refl True] ok sc by simp
  next
    case False
    then have i: "i = Suc (i - 1)" using scan by simp
    have tk: "take i (item # rest) = item # take (i - 1) rest" by (subst i) simp
    have low: "\<forall>it \<in> set (take i (item # rest)). v \<le> Value it" using scan by (simp add: tk)
    note strip = ToDisplay_strip_ok [OF "2.prems" low]
    have pos: "0 < v" "EndTime item \<le> e" "StartTime item \<le> EndTime item"
      using scan ok by (auto simp: item_ok_def)
    let ?d = "\<lparr>StartTime = StartTime item, EndTime = e, Value = v\<rparr>"
    have "item_amount ?d t = amount_at (map (at_value v) (take i (item # rest))) t" for t
      using scan pos by (auto simp: tk item_amount_def at_value_def)
    moreover have "item_ok ?d" using pos by (auto simp: item_ok_def)
    ultimately show ?thesis
      using "2.IH"(2) [OF sc [symmetric] refl False] strip sc False by simp
  qed
qed simp

lemma amount_at_mset: "mset xs = mset ys \<Longrightarrow> amount_at xs t = amount_at ys t"
proof -
  have "amount_at zs t = sum_mset (image_mset (\<lambda>it. item_amount it t) (mset zs))" for zs
    by (induction zs) auto
  then show "mset xs = mset ys \<Longrightarrow> amount_at xs t = amount_at ys t" by simp
qed

lemma ToDisplay_ok:
  assumes "items_ok (Items z)" "\<And>xs. mset (sortDesc xs) = mset xs"
  shows "amount_at (Items (ToDisplay sortDesc z)) t = amount_at (Items z) t"
    and "\<forall>it \<in> set (Items (ToDisplay sortDesc z)). item_ok it"
proof -
  have "TimeLock_Clone z = \<lparr>Items = Items z\<rparr>"
    using assms(1) by (simp add: TimeLock_Clone_def NewTimeLock_ok)
  then have it: "Items (ToDisplay sortDesc z) = sortDesc (ToDisplay_loop (Items z))"
    by (simp add: ToDisplay_def Let_def)
  note loop = ToDisplay_loop_ok [OF items_ok_disjoint [OF assms(1)]]
  show "amount_at (Items (ToDisplay sortDesc z)) t = amount_at (Items z) t"
    using loop amount_at_mset [OF assms(2)] by (simp add: it)
  show "\<forall>it \<in> set (Items (ToDisplay sortDesc z)). item_ok it"
    using loop mset_eq_setD [OF assms(2)] by (simp add: it)
qed

section \<open>The interface of time-locked balances\<close>

text \<open>
  What a client of time-locked balances relies on: a balance is read through the amount it holds
  at each time stamp, \<open>request y s e v\<close> says that \<open>y\<close> is a single claim of \<open>v\<close> in the interval
  from \<open>s\<close> to \<open>e\<close>, and \<open>enough b y\<close> decides whether \<open>b\<close> can pay it.
\<close>

locale time_balance =
  fixes ok :: "'b \<Rightarrow> bool"
    and amount :: "'b \<Rightarrow> uint64 \<Rightarrow> int"
    and request :: "'b \<Rightarrow> uint64 \<Rightarrow> uint64 \<Rightarrow> int \<Rightarrow> bool"
    and add :: "'b \<Rightarrow> 'b \<Rightarrow> 'b option"
    and sub :: "'b \<Rightarrow> 'b \<Rightarrow> 'b option"
    and enough :: "'b \<Rightarrow> 'b \<Rightarrow> bool option"
    and clear :: "'b \<Rightarrow> uint64 \<Rightarrow> 'b"
  assumes request_ok: "request y s e v \<Longrightarrow>
        ok y \<and> s \<le> e \<and> 0 < v \<and> (\<forall>t. amount y t = (if s \<le> t \<and> t \<le> e then v else 0))"
    and add_law: "ok x \<Longrightarrow> request y s e v \<Longrightarrow>
        \<exists>z. add x y = Some z \<and> ok z \<and> (\<forall>t. amount z t = amount x t + amount y t)"
    and enough_law: "ok x \<Longrightarrow> request y s e v \<Longrightarrow> s \<noteq> 0 \<Longrightarrow>
        enough x y = Some (\<forall>t. s \<le> t \<and> t \<le> e \<longrightarrow> v \<le> amount x t)"
    and sub_law: "ok x \<Longrightarrow> request y s e v \<Longrightarrow> s \<noteq> 0 \<Longrightarrow> enough x y = Some True \<Longrightarrow>
        \<exists>z. sub x y = Some z \<and> ok z \<and> (\<forall>t. amount z t = amount x t - amount y t)"
    and clear_law: "ok x \<Longrightarrow> ok (clear x ts) \<and> (\<forall>t. ts \<le> t \<longrightarrow> amount (clear x ts) t = amount x t)"
    and nonneg_law: "ok x \<Longrightarrow> 0 \<le> amount x t"
begin

text \<open>Paying a request from one balance into another moves the amount and loses nothing.\<close>

lemma transfer:
  assumes "ok p" "ok q" "request y s e v" "s \<noteq> 0" "enough p y = Some True"
  shows "\<exists>p' q'. sub p y = Some p' \<and> add q y = Some q' \<and> ok p' \<and> ok q' \<and>
           (\<forall>t. amount p' t + amount q' t = amount p t + amount q t)"
proof -
  obtain p' where "sub p y = Some p'" "ok p'" "\<forall>t. amount p' t = amount p t - amount y t"
    using sub_law [OF assms(1,3-5)] by blast
  moreover obtain q' where "add q y = Some q'" "ok q'" "\<forall>t. amount q' t = amount q t + amount y t"
    using add_law [OF assms(2,3)] by blast
  ultimately show ?thesis by auto
qed

text \<open>Once a request is paid, the same request can be paid again only if twice its value was there.\<close>

lemma enough_twice:
  assumes "ok p" "request y s e v" "s \<noteq> 0" "enough p y = Some True" "sub p y = Some p'"
  shows "enough p' y = Some (\<forall>t. s \<le> t \<and> t \<le> e \<longrightarrow> 2 * v \<le> amount p t)"
proof -
  have p': "ok p'" "\<forall>t. amount p' t = amount p t - amount y t"
    using sub_law [OF assms(1-4)] assms(5) by auto
  have y: "\<forall>t. amount y t = (if s \<le> t \<and> t \<le> e then v else 0)"
    using request_ok [OF assms(2)] by blast
  have "enough p' y = Some (\<forall>t. s \<le> t \<and> t \<le> e \<longrightarrow> v \<le> amount p' t)"
    using enough_law [OF p'(1) assms(2,3)] .
  then show ?thesis using p'(2) y by (auto simp: algebra_simps)
qed

end

definition tl_request :: "TimeLock \<Rightarrow> uint64 \<Rightarrow> uint64 \<Rightarrow> int \<Rightarrow> bool" where
  "tl_request y s e v \<longleftrightarrow> Items y = [\<lparr>StartTime = s, EndTime = e, Value = v\<rparr>] \<and> IsValid y = None"

definition tl_add :: "bool \<Rightarrow> TimeLock \<Rightarrow> TimeLock \<Rightarrow> TimeLock option" where
  "tl_add debugMode x y = Option.bind (Add debugMode (Some x) (Some y)) id"

definition tl_enough :: "TimeLock \<Rightarrow> TimeLock \<Rightarrow> bool option" where
  "tl_enough x y = map_option (\<lambda>c. 0 \<le> c) (Cmp x (Some y))"

lemma tl_request_item:
  "tl_request y s e v \<Longrightarrow> \<exists>item. Items y = [item] \<and> item_ok item \<and> items_ok (Items y) \<and>
     StartTime item = s \<and> EndTime item = e \<and> Value item = v"
  by (auto simp: tl_request_def IsValid_iff items_ok_Cons)

interpretation tl: time_balance
  "\<lambda>x. items_ok (Items x)" "\<lambda>x. amount_at (Items x)" tl_request "tl_add debugMode"
  "\<lambda>x y. Sub debugMode x (Some y)" tl_enough ClearExpired
  for debugMode
proof (unfold_locales, goal_cases)
  case (1 y s e v)
  then obtain item where "Items y = [item]" "item_ok item" "items_ok (Items y)"
    "StartTime item = s" "EndTime item = e" "Value item = v"
    using tl_request_item by blast
  then show ?case by (auto simp: item_ok_def item_amount_def)
next
  case (2 x y s e v)
  then have "items_ok (Items y)" "\<not> IsEmpty y"
    using tl_request_item by (fastforce simp: IsEmpty_def)+
  with 2 Add_ok [of x y debugMode] show ?case by (auto simp: tl_add_def)
next
  case (3 x y s e v)
  then obtain item where i: "Items y = [item]" "item_ok item" "StartTime item = s"
    "EndTime item = e" "Value item = v"
    using tl_request_item by blast
  with 3 have "lateStart (Items x) item" by (simp add: lateStart_def)
  with Cmp_ok [OF 3(1) i(1,2)] i show ?case
    by (auto simp: tl_enough_def covers_def)
next
  case (4 x y s e v)
  then obtain item where i: "Items y = [item]" "item_ok item" "StartTime item = s"
    using tl_request_item by blast
  with 4 have l: "lateStart (Items x) item" by (simp add: lateStart_def)
  then have "covers (Items x) item"
    using Cmp_ok [OF 4(1) i(1,2)] 4(4) by (auto simp: tl_enough_def)
  with Sub_ok [OF 4(1) i(1,2) l, of debugMode] i show ?case by auto
next
  case (5 x ts)
  then show ?case using ClearExpired_loop_ok [of "Items x" ts] by (simp add: ClearExpired_def)
next
  case (6 x t)
  then show ?case by (rule amount_nonneg)
qed

section \<open>Properties\<close>

text \<open>
  C17. Adding two valid time locks, not both empty, never panics (in debug mode either) and returns a
  valid time lock whose amount at every time stamp is the sum of the two amounts.
\<close>

theorem timelock_add_sums:
  assumes "IsValid x = None" "IsValid y = None" "\<not> (IsEmpty x \<and> IsEmpty y)"
  shows "\<exists>z. Add debugMode (Some x) (Some y) = Some (Some z) \<and> IsValid z = None \<and>
           (\<forall>t. amount_at (Items z) t = amount_at (Items x) t + amount_at (Items y) t)"
  using Add_ok [of x y debugMode] assms by (simp add: IsValid_iff)

lemmas timelock_eval = IsValid_def Item_IsValid_def CanMerge_def IsEmpty_def

theorem timelock_add_sums_witness:
  "\<exists>z. Add True (Some \<lparr>Items = [\<lparr>StartTime = 1, EndTime = 5, Value = 10\<rparr>]\<rparr>)
         (Some \<lparr>Items = [\<lparr>StartTime = 3, EndTime = 9, Value = 4\<rparr>]\<rparr>) = Some (Some z) \<and>
       IsValid z = None \<and> amount_at (Items z) 4 = 14 \<and> amount_at (Items z) 7 = 4"
proof -
  have "IsValid \<lparr>Items = [\<lparr>StartTime = 1, EndTime = 5, Value = 10\<rparr>]\<rparr> = None"
    "IsValid \<lparr>Items = [\<lparr>StartTime = 3, EndTime = 9, Value = 4\<rparr>]\<rparr> = None"
    by (simp_all add: timelock_eval)
  from timelock_add_sums [OF this, of True] show ?thesis
    by (fastforce simp: IsEmpty_def item_amount_def)
qed





text \<open>
  C35. An exception to the previous reading of \<open>Cmp\<close>: an item that ends at time stamp 0 resets the loop variable
  \<open>tempTime\<close> of \<open>Cmp\<close>, so that a request from time stamp 0 on is refused although it is covered.
\<close>

theorem timelock_cmp_refuses_zero_end:
  assumes "0 < u" "u \<le> v" "u \<le> w" "v \<noteq> w" "1 \<le> e"
  defines "z \<equiv> \<lparr>Items = [\<lparr>StartTime = 0, EndTime = 0, Value = v\<rparr>, \<lparr>StartTime = 1, EndTime = e, Value = w\<rparr>]\<rparr>"
    and "x \<equiv> \<lparr>Items = [\<lparr>StartTime = 0, EndTime = e, Value = u\<rparr>]\<rparr>"
  shows "IsValid z = None \<and> IsValid x = None \<and> (\<forall>t \<le> e. u \<le> amount_at (Items z) t) \<and>
    Cmp z (Some x) = Some (-1)"
proof -
  have e: "0 < e" "\<not> e \<le> 0" using assms(5) by (auto simp: word_gt_0 word_le_sub1)
  have "u \<le> amount_at (Items z) t" if "t \<le> e" for t
  proof (cases "t = 0")
    case True
    then show ?thesis using assms by (simp add: item_amount_def)
  next
    case False
    then have "1 \<le> t" by (metis add_0 inc_le word_gt_0)
    with False that show ?thesis using assms by (simp add: item_amount_def)
  qed
  moreover have "IsValid z = None" "IsValid x = None"
    using assms e by (auto simp: timelock_eval not_less)
  moreover have "Cmp z (Some x) = Some (-1)"
    using assms e \<open>IsValid x = None\<close> by (simp add: Cmp_def IsEmpty_def Let_def)
  ultimately show ?thesis by blast
qed

theorem timelock_cmp_refuses_zero_end_witness:
  "Cmp \<lparr>Items = [\<lparr>StartTime = 0, EndTime = 0, Value = 5\<rparr>, \<lparr>StartTime = 1, EndTime = 10, Value = 7\<rparr>]\<rparr>
     (Some \<lparr>Items = [\<lparr>StartTime = 0, EndTime = 10, Value = 3\<rparr>]\<rparr>) = Some (-1)"
  using timelock_cmp_refuses_zero_end [of 3 5 7 10] by simp

text \<open>
  C21. \<open>ClearExpired\<close> keeps a time lock valid, leaves no item that ended before the given time
  stamp, and keeps the amount at that and at every later time stamp.
\<close>

theorem timelock_clear_expired:
  assumes "IsValid z = None"
  shows "IsValid (ClearExpired z ts) = None \<and>
    (\<forall>it \<in> set (Items (ClearExpired z ts)). ts \<le> EndTime it) \<and>
    (\<forall>t. ts \<le> t \<longrightarrow> amount_at (Items (ClearExpired z ts)) t = amount_at (Items z) t)"
  using ClearExpired_loop_ok [of "Items z" ts] assms by (simp add: IsValid_iff ClearExpired_def)

theorem timelock_clear_expired_witness:
  "IsValid (ClearExpired \<lparr>Items = [\<lparr>StartTime = 1, EndTime = 5, Value = 10\<rparr>, \<lparr>StartTime = 6, EndTime = 9, Value = 4\<rparr>]\<rparr> 7) = None"
  using timelock_clear_expired [of "\<lparr>Items = [\<lparr>StartTime = 1, EndTime = 5, Value = 10\<rparr>, \<lparr>StartTime = 6, EndTime = 9, Value = 4\<rparr>]\<rparr>" 7]
  by (simp add: timelock_eval)

text \<open>
  \<open>ToDisplay\<close> terminates and shows the amounts of a valid time lock: whatever order \<open>sort.Sort\<close>
  gives to equal values, the stacked intervals add up to the amount at every time stamp, and every
  interval shown is well formed with a positive value.
\<close>

theorem timelock_display_amounts:
  assumes "IsValid z = None" "\<forall>xs. mset (sortDesc xs) = mset xs"
  shows "(\<forall>t. amount_at (Items (ToDisplay sortDesc z)) t = amount_at (Items z) t) \<and>
    (\<forall>it \<in> set (Items (ToDisplay sortDesc z)). Item_IsValid it = None)"
  using ToDisplay_ok [of z sortDesc] assms by (simp add: IsValid_iff Item_IsValid_iff)

theorem timelock_display_amounts_witness:
  "amount_at (Items (ToDisplay (sort_key (\<lambda>it. - Value it))
     \<lparr>Items = [\<lparr>StartTime = 1, EndTime = 5, Value = 10\<rparr>, \<lparr>StartTime = 6, EndTime = 9, Value = 4\<rparr>]\<rparr>)) 3 = 10"
proof -
  have "IsValid \<lparr>Items = [\<lparr>StartTime = 1, EndTime = 5, Value = 10\<rparr>, \<lparr>StartTime = 6, EndTime = 9, Value = 4\<rparr>]\<rparr> = None"
    by (simp add: timelock_eval)
  from timelock_display_amounts [OF this, of "sort_key (\<lambda>it. - Value it)"] show ?thesis
    by (simp add: item_amount_def)
qed

text \<open>
  C20. Moving a single request that does not start at time stamp 0 from one valid time lock to
  another, as the handlers do once \<open>Cmp\<close> has found the first one large enough, succeeds on both
  sides and keeps the total amount at every time stamp.
\<close>

theorem timelock_transfer_conserves:
  assumes "IsValid p = None" "IsValid q = None" "IsValid y = None" "Items y = [item]"
    "StartTime item \<noteq> 0" "Cmp p (Some y) = Some c" "0 \<le> c"
  shows "\<exists>p' q'. Sub debugMode p (Some y) = Some p' \<and> Add debugMode (Some q) (Some y) = Some (Some q') \<and>
    IsValid p' = None \<and> IsValid q' = None \<and>
    (\<forall>t. amount_at (Items p') t + amount_at (Items q') t = amount_at (Items p) t + amount_at (Items q) t)"
proof -
  have y: "tl_request y (StartTime item) (EndTime item) (Value item)"
    using assms(3,4) by (simp add: tl_request_def)
  have "tl_enough p y = Some True" using assms(6,7) by (simp add: tl_enough_def)
  from tl.transfer [OF _ _ y assms(5) this, of q debugMode] assms(1,2)
  show ?thesis by (auto simp: IsValid_iff tl_add_def bind_eq_Some_conv)
qed

theorem timelock_transfer_conserves_witness:
  "\<exists>p' q'. Sub True \<lparr>Items = [\<lparr>StartTime = 1, EndTime = 9, Value = 10\<rparr>]\<rparr>
       (Some \<lparr>Items = [\<lparr>StartTime = 4, EndTime = 8, Value = 5\<rparr>]\<rparr>) = Some p' \<and>
     Add True (Some \<lparr>Items = []\<rparr>) (Some \<lparr>Items = [\<lparr>StartTime = 4, EndTime = 8, Value = 5\<rparr>]\<rparr>) = Some (Some q') \<and>
     amount_at (Items p') 6 + amount_at (Items q') 6 = 10"
proof -
  let ?p = "\<lparr>Items = [\<lparr>StartTime = 1, EndTime = 9, Value = 10\<rparr>]\<rparr>"
  let ?i = "\<lparr>StartTime = 4, EndTime = 8, Value = 5\<rparr>"
  have "IsValid ?p = None" "IsValid \<lparr>Items = []\<rparr> = None" "IsValid \<lparr>Items = [?i]\<rparr> = None"
    "Items \<lparr>Items = [?i]\<rparr> = [?i]" "StartTime ?i \<noteq> 0"
    by (simp_all add: timelock_eval)
  moreover have "Cmp ?p (Some \<lparr>Items = [?i]\<rparr>) = Some 1"
    by (simp add: Cmp_def timelock_eval Let_def bigCmp_def)
  ultimately show ?thesis
    using timelock_transfer_conserves [of ?p "\<lparr>Items = []\<rparr>" "\<lparr>Items = [?i]\<rparr>" ?i 1 True]
    by (fastforce simp: item_amount_def)
qed

end
