(* ===== verification/Ticket.thy ===== *)
theory Ticket
  imports Efsn_Prelude
begin

text \<open>
  The ticket pool of \<open>common/ticket.go\<close>: tickets grouped by owner, with lookup, insertion, removal
  and expiry. A struct field whose name occurs in several structs carries the initials of its
  struct: \<open>T_\<close> for \<open>Ticket\<close>, \<open>TB_\<close> for \<open>TicketBody\<close>, \<open>D_\<close> for \<open>TicketsData\<close>. The operations
  that return the updated slice and an error return a pair here, \<open>None\<close> standing for no error. A
  row without tickets is the nil slice; no operation leaves such a row behind.
\<close>

section \<open>Tickets\<close>

definition TicketPrice :: "int \<Rightarrow> int" where
  "TicketPrice blocknumber = (let oneFSN = 1000000000000000000 in 5000 * oneFSN)"

record TicketBody =
  ID :: Hash
  TB_Height :: uint64
  TB_StartTime :: uint64
  ExpireTime :: uint64

record Ticket =
  T_Owner :: Address
  T_Body :: TicketBody

record TicketDisplay =
  TD_Owner :: Address
  TD_Height :: uint64
  TD_StartTime :: uint64
  TD_ExpireTime :: uint64
  TD_Value :: int

record TicketsData =
  D_Owner :: Address
  Tickets :: "TicketBody list"

datatype ticket_error =
    TicketNotFount Hash
  | TicketExist Hash
  | TicketNotFound Hash
  | NoTicketLeft

definition IsInGenesis :: "TicketBody \<Rightarrow> bool" where
  "IsInGenesis t \<longleftrightarrow> TB_Height t = 0"

definition BlockHeight :: "TicketBody \<Rightarrow> int" where
  "BlockHeight t = uint (TB_Height t)"

definition TicketValue :: "TicketBody \<Rightarrow> int" where
  "TicketValue t = TicketPrice (uint (TB_Height t))"

definition Ticket_ToDisplay :: "Ticket \<Rightarrow> TicketDisplay" where
  "Ticket_ToDisplay t = \<lparr>TD_Owner = T_Owner t, TD_Height = TB_Height (T_Body t),
     TD_StartTime = TB_StartTime (T_Body t), TD_ExpireTime = ExpireTime (T_Body t),
     TD_Value = TicketValue (T_Body t)\<rparr>"

definition TicketSlice_ToMap :: "Ticket list \<Rightarrow> Hash \<rightharpoonup> TicketDisplay" where
  "TicketSlice_ToMap s = fold (\<lambda>t r. r(ID (T_Body t) \<mapsto> Ticket_ToDisplay t)) s Map.empty"

definition TicketsData_ToTicketSlice :: "TicketsData \<Rightarrow> Ticket list" where
  "TicketsData_ToTicketSlice s = map (\<lambda>t. \<lparr>T_Owner = D_Owner s, T_Body = t\<rparr>) (Tickets s)"

fun ToTicketSlice :: "TicketsData list \<Rightarrow> Ticket list" where
  "ToTicketSlice [] = []"
| "ToTicketSlice (v # s) = TicketsData_ToTicketSlice v @ ToTicketSlice s"

definition TicketsDataSlice_ToMap :: "TicketsData list \<Rightarrow> Hash \<rightharpoonup> TicketDisplay" where
  "TicketsDataSlice_ToMap s = TicketSlice_ToMap (ToTicketSlice s)"

fun NumberOfTicketsByAddress :: "TicketsData list \<Rightarrow> Address \<Rightarrow> uint64" where
  "NumberOfTicketsByAddress [] addr = 0"
| "NumberOfTicketsByAddress (v # s) addr =
     (if D_Owner v = addr then of_nat (length (Tickets v)) else NumberOfTicketsByAddress s addr)"

definition NumberOfTickets :: "TicketsData list \<Rightarrow> uint64" where
  "NumberOfTickets s = of_nat (fold (\<lambda>v n. n + length (Tickets v)) s 0)"

definition NumberOfOwners :: "TicketsData list \<Rightarrow> uint64" where
  "NumberOfOwners s = of_nat (length s)"

definition NumberOfTicketsAndOwners :: "TicketsData list \<Rightarrow> uint64 \<times> uint64" where
  "NumberOfTicketsAndOwners s = (NumberOfTickets s, NumberOfOwners s)"

section \<open>Lookup, insertion, removal\<close>

fun Get_row :: "Address \<Rightarrow> TicketBody list \<Rightarrow> Hash \<Rightarrow> Ticket option" where
  "Get_row owner [] tid = None"
| "Get_row owner (t # ts) tid =
     (if ID t = tid then Some \<lparr>T_Owner = owner, T_Body = t\<rparr> else Get_row owner ts tid)"

fun Get :: "TicketsData list \<Rightarrow> Hash \<Rightarrow> ticket_error + Ticket" where
  "Get [] tid = Inl (TicketNotFount tid)"
| "Get (v # s) tid = (case Get_row (D_Owner v) (Tickets v) tid of Some t \<Rightarrow> Inr t | None \<Rightarrow> Get s tid)"

fun AddTicket_find :: "TicketsData list \<Rightarrow> Address \<Rightarrow> nat \<Rightarrow> TicketBody list \<times> nat" where
  "AddTicket_find [] owner i = ([], 0)"
| "AddTicket_find (v # s) owner i =
     (if D_Owner v = owner then (Tickets v, i) else AddTicket_find s owner (i + 1))"

definition AddTicket :: "TicketsData list \<Rightarrow> Ticket \<Rightarrow> TicketsData list \<times> ticket_error option" where
  "AddTicket s ticket =
    (let (tickets, row) = AddTicket_find s (T_Owner ticket) 0 in
     if tickets = [] then (s @ [\<lparr>D_Owner = T_Owner ticket, Tickets = [T_Body ticket]\<rparr>], None)
     else if \<not> IsInGenesis (T_Body ticket) \<and> (\<exists>t \<in> set tickets. ID t = ID (T_Body ticket))
     then (s, Some (TicketExist (ID (T_Body ticket))))
     else (s[row := (s ! row)\<lparr>Tickets := tickets @ [T_Body ticket]\<rparr>], None))"

fun RemoveTicket_find :: "Hash \<Rightarrow> TicketBody list \<Rightarrow> nat \<Rightarrow> nat option" where
  "RemoveTicket_find tid [] j = None"
| "RemoveTicket_find tid (t # ts) j = (if ID t \<noteq> tid then RemoveTicket_find tid ts (j + 1) else Some j)"

fun RemoveTicket_loop :: "TicketsData list \<Rightarrow> Hash \<Rightarrow> TicketsData list \<Rightarrow> nat \<Rightarrow> TicketsData list option" where
  "RemoveTicket_loop s tid [] i = None"
| "RemoveTicket_loop s tid (v # vs) i =
     (let tickets = Tickets v in
      case RemoveTicket_find tid tickets 0 of
        None \<Rightarrow> RemoveTicket_loop s tid vs (i + 1)
      | Some j \<Rightarrow> Some (if length tickets = 1 then take i s @ drop (i + 1) s
          else s[i := (s ! i)\<lparr>Tickets := take j tickets @ drop (j + 1) tickets\<rparr>]))"

definition RemoveTicket :: "TicketsData list \<Rightarrow> Hash \<Rightarrow> TicketsData list \<times> ticket_error option" where
  "RemoveTicket s tid = (case RemoveTicket_loop s tid s 0 of
      Some s' \<Rightarrow> (s', None)
    | None \<Rightarrow> (s, Some (TicketNotFound tid)))"

fun ClearExpiredTickets_row :: "uint64 \<Rightarrow> TicketBody list \<Rightarrow> bool \<times> Hash list \<Rightarrow> bool \<times> Hash list" where
  "ClearExpiredTickets_row timestamp [] acc = acc"
| "ClearExpiredTickets_row timestamp (t # ts) (haveTicket, expiredIds) =
     (if ExpireTime t \<le> timestamp then ClearExpiredTickets_row timestamp ts (haveTicket, expiredIds @ [ID t])
      else ClearExpiredTickets_row timestamp ts (True, expiredIds))"

fun ClearExpiredTickets_scan :: "uint64 \<Rightarrow> TicketsData list \<Rightarrow> bool \<times> Hash list \<Rightarrow> bool \<times> Hash list" where
  "ClearExpiredTickets_scan timestamp [] acc = acc"
| "ClearExpiredTickets_scan timestamp (v # s) acc =
     ClearExpiredTickets_scan timestamp s (ClearExpiredTickets_row timestamp (Tickets v) acc)"

definition ClearExpiredTickets :: "TicketsData list \<Rightarrow> uint64 \<Rightarrow> TicketsData list \<times> ticket_error option" where
  "ClearExpiredTickets s timestamp =
    (let (haveTicket, expiredIds) = ClearExpiredTickets_scan timestamp s (False, []) in
     if \<not> haveTicket then (s, Some NoTicketLeft)
     else if expiredIds = [] then (s, None)
     else (fold (\<lambda>tid s. fst (RemoveTicket s tid)) expiredIds s, None))"

section \<open>The pool as a finite map\<close>

text \<open>The tickets of a pool with their owners, in slice order, keyed by their identifier.\<close>

definition row_entries :: "TicketsData \<Rightarrow> (Hash \<times> Ticket) list" where
  "row_entries v = map (\<lambda>t. (ID t, \<lparr>T_Owner = D_Owner v, T_Body = t\<rparr>)) (Tickets v)"

definition entries :: "TicketsData list \<Rightarrow> (Hash \<times> Ticket) list" where
  "entries s = concat (map row_entries s)"

definition ticket_map :: "TicketsData list \<Rightarrow> Hash \<rightharpoonup> Ticket" where
  "ticket_map s = map_of (entries s)"

text \<open>A well-formed pool: one row per owner, no empty row, no identifier twice.\<close>

definition tickets_ok :: "TicketsData list \<Rightarrow> bool" where
  "tickets_ok s \<longleftrightarrow> distinct (map D_Owner s) \<and> (\<forall>v \<in> set s. Tickets v \<noteq> []) \<and> distinct (map fst (entries s))"

lemma entries_simps [simp]:
  "entries [] = []" "entries (v # s) = row_entries v @ entries s" "entries (s @ s') = entries s @ entries s'"
  by (simp_all add: entries_def)

lemma row_keys [simp]: "fst ` set (row_entries v) = ID ` set (Tickets v)"
  by (force simp: row_entries_def)

lemma entry_key: "(k, t) \<in> set (entries s) \<Longrightarrow> ID (T_Body t) = k"
  by (auto simp: entries_def row_entries_def)

lemma ToTicketSlice_entries: "ToTicketSlice s = map snd (entries s)"
  by (induction s) (auto simp: row_entries_def TicketsData_ToTicketSlice_def)

lemma Get_row_map: "Get_row owner ts tid = map_of (row_entries \<lparr>D_Owner = owner, Tickets = ts\<rparr>) tid"
  by (induction ts) (auto simp: row_entries_def)

lemma Get_map: "Get s tid = (case ticket_map s tid of Some t \<Rightarrow> Inr t | None \<Rightarrow> Inl (TicketNotFount tid))"
proof (induction s)
  case (Cons v s)
  have "Get_row (D_Owner v) (Tickets v) tid = map_of (row_entries v) tid"
    by (simp add: Get_row_map row_entries_def)
  with Cons show ?case by (auto simp: ticket_map_def map_add_def split: option.splits)
qed (simp add: ticket_map_def)

lemma AddTicket_find_split:
  "AddTicket_find s owner i = (ts, row) \<Longrightarrow> ts \<noteq> [] \<Longrightarrow>
    \<exists>pre v post. s = pre @ v # post \<and> D_Owner v = owner \<and> Tickets v = ts \<and> row = i + length pre"
proof (induction s arbitrary: i)
  case (Cons v s)
  show ?case
  proof (cases "D_Owner v = owner")
    case True
    with Cons.prems show ?thesis by (auto intro!: exI [of _ "[]"])
  next
    case False
    with Cons.prems obtain pre w post where "s = pre @ w # post \<and> D_Owner w = owner \<and> Tickets w = ts \<and> row = (i + 1) + length pre"
      using Cons.IH [of "i + 1"] by auto
    then show ?thesis by (intro exI [of _ "v # pre"] exI [of _ w] exI [of _ post]) simp
  qed
qed simp

lemma AddTicket_find_none:
  "\<forall>v \<in> set s. Tickets v \<noteq> [] \<Longrightarrow> fst (AddTicket_find s owner i) = [] \<longleftrightarrow> owner \<notin> D_Owner ` set s"
  by (induction s arbitrary: i) auto

text \<open>A new ticket is the only change to the pool; the refusal leaves the pool as it was.\<close>

lemma AddTicket_cases:
  obtains (new) "AddTicket s t = (s @ [\<lparr>D_Owner = T_Owner t, Tickets = [T_Body t]\<rparr>], None)"
    "fst (AddTicket_find s (T_Owner t) 0) = []"
  | (old) pre v post where "AddTicket s t = (pre @ v\<lparr>Tickets := Tickets v @ [T_Body t]\<rparr> # post, None)"
    "s = pre @ v # post" "D_Owner v = T_Owner t"
  | (refused) "AddTicket s t = (s, Some (TicketExist (ID (T_Body t))))" "ID (T_Body t) \<in> fst ` set (entries s)"
proof -
  obtain ts row where f: "AddTicket_find s (T_Owner t) 0 = (ts, row)" by fastforce
  show ?thesis
  proof (cases "ts = []")
    case True
    with f new show ?thesis by (simp add: AddTicket_def)
  next
    case False
    with AddTicket_find_split [OF f] obtain pre v post where
      s: "s = pre @ v # post" "D_Owner v = T_Owner t" "Tickets v = ts" "row = length pre" by auto
    show ?thesis
    proof (cases "\<not> IsInGenesis (T_Body t) \<and> (\<exists>b \<in> set ts. ID b = ID (T_Body t))")
      case True
      then have "ID (T_Body t) \<in> ID ` set (Tickets v)" unfolding image_iff s(3) by metis
      then have "ID (T_Body t) \<in> fst ` set (entries s)" unfolding s(1) by (simp add: image_Un)
      with True False f refused show ?thesis by (auto simp: AddTicket_def)
    next
      case False
      then have "AddTicket s t = (s[row := (s ! row)\<lparr>Tickets := ts @ [T_Body t]\<rparr>], None)"
        using f \<open>ts \<noteq> []\<close> unfolding AddTicket_def by (simp only: f prod.case Let_def if_False if_not_P)
      with s show ?thesis by (intro old [of pre v post]) simp_all
    qed
  qed
qed

lemma row_entries_snoc:
  "row_entries (v\<lparr>Tickets := Tickets v @ [b]\<rparr>) = row_entries v @ [(ID b, \<lparr>T_Owner = D_Owner v, T_Body = b\<rparr>)]"
  by (simp add: row_entries_def)

lemma AddTicket_mset:
  assumes "AddTicket s t = (s', None)"
  shows "mset (entries s') = add_mset (ID (T_Body t), t) (mset (entries s))"
proof (cases rule: AddTicket_cases [of s t])
  case (old pre v post)
  then have "t = \<lparr>T_Owner = D_Owner v, T_Body = T_Body t\<rparr>" by simp
  with old assms show ?thesis by (auto simp: row_entries_snoc)
qed (use assms in \<open>auto simp: row_entries_def\<close>)

lemma AddTicket_rows:
  assumes "AddTicket s t = (s', None)" "distinct (map D_Owner s)" "\<forall>v \<in> set s. Tickets v \<noteq> []"
  shows "distinct (map D_Owner s') \<and> (\<forall>v \<in> set s'. Tickets v \<noteq> [])"
proof (cases rule: AddTicket_cases [of s t])
  case new
  then show ?thesis using assms AddTicket_find_none [of s "T_Owner t" 0] by auto
qed (use assms in auto)

lemma AddTicket_ok:
  assumes "tickets_ok s" "ticket_map s (ID (T_Body t)) = None"
  shows "\<exists>s'. AddTicket s t = (s', None) \<and> tickets_ok s' \<and> ticket_map s' = (ticket_map s)(ID (T_Body t) \<mapsto> t)"
proof -
  have fresh: "ID (T_Body t) \<notin> fst ` set (entries s)"
    using assms(2) by (simp add: ticket_map_def map_of_eq_None_iff)
  then obtain s' where a: "AddTicket s t = (s', None)"
    by (cases rule: AddTicket_cases [of s t]) auto
  show ?thesis
    using map_of_insert_mset [OF AddTicket_mset [OF a]] AddTicket_rows [OF a] assms(1) fresh a
    by (simp add: tickets_ok_def ticket_map_def)
qed

section \<open>Removal\<close>

lemma RemoveTicket_find_split:
  "RemoveTicket_find tid ts j = Some k \<Longrightarrow>
    \<exists>as t bs. ts = as @ t # bs \<and> ID t = tid \<and> k = j + length as \<and> tid \<notin> ID ` set as"
proof (induction ts arbitrary: j)
  case (Cons u ts)
  show ?case
  proof (cases "ID u = tid")
    case True
    with Cons.prems show ?thesis by (auto intro!: exI [of _ "[]"])
  next
    case False
    with Cons.prems obtain as t bs where "ts = as @ t # bs \<and> ID t = tid \<and> k = (j + 1) + length as \<and> tid \<notin> ID ` set as"
      using Cons.IH [of "j + 1"] by auto
    with False show ?thesis by (intro exI [of _ "u # as"] exI [of _ t] exI [of _ bs]) auto
  qed
qed simp

lemma RemoveTicket_find_none: "RemoveTicket_find tid ts j = None \<longleftrightarrow> tid \<notin> ID ` set ts"
  by (induction ts arbitrary: j) auto

lemma RemoveTicket_loop_none:
  "RemoveTicket_loop s tid vs i = None \<longleftrightarrow> tid \<notin> fst ` set (entries vs)"
  by (induction vs arbitrary: i)
    (auto simp: Let_def RemoveTicket_find_none image_Un split: option.splits
      dest: RemoveTicket_find_split)

lemma RemoveTicket_loop_some:
  "RemoveTicket_loop s tid vs i = Some s' \<Longrightarrow> s = pre @ vs \<Longrightarrow> i = length pre \<Longrightarrow>
    \<exists>p v q as t bs. s = p @ v # q \<and> Tickets v = as @ t # bs \<and> ID t = tid \<and>
      s' = (if as = [] \<and> bs = [] then p @ q else p @ v\<lparr>Tickets := as @ bs\<rparr> # q)"
proof (induction vs arbitrary: i pre)
  case (Cons v vs)
  show ?case
  proof (cases "RemoveTicket_find tid (Tickets v) 0")
    case None
    with Cons.prems show ?thesis using Cons.IH [of "i + 1" "pre @ [v]"] by simp
  next
    case (Some j)
    from RemoveTicket_find_split [OF this] obtain as t bs where
      "Tickets v = as @ t # bs" "ID t = tid" "j = length as" by auto
    with Some Cons.prems show ?thesis
      by (intro exI [of _ pre] exI [of _ v] exI [of _ vs] exI [of _ as] exI [of _ t] exI [of _ bs])
        (auto simp: Let_def)
  qed
qed simp

lemma RemoveTicket_ok:
  assumes "tickets_ok s" "ticket_map s tid = Some t"
  shows "\<exists>s'. RemoveTicket s tid = (s', None) \<and> tickets_ok s' \<and> ticket_map s' = (ticket_map s)(tid := None) \<and>
    mset (entries s) = add_mset (tid, t) (mset (entries s'))"
proof -
  have "tid \<in> fst ` set (entries s)"
    using assms(2) by (auto simp: ticket_map_def intro: map_of_SomeD rev_image_eqI)
  then obtain s' where l: "RemoveTicket_loop s tid s 0 = Some s'"
    using RemoveTicket_loop_none by (metis not_Some_eq)
  from RemoveTicket_loop_some [OF this, of "[]"] obtain p v q as b bs where
    s: "s = p @ v # q" "Tickets v = as @ b # bs" "ID b = tid"
      "s' = (if as = [] \<and> bs = [] then p @ q else p @ v\<lparr>Tickets := as @ bs\<rparr> # q)" by auto
  have m: "mset (entries s) = add_mset (tid, \<lparr>T_Owner = D_Owner v, T_Body = b\<rparr>) (mset (entries s'))"
    using s by (auto simp: row_entries_def)
  have rows: "distinct (map D_Owner s') \<and> (\<forall>v \<in> set s'. Tickets v \<noteq> [])"
    using s assms(1) by (auto simp: tickets_ok_def)
  have "\<lparr>T_Owner = D_Owner v, T_Body = b\<rparr> = t"
    using map_of_remove_mset [OF m] assms by (simp add: tickets_ok_def ticket_map_def del: map_of_eq_Some_iff)
  with map_of_remove_mset [OF m] rows assms(1) l m show ?thesis
    by (simp add: tickets_ok_def ticket_map_def RemoveTicket_def)
qed

lemma RemoveTicket_missing:
  "ticket_map s tid = None \<Longrightarrow> RemoveTicket s tid = (s, Some (TicketNotFound tid))"
  using RemoveTicket_loop_none [of s tid s 0]
  by (simp add: RemoveTicket_def ticket_map_def map_of_eq_None_iff)

lemma RemoveTicket_map:
  assumes "tickets_ok s"
  shows "tickets_ok (fst (RemoveTicket s tid)) \<and> ticket_map (fst (RemoveTicket s tid)) = (ticket_map s)(tid := None)"
proof (cases "ticket_map s tid")
  case None
  then show ?thesis using assms by (simp add: RemoveTicket_missing fun_upd_idem)
next
  case (Some t)
  then show ?thesis using RemoveTicket_ok [OF assms Some] by auto
qed

lemma RemoveTicket_fold:
  "tickets_ok s \<Longrightarrow> tickets_ok (fold (\<lambda>tid s. fst (RemoveTicket s tid)) ids s) \<and>
    ticket_map (fold (\<lambda>tid s. fst (RemoveTicket s tid)) ids s) = (ticket_map s) |` (- set ids)"
proof (induction ids arbitrary: s)
  case (Cons tid ids)
  then show ?case
    using RemoveTicket_map [OF Cons.prems, of tid] by (auto simp: restrict_map_def fun_eq_iff)
qed (simp add: restrict_map_def)

section \<open>Expiry\<close>

definition expired :: "uint64 \<Rightarrow> Ticket \<Rightarrow> bool" where
  "expired timestamp t \<longleftrightarrow> ExpireTime (T_Body t) \<le> timestamp"

lemma ClearExpiredTickets_row_eq:
  "ClearExpiredTickets_row timestamp (Tickets v) (h, ids) =
    (h \<or> (\<exists>e \<in> set (row_entries v). \<not> expired timestamp (snd e)),
     ids @ map fst (filter (expired timestamp \<circ> snd) (row_entries v)))"
proof -
  have "ClearExpiredTickets_row timestamp ts (h, ids) =
    (h \<or> (\<exists>t \<in> set ts. \<not> ExpireTime t \<le> timestamp), ids @ map ID (filter (\<lambda>t. ExpireTime t \<le> timestamp) ts))" for ts
    by (induction ts arbitrary: h ids) auto
  then show ?thesis by (auto simp: row_entries_def expired_def filter_map o_def)
qed

lemma ClearExpiredTickets_scan_eq:
  "ClearExpiredTickets_scan timestamp s (h, ids) =
    (h \<or> (\<exists>e \<in> set (entries s). \<not> expired timestamp (snd e)),
     ids @ map fst (filter (expired timestamp \<circ> snd) (entries s)))"
  by (induction s arbitrary: h ids) (auto simp: ClearExpiredTickets_row_eq)

lemma tickets_ok_entries:
  "tickets_ok s \<Longrightarrow> (k, t) \<in> set (entries s) \<longleftrightarrow> ticket_map s k = Some t"
  by (simp add: tickets_ok_def ticket_map_def)

lemma ClearExpired_ok:
  assumes "tickets_ok s" "\<exists>k t. ticket_map s k = Some t \<and> \<not> expired timestamp t"
  shows "\<exists>s'. ClearExpiredTickets s timestamp = (s', None) \<and> tickets_ok s' \<and>
    (\<forall>k t. ticket_map s' k = Some t \<longleftrightarrow> ticket_map s k = Some t \<and> \<not> expired timestamp t)"
proof -
  let ?ids = "map fst (filter (expired timestamp \<circ> snd) (entries s))"
  have scan: "ClearExpiredTickets_scan timestamp s (False, []) = (True, ?ids)"
    using assms(2) by (simp add: ClearExpiredTickets_scan_eq Bex_def tickets_ok_entries [OF assms(1)])
  have ids: "k \<in> set ?ids \<longleftrightarrow> (\<exists>t. ticket_map s k = Some t \<and> expired timestamp t)" for k
    using tickets_ok_entries [OF assms(1)] by force
  have res: "ClearExpiredTickets s timestamp = (fold (\<lambda>tid s. fst (RemoveTicket s tid)) ?ids s, None)"
    by (cases "?ids = []") (simp_all add: ClearExpiredTickets_def scan)
  have "ticket_map (fold (\<lambda>tid s. fst (RemoveTicket s tid)) ?ids s) k = Some t \<longleftrightarrow>
      ticket_map s k = Some t \<and> \<not> expired timestamp t" for k t
    using RemoveTicket_fold [OF assms(1), of ?ids] ids [of k] by (auto simp: restrict_map_def)
  with res RemoveTicket_fold [OF assms(1), of ?ids] show ?thesis by blast
qed

lemma ClearExpired_none_left:
  assumes "tickets_ok s" "\<forall>k t. ticket_map s k = Some t \<longrightarrow> expired timestamp t"
  shows "ClearExpiredTickets s timestamp = (s, Some NoTicketLeft)"
  using assms(2) tickets_ok_entries [OF assms(1)]
  by (fastforce simp: ClearExpiredTickets_def ClearExpiredTickets_scan_eq)


lemma AddTicket_find_owner:
  "distinct (map D_Owner s) \<Longrightarrow> v \<in> set s \<Longrightarrow> fst (AddTicket_find s (D_Owner v) i) = Tickets v"
  by (induction s arbitrary: i) (auto simp: rev_image_eqI)

lemma AddTicket_refuses:
  assumes "tickets_ok s" "ticket_map s (ID (T_Body t)) = Some u" "T_Owner u = T_Owner t"
    "\<not> IsInGenesis (T_Body t)"
  shows "AddTicket s t = (s, Some (TicketExist (ID (T_Body t))))"
proof -
  have "(ID (T_Body t), u) \<in> set (entries s)" using assms(1,2) by (simp add: tickets_ok_entries)
  then obtain v where v: "v \<in> set s" "(ID (T_Body t), u) \<in> set (row_entries v)"
    by (auto simp: entries_def)
  then have "D_Owner v = T_Owner t" "\<exists>b \<in> set (Tickets v). ID b = ID (T_Body t)"
    using assms(3) by (auto simp: row_entries_def)
  moreover have "fst (AddTicket_find s (D_Owner v) 0) = Tickets v"
    using AddTicket_find_owner v(1) assms(1) by (simp add: tickets_ok_def)
  ultimately show ?thesis
    using assms(4) by (auto simp: AddTicket_def split: prod.splits)
qed

section \<open>The interface of the ticket pool\<close>

text \<open>
  What the state database and the consensus engine rely on: the pool is a finite map from
  identifiers to tickets, which the operations update one identifier at a time.
\<close>

locale ticket_pool =
  fixes ok :: "'p \<Rightarrow> bool"
    and lookup :: "'p \<Rightarrow> Hash \<rightharpoonup> Ticket"
    and insert :: "'p \<Rightarrow> Ticket \<Rightarrow> 'p \<times> 'e option"
    and remove :: "'p \<Rightarrow> Hash \<Rightarrow> 'p \<times> 'e option"
    and clear :: "'p \<Rightarrow> uint64 \<Rightarrow> 'p \<times> 'e option"
  assumes insert_law: "ok p \<Longrightarrow> lookup p (ID (T_Body t)) = None \<Longrightarrow>
        \<exists>p'. insert p t = (p', None) \<and> ok p' \<and> lookup p' = (lookup p)(ID (T_Body t) \<mapsto> t)"
    and remove_law: "ok p \<Longrightarrow> lookup p k = Some t \<Longrightarrow>
        \<exists>p'. remove p k = (p', None) \<and> ok p' \<and> lookup p' = (lookup p)(k := None)"
    and remove_missing: "ok p \<Longrightarrow> lookup p k = None \<Longrightarrow> \<exists>e. remove p k = (p, Some e)"
    and clear_law: "ok p \<Longrightarrow> lookup p k = Some t \<Longrightarrow> \<not> expired ts t \<Longrightarrow>
        \<exists>p'. clear p ts = (p', None) \<and> ok p' \<and>
          (\<forall>k t. lookup p' k = Some t \<longleftrightarrow> lookup p k = Some t \<and> \<not> expired ts t)"
begin

lemma insert_remove:
  assumes "ok p" "lookup p (ID (T_Body t)) = None"
  shows "\<exists>p' p''. insert p t = (p', None) \<and> remove p' (ID (T_Body t)) = (p'', None) \<and> ok p'' \<and> lookup p'' = lookup p"
proof -
  obtain p' where p': "insert p t = (p', None)" "ok p'" "lookup p' = (lookup p)(ID (T_Body t) \<mapsto> t)"
    using insert_law [OF assms] by blast
  then obtain p'' where "remove p' (ID (T_Body t)) = (p'', None)" "ok p''"
    "lookup p'' = (lookup p')(ID (T_Body t) := None)"
    using remove_law [OF p'(2)] by fastforce
  with p' assms(2) show ?thesis by (auto simp: fun_upd_idem)
qed

text \<open>Clearing at a time stamp and again at a later one leaves what the later one alone leaves.\<close>

lemma clear_clear:
  assumes "ok p" "ts \<le> ts'" "lookup p k = Some t" "\<not> expired ts' t"
  shows "\<exists>p' p'' q. clear p ts = (p', None) \<and> clear p' ts' = (p'', None) \<and> clear p ts' = (q, None) \<and>
    lookup p'' = lookup q"
proof -
  have t: "\<not> expired ts t" using assms(2,4) by (auto simp: expired_def)
  obtain p' where p': "clear p ts = (p', None)" "ok p'"
    "\<And>k t. lookup p' k = Some t \<longleftrightarrow> lookup p k = Some t \<and> \<not> expired ts t"
    using clear_law [OF assms(1,3) t] by blast
  then have "lookup p' k = Some t" using assms(3) t by simp
  from clear_law [OF p'(2) this assms(4)] obtain p'' where p'': "clear p' ts' = (p'', None)"
    "\<And>k t. lookup p'' k = Some t \<longleftrightarrow> lookup p' k = Some t \<and> \<not> expired ts' t" by blast
  obtain q where q: "clear p ts' = (q, None)"
    "\<And>k t. lookup q k = Some t \<longleftrightarrow> lookup p k = Some t \<and> \<not> expired ts' t"
    using clear_law [OF assms(1,3,4)] by blast
  have later: "expired ts' u" if "expired ts u" for u
    using that assms(2) by (auto simp: expired_def)
  have "lookup p'' j = Some u \<longleftrightarrow> lookup q j = Some u" for j u
    using p'(3) p''(2) q(2) later by auto
  then have "lookup p'' = lookup q" by (intro ext option_eqI)
  then show ?thesis using p' p'' q by auto
qed

end

interpretation tp: ticket_pool tickets_ok ticket_map AddTicket RemoveTicket ClearExpiredTickets
proof (unfold_locales, goal_cases)
  case (1 p t)
  then show ?case by (rule AddTicket_ok)
next
  case (2 p k t)
  then show ?case using RemoveTicket_ok by blast
next
  case (3 p k)
  then show ?case using RemoveTicket_missing by blast
next
  case (4 p k t ts)
  then have "\<exists>k t. ticket_map p k = Some t \<and> \<not> expired ts t" by blast
  from ClearExpired_ok [OF 4(1) this] show ?case .
qed

section \<open>Properties\<close>


lemmas ticket_eval = tickets_ok_def ticket_map_def row_entries_def expired_def IsInGenesis_def

definition examplePool :: "TicketsData list" where
  "examplePool = [\<lparr>D_Owner = 7, Tickets = [\<lparr>ID = 1, TB_Height = 1, TB_StartTime = 0, ExpireTime = 10\<rparr>,
      \<lparr>ID = 2, TB_Height = 1, TB_StartTime = 0, ExpireTime = 30\<rparr>]\<rparr>,
    \<lparr>D_Owner = 8, Tickets = [\<lparr>ID = 3, TB_Height = 2, TB_StartTime = 0, ExpireTime = 20\<rparr>]\<rparr>]"

lemma examplePool_ok: "tickets_ok examplePool"
  by (simp add: ticket_eval examplePool_def)


text \<open>
  On a well-formed pool \<open>RemoveTicket\<close> removes exactly the ticket with the given identifier and
  the row of its owner with the last ticket of the row, so that no empty row remains; when there
  is no such ticket it reports that and changes nothing.
\<close>

theorem ticket_remove_refines:
  assumes "tickets_ok s"
  shows "case ticket_map s tid of
      Some t \<Rightarrow> \<exists>s'. RemoveTicket s tid = (s', None) \<and> tickets_ok s' \<and> ticket_map s' = (ticket_map s)(tid := None) \<and>
        size (entries s') + 1 = size (entries s)
    | None \<Rightarrow> RemoveTicket s tid = (s, Some (TicketNotFound tid))"
proof (cases "ticket_map s tid")
  case None
  then show ?thesis by (simp add: RemoveTicket_missing)
next
  case (Some t)
  from RemoveTicket_ok [OF assms this] obtain s' where
    s': "RemoveTicket s tid = (s', None)" "tickets_ok s'" "ticket_map s' = (ticket_map s)(tid := None)"
    "mset (entries s) = add_mset (tid, t) (mset (entries s'))" by blast
  then have "size (entries s) = size (entries s') + 1"
    by (metis Suc_eq_plus1 size_add_mset size_mset)
  with s' Some show ?thesis by simp
qed

theorem ticket_remove_refines_witness:
  "\<exists>s'. RemoveTicket examplePool 3 = (s', None) \<and> tickets_ok s' \<and> ticket_map s' 3 = None"
  using ticket_remove_refines [OF examplePool_ok, of 3]
  by (auto simp: ticket_map_def row_entries_def examplePool_def)

text \<open>
  C23. On a well-formed pool \<open>ClearExpiredTickets\<close> keeps exactly the tickets that have not expired,
  and if that is none of them it reports so and leaves the pool as it was.
\<close>

theorem ticket_clear_refines:
  assumes "tickets_ok s"
  shows "if \<exists>k t. ticket_map s k = Some t \<and> timestamp < ExpireTime (T_Body t)
    then \<exists>s'. ClearExpiredTickets s timestamp = (s', None) \<and> tickets_ok s' \<and>
      (\<forall>k t. ticket_map s' k = Some t \<longleftrightarrow> ticket_map s k = Some t \<and> timestamp < ExpireTime (T_Body t))
    else ClearExpiredTickets s timestamp = (s, Some NoTicketLeft)"
  using ClearExpired_ok [OF assms, of timestamp] ClearExpired_none_left [OF assms, of timestamp]
  by (auto simp: expired_def not_le not_less)

theorem ticket_clear_refines_witness:
  "\<exists>s'. ClearExpiredTickets examplePool 20 = (s', None) \<and> tickets_ok s' \<and> ticket_map s' 3 = None"
proof -
  have "ticket_map examplePool 2 = Some \<lparr>T_Owner = 7, T_Body = \<lparr>ID = 2, TB_Height = 1, TB_StartTime = 0, ExpireTime = 30\<rparr>\<rparr>"
    "ticket_map examplePool 3 = Some \<lparr>T_Owner = 8, T_Body = \<lparr>ID = 3, TB_Height = 2, TB_StartTime = 0, ExpireTime = 20\<rparr>\<rparr>"
    by (simp_all add: ticket_map_def row_entries_def examplePool_def)
  note m = this
  then have "\<exists>k t. ticket_map examplePool k = Some t \<and> 20 < ExpireTime (T_Body t)"
    by (intro exI [of _ 2]) simp
  with ticket_clear_refines [OF examplePool_ok, of 20] obtain s' where
    s': "ClearExpiredTickets examplePool 20 = (s', None)" "tickets_ok s'"
    "\<forall>k t. ticket_map s' k = Some t \<longleftrightarrow> ticket_map examplePool k = Some t \<and> 20 < ExpireTime (T_Body t)" by auto
  then have "ticket_map s' 3 = None" using m(2) by (cases "ticket_map s' 3") auto
  with s' show ?thesis by blast
qed

end
