(* ===== verification/Ticket_Cache.thy ===== *)
theory Ticket_Cache
  imports Ticket
begin

text \<open>
  The ring buffer of ticket pools of \<open>core/state/statedb.go\<close> (\<open>CachedTicketSlice\<close>): the pools of the
  last blocks, found by their hash. The locks of the buffer are left out.
\<close>

record CachedTickets =
  C_hash :: Hash
  C_tickets :: "TicketsData list"

definition maxCachedTicketsCount :: nat where
  "maxCachedTicketsCount = 101"

record CachedTicketSlice =
  slots :: "CachedTickets list"
  slice_start :: nat
  slice_end :: nat

definition emptyTicketSlice :: CachedTicketSlice where
  "emptyTicketSlice = \<lparr>slots = replicate maxCachedTicketsCount \<lparr>C_hash = 0, C_tickets = []\<rparr>, slice_start = 0, slice_end = 0\<rparr>"

text \<open>The positions that the loop of \<open>Get\<close> visits: from \<open>start\<close> up to \<open>end\<close>, around the ring.\<close>

definition slice_positions :: "CachedTicketSlice \<Rightarrow> nat list" where
  "slice_positions cts = map (\<lambda>k. (slice_start cts + k) mod maxCachedTicketsCount)
     [0..<(slice_end cts + maxCachedTicketsCount - slice_start cts) mod maxCachedTicketsCount]"

definition cachedTickets_Get :: "CachedTicketSlice \<Rightarrow> Hash \<Rightarrow> TicketsData list option" where
  "cachedTickets_Get cts hash =
    (if hash = 0 then Some []
     else map_option C_tickets (find (\<lambda>v. C_hash v = hash) (map ((!) (slots cts)) (slice_positions cts))))"

definition cachedTickets_Add :: "CachedTicketSlice \<Rightarrow> Hash \<Rightarrow> TicketsData list \<Rightarrow> CachedTicketSlice" where
  "cachedTickets_Add cts hash tickets =
    (if cachedTickets_Get cts hash \<noteq> None then cts
     else let e = (slice_end cts + 1) mod maxCachedTicketsCount in
       \<lparr>slots = (slots cts)[slice_end cts := \<lparr>C_hash = hash, C_tickets = tickets\<rparr>],
        slice_start = (if e = slice_start cts then (slice_start cts + 1) mod maxCachedTicketsCount else slice_start cts),
        slice_end = e\<rparr>)"

section \<open>The buffer as a bounded queue\<close>

definition slice_ok :: "CachedTicketSlice \<Rightarrow> bool" where
  "slice_ok cts \<longleftrightarrow> length (slots cts) = maxCachedTicketsCount \<and> slice_start cts < maxCachedTicketsCount \<and>
     slice_end cts < maxCachedTicketsCount"

text \<open>The cached pools, the oldest first.\<close>

definition slice_list :: "CachedTicketSlice \<Rightarrow> CachedTickets list" where
  "slice_list cts = map ((!) (slots cts)) (slice_positions cts)"

text \<open>The distance from the start of a ring to a position on it.\<close>

lemma ring_distance:
  fixes s e n :: nat
  assumes "s < n" "e < n"
  shows "(s + (e + n - s) mod n) mod n = e"
  using assms by (cases "s \<le> e") (auto simp: mod_add_right_eq mod_if)

lemma ring_next:
  fixes s e n :: nat
  assumes "s < n" "e < n" "1 < n" "(e + 1) mod n \<noteq> s"
  shows "((e + 1) mod n + n - s) mod n = (e + n - s) mod n + 1"
  using assms by (cases "s \<le> e"; cases "e + 1 = n") (auto simp: mod_if)

lemma ring_full:
  fixes s e n :: nat
  assumes "s < n" "e < n" "1 < n" "(e + 1) mod n = s"
  shows "(e + n - s) mod n = n - 1 \<and> (s + n - (s + 1) mod n) mod n = n - 1"
  using assms by (cases "e + 1 = n"; cases "s + 1 = n") (auto simp: mod_if)

lemma ring_before:
  fixes s e n k :: nat
  assumes "s < n" "e < n" "k < (e + n - s) mod n"
  shows "(s + k) mod n \<noteq> e"
proof (cases "s \<le> e")
  case True
  then have "e + n - s = (e - s) + n" "e - s < n" using assms by auto
  then have "(e + n - s) mod n = e - s" by (simp only: mod_add_self2 mod_less)
  then have "s + k < e" using assms(3) by simp
  then show ?thesis using assms(2) by simp
next
  case False
  then have "(e + n - s) mod n = e + n - s" using assms by simp
  then have k: "s + k < e + n" using assms(3) by linarith
  show ?thesis
  proof (cases "s + k < n")
    case True
    then show ?thesis using False by simp
  next
    case ge: False
    then have "(s + k) mod n = s + k - n" using k assms(1,2) by (simp add: le_mod_geq)
    then show ?thesis using k ge by simp
  qed
qed

lemma map_Suc_tl: "0 < m \<Longrightarrow> map (\<lambda>k. f (Suc k)) [0..<m] = tl (map f [0..<m]) @ [f m]"
  by (rule nth_equalityI) (auto simp: nth_append nth_tl not_less intro!: arg_cong [where f = f])

lemma positions_neq_end:
  assumes "slice_ok cts" "p \<in> set (slice_positions cts)"
  shows "p \<noteq> slice_end cts \<and> p < maxCachedTicketsCount"
proof -
  let ?n = maxCachedTicketsCount and ?s = "slice_start cts" and ?e = "slice_end cts"
  have n: "?s < ?n" "?e < ?n" using assms(1) by (simp_all add: slice_ok_def)
  obtain k where k: "k < (?e + ?n - ?s) mod ?n" "p = (?s + k) mod ?n"
    using assms(2) by (auto simp: slice_positions_def)
  with ring_before [OF n k(1)] n show ?thesis by simp
qed

lemma map_slots_update:
  "slice_ok cts \<Longrightarrow> map ((!) ((slots cts)[slice_end cts := x])) (slice_positions cts) = slice_list cts"
  using positions_neq_end [of cts] by (fastforce simp: slice_list_def intro: nth_list_update_neq)

lemma cachedTickets_Add_list:
  assumes "slice_ok cts" "cachedTickets_Get cts hash = None"
  shows "slice_ok (cachedTickets_Add cts hash ts) \<and>
    slice_list (cachedTickets_Add cts hash ts) =
      (if length (slice_list cts) = maxCachedTicketsCount - 1 then tl (slice_list cts) else slice_list cts) @
      [\<lparr>C_hash = hash, C_tickets = ts\<rparr>]"
proof -
  let ?n = maxCachedTicketsCount and ?s = "slice_start cts" and ?e = "slice_end cts"
  let ?x = "\<lparr>C_hash = hash, C_tickets = ts\<rparr>" and ?d = "(slice_end cts + maxCachedTicketsCount - slice_start cts) mod maxCachedTicketsCount"
  let ?c = "cachedTickets_Add cts hash ts"
  have n: "?s < ?n" "?e < ?n" "1 < ?n" "length (slots cts) = ?n"
    using assms(1) by (simp_all add: slice_ok_def maxCachedTicketsCount_def)
  have c: "slots ?c = (slots cts)[?e := ?x]" "slice_end ?c = (?e + 1) mod ?n"
    "slice_start ?c = (if (?e + 1) mod ?n = ?s then (?s + 1) mod ?n else ?s)"
    using assms(2) by (simp_all add: cachedTickets_Add_def Let_def)
  have len: "length (slice_list cts) = ?d" by (simp add: slice_list_def slice_positions_def)
  have ok: "slice_ok ?c" using n by (auto simp: slice_ok_def c)
  have last: "(?s + ?d) mod ?n = ?e" by (rule ring_distance [OF n(1,2)])
  have new: "(slots cts)[?e := ?x] ! ?e = ?x" using n by simp
  have d: "?d = ?n - 1 \<longleftrightarrow> (?e + 1) mod ?n = ?s"
  proof (cases "(?e + 1) mod ?n = ?s")
    case False
    have "((?e + 1) mod ?n + ?n - ?s) mod ?n < ?n" using n by simp
    then show ?thesis using ring_next [OF n(1-3) False] False by simp
  qed (use ring_full [OF n(1-3)] in simp)
  show ?thesis
  proof (cases "(?e + 1) mod ?n = ?s")
    case False
    have "slice_positions ?c = slice_positions cts @ [?e]"
      using False ring_next [OF n(1-3) False] last by (simp add: slice_positions_def c)
    then show ?thesis using ok len d False map_slots_update [OF assms(1)] new
      by (simp add: slice_list_def c)
  next
    case True
    have "slice_positions ?c = map (\<lambda>k. ((?s + 1) mod ?n + k) mod ?n) [0..<?n - 1]"
      using True ring_full [OF n(1-3) True] by (simp add: slice_positions_def c)
    also have "\<dots> = map (\<lambda>k. (?s + Suc k) mod ?n) [0..<?n - 1]"
      by (simp add: mod_add_left_eq)
    also have "\<dots> = tl (slice_positions cts) @ [?e]"
      using map_Suc_tl [of "?n - 1" "\<lambda>k. (?s + k) mod ?n"] n(3) last d True
      by (simp add: slice_positions_def)
    finally have p: "slice_positions ?c = tl (slice_positions cts) @ [?e]" .
    have "map ((!) ((slots cts)[?e := ?x])) (tl (slice_positions cts)) = tl (slice_list cts)"
      by (simp add: map_tl map_slots_update [OF assms(1)])
    then show ?thesis using ok len d True new p by (simp add: slice_list_def c)
  qed
qed

lemma find_snoc: "\<forall>x \<in> set xs. \<not> P x \<Longrightarrow> P y \<Longrightarrow> find P (xs @ [y]) = Some y"
  by (induction xs) auto

lemma cachedTickets_Get_list:
  "cachedTickets_Get cts hash = (if hash = 0 then Some [] else map_option C_tickets (find (\<lambda>v. C_hash v = hash) (slice_list cts)))"
  by (simp add: cachedTickets_Get_def slice_list_def)

section \<open>Properties\<close>

text \<open>
  C24. The ring buffer is a queue of at most 100 pools: adding a pool under a hash that is not cached
  appends it, drops the oldest one exactly when 100 are there already, and keeps the buffer well
  formed; afterwards the hash is found.
\<close>

theorem ticket_cache_queue:
  assumes "slice_ok cts" "cachedTickets_Get cts hash = None"
  shows "slice_ok (cachedTickets_Add cts hash ts) \<and>
    slice_list (cachedTickets_Add cts hash ts) =
      (if length (slice_list cts) = 100 then tl (slice_list cts) else slice_list cts) @ [\<lparr>C_hash = hash, C_tickets = ts\<rparr>] \<and>
    cachedTickets_Get (cachedTickets_Add cts hash ts) hash = Some ts"
proof -
  note add = cachedTickets_Add_list [OF assms, of ts]
  have new: "hash \<noteq> 0" "\<forall>v \<in> set (slice_list cts). C_hash v \<noteq> hash"
    using assms(2) by (auto simp: cachedTickets_Get_list find_None_iff split: if_splits)
  then have "\<forall>v \<in> set (tl (slice_list cts)). C_hash v \<noteq> hash"
    by (cases "slice_list cts") simp_all
  then have "find (\<lambda>v. C_hash v = hash) (slice_list (cachedTickets_Add cts hash ts)) = Some \<lparr>C_hash = hash, C_tickets = ts\<rparr>"
    using add new(2) by (auto intro: find_snoc)
  then show ?thesis using add new(1) by (simp add: cachedTickets_Get_list maxCachedTicketsCount_def)
qed

theorem ticket_cache_queue_witness:
  "cachedTickets_Get (cachedTickets_Add emptyTicketSlice 1 []) 1 = Some []"
proof -
  have "slice_ok emptyTicketSlice" "cachedTickets_Get emptyTicketSlice 1 = None"
    by (simp_all add: slice_ok_def emptyTicketSlice_def cachedTickets_Get_def slice_positions_def maxCachedTicketsCount_def)
  from ticket_cache_queue [OF this, of "[]"] show ?thesis by blast
qed

end
