(* ===== verification/Fsn_Types.thy ===== *)
theory Fsn_Types
  imports Efsn_Prelude
begin

text \<open>
  The transaction parameters, assets and swaps of \<open>common/types.go\<close>, the fee table of the special
  calls and the \<open>Check\<close> method of every parameter. A field whose name occurs in several structs
  carries a prefix naming its struct. A \<open>*big.Int\<close> that a \<open>Check\<close> compares with \<open>nil\<close> is an
  \<open>int option\<close>. Strings are lists of bytes, as \<open>len\<close> counts them.
\<close>

section \<open>Special addresses and calls\<close>

definition FSNCallAddress :: Address where
  "FSNCallAddress = 0xffffffffffffffffffffffffffffffffffffffff"

definition SystemAssetID :: Hash where
  "SystemAssetID = 0xffffffffffffffffffffffffffffffffffffffffffffffffffffffffffffffff"

definition OwnerUSANAssetID :: Hash where
  "OwnerUSANAssetID = 0xfffffffffffffffffffffffffffffffffffffffffffffffffffffffffffffffe"

definition NotationKeyAddress :: Address where
  "NotationKeyAddress = 0xfffffffffffffffffffffffffffffffffffffffd"

definition AssetKeyAddress :: Address where
  "AssetKeyAddress = 0xfffffffffffffffffffffffffffffffffffffffc"

definition TicketKeyAddress :: Address where
  "TicketKeyAddress = 0xfffffffffffffffffffffffffffffffffffffffb"

definition SwapKeyAddress :: Address where
  "SwapKeyAddress = 0xfffffffffffffffffffffffffffffffffffffffa"

definition MultiSwapKeyAddress :: Address where
  "MultiSwapKeyAddress = 0xfffffffffffffffffffffffffffffffffffffff9"

definition IsSpecialKeyAddress :: "Address \<Rightarrow> bool" where
  "IsSpecialKeyAddress addr \<longleftrightarrow> addr = TicketKeyAddress \<or> addr = NotationKeyAddress \<or>
     addr = AssetKeyAddress \<or> addr = SwapKeyAddress \<or> addr = MultiSwapKeyAddress"

datatype FSNCallFunc =
    GenNotationFunc | GenAssetFunc | SendAssetFunc | TimeLockFunc | BuyTicketFunc
  | OldAssetValueChangeFunc | MakeSwapFunc | RecallSwapFunc | TakeSwapFunc | EmptyFunc
  | MakeSwapFuncExt | TakeSwapFuncExt | AssetValueChangeFunc | MakeMultiSwapFunc
  | RecallMultiSwapFunc | TakeMultiSwapFunc
  | OtherFunc uint8

text \<open>The function of a code, the constants numbered by \<open>iota\<close> from 0 on.\<close>

definition funcOfCode :: "uint8 \<Rightarrow> FSNCallFunc" where
  "funcOfCode c = (let fs = [GenNotationFunc, GenAssetFunc, SendAssetFunc, TimeLockFunc, BuyTicketFunc,
       OldAssetValueChangeFunc, MakeSwapFunc, RecallSwapFunc, TakeSwapFunc, EmptyFunc,
       MakeSwapFuncExt, TakeSwapFuncExt, AssetValueChangeFunc, MakeMultiSwapFunc,
       RecallMultiSwapFunc, TakeMultiSwapFunc]
     in if unat c < length fs then fs ! unat c else OtherFunc c)"

definition IsFsnCall :: "Address option \<Rightarrow> bool" where
  "IsFsnCall addr \<longleftrightarrow> addr = Some FSNCallAddress"

definition GetFsnCallFee :: "Address option \<Rightarrow> FSNCallFunc \<Rightarrow> int" where
  "GetFsnCallFee addr funcType =
    (if \<not> IsFsnCall addr then 0
     else case funcType of
       GenNotationFunc \<Rightarrow> 100000000000000000
     | GenAssetFunc \<Rightarrow> 10000000000000000
     | MakeSwapFunc \<Rightarrow> 1000000000000000
     | MakeSwapFuncExt \<Rightarrow> 1000000000000000
     | MakeMultiSwapFunc \<Rightarrow> 1000000000000000
     | TimeLockFunc \<Rightarrow> 1000000000000000
     | _ \<Rightarrow> 0)"

section \<open>Parameters, assets and swaps\<close>

record FSNCallParam =
  Func :: uint8
  Data :: bytes

record GenAssetParam =
  GA_Name :: string
  GA_Symbol :: string
  GA_Decimals :: uint8
  GA_Total :: "int option"
  GA_CanChange :: bool
  GA_Description :: string

record BuyTicketParam =
  BT_Start :: uint64
  BT_End :: uint64

record SendAssetParam =
  SA_AssetID :: Hash
  SA_To :: Address
  SA_Value :: "int option"

record AssetValueChangeExParam =
  AV_AssetID :: Hash
  AV_To :: Address
  AV_Value :: "int option"
  AV_IsInc :: bool
  AV_TransacData :: string

record TimeLockParam =
  TL_Type :: uint64
  TL_AssetID :: Hash
  TL_To :: Address
  TL_StartTime :: uint64
  TL_EndTime :: uint64
  TL_Value :: "int option"

definition AssetToTimeLock :: uint64 where "AssetToTimeLock = 0"
definition TimeLockToTimeLock :: uint64 where "TimeLockToTimeLock = 1"
definition TimeLockToAsset :: uint64 where "TimeLockToAsset = 2"

record MakeSwapParam =
  MS_FromAssetID :: Hash
  MS_FromStartTime :: uint64
  MS_FromEndTime :: uint64
  MS_MinFromAmount :: "int option"
  MS_ToAssetID :: Hash
  MS_ToStartTime :: uint64
  MS_ToEndTime :: uint64
  MS_MinToAmount :: "int option"
  MS_SwapSize :: "int option"
  MS_Targes :: "Address list"
  MS_Time :: int
  MS_Description :: string

record MakeMultiSwapParam =
  MM_FromAssetID :: "Hash list"
  MM_FromStartTime :: "uint64 list"
  MM_FromEndTime :: "uint64 list"
  MM_MinFromAmount :: "int option list"
  MM_ToAssetID :: "Hash list"
  MM_ToStartTime :: "uint64 list"
  MM_ToEndTime :: "uint64 list"
  MM_MinToAmount :: "int option list"
  MM_SwapSize :: "int option"
  MM_Targes :: "Address list"
  MM_Time :: int
  MM_Description :: string

record RecallSwapParam =
  RS_SwapID :: Hash

record TakeSwapParam =
  TS_SwapID :: Hash
  TS_Size :: "int option"

record Asset =
  A_ID :: Hash
  A_Owner :: Address
  A_Name :: string
  A_Symbol :: string
  A_Decimals :: uint8
  A_Total :: int
  A_CanChange :: bool
  A_Description :: string

record Swap =
  S_ID :: Hash
  S_Owner :: Address
  S_FromAssetID :: Hash
  S_FromStartTime :: uint64
  S_FromEndTime :: uint64
  S_MinFromAmount :: int
  S_ToAssetID :: Hash
  S_ToStartTime :: uint64
  S_ToEndTime :: uint64
  S_MinToAmount :: int
  S_SwapSize :: int
  S_Targes :: "Address list"
  S_Time :: int
  S_Description :: string
  S_Notation :: uint64

record MultiSwap =
  M_ID :: Hash
  M_Owner :: Address
  M_FromAssetID :: "Hash list"
  M_FromStartTime :: "uint64 list"
  M_FromEndTime :: "uint64 list"
  M_MinFromAmount :: "int list"
  M_ToAssetID :: "Hash list"
  M_ToStartTime :: "uint64 list"
  M_ToEndTime :: "uint64 list"
  M_MinToAmount :: "int list"
  M_SwapSize :: int
  M_Targes :: "Address list"
  M_Time :: int
  M_Description :: string
  M_Notation :: uint64

definition ToAsset :: "GenAssetParam \<Rightarrow> Asset option" where
  "ToAsset p = do { total \<leftarrow> GA_Total p;
     Some \<lparr>A_ID = 0, A_Owner = 0, A_Name = GA_Name p, A_Symbol = GA_Symbol p, A_Decimals = GA_Decimals p,
       A_Total = total, A_CanChange = GA_CanChange p, A_Description = GA_Description p\<rparr> }"

definition Asset_DeepCopy :: "Asset \<Rightarrow> Asset" where
  "Asset_DeepCopy u = \<lparr>A_ID = A_ID u, A_Owner = A_Owner u, A_Name = A_Name u, A_Symbol = A_Symbol u,
     A_Decimals = A_Decimals u, A_Total = A_Total u, A_CanChange = A_CanChange u, A_Description = []\<rparr>"

definition SystemAsset :: Asset where
  "SystemAsset = \<lparr>A_ID = SystemAssetID, A_Owner = 0, A_Name = ''Fusion'', A_Symbol = ''FSN'', A_Decimals = 18,
     A_Total = 81920000 * 1000000000000000000, A_CanChange = False, A_Description = ''https://fusion.org''\<rparr>"

definition Swap_DeepCopy :: "Swap \<Rightarrow> Swap" where
  "Swap_DeepCopy s = \<lparr>S_ID = S_ID s, S_Owner = S_Owner s, S_FromAssetID = S_FromAssetID s,
     S_FromStartTime = S_FromStartTime s, S_FromEndTime = S_FromEndTime s, S_MinFromAmount = S_MinFromAmount s,
     S_ToAssetID = S_ToAssetID s, S_ToStartTime = S_ToStartTime s, S_ToEndTime = S_ToEndTime s,
     S_MinToAmount = S_MinToAmount s, S_SwapSize = S_SwapSize s, S_Targes = S_Targes s, S_Time = S_Time s,
     S_Description = S_Description s, S_Notation = 0\<rparr>"

text \<open>\<open>SetBytes (v.Bytes ())\<close> keeps the magnitude of a number and loses its sign.\<close>

definition MultiSwap_DeepCopy :: "MultiSwap \<Rightarrow> MultiSwap" where
  "MultiSwap_DeepCopy s = \<lparr>M_ID = M_ID s, M_Owner = M_Owner s, M_FromAssetID = M_FromAssetID s,
     M_FromStartTime = M_FromStartTime s, M_FromEndTime = M_FromEndTime s, M_MinFromAmount = map abs (M_MinFromAmount s),
     M_ToAssetID = M_ToAssetID s, M_ToStartTime = M_ToStartTime s, M_ToEndTime = M_ToEndTime s,
     M_MinToAmount = map abs (M_MinToAmount s), M_SwapSize = M_SwapSize s, M_Targes = M_Targes s, M_Time = M_Time s,
     M_Description = M_Description s, M_Notation = 0\<rparr>"

section \<open>Checks\<close>

datatype check_error =
    SwapTakerMismatch
  | GenAssetMustBeSet | GenAssetDecimals | GenAssetDescriptionLength | GenAssetNameLength | GenAssetSymbolLength
  | ValueNotPositive | ReceiverZero | EmptyAssetID
  | StartAfterEnd | EndBeforeBlock
  | TicketTooShort | TicketFuture | TicketExpiresSoon
  | TransacDataLength
  | AmountNotPositive | DescriptionLength | FromTotalTooLarge | ToTotalTooLarge
  | FromStartAfterEnd | ToStartAfterEnd | FromEnded | ToEnded
  | SizeOutOfRange
  | MinFromMissing | MinToMissing | SwapSizeNotPositive | FromLengths | ToLengths

text \<open>\<open>v == nil || v.Cmp(Big0) <= 0\<close>\<close>

definition notPositive :: "int option \<Rightarrow> bool" where
  "notPositive v = (case v of None \<Rightarrow> True | Some i \<Rightarrow> i \<le> 0)"

definition CheckSwapTargets :: "Address list \<Rightarrow> Address \<Rightarrow> check_error option" where
  "CheckSwapTargets targets addr =
    (if targets = [] then None else if addr \<in> set targets then None else Some SwapTakerMismatch)"

definition GenAsset_Check :: "GenAssetParam \<Rightarrow> check_error option" where
  "GenAsset_Check p =
    (if GA_Name p = [] \<or> GA_Symbol p = [] \<or> (case GA_Total p of None \<Rightarrow> True | Some t \<Rightarrow> t < 0) then Some GenAssetMustBeSet
     else if GA_Decimals p > 18 then Some GenAssetDecimals
     else if length (GA_Description p) > 1024 then Some GenAssetDescriptionLength
     else if length (GA_Name p) > 128 then Some GenAssetNameLength
     else if length (GA_Symbol p) > 64 then Some GenAssetSymbolLength
     else None)"

definition SendAsset_Check :: "SendAssetParam \<Rightarrow> check_error option" where
  "SendAsset_Check p =
    (if notPositive (SA_Value p) then Some ValueNotPositive
     else if SA_To p = 0 then Some ReceiverZero
     else if SA_AssetID p = 0 then Some EmptyAssetID
     else None)"

definition TimeLock_Check :: "TimeLockParam \<Rightarrow> uint64 \<Rightarrow> check_error option" where
  "TimeLock_Check p timestamp =
    (if notPositive (TL_Value p) then Some ValueNotPositive
     else if TL_StartTime p > TL_EndTime p then Some StartAfterEnd
     else if TL_EndTime p < timestamp then Some EndBeforeBlock
     else None)"

text \<open>\<open>adjust\<close> is an \<open>int64\<close>; the conversion of \<open>7*24*3600+adjust\<close> to \<open>uint64\<close> keeps its bits.\<close>

definition BuyTicket_Check :: "BuyTicketParam \<Rightarrow> uint64 \<Rightarrow> 64 word \<Rightarrow> check_error option" where
  "BuyTicket_Check p timestamp adjust =
    (let start = BT_Start p; ende = BT_End p in
     if ende \<le> start \<or> ende < start + 30 * 24 * 3600 then Some TicketTooShort
     else if timestamp \<noteq> 0 \<and> start > timestamp + 3 * 3600 then Some TicketFuture
     else if timestamp \<noteq> 0 \<and> ende < timestamp + (7 * 24 * 3600 + adjust) then Some TicketExpiresSoon
     else None)"

definition AssetValueChangeEx_Check :: "AssetValueChangeExParam \<Rightarrow> check_error option" where
  "AssetValueChangeEx_Check p =
    (if notPositive (AV_Value p) then Some ValueNotPositive
     else if length (AV_TransacData p) > 256 then Some TransacDataLength
     else None)"

definition bigMul :: "int option \<Rightarrow> int option \<Rightarrow> int option" where
  "bigMul x y = do { a \<leftarrow> x; b \<leftarrow> y; Some (a * b) }"

definition MakeSwap_Check :: "MakeSwapParam \<Rightarrow> uint64 \<Rightarrow> check_error option" where
  "MakeSwap_Check p timestamp =
    (if notPositive (MS_MinFromAmount p) \<or> notPositive (MS_MinToAmount p) \<or> notPositive (MS_SwapSize p)
     then Some AmountNotPositive
     else if length (MS_Description p) > 1024 then Some DescriptionLength
     else if notPositive (bigMul (MS_MinFromAmount p) (MS_SwapSize p)) then Some FromTotalTooLarge
     else if notPositive (bigMul (MS_MinToAmount p) (MS_SwapSize p)) then Some ToTotalTooLarge
     else if MS_FromStartTime p > MS_FromEndTime p then Some FromStartAfterEnd
     else if MS_ToStartTime p > MS_ToEndTime p then Some ToStartAfterEnd
     else if MS_FromEndTime p \<le> timestamp then Some FromEnded
     else if MS_ToEndTime p \<le> timestamp then Some ToEnded
     else None)"

definition TakeSwap_Check :: "TakeSwapParam \<Rightarrow> Swap \<Rightarrow> uint64 \<Rightarrow> check_error option" where
  "TakeSwap_Check p swap timestamp =
    (if notPositive (TS_Size p) \<or> (case TS_Size p of None \<Rightarrow> True | Some n \<Rightarrow> n > S_SwapSize swap) then Some SizeOutOfRange
     else if S_FromEndTime swap \<le> timestamp then Some FromEnded
     else if S_ToEndTime swap \<le> timestamp then Some ToEnded
     else None)"

text \<open>The two loops of \<open>MakeMultiSwapParam.Check\<close>; the lists have the same length when they run.\<close>

fun MakeMultiSwap_from :: "int option \<Rightarrow> uint64 \<Rightarrow> int option list \<Rightarrow> uint64 list \<Rightarrow> uint64 list \<Rightarrow> check_error option" where
  "MakeMultiSwap_from n timestamp (a # as) (s # ss) (e # es) =
    (if notPositive a then Some AmountNotPositive
     else if notPositive (bigMul a n) then Some FromTotalTooLarge
     else if s > e then Some FromStartAfterEnd
     else if e \<le> timestamp then Some FromEnded
     else MakeMultiSwap_from n timestamp as ss es)"
| "MakeMultiSwap_from n timestamp _ _ _ = None"

fun MakeMultiSwap_to :: "int option \<Rightarrow> uint64 \<Rightarrow> int option list \<Rightarrow> uint64 list \<Rightarrow> uint64 list \<Rightarrow> check_error option" where
  "MakeMultiSwap_to n timestamp (a # as) (s # ss) (e # es) =
    (if notPositive a then Some AmountNotPositive
     else if notPositive (bigMul a n) then Some ToTotalTooLarge
     else if s > e then Some ToStartAfterEnd
     else if e \<le> timestamp then Some ToEnded
     else MakeMultiSwap_to n timestamp as ss es)"
| "MakeMultiSwap_to n timestamp _ _ _ = None"

definition MakeMultiSwap_Check :: "MakeMultiSwapParam \<Rightarrow> uint64 \<Rightarrow> check_error option" where
  "MakeMultiSwap_Check p timestamp =
    (if MM_MinFromAmount p = [] then Some MinFromMissing
     else if MM_MinToAmount p = [] then Some MinToMissing
     else if notPositive (MM_SwapSize p) then Some SwapSizeNotPositive
     else if length (MM_MinFromAmount p) \<noteq> length (MM_FromEndTime p) \<or>
        length (MM_MinFromAmount p) \<noteq> length (MM_FromAssetID p) \<or>
        length (MM_MinFromAmount p) \<noteq> length (MM_FromStartTime p) then Some FromLengths
     else if length (MM_MinToAmount p) \<noteq> length (MM_ToEndTime p) \<or>
        length (MM_MinToAmount p) \<noteq> length (MM_ToAssetID p) \<or>
        length (MM_MinToAmount p) \<noteq> length (MM_ToStartTime p) then Some ToLengths
     else case MakeMultiSwap_from (MM_SwapSize p) timestamp (MM_MinFromAmount p) (MM_FromStartTime p) (MM_FromEndTime p) of
       Some e \<Rightarrow> Some e
     | None \<Rightarrow> (case MakeMultiSwap_to (MM_SwapSize p) timestamp (MM_MinToAmount p) (MM_ToStartTime p) (MM_ToEndTime p) of
         Some e \<Rightarrow> Some e
       | None \<Rightarrow> if length (MM_Description p) > 1024 then Some DescriptionLength else None))"

definition TakeMultiSwap_Check :: "TakeSwapParam \<Rightarrow> MultiSwap \<Rightarrow> uint64 \<Rightarrow> check_error option" where
  "TakeMultiSwap_Check p swap timestamp =
    (if notPositive (TS_Size p) \<or> (case TS_Size p of None \<Rightarrow> True | Some n \<Rightarrow> n > M_SwapSize swap) then Some SizeOutOfRange
     else if \<exists>e \<in> set (M_FromEndTime swap). e \<le> timestamp then Some FromEnded
     else if \<exists>e \<in> set (M_ToEndTime swap). e \<le> timestamp then Some ToEnded
     else None)"

section \<open>What the checks establish\<close>

lemma notPositive_iff: "\<not> notPositive v \<longleftrightarrow> (\<exists>i > 0. v = Some i)"
  by (cases v) (auto simp: notPositive_def)

lemma bigMul_positive: "\<not> notPositive x \<Longrightarrow> \<not> notPositive y \<Longrightarrow> \<not> notPositive (bigMul x y)"
  by (auto simp: notPositive_iff bigMul_def)

text \<open>One leg of a swap: a positive amount in an interval that is not over.\<close>

definition leg_ok :: "uint64 \<Rightarrow> int option \<Rightarrow> uint64 \<Rightarrow> uint64 \<Rightarrow> bool" where
  "leg_ok timestamp a s e \<longleftrightarrow> \<not> notPositive a \<and> s \<le> e \<and> timestamp < e"

lemma MakeSwap_Check_ok:
  "MakeSwap_Check p timestamp = None \<longleftrightarrow> leg_ok timestamp (MS_MinFromAmount p) (MS_FromStartTime p) (MS_FromEndTime p) \<and>
     leg_ok timestamp (MS_MinToAmount p) (MS_ToStartTime p) (MS_ToEndTime p) \<and> \<not> notPositive (MS_SwapSize p) \<and>
     length (MS_Description p) \<le> 1024"
  using bigMul_positive by (auto simp: MakeSwap_Check_def leg_ok_def not_le not_less)

lemma MakeMultiSwap_from_ok:
  assumes "length ss = length as" "length es = length as" "\<not> notPositive n"
  shows "MakeMultiSwap_from n timestamp as ss es = None \<longleftrightarrow> (\<forall>i < length as. leg_ok timestamp (as ! i) (ss ! i) (es ! i))"
  using assms
proof (induction as arbitrary: ss es)
  case (Cons a as)
  then obtain s ss' e es' where "ss = s # ss'" "es = e # es'" by (metis length_Suc_conv)
  with Cons show ?case
    by (auto simp: leg_ok_def not_le not_less bigMul_positive All_less_Suc2)
qed simp

lemma MakeMultiSwap_to_ok:
  assumes "length ss = length as" "length es = length as" "\<not> notPositive n"
  shows "MakeMultiSwap_to n timestamp as ss es = None \<longleftrightarrow> (\<forall>i < length as. leg_ok timestamp (as ! i) (ss ! i) (es ! i))"
  using assms
proof (induction as arbitrary: ss es)
  case (Cons a as)
  then obtain s ss' e es' where "ss = s # ss'" "es = e # es'" by (metis length_Suc_conv)
  with Cons show ?case
    by (auto simp: leg_ok_def not_le not_less bigMul_positive All_less_Suc2)
qed simp

text \<open>The swap that the legs \<open>i\<close> and \<open>j\<close> of a multi swap make on their own.\<close>

definition swapLeg :: "MakeMultiSwapParam \<Rightarrow> nat \<Rightarrow> nat \<Rightarrow> MakeSwapParam" where
  "swapLeg p i j = \<lparr>MS_FromAssetID = MM_FromAssetID p ! i, MS_FromStartTime = MM_FromStartTime p ! i,
     MS_FromEndTime = MM_FromEndTime p ! i, MS_MinFromAmount = MM_MinFromAmount p ! i,
     MS_ToAssetID = MM_ToAssetID p ! j, MS_ToStartTime = MM_ToStartTime p ! j, MS_ToEndTime = MM_ToEndTime p ! j,
     MS_MinToAmount = MM_MinToAmount p ! j, MS_SwapSize = MM_SwapSize p, MS_Targes = MM_Targes p,
     MS_Time = MM_Time p, MS_Description = MM_Description p\<rparr>"

definition sameLengths :: "MakeMultiSwapParam \<Rightarrow> bool" where
  "sameLengths p \<longleftrightarrow> length (MM_FromAssetID p) = length (MM_MinFromAmount p) \<and>
     length (MM_FromStartTime p) = length (MM_MinFromAmount p) \<and> length (MM_FromEndTime p) = length (MM_MinFromAmount p) \<and>
     length (MM_ToAssetID p) = length (MM_MinToAmount p) \<and>
     length (MM_ToStartTime p) = length (MM_MinToAmount p) \<and> length (MM_ToEndTime p) = length (MM_MinToAmount p)"

lemma MakeMultiSwap_Check_ok:
  "MakeMultiSwap_Check p timestamp = None \<longleftrightarrow>
     sameLengths p \<and> MM_MinFromAmount p \<noteq> [] \<and> MM_MinToAmount p \<noteq> [] \<and> \<not> notPositive (MM_SwapSize p) \<and>
     length (MM_Description p) \<le> 1024 \<and>
     (\<forall>i < length (MM_MinFromAmount p). leg_ok timestamp (MM_MinFromAmount p ! i) (MM_FromStartTime p ! i) (MM_FromEndTime p ! i)) \<and>
     (\<forall>j < length (MM_MinToAmount p). leg_ok timestamp (MM_MinToAmount p ! j) (MM_ToStartTime p ! j) (MM_ToEndTime p ! j))"
proof (cases "sameLengths p \<and> \<not> notPositive (MM_SwapSize p)")
  case True
  then show ?thesis
    using MakeMultiSwap_from_ok [of "MM_FromStartTime p" "MM_MinFromAmount p" "MM_FromEndTime p" "MM_SwapSize p" timestamp]
      MakeMultiSwap_to_ok [of "MM_ToStartTime p" "MM_MinToAmount p" "MM_ToEndTime p" "MM_SwapSize p" timestamp]
    by (auto simp: MakeMultiSwap_Check_def sameLengths_def split: option.split)
next
  case False
  then show ?thesis by (auto simp: MakeMultiSwap_Check_def sameLengths_def)
qed

lemma all_pairs_iff:
  "0 < n \<Longrightarrow> 0 < m \<Longrightarrow>
    (\<forall>i j. i < n \<and> j < m \<longrightarrow> P i \<and> Q j \<and> C) \<longleftrightarrow> (\<forall>i<n::nat. P i) \<and> (\<forall>j<m::nat. Q j) \<and> C"
  by auto

section \<open>Properties\<close>

text \<open>
  The check of a multi swap accepts exactly the parameters whose lists have matching,
  non-zero lengths and in which every pair of a \<open>from\<close> and a \<open>to\<close> leg is a swap that the check of a
  plain swap accepts.
\<close>

theorem multi_swap_check_legs:
  "MakeMultiSwap_Check p timestamp = None \<longleftrightarrow>
     sameLengths p \<and> MM_MinFromAmount p \<noteq> [] \<and> MM_MinToAmount p \<noteq> [] \<and>
     (\<forall>i j. i < length (MM_MinFromAmount p) \<and> j < length (MM_MinToAmount p) \<longrightarrow>
        MakeSwap_Check (swapLeg p i j) timestamp = None)"
proof (cases "MM_MinFromAmount p = [] \<or> MM_MinToAmount p = []")
  case True
  then show ?thesis by (auto simp: MakeMultiSwap_Check_ok)
next
  case False
  then have pos: "0 < length (MM_MinFromAmount p)" "0 < length (MM_MinToAmount p)" by simp_all
  show ?thesis
    unfolding MakeMultiSwap_Check_ok MakeSwap_Check_ok swapLeg_def MakeSwapParam.simps
      all_pairs_iff [OF pos] by blast
qed

definition exampleMultiSwap :: MakeMultiSwapParam where
  "exampleMultiSwap = \<lparr>MM_FromAssetID = [1, 2], MM_FromStartTime = [0, 5], MM_FromEndTime = [9, 9],
     MM_MinFromAmount = [Some 3, Some 4], MM_ToAssetID = [3], MM_ToStartTime = [0], MM_ToEndTime = [8],
     MM_MinToAmount = [Some 1], MM_SwapSize = Some 2, MM_Targes = [], MM_Time = 0, MM_Description = []\<rparr>"

theorem multi_swap_check_legs_witness:
  "MakeMultiSwap_Check exampleMultiSwap 7 = None \<and> MakeSwap_Check (swapLeg exampleMultiSwap 1 0) 7 = None"
proof -
  have "MakeMultiSwap_Check exampleMultiSwap 7 = None"
    by (simp add: exampleMultiSwap_def MakeMultiSwap_Check_def notPositive_def bigMul_def)
  with multi_swap_check_legs [of exampleMultiSwap 7] show ?thesis by (simp add: exampleMultiSwap_def)
qed

text \<open>
  C30. \<open>BuyTicketParam.Check\<close> rejects a ticket as too short-lived exactly when it lives less than 30
  days, as long as \<open>start + 30 days\<close> fits into 64 bits; from there on the sum wraps around and any
  ticket that ends after its start is accepted.
\<close>

theorem buy_ticket_lifetime:
  "BuyTicket_Check p timestamp adjust = Some TicketTooShort \<longleftrightarrow>
    (if unat (BT_Start p) + 30 * 24 * 3600 < 2 ^ 64
     then unat (BT_End p) < unat (BT_Start p) + 30 * 24 * 3600
     else unat (BT_End p) \<le> unat (BT_Start p))"
proof -
  have "unat (BT_Start p) < 2 ^ 64" "unat (BT_End p) < 2 ^ 64"
    using unsigned_less [of "BT_Start p"] unsigned_less [of "BT_End p"] by simp_all
  moreover have "unat (BT_Start p + 2592000) = (unat (BT_Start p) + 2592000) mod 2 ^ 64"
    by (simp add: unat_word_ariths)
  ultimately show ?thesis
    by (auto simp: BuyTicket_Check_def Let_def word_le_nat_alt word_less_nat_alt mod_if)
qed

end
