(* ===== verification/State_Object.thy ===== *)
theory State_Object
  imports Time_Lock_Laws Fsn_Types
begin

text \<open>
  Accounts and live state objects of \<open>core/state/state_object.go\<close> and the journal entries of
  \<open>core/state/journal.go\<close>. The operations of an object that write to the journal return the entries
  they append, in order, with the updated object; \<open>State_DB\<close> appends them and stores the object.

  A nil pointer to a \<open>big.Int\<close> or a \<open>TimeLock\<close> is \<open>None\<close>; reading through it, or indexing a slice
  out of range, panics, which is \<open>None\<close> of the surrounding option type. The database below the
  objects is read through the fields of \<open>Env\<close>: the hash function, the contract code of a code hash
  and the storage of an account with a given root. Errors of the database itself are left out.
\<close>

section \<open>Environment, accounts, objects\<close>

record Env =
  Keccak256Hash :: "bytes \<Rightarrow> Hash"
  contractCode :: "Hash \<rightharpoonup> bytes"
  storageTrie :: "Address \<Rightarrow> Hash \<Rightarrow> Hash \<rightharpoonup> Hash"
  storageRoot :: "(Hash \<rightharpoonup> Hash) \<Rightarrow> Hash"

definition emptyCodeHash :: "Env \<Rightarrow> Hash" where
  "emptyCodeHash env = Keccak256Hash env []"

record Account =
  Nonce :: uint64
  Notaion :: uint64
  BalancesHash :: "Hash list"
  BalancesVal :: "int option list"
  TimeLockBalancesHash :: "Hash list"
  TimeLockBalancesVal :: "TimeLock option list"
  Root :: Hash
  CodeHash :: Hash

record stateObject =
  so_address :: Address
  data :: Account
  so_trie :: "(Hash \<rightharpoonup> Hash) option"
  code :: "bytes option"
  originStorage :: "Hash \<rightharpoonup> Hash"
  dirtyStorage :: "Hash \<rightharpoonup> Hash"
  dirtyCode :: bool
  suicided :: bool
  deleted :: bool

datatype journalEntry =
    createObjectChange Address
  | resetObjectChange stateObject
  | suicideChange bool Address Hash bool "int option" "TimeLock option"
  | balanceChange Address Hash int
  | timeLockBalanceChange Address Hash TimeLock
  | nonceChange Address uint64
  | notationChange Address uint64
  | storageChange Address Hash Hash
  | codeChange Address "bytes option" Hash
  | refundChange uint64
  | addLogChange Hash
  | addPreimageChange Hash
  | touchChange Address

fun dirtied :: "journalEntry \<Rightarrow> Address option" where
  "dirtied (createObjectChange a) = Some a"
| "dirtied (resetObjectChange prev) = None"
| "dirtied (suicideChange isTimeLock a assetID prev prevbalance prevTimeLockBalance) = Some a"
| "dirtied (balanceChange a assetID prev) = Some a"
| "dirtied (timeLockBalanceChange a assetID prev) = Some a"
| "dirtied (nonceChange a prev) = Some a"
| "dirtied (notationChange a prev) = Some a"
| "dirtied (storageChange a key prevalue) = Some a"
| "dirtied (codeChange a prevcode prevhash) = Some a"
| "dirtied (refundChange prev) = None"
| "dirtied (addLogChange txhash) = None"
| "dirtied (addPreimageChange h) = None"
| "dirtied (touchChange a) = Some a"

text \<open>The zero value of \<open>Account\<close>; \<open>newObject\<close> replaces its nil code hash.\<close>

definition emptyAccount :: "Env \<Rightarrow> Account" where
  "emptyAccount env = \<lparr>Nonce = 0, Notaion = 0, BalancesHash = [], BalancesVal = [],
     TimeLockBalancesHash = [], TimeLockBalancesVal = [], Root = 0, CodeHash = emptyCodeHash env\<rparr>"

definition newObject :: "Address \<Rightarrow> Account \<Rightarrow> stateObject" where
  "newObject addr d = \<lparr>so_address = addr, data = d, so_trie = None, code = None,
     originStorage = Map.empty, dirtyStorage = Map.empty, dirtyCode = False, suicided = False, deleted = False\<rparr>"

definition isEmpty :: "Env \<Rightarrow> stateObject \<Rightarrow> bool" where
  "isEmpty env s \<longleftrightarrow> Nonce (data s) = 0 \<and> \<not> length (BalancesVal (data s)) > 0 \<and>
     \<not> length (TimeLockBalancesVal (data s)) > 0 \<and> CodeHash (data s) = emptyCodeHash env \<and>
     \<not> IsSpecialKeyAddress (so_address s)"

definition touch :: "stateObject \<Rightarrow> journalEntry list" where
  "touch s = [touchChange (so_address s)]"

section \<open>Balance tables\<close>

text \<open>A slice read or written at an index, which panics out of range.\<close>

definition goIndex :: "'a list \<Rightarrow> nat \<Rightarrow> 'a option" where
  "goIndex xs i = (if i < length xs then Some (xs ! i) else None)"

definition goUpdate :: "'a list \<Rightarrow> nat \<Rightarrow> 'a \<Rightarrow> 'a list option" where
  "goUpdate xs i x = (if i < length xs then Some (xs[i := x]) else None)"

fun hashIndex :: "Hash list \<Rightarrow> Hash \<Rightarrow> nat option" where
  "hashIndex [] assetID = None"
| "hashIndex (v # vs) assetID = (if v = assetID then Some 0 else map_option Suc (hashIndex vs assetID))"

definition balanceAssetIndex :: "Account \<Rightarrow> Hash \<Rightarrow> nat \<times> Account" where
  "balanceAssetIndex d assetID = (case hashIndex (BalancesHash d) assetID of
      Some i \<Rightarrow> (i, d)
    | None \<Rightarrow> let d' = d\<lparr>BalancesHash := BalancesHash d @ [assetID], BalancesVal := BalancesVal d @ [Some 0]\<rparr>
        in (length (BalancesVal d') - 1, d'))"

definition timeLockAssetIndex :: "Account \<Rightarrow> Hash \<Rightarrow> nat \<times> Account" where
  "timeLockAssetIndex d assetID = (case hashIndex (TimeLockBalancesHash d) assetID of
      Some i \<Rightarrow> (i, d)
    | None \<Rightarrow> let d' = d\<lparr>TimeLockBalancesHash := TimeLockBalancesHash d @ [assetID],
            TimeLockBalancesVal := TimeLockBalancesVal d @ [Some \<lparr>Items = []\<rparr>]\<rparr>
        in (length (TimeLockBalancesVal d') - 1, d'))"

text \<open>\<open>Balance\<close> returns a pointer, which may be nil, and the object that the index search may extend.\<close>

definition Object_Balance :: "stateObject \<Rightarrow> Hash \<Rightarrow> (int option \<times> stateObject) option" where
  "Object_Balance s assetID = (let (index, d) = balanceAssetIndex (data s) assetID in
     do { v \<leftarrow> goIndex (BalancesVal d) index; Some (v, s\<lparr>data := d\<rparr>) })"

definition Object_setBalance :: "stateObject \<Rightarrow> Hash \<Rightarrow> int option \<Rightarrow> stateObject option" where
  "Object_setBalance s assetID amount = (let (index, d) = balanceAssetIndex (data s) assetID in
     do { vs \<leftarrow> goUpdate (BalancesVal d) index amount; Some (s\<lparr>data := d\<lparr>BalancesVal := vs\<rparr>\<rparr>) })"

definition Object_SetBalance :: "stateObject \<Rightarrow> Hash \<Rightarrow> int option \<Rightarrow> (journalEntry list \<times> stateObject) option" where
  "Object_SetBalance s assetID amount = do {
     (v, s) \<leftarrow> Object_Balance s assetID;
     prev \<leftarrow> v;
     s' \<leftarrow> Object_setBalance s assetID amount;
     Some ([balanceChange (so_address s) assetID prev], s') }"

definition Object_AddBalance :: "Env \<Rightarrow> stateObject \<Rightarrow> Hash \<Rightarrow> int \<Rightarrow> (journalEntry list \<times> stateObject) option" where
  "Object_AddBalance env s assetID amount =
    (if amount = 0 then Some (if isEmpty env s then touch s else [], s)
     else do {
       (v, s) \<leftarrow> Object_Balance s assetID;
       b \<leftarrow> v;
       Object_SetBalance s assetID (Some (b + amount)) })"

definition Object_SubBalance :: "stateObject \<Rightarrow> Hash \<Rightarrow> int \<Rightarrow> (journalEntry list \<times> stateObject) option" where
  "Object_SubBalance s assetID amount =
    (if amount = 0 then Some ([], s)
     else do {
       (v, s) \<leftarrow> Object_Balance s assetID;
       b \<leftarrow> v;
       Object_SetBalance s assetID (Some (b - amount)) })"

definition Object_TimeLockBalance :: "stateObject \<Rightarrow> Hash \<Rightarrow> (TimeLock option \<times> stateObject) option" where
  "Object_TimeLockBalance s assetID = (let (index, d) = timeLockAssetIndex (data s) assetID in
     do { v \<leftarrow> goIndex (TimeLockBalancesVal d) index; Some (v, s\<lparr>data := d\<rparr>) })"

definition Object_setTimeLockBalance :: "stateObject \<Rightarrow> Hash \<Rightarrow> TimeLock option \<Rightarrow> stateObject option" where
  "Object_setTimeLockBalance s assetID amount = (let (index, d) = timeLockAssetIndex (data s) assetID in
     do { vs \<leftarrow> goUpdate (TimeLockBalancesVal d) index amount; Some (s\<lparr>data := d\<lparr>TimeLockBalancesVal := vs\<rparr>\<rparr>) })"

definition Object_SetTimeLockBalance :: "stateObject \<Rightarrow> Hash \<Rightarrow> TimeLock option \<Rightarrow> (journalEntry list \<times> stateObject) option" where
  "Object_SetTimeLockBalance s assetID amount = do {
     (v, s) \<leftarrow> Object_TimeLockBalance s assetID;
     s' \<leftarrow> Object_setTimeLockBalance s assetID amount;
     Some ([timeLockBalanceChange (so_address s) assetID (TimeLock_Set v)], s') }"

definition Object_AddTimeLockBalance ::
  "bool \<Rightarrow> Env \<Rightarrow> stateObject \<Rightarrow> Hash \<Rightarrow> TimeLock \<Rightarrow> uint64 \<Rightarrow> (journalEntry list \<times> stateObject) option" where
  "Object_AddTimeLockBalance debugMode env s assetID amount timestamp =
    (if IsEmpty amount then Some (if isEmpty env s then touch s else [], s)
     else do {
       (v, s) \<leftarrow> Object_TimeLockBalance s assetID;
       res \<leftarrow> Add debugMode v (Some amount);
       Object_SetTimeLockBalance s assetID (map_option (\<lambda>r. ClearExpired r timestamp) res) })"

definition Object_SubTimeLockBalance ::
  "bool \<Rightarrow> stateObject \<Rightarrow> Hash \<Rightarrow> TimeLock \<Rightarrow> uint64 \<Rightarrow> (journalEntry list \<times> stateObject) option" where
  "Object_SubTimeLockBalance debugMode s assetID amount timestamp =
    (if IsEmpty amount then Some ([], s)
     else do {
       (v, s) \<leftarrow> Object_TimeLockBalance s assetID;
       x \<leftarrow> v;
       res \<leftarrow> Sub debugMode x (Some amount);
       Object_SetTimeLockBalance s assetID (Some (ClearExpired res timestamp)) })"

section \<open>Storage, code, nonce, notation\<close>

definition getTrie :: "Env \<Rightarrow> stateObject \<Rightarrow> (Hash \<rightharpoonup> Hash) \<times> stateObject" where
  "getTrie env c = (case so_trie c of
      Some tr \<Rightarrow> (tr, c)
    | None \<Rightarrow> let tr = storageTrie env (so_address c) (Root (data c)) in (tr, c\<lparr>so_trie := Some tr\<rparr>))"

definition Object_GetCommittedState :: "Env \<Rightarrow> stateObject \<Rightarrow> Hash \<Rightarrow> Hash \<times> stateObject" where
  "Object_GetCommittedState env s key = (case originStorage s key of
      Some v \<Rightarrow> (v, s)
    | None \<Rightarrow> let (tr, s) = getTrie env s; v = (case tr key of Some v \<Rightarrow> v | None \<Rightarrow> 0)
        in (v, s\<lparr>originStorage := (originStorage s)(key \<mapsto> v)\<rparr>))"

definition Object_GetState :: "Env \<Rightarrow> stateObject \<Rightarrow> Hash \<Rightarrow> Hash \<times> stateObject" where
  "Object_GetState env s key = (case dirtyStorage s key of
      Some v \<Rightarrow> (v, s)
    | None \<Rightarrow> Object_GetCommittedState env s key)"

definition Object_setState :: "stateObject \<Rightarrow> Hash \<Rightarrow> Hash \<Rightarrow> stateObject" where
  "Object_setState s key v = s\<lparr>dirtyStorage := (dirtyStorage s)(key \<mapsto> v)\<rparr>"

definition Object_SetState :: "Env \<Rightarrow> stateObject \<Rightarrow> Hash \<Rightarrow> Hash \<Rightarrow> journalEntry list \<times> stateObject" where
  "Object_SetState env s key v = (let (prev, s) = Object_GetState env s key in
     if prev = v then ([], s)
     else ([storageChange (so_address s) key prev], Object_setState s key v))"

text \<open>
  The loop of \<open>updateTrie\<close> handles each dirty key on its own, so its effect is given per key; an
  absent original entry reads as the zero hash.
\<close>

definition storageUnchanged :: "stateObject \<Rightarrow> Hash \<Rightarrow> Hash \<Rightarrow> bool" where
  "storageUnchanged s key v \<longleftrightarrow> v = (case originStorage s key of Some w \<Rightarrow> w | None \<Rightarrow> 0)"

definition updateTrie :: "Env \<Rightarrow> stateObject \<Rightarrow> stateObject" where
  "updateTrie env s = (let (tr, s) = getTrie env s in
     s\<lparr>so_trie := Some (\<lambda>key. case dirtyStorage s key of None \<Rightarrow> tr key
           | Some v \<Rightarrow> if storageUnchanged s key v then tr key else if v = 0 then None else Some v),
       originStorage := (\<lambda>key. case dirtyStorage s key of None \<Rightarrow> originStorage s key
           | Some v \<Rightarrow> if storageUnchanged s key v then originStorage s key else Some v),
       dirtyStorage := Map.empty\<rparr>)"

definition updateRoot :: "Env \<Rightarrow> stateObject \<Rightarrow> stateObject" where
  "updateRoot env s = (let s = updateTrie env s; (tr, s) = getTrie env s in
     s\<lparr>data := (data s)\<lparr>Root := storageRoot env tr\<rparr>\<rparr>)"

definition Object_Code :: "Env \<Rightarrow> stateObject \<Rightarrow> bytes option \<times> stateObject" where
  "Object_Code env s = (case code s of
      Some c \<Rightarrow> (Some c, s)
    | None \<Rightarrow> if CodeHash (data s) = emptyCodeHash env then (None, s)
        else let c = contractCode env (CodeHash (data s)) in (c, s\<lparr>code := c\<rparr>))"

definition Object_setCode :: "stateObject \<Rightarrow> Hash \<Rightarrow> bytes option \<Rightarrow> stateObject" where
  "Object_setCode s codeHash c = s\<lparr>code := c, data := (data s)\<lparr>CodeHash := codeHash\<rparr>, dirtyCode := True\<rparr>"

definition Object_SetCode :: "Env \<Rightarrow> stateObject \<Rightarrow> Hash \<Rightarrow> bytes option \<Rightarrow> journalEntry list \<times> stateObject" where
  "Object_SetCode env s codeHash c = (let (prevcode, s) = Object_Code env s in
     ([codeChange (so_address s) prevcode (CodeHash (data s))], Object_setCode s codeHash c))"

definition Object_setNonce :: "stateObject \<Rightarrow> uint64 \<Rightarrow> stateObject" where
  "Object_setNonce s nonce = s\<lparr>data := (data s)\<lparr>Nonce := nonce\<rparr>\<rparr>"

definition Object_SetNonce :: "stateObject \<Rightarrow> uint64 \<Rightarrow> journalEntry list \<times> stateObject" where
  "Object_SetNonce s nonce = ([nonceChange (so_address s) (Nonce (data s))], Object_setNonce s nonce)"

definition Object_setNotation :: "stateObject \<Rightarrow> uint64 \<Rightarrow> stateObject" where
  "Object_setNotation s notation' = s\<lparr>data := (data s)\<lparr>Notaion := notation'\<rparr>\<rparr>"

definition Object_SetNotation :: "stateObject \<Rightarrow> uint64 \<Rightarrow> journalEntry list \<times> stateObject" where
  "Object_SetNotation s notation' = ([notationChange (so_address s) (Notaion (data s))], Object_setNotation s notation')"

definition markSuicided :: "stateObject \<Rightarrow> stateObject" where
  "markSuicided s = s\<lparr>suicided := True\<rparr>"

text \<open>\<open>new(big.Int).SetBytes(v.Bytes())\<close> of a possibly nil number, and \<open>Clone\<close> of a possibly nil lock.\<close>

fun deepCopyBalancesVal :: "int option list \<Rightarrow> int option list option" where
  "deepCopyBalancesVal [] = Some []"
| "deepCopyBalancesVal (v # vs) = do { a \<leftarrow> v; ret \<leftarrow> deepCopyBalancesVal vs; Some (Some (copyMagnitude a) # ret) }"

fun deepCopyTimeLockBalancesVal :: "TimeLock option list \<Rightarrow> TimeLock option list option" where
  "deepCopyTimeLockBalancesVal [] = Some []"
| "deepCopyTimeLockBalancesVal (v # vs) =
     do { t \<leftarrow> v; ret \<leftarrow> deepCopyTimeLockBalancesVal vs; Some (Some (TimeLock_Clone t) # ret) }"

definition deepCopy :: "stateObject \<Rightarrow> stateObject option" where
  "deepCopy s = do {
     bs \<leftarrow> deepCopyBalancesVal (BalancesVal (data s));
     ts \<leftarrow> deepCopyTimeLockBalancesVal (TimeLockBalancesVal (data s));
     Some ((newObject (so_address s) (data s))\<lparr>so_trie := so_trie s, code := code s,
       dirtyStorage := dirtyStorage s, originStorage := originStorage s, suicided := suicided s,
       dirtyCode := dirtyCode s, deleted := deleted s,
       data := (data s)\<lparr>BalancesVal := bs, TimeLockBalancesVal := ts\<rparr>\<rparr>) }"

section \<open>Balance tables as functions\<close>

definition table :: "Hash list \<Rightarrow> 'v list \<Rightarrow> 'v \<Rightarrow> Hash \<Rightarrow> 'v" where
  "table hs vs d a = (case hashIndex hs a of Some i \<Rightarrow> vs ! i | None \<Rightarrow> d)"

lemma hashIndex_less: "hashIndex hs a = Some i \<Longrightarrow> i < length hs \<and> hs ! i = a"
  by (induction hs arbitrary: i) (auto split: if_splits)

lemma hashIndex_append:
  "hashIndex (hs @ [b]) a = (case hashIndex hs a of Some i \<Rightarrow> Some i | None \<Rightarrow> if a = b then Some (length hs) else None)"
  by (induction hs) (auto split: option.splits)

lemma table_append:
  assumes "hashIndex hs a = None" "length vs = length hs"
  shows "table (hs @ [a]) (vs @ [d]) d = table hs vs d"
proof
  fix b
  show "table (hs @ [a]) (vs @ [d]) d b = table hs vs d b"
    using assms hashIndex_less [of hs b]
    by (auto simp: table_def hashIndex_append nth_append split: option.splits)
qed

lemma table_update:
  assumes "hashIndex hs a = Some i" "length vs = length hs"
  shows "table hs (vs[i := v]) d = (table hs vs d)(a := v)"
proof
  fix b
  have "i < length vs" "hs ! i = a" using hashIndex_less [OF assms(1)] assms(2) by simp_all
  then show "table hs (vs[i := v]) d b = ((table hs vs d)(a := v)) b"
    using assms hashIndex_less [of hs b]
    by (cases "b = a") (auto simp: table_def nth_list_update split: option.splits)
qed

text \<open>The two tables of an account have a value for every asset, and every asset a balance.\<close>

definition account_ok :: "Account \<Rightarrow> bool" where
  "account_ok d \<longleftrightarrow> length (BalancesVal d) = length (BalancesHash d) \<and>
     length (TimeLockBalancesVal d) = length (TimeLockBalancesHash d)"

definition balanceOf :: "stateObject \<Rightarrow> Hash \<Rightarrow> int option" where
  "balanceOf s = table (BalancesHash (data s)) (BalancesVal (data s)) (Some 0)"

definition timeLockOf :: "stateObject \<Rightarrow> Hash \<Rightarrow> TimeLock option" where
  "timeLockOf s = table (TimeLockBalancesHash (data s)) (TimeLockBalancesVal (data s)) (Some \<lparr>Items = []\<rparr>)"

text \<open>What the operations on one table leave alone.\<close>

definition apartBalances :: "stateObject \<Rightarrow> stateObject" where
  "apartBalances s = s\<lparr>data := (data s)\<lparr>BalancesHash := [], BalancesVal := []\<rparr>\<rparr>"

definition apartTimeLocks :: "stateObject \<Rightarrow> stateObject" where
  "apartTimeLocks s = s\<lparr>data := (data s)\<lparr>TimeLockBalancesHash := [], TimeLockBalancesVal := []\<rparr>\<rparr>"

text \<open>
  The contract of a balance table: reading may extend the table but changes no balance, writing
  changes one balance; nothing else of the object changes.
\<close>

locale asset_table =
  fixes ok :: "'t \<Rightarrow> bool"
    and lookup :: "'t \<Rightarrow> Hash \<Rightarrow> 'v"
    and frame :: "'t \<Rightarrow> 'f"
    and fetch :: "'t \<Rightarrow> Hash \<Rightarrow> ('v \<times> 't) option"
    and store :: "'t \<Rightarrow> Hash \<Rightarrow> 'v \<Rightarrow> 't option"
  assumes fetch_law: "ok t \<Longrightarrow> \<exists>t'. fetch t a = Some (lookup t a, t') \<and> ok t' \<and> lookup t' = lookup t \<and> frame t' = frame t"
    and store_law: "ok t \<Longrightarrow> \<exists>t'. store t a v = Some t' \<and> ok t' \<and> lookup t' = (lookup t)(a := v) \<and> frame t' = frame t"
begin

lemma fetch_store:
  assumes "ok t"
  shows "\<exists>t1 t2. fetch t a = Some (lookup t a, t1) \<and> store t1 a v = Some t2 \<and> ok t1 \<and> ok t2 \<and>
    lookup t1 = lookup t \<and> lookup t2 = (lookup t)(a := v) \<and> frame t1 = frame t \<and> frame t2 = frame t"
proof -
  obtain t1 where t1: "fetch t a = Some (lookup t a, t1)" "ok t1" "lookup t1 = lookup t" "frame t1 = frame t"
    using fetch_law [OF assms] by blast
  obtain t2 where "store t1 a v = Some t2" "ok t2" "lookup t2 = (lookup t1)(a := v)" "frame t2 = frame t1"
    using store_law [OF t1(2)] by blast
  with t1 show ?thesis by auto
qed

lemma store_back:
  assumes "ok t" "store t a v = Some t1"
  shows "\<exists>t2. store t1 a (lookup t a) = Some t2 \<and> ok t2 \<and> lookup t2 = lookup t \<and> frame t2 = frame t"
proof -
  have t1: "ok t1" "lookup t1 = (lookup t)(a := v)" "frame t1 = frame t"
    using store_law [OF assms(1), of a v] assms(2) by auto
  then show ?thesis using store_law [OF t1(1), of a "lookup t a"] by auto
qed

end

interpretation bal: asset_table "\<lambda>s. account_ok (data s)" balanceOf apartBalances Object_Balance Object_setBalance
proof (unfold_locales, goal_cases)
  case (1 s a)
  then show ?case
    using table_append [of "BalancesHash (data s)" a "BalancesVal (data s)" "Some 0"] hashIndex_less
    by (auto simp: Object_Balance_def balanceAssetIndex_def goIndex_def account_ok_def balanceOf_def apartBalances_def
        Let_def nth_append split: option.splits) (auto simp: table_def)
next
  case (2 s a v)
  then show ?case
    using table_append [of "BalancesHash (data s)" a "BalancesVal (data s)" "Some 0"] hashIndex_less [of "BalancesHash (data s)" a]
      table_update [of "BalancesHash (data s)" a _ "BalancesVal (data s)" v "Some 0"]
      table_update [of "BalancesHash (data s) @ [a]" a "length (BalancesVal (data s))" "BalancesVal (data s) @ [Some 0]" v "Some 0"]
    by (auto simp: Object_setBalance_def balanceAssetIndex_def goUpdate_def account_ok_def balanceOf_def apartBalances_def
        Let_def hashIndex_append split: option.splits)
qed

interpretation tlb: asset_table "\<lambda>s. account_ok (data s)" timeLockOf apartTimeLocks Object_TimeLockBalance Object_setTimeLockBalance
proof (unfold_locales, goal_cases)
  case (1 s a)
  then show ?case
    using table_append [of "TimeLockBalancesHash (data s)" a "TimeLockBalancesVal (data s)" "Some \<lparr>Items = []\<rparr>"] hashIndex_less
    by (auto simp: Object_TimeLockBalance_def timeLockAssetIndex_def goIndex_def account_ok_def timeLockOf_def apartTimeLocks_def
        Let_def nth_append split: option.splits) (auto simp: table_def)
next
  case (2 s a v)
  then show ?case
    using table_append [of "TimeLockBalancesHash (data s)" a "TimeLockBalancesVal (data s)" "Some \<lparr>Items = []\<rparr>"] hashIndex_less [of "TimeLockBalancesHash (data s)" a]
      table_update [of "TimeLockBalancesHash (data s)" a _ "TimeLockBalancesVal (data s)" v "Some \<lparr>Items = []\<rparr>"]
      table_update [of "TimeLockBalancesHash (data s) @ [a]" a "length (TimeLockBalancesVal (data s))" "TimeLockBalancesVal (data s) @ [Some \<lparr>Items = []\<rparr>]" v "Some \<lparr>Items = []\<rparr>"]
    by (auto simp: Object_setTimeLockBalance_def timeLockAssetIndex_def goUpdate_def account_ok_def timeLockOf_def apartTimeLocks_def
        Let_def hashIndex_append split: option.splits)
qed

end
