(* ===== verification/State_DB.thy ===== *)
theory State_DB
  imports State_Object Ticket_Cache
begin

text \<open>
  The state database of \<open>core/state/statedb.go\<close> with the journal of \<open>core/state/journal.go\<close>: the live
  objects over the account trie, which is read as a map from addresses to accounts, the setters that
  journal their changes, and \<open>Snapshot\<close> and \<open>RevertToSnapshot\<close>. Every operation takes the database
  and returns the updated one, as an option when it can panic. The read operations return the
  database too, because they load objects and extend balance tables.
\<close>

section \<open>State\<close>

record Log =
  L_Address :: Address
  L_Topics :: "Hash list"
  L_Data :: bytes
  L_BlockNumber :: uint64
  L_TxHash :: Hash
  L_TxIndex :: uint64
  L_BlockHash :: Hash
  L_Index :: uint64
  L_Removed :: bool

record revision =
  revId :: nat
  journalIndex :: nat

record StateDB =
  env :: Env
  accounts :: "Address \<rightharpoonup> Account"
  stateObjects :: "Address \<rightharpoonup> stateObject"
  stateObjectsDirty :: "Address set"
  refund :: uint64
  thash :: Hash
  bhash :: Hash
  txIndex :: uint64
  logs :: "Hash \<Rightarrow> Log list"
  logSize :: uint64
  preimages :: "Hash \<rightharpoonup> bytes"
  journal :: "journalEntry list"
  dirties :: "Address \<rightharpoonup> int"
  validRevisions :: "revision list"
  nextRevisionId :: nat
  ticketsHash :: Hash
  tickets :: "TicketsData list"
  ticketCache :: CachedTicketSlice

text \<open>The package variable \<open>cachedTicketSlice\<close> is carried along in the last field.\<close>

definition New :: "Env \<Rightarrow> (Address \<rightharpoonup> Account) \<Rightarrow> Hash \<Rightarrow> CachedTicketSlice \<Rightarrow> StateDB" where
  "New e tr mixDigest cache = \<lparr>env = e, accounts = tr, stateObjects = Map.empty, stateObjectsDirty = {}, refund = 0,
     thash = 0, bhash = 0, txIndex = 0, logs = (\<lambda>_. []), logSize = 0, preimages = Map.empty,
     journal = [], dirties = Map.empty, validRevisions = [], nextRevisionId = 0,
     ticketsHash = mixDigest, tickets = [], ticketCache = cache\<rparr>"

definition ripemd :: Address where
  "ripemd = 3"

definition dirty :: "Address \<Rightarrow> StateDB \<Rightarrow> StateDB" where
  "dirty addr db = db\<lparr>dirties := (dirties db)(addr \<mapsto> (case dirties db addr of Some n \<Rightarrow> n | None \<Rightarrow> 0) + 1)\<rparr>"

definition undirty :: "Address \<Rightarrow> StateDB \<Rightarrow> StateDB" where
  "undirty addr db = (let n = (case dirties db addr of Some n \<Rightarrow> n | None \<Rightarrow> 0) - 1 in
     db\<lparr>dirties := (if n = 0 then (dirties db)(addr := None) else (dirties db)(addr \<mapsto> n))\<rparr>)"

definition journal_append :: "journalEntry \<Rightarrow> StateDB \<Rightarrow> StateDB" where
  "journal_append e db = (let db = db\<lparr>journal := journal db @ [e]\<rparr> in
     case dirtied e of Some addr \<Rightarrow> dirty addr db | None \<Rightarrow> db)"

text \<open>
  The entries an operation of an object appends; \<open>touch\<close> marks the address \<open>ripemd\<close> as dirty once
  more, so that it stays so when the journal is reverted.
\<close>

definition append_entry :: "journalEntry \<Rightarrow> StateDB \<Rightarrow> StateDB" where
  "append_entry e db = (let db = journal_append e db in
     if e = touchChange ripemd then dirty ripemd db else db)"

definition append_entries :: "journalEntry list \<Rightarrow> StateDB \<Rightarrow> StateDB" where
  "append_entries es db = fold append_entry es db"

section \<open>Objects\<close>

definition setStateObject :: "StateDB \<Rightarrow> stateObject \<Rightarrow> StateDB" where
  "setStateObject db obj = db\<lparr>stateObjects := (stateObjects db)(so_address obj \<mapsto> obj)\<rparr>"

definition getStateObject :: "StateDB \<Rightarrow> Address \<Rightarrow> stateObject option \<times> StateDB" where
  "getStateObject db addr = (case stateObjects db addr of
      Some obj \<Rightarrow> (if deleted obj then (None, db) else (Some obj, db))
    | None \<Rightarrow> (case accounts db addr of
        None \<Rightarrow> (None, db)
      | Some d \<Rightarrow> let obj = newObject addr d in (Some obj, setStateObject db obj)))"

definition createObject :: "StateDB \<Rightarrow> Address \<Rightarrow> stateObject \<times> stateObject option \<times> StateDB" where
  "createObject db addr = (let (prev, db) = getStateObject db addr;
     newobj = Object_setNonce (newObject addr (emptyAccount (env db))) 0;
     db = journal_append (case prev of None \<Rightarrow> createObjectChange addr | Some p \<Rightarrow> resetObjectChange p) db
     in (newobj, prev, setStateObject db newobj))"

definition GetOrNewStateObject :: "StateDB \<Rightarrow> Address \<Rightarrow> stateObject \<times> StateDB" where
  "GetOrNewStateObject db addr = (case getStateObject db addr of
      (Some obj, db) \<Rightarrow> (if deleted obj then let (obj, prev, db) = createObject db addr in (obj, db) else (obj, db))
    | (None, db) \<Rightarrow> let (obj, prev, db) = createObject db addr in (obj, db))"

text \<open>The shape of every setter: fetch or create the object, change it, journal the change.\<close>

definition withObject :: "(stateObject \<Rightarrow> (journalEntry list \<times> stateObject) option) \<Rightarrow> StateDB \<Rightarrow> Address \<Rightarrow> StateDB option" where
  "withObject f db addr = (let (obj, db) = GetOrNewStateObject db addr in
     do { (es, obj') \<leftarrow> f obj; Some (setStateObject (append_entries es db) obj') })"

definition CreateAccount_balances :: "stateObject \<Rightarrow> stateObject \<Rightarrow> stateObject option" where
  "CreateAccount_balances prev new =
    (if length (BalancesHash (data prev)) < length (BalancesVal (data prev)) then None
     else fold (\<lambda>(k, v) s. do { s \<leftarrow> s; Object_setBalance s k v })
       (zip (BalancesHash (data prev)) (BalancesVal (data prev))) (Some new))"

definition CreateAccount_timeLocks :: "stateObject \<Rightarrow> stateObject \<Rightarrow> stateObject option" where
  "CreateAccount_timeLocks prev new =
    (if length (TimeLockBalancesHash (data prev)) < length (TimeLockBalancesVal (data prev)) then None
     else fold (\<lambda>(k, v) s. do { s \<leftarrow> s; Object_setTimeLockBalance s k v })
       (zip (TimeLockBalancesHash (data prev)) (TimeLockBalancesVal (data prev))) (Some new))"

definition CreateAccount :: "StateDB \<Rightarrow> Address \<Rightarrow> StateDB option" where
  "CreateAccount db addr = (let (new, prev, db) = createObject db addr in
     case prev of
       None \<Rightarrow> Some db
     | Some p \<Rightarrow> do {
         new \<leftarrow> CreateAccount_balances p new;
         new \<leftarrow> CreateAccount_timeLocks p new;
         Some (setStateObject db new) })"

section \<open>Readers\<close>

definition Exist :: "StateDB \<Rightarrow> Address \<Rightarrow> bool \<times> StateDB" where
  "Exist db addr = (let (so, db) = getStateObject db addr in (so \<noteq> None, db))"

definition Empty :: "StateDB \<Rightarrow> Address \<Rightarrow> bool \<times> StateDB" where
  "Empty db addr = (let (so, db) = getStateObject db addr in
     (case so of None \<Rightarrow> True | Some s \<Rightarrow> isEmpty (env db) s, db))"

definition GetBalance :: "StateDB \<Rightarrow> Hash \<Rightarrow> Address \<Rightarrow> (int option \<times> StateDB) option" where
  "GetBalance db assetID addr = (let (so, db) = getStateObject db addr in
     case so of
       None \<Rightarrow> Some (Some 0, db)
     | Some s \<Rightarrow> do { (v, s) \<leftarrow> Object_Balance s assetID; Some (v, setStateObject db s) })"

definition GetTimeLockBalance :: "StateDB \<Rightarrow> Hash \<Rightarrow> Address \<Rightarrow> (TimeLock option \<times> StateDB) option" where
  "GetTimeLockBalance db assetID addr = (let (so, db) = getStateObject db addr in
     case so of
       None \<Rightarrow> Some (Some \<lparr>Items = []\<rparr>, db)
     | Some s \<Rightarrow> do { (v, s) \<leftarrow> Object_TimeLockBalance s assetID; Some (v, setStateObject db s) })"

definition GetNonce :: "StateDB \<Rightarrow> Address \<Rightarrow> uint64 \<times> StateDB" where
  "GetNonce db addr = (let (so, db) = getStateObject db addr in
     (case so of None \<Rightarrow> 0 | Some s \<Rightarrow> Nonce (data s), db))"

definition GetNotation :: "StateDB \<Rightarrow> Address \<Rightarrow> uint64 \<times> StateDB" where
  "GetNotation db addr = (let (so, db) = getStateObject db addr in
     (case so of None \<Rightarrow> 0 | Some s \<Rightarrow> Notaion (data s), db))"

definition GetCode :: "StateDB \<Rightarrow> Address \<Rightarrow> bytes option \<times> StateDB" where
  "GetCode db addr = (let (so, db) = getStateObject db addr in
     case so of
       None \<Rightarrow> (None, db)
     | Some s \<Rightarrow> let (c, s) = Object_Code (env db) s in (c, setStateObject db s))"

definition GetCodeHash :: "StateDB \<Rightarrow> Address \<Rightarrow> Hash \<times> StateDB" where
  "GetCodeHash db addr = (let (so, db) = getStateObject db addr in
     (case so of None \<Rightarrow> 0 | Some s \<Rightarrow> CodeHash (data s), db))"

definition GetState :: "StateDB \<Rightarrow> Address \<Rightarrow> Hash \<Rightarrow> Hash \<times> StateDB" where
  "GetState db addr key = (let (so, db) = getStateObject db addr in
     case so of
       None \<Rightarrow> (0, db)
     | Some s \<Rightarrow> let (v, s) = Object_GetState (env db) s key in (v, setStateObject db s))"

definition GetCommittedState :: "StateDB \<Rightarrow> Address \<Rightarrow> Hash \<Rightarrow> Hash \<times> StateDB" where
  "GetCommittedState db addr key = (let (so, db) = getStateObject db addr in
     case so of
       None \<Rightarrow> (0, db)
     | Some s \<Rightarrow> let (v, s) = Object_GetCommittedState (env db) s key in (v, setStateObject db s))"

definition HasSuicided :: "StateDB \<Rightarrow> Address \<Rightarrow> bool \<times> StateDB" where
  "HasSuicided db addr = (let (so, db) = getStateObject db addr in
     (case so of None \<Rightarrow> False | Some s \<Rightarrow> suicided s, db))"

section \<open>Setters\<close>

definition AddBalance :: "StateDB \<Rightarrow> Address \<Rightarrow> Hash \<Rightarrow> int \<Rightarrow> StateDB option" where
  "AddBalance db addr assetID amount = withObject (\<lambda>s. Object_AddBalance (env db) s assetID amount) db addr"

definition SubBalance :: "StateDB \<Rightarrow> Address \<Rightarrow> Hash \<Rightarrow> int \<Rightarrow> StateDB option" where
  "SubBalance db addr assetID amount = withObject (\<lambda>s. Object_SubBalance s assetID amount) db addr"

definition SetBalance :: "StateDB \<Rightarrow> Address \<Rightarrow> Hash \<Rightarrow> int \<Rightarrow> StateDB option" where
  "SetBalance db addr assetID amount = withObject (\<lambda>s. Object_SetBalance s assetID (Some amount)) db addr"

definition AddTimeLockBalance :: "bool \<Rightarrow> StateDB \<Rightarrow> Address \<Rightarrow> Hash \<Rightarrow> TimeLock \<Rightarrow> uint64 \<Rightarrow> StateDB option" where
  "AddTimeLockBalance debugMode db addr assetID amount timestamp =
     withObject (\<lambda>s. Object_AddTimeLockBalance debugMode (env db) s assetID amount timestamp) db addr"

definition SubTimeLockBalance :: "bool \<Rightarrow> StateDB \<Rightarrow> Address \<Rightarrow> Hash \<Rightarrow> TimeLock \<Rightarrow> uint64 \<Rightarrow> StateDB option" where
  "SubTimeLockBalance debugMode db addr assetID amount timestamp =
     withObject (\<lambda>s. Object_SubTimeLockBalance debugMode s assetID amount timestamp) db addr"

definition SetTimeLockBalance :: "StateDB \<Rightarrow> Address \<Rightarrow> Hash \<Rightarrow> TimeLock \<Rightarrow> StateDB option" where
  "SetTimeLockBalance db addr assetID amount = withObject (\<lambda>s. Object_SetTimeLockBalance s assetID (Some amount)) db addr"

definition SetNonce :: "StateDB \<Rightarrow> Address \<Rightarrow> uint64 \<Rightarrow> StateDB option" where
  "SetNonce db addr nonce = withObject (\<lambda>s. Some (Object_SetNonce s nonce)) db addr"

definition SetNotation :: "StateDB \<Rightarrow> Address \<Rightarrow> uint64 \<Rightarrow> StateDB option" where
  "SetNotation db addr notation' = withObject (\<lambda>s. Some (Object_SetNotation s notation')) db addr"

definition SetCode :: "StateDB \<Rightarrow> Address \<Rightarrow> bytes \<Rightarrow> StateDB option" where
  "SetCode db addr c = withObject (\<lambda>s. Some (Object_SetCode (env db) s (Keccak256Hash (env db) c) (Some c))) db addr"

definition SetState :: "StateDB \<Rightarrow> Address \<Rightarrow> Hash \<Rightarrow> Hash \<Rightarrow> StateDB option" where
  "SetState db addr key v = withObject (\<lambda>s. Some (Object_SetState (env db) s key v)) db addr"

definition SetData :: "StateDB \<Rightarrow> Address \<Rightarrow> bytes \<Rightarrow> (Hash \<times> StateDB) option" where
  "SetData db addr v = (let h = Keccak256Hash (env db) v in
     do { db \<leftarrow> withObject (\<lambda>s. Some (Object_SetCode (env db) s h (Some v))) db addr; Some (h, db) })"

definition AddLog :: "StateDB \<Rightarrow> Log \<Rightarrow> StateDB" where
  "AddLog db l = (let db = journal_append (addLogChange (thash db)) db;
     l = l\<lparr>L_TxHash := thash db, L_BlockHash := bhash db, L_TxIndex := txIndex db, L_Index := logSize db\<rparr>
     in db\<lparr>logs := (logs db)(thash db := logs db (thash db) @ [l]), logSize := logSize db + 1\<rparr>)"

definition AddPreimage :: "StateDB \<Rightarrow> Hash \<Rightarrow> bytes \<Rightarrow> StateDB" where
  "AddPreimage db h preimage = (case preimages db h of
      Some _ \<Rightarrow> db
    | None \<Rightarrow> (journal_append (addPreimageChange h) db)\<lparr>preimages := (preimages db)(h \<mapsto> preimage)\<rparr>)"

definition AddRefund :: "StateDB \<Rightarrow> uint64 \<Rightarrow> StateDB" where
  "AddRefund db gas = (journal_append (refundChange (refund db)) db)\<lparr>refund := refund db + gas\<rparr>"

definition SubRefund :: "StateDB \<Rightarrow> uint64 \<Rightarrow> StateDB option" where
  "SubRefund db gas = (let db = journal_append (refundChange (refund db)) db in
     if gas > refund db then None else Some (db\<lparr>refund := refund db - gas\<rparr>))"

definition Prepare :: "StateDB \<Rightarrow> Hash \<Rightarrow> Hash \<Rightarrow> uint64 \<Rightarrow> StateDB" where
  "Prepare db th bh ti = db\<lparr>thash := th, bhash := bh, txIndex := ti\<rparr>"

section \<open>Suicide\<close>

text \<open>The two loops of \<open>Suicide\<close> over the indices of the balance tables.\<close>

fun Suicide_balances :: "nat list \<Rightarrow> stateObject \<Rightarrow> (journalEntry list \<times> stateObject) option" where
  "Suicide_balances [] s = Some ([], s)"
| "Suicide_balances (i # is) s = do {
     v \<leftarrow> goIndex (BalancesVal (data s)) i;
     k \<leftarrow> goIndex (BalancesHash (data s)) i;
     b \<leftarrow> v;
     s' \<leftarrow> Object_setBalance (s\<lparr>suicided := True\<rparr>) k (Some 0);
     (es, s'') \<leftarrow> Suicide_balances is s';
     Some (suicideChange False (so_address s) k (suicided s) (Some b) None # es, s'') }"

fun Suicide_timeLocks :: "nat list \<Rightarrow> stateObject \<Rightarrow> (journalEntry list \<times> stateObject) option" where
  "Suicide_timeLocks [] s = Some ([], s)"
| "Suicide_timeLocks (i # is) s = do {
     v \<leftarrow> goIndex (TimeLockBalancesVal (data s)) i;
     k \<leftarrow> goIndex (TimeLockBalancesHash (data s)) i;
     (es, s') \<leftarrow> Object_SetTimeLockBalance (s\<lparr>suicided := True\<rparr>) k (Some \<lparr>Items = []\<rparr>);
     (es', s'') \<leftarrow> Suicide_timeLocks is s';
     Some (suicideChange False (so_address s) k (suicided s) None (Some (TimeLock_Set v)) # es @ es', s'') }"

definition Suicide :: "StateDB \<Rightarrow> Address \<Rightarrow> (bool \<times> StateDB) option" where
  "Suicide db addr = (let (so, db) = getStateObject db addr in
     case so of
       None \<Rightarrow> Some (False, db)
     | Some s \<Rightarrow> do {
         (es, s) \<leftarrow> Suicide_balances [0..<length (BalancesVal (data s))] s;
         (es', s) \<leftarrow> Suicide_timeLocks [0..<length (TimeLockBalancesVal (data s))] s;
         Some (True, setStateObject (append_entries (es @ es') db) (markSuicided s)) })"

section \<open>Snapshots\<close>

text \<open>An object whose change is undone must be there: the code calls a method of it.\<close>

definition revertObject :: "(stateObject \<Rightarrow> stateObject option) \<Rightarrow> StateDB \<Rightarrow> Address \<Rightarrow> StateDB option" where
  "revertObject f db addr = (let (so, db) = getStateObject db addr in
     do { s \<leftarrow> so; s' \<leftarrow> f s; Some (setStateObject db s') })"

fun revertEntry :: "journalEntry \<Rightarrow> StateDB \<Rightarrow> StateDB option" where
  "revertEntry (createObjectChange a) db =
     Some (db\<lparr>stateObjects := (stateObjects db)(a := None), stateObjectsDirty := stateObjectsDirty db - {a}\<rparr>)"
| "revertEntry (resetObjectChange prev) db = Some (setStateObject db prev)"
| "revertEntry (suicideChange isTimeLock a assetID prev prevbalance prevTimeLockBalance) db =
     (let (so, db) = getStateObject db a in
      case so of
        None \<Rightarrow> Some db
      | Some s \<Rightarrow> do {
          s' \<leftarrow> (if isTimeLock then Object_setTimeLockBalance (s\<lparr>suicided := prev\<rparr>) assetID prevTimeLockBalance
                 else Object_setBalance (s\<lparr>suicided := prev\<rparr>) assetID prevbalance);
          Some (setStateObject db s') })"
| "revertEntry (balanceChange a assetID prev) db = revertObject (\<lambda>s. Object_setBalance s assetID (Some prev)) db a"
| "revertEntry (timeLockBalanceChange a assetID prev) db =
     revertObject (\<lambda>s. Object_setTimeLockBalance s assetID (Some prev)) db a"
| "revertEntry (nonceChange a prev) db = revertObject (\<lambda>s. Some (Object_setNonce s prev)) db a"
| "revertEntry (notationChange a prev) db = revertObject (\<lambda>s. Some (Object_setNotation s prev)) db a"
| "revertEntry (storageChange a key prevalue) db = revertObject (\<lambda>s. Some (Object_setState s key prevalue)) db a"
| "revertEntry (codeChange a prevcode prevhash) db = revertObject (\<lambda>s. Some (Object_setCode s prevhash prevcode)) db a"
| "revertEntry (refundChange prev) db = Some (db\<lparr>refund := prev\<rparr>)"
| "revertEntry (addLogChange txhash) db =
     (if logs db txhash = [] then None
      else Some (db\<lparr>logs := (logs db)(txhash := butlast (logs db txhash)), logSize := logSize db - 1\<rparr>))"
| "revertEntry (addPreimageChange h) db = Some (db\<lparr>preimages := (preimages db)(h := None)\<rparr>)"
| "revertEntry (touchChange a) db = Some db"

text \<open>The loop of \<open>journal.revert\<close> over the entries to undo, the last one first.\<close>

fun journal_undo :: "journalEntry list \<Rightarrow> StateDB \<Rightarrow> StateDB option" where
  "journal_undo [] db = Some db"
| "journal_undo (e # es) db = do {
     db \<leftarrow> revertEntry e db;
     journal_undo es (case dirtied e of Some a \<Rightarrow> undirty a db | None \<Rightarrow> db) }"

definition journal_revert :: "StateDB \<Rightarrow> nat \<Rightarrow> StateDB option" where
  "journal_revert db snapshot = do {
     db' \<leftarrow> journal_undo (rev (drop snapshot (journal db))) db;
     Some (db'\<lparr>journal := take snapshot (journal db)\<rparr>) }"

definition Snapshot :: "StateDB \<Rightarrow> nat \<times> StateDB" where
  "Snapshot db = (let i = nextRevisionId db in
     (i, db\<lparr>nextRevisionId := i + 1,
        validRevisions := validRevisions db @ [\<lparr>revId = i, journalIndex = length (journal db)\<rparr>]\<rparr>))"

text \<open>\<open>sort.Search\<close>: the binary search for the least index at which the predicate holds.\<close>

function sortSearch :: "(nat \<Rightarrow> bool) \<Rightarrow> nat \<Rightarrow> nat \<Rightarrow> nat" where
  "sortSearch f i j =
    (if i < j then let h = (i + j) div 2 in if \<not> f h then sortSearch f (h + 1) j else sortSearch f i h else i)"
  by auto
termination by (relation "measure (\<lambda>(f, i, j). j - i)") auto

declare sortSearch.simps [simp del]

definition RevertToSnapshot :: "StateDB \<Rightarrow> nat \<Rightarrow> StateDB option" where
  "RevertToSnapshot db revid = (let
     idx = sortSearch (\<lambda>i. revId (validRevisions db ! i) \<ge> revid) 0 (length (validRevisions db)) in
     if idx = length (validRevisions db) \<or> revId (validRevisions db ! idx) \<noteq> revid then None
     else do {
       db' \<leftarrow> journal_revert db (journalIndex (validRevisions db ! idx));
       Some (db'\<lparr>validRevisions := take idx (validRevisions db)\<rparr>) })"

section \<open>Finalise and Copy\<close>

text \<open>
  What the trie holds of an account after it has been written and read again: the encoder rejects a
  negative number, and \<open>updateStateObject\<close> panics then; a nil number is written as zero. No operation
  stores a nil time lock.
\<close>

definition storedAccount :: "Account \<Rightarrow> Account option" where
  "storedAccount d =
    (if (\<exists>v \<in> set (BalancesVal d). \<exists>b. v = Some b \<and> b < 0) \<or>
        (\<exists>v \<in> set (TimeLockBalancesVal d). \<exists>t. v = Some t \<and> (\<exists>it \<in> set (Items t). Value it < 0)) then None
     else Some (d\<lparr>BalancesVal := map (\<lambda>v. Some (case v of Some b \<Rightarrow> b | None \<Rightarrow> 0)) (BalancesVal d),
       TimeLockBalancesVal := map (\<lambda>v. Some (case v of Some t \<Rightarrow> t | None \<Rightarrow> \<lparr>Items = []\<rparr>)) (TimeLockBalancesVal d)\<rparr>))"

definition clearJournalAndRefund :: "StateDB \<Rightarrow> StateDB" where
  "clearJournalAndRefund db = db\<lparr>journal := [], dirties := Map.empty, validRevisions := [], refund := 0\<rparr>"

text \<open>\<open>Finalise\<close> treats each dirty address on its own, in an order that does not matter.\<close>

definition Finalise_dead :: "bool \<Rightarrow> Env \<Rightarrow> stateObject \<Rightarrow> bool" where
  "Finalise_dead deleteEmptyObjects e s \<longleftrightarrow> suicided s \<or> (deleteEmptyObjects \<and> isEmpty e s)"

definition Finalise :: "StateDB \<Rightarrow> bool \<Rightarrow> StateDB option" where
  "Finalise db deleteEmptyObjects =
    (if \<exists>addr s. addr \<in> dom (dirties db) \<and> stateObjects db addr = Some s \<and>
        \<not> Finalise_dead deleteEmptyObjects (env db) s \<and> storedAccount (data (updateRoot (env db) s)) = None then None
     else Some (clearJournalAndRefund (db\<lparr>
       stateObjects := (\<lambda>addr. if addr \<in> dom (dirties db)
         then map_option (\<lambda>s. if Finalise_dead deleteEmptyObjects (env db) s then s\<lparr>deleted := True\<rparr> else updateRoot (env db) s)
                (stateObjects db addr)
         else stateObjects db addr),
       accounts := (\<lambda>addr. if addr \<in> dom (dirties db) \<and> stateObjects db addr \<noteq> None
         then Option.bind (stateObjects db addr) (\<lambda>s. if Finalise_dead deleteEmptyObjects (env db) s then None
                else storedAccount (data (updateRoot (env db) s)))
         else accounts db addr),
       stateObjectsDirty := stateObjectsDirty db \<union> {addr \<in> dom (dirties db). stateObjects db addr \<noteq> None}\<rparr>)))"

definition Copy :: "StateDB \<Rightarrow> StateDB option" where
  "Copy db = (let ds = {addr \<in> dom (dirties db). stateObjects db addr \<noteq> None} \<union> stateObjectsDirty db in
     if \<exists>addr \<in> ds. Option.bind (stateObjects db addr) deepCopy = None then None
     else Some \<lparr>env = env db, accounts = accounts db,
       stateObjects = (\<lambda>addr. if addr \<in> ds then Option.bind (stateObjects db addr) deepCopy else None),
       stateObjectsDirty = ds, refund = refund db, thash = 0, bhash = 0, txIndex = 0,
       logs = logs db, logSize = logSize db, preimages = preimages db, journal = [], dirties = Map.empty,
       validRevisions = [], nextRevisionId = 0, ticketsHash = ticketsHash db, tickets = tickets db,
       ticketCache = ticketCache db\<rparr>)"

end
