(* ===== verification/State_Revert.thy ===== *)
theory State_Revert
  imports State_DB
begin

text \<open>
  Correctness of the journal: what a caller can observe of the state database, that every
  journalled operation can be undone by the entries it appends, and that \<open>RevertToSnapshot\<close> restores
  what was observable when the snapshot was taken, for any sequence of operations in between,
  nested snapshots and reverts included. The lengths of the balance tables are not part of the
  view: the operations extend them with zero entries and no revert takes these back. Time locks are
  seen through \<open>TimeLock.Set\<close>, the copy that the journal keeps of them; of a valid time lock that is
  the lock itself.
\<close>

section \<open>The observable state\<close>

record AccountView =
  v_nonce :: uint64
  v_notation :: uint64
  v_balance :: "Hash \<Rightarrow> int option"
  v_timeLock :: "Hash \<Rightarrow> TimeLock"
  v_codeHash :: Hash
  v_code :: "bytes option"
  v_storage :: "Hash \<Rightarrow> Hash"
  v_root :: Hash
  v_suicided :: bool

definition object_view :: "Env \<Rightarrow> stateObject \<Rightarrow> AccountView" where
  "object_view e s = \<lparr>v_nonce = Nonce (data s), v_notation = Notaion (data s), v_balance = balanceOf s,
     v_timeLock = (\<lambda>k. TimeLock_Set (timeLockOf s k)), v_codeHash = CodeHash (data s), v_code = fst (Object_Code e s),
     v_storage = (\<lambda>k. fst (Object_GetState e s k)), v_root = Root (data s), v_suicided = suicided s\<rparr>"

record StateView =
  v_accounts :: "Address \<rightharpoonup> AccountView"
  v_trie :: "Address \<rightharpoonup> Account"
  v_refund :: uint64
  v_logs :: "Hash \<Rightarrow> Log list"
  v_logSize :: uint64
  v_preimages :: "Hash \<rightharpoonup> bytes"
  v_env :: Env

definition live :: "StateDB \<Rightarrow> Address \<Rightarrow> stateObject option" where
  "live db addr = fst (getStateObject db addr)"

definition view :: "StateDB \<Rightarrow> StateView" where
  "view db = \<lparr>v_accounts = (\<lambda>addr. map_option (object_view (env db)) (live db addr)), v_trie = accounts db,
     v_refund = refund db, v_logs = logs db, v_logSize = logSize db, v_preimages = preimages db, v_env = env db\<rparr>"

text \<open>
  Live objects are filed under their address, their tables are aligned, and an object marked as
  deleted is no longer in the trie.
\<close>

definition object_ok :: "Address \<Rightarrow> stateObject \<Rightarrow> bool" where
  "object_ok addr s \<longleftrightarrow> so_address s = addr \<and> account_ok (data s)"

definition db_ok :: "StateDB \<Rightarrow> bool" where
  "db_ok db \<longleftrightarrow> (\<forall>addr s. stateObjects db addr = Some s \<longrightarrow> object_ok addr s \<and> (deleted s \<longrightarrow> accounts db addr = None)) \<and>
     (\<forall>addr d. accounts db addr = Some d \<longrightarrow> account_ok d)"

fun entry_ok :: "journalEntry \<Rightarrow> bool" where
  "entry_ok (resetObjectChange prev) \<longleftrightarrow> account_ok (data prev) \<and> \<not> deleted prev"
| "entry_ok _ \<longleftrightarrow> True"

lemma live_def': "live db addr = (case stateObjects db addr of
      Some s \<Rightarrow> if deleted s then None else Some s
    | None \<Rightarrow> map_option (newObject addr) (accounts db addr))"
  by (simp add: live_def getStateObject_def Let_def split: option.split)

lemma getStateObject_fst [simp]: "fst (getStateObject db addr) = live db addr"
  by (simp add: live_def)

lemma live_ok: "db_ok db \<Longrightarrow> live db addr = Some s \<Longrightarrow> object_ok addr s \<and> \<not> deleted s"
  by (auto simp: live_def' db_ok_def object_ok_def newObject_def split: option.splits if_splits)

lemma setStateObject_fields [simp]:
  "env (setStateObject db s) = env db" "accounts (setStateObject db s) = accounts db"
  "refund (setStateObject db s) = refund db" "logs (setStateObject db s) = logs db"
  "logSize (setStateObject db s) = logSize db" "preimages (setStateObject db s) = preimages db"
  "journal (setStateObject db s) = journal db" "validRevisions (setStateObject db s) = validRevisions db"
  "nextRevisionId (setStateObject db s) = nextRevisionId db" "thash (setStateObject db s) = thash db"
  "stateObjects (setStateObject db s) = (stateObjects db)(so_address s \<mapsto> s)"
  by (simp_all add: setStateObject_def)

lemma live_setStateObject:
  "\<not> deleted s \<Longrightarrow> live (setStateObject db s) = (live db)(so_address s \<mapsto> s)"
  by (auto simp: live_def' fun_eq_iff split: option.split)

lemma setStateObject_ok:
  "db_ok db \<Longrightarrow> account_ok (data s) \<Longrightarrow> \<not> deleted s \<Longrightarrow> db_ok (setStateObject db s)"
  by (auto simp: db_ok_def object_ok_def)

lemma view_setStateObject:
  "\<not> deleted s \<Longrightarrow> view (setStateObject db s) =
    (view db)\<lparr>v_accounts := (v_accounts (view db))(so_address s \<mapsto> object_view (env db) s)\<rparr>"
  by (auto simp: view_def live_setStateObject fun_eq_iff)

lemma getStateObject_snd:
  assumes "db_ok db"
  shows "db_ok (snd (getStateObject db addr)) \<and> view (snd (getStateObject db addr)) = view db \<and>
    live (snd (getStateObject db addr)) = live db \<and>
    journal (snd (getStateObject db addr)) = journal db \<and>
    validRevisions (snd (getStateObject db addr)) = validRevisions db \<and>
    nextRevisionId (snd (getStateObject db addr)) = nextRevisionId db \<and>
    env (snd (getStateObject db addr)) = env db"
proof -
  show ?thesis
  proof (cases "stateObjects db addr = None \<and> accounts db addr \<noteq> None")
    case True
    then obtain d where d: "stateObjects db addr = None" "accounts db addr = Some d" by auto
    have new: "\<not> deleted (newObject addr d)" "so_address (newObject addr d) = addr" "data (newObject addr d) = d"
      by (simp_all add: newObject_def)
    have snd: "snd (getStateObject db addr) = setStateObject db (newObject addr d)"
      using d by (simp add: getStateObject_def Let_def)
    have "live db addr = Some (newObject addr d)" using d by (simp add: live_def')
    then have live: "live (setStateObject db (newObject addr d)) = live db"
      using new by (simp add: live_setStateObject fun_upd_idem)
    moreover have "account_ok d" using assms d(2) unfolding db_ok_def by blast
    then have "db_ok (setStateObject db (newObject addr d))"
      using setStateObject_ok [OF assms, of "newObject addr d"] new by simp
    ultimately show ?thesis by (simp add: snd view_def)
  next
    case False
    then have "snd (getStateObject db addr) = db"
      by (auto simp: getStateObject_def Let_def split: option.splits)
    then show ?thesis using assms by simp
  qed
qed

text \<open>Changes of the journal, the revisions and the dirty counters are not observable.\<close>

lemma journal_fields [simp]:
  "stateObjects (db\<lparr>journal := j\<rparr>) = stateObjects db" "stateObjects (db\<lparr>dirties := d\<rparr>) = stateObjects db"
  by simp_all

lemma live_cong: "stateObjects db' = stateObjects db \<Longrightarrow> accounts db' = accounts db \<Longrightarrow> live db' = live db"
  by (auto simp: live_def' split: option.split)

definition same_state :: "StateDB \<Rightarrow> StateDB \<Rightarrow> bool" where
  "same_state db' db \<longleftrightarrow> stateObjects db' = stateObjects db \<and> accounts db' = accounts db \<and> refund db' = refund db \<and>
     logs db' = logs db \<and> logSize db' = logSize db \<and> preimages db' = preimages db \<and> env db' = env db"

lemma same_state_view: "same_state db' db \<Longrightarrow> view db' = view db \<and> db_ok db' = db_ok db \<and> live db' = live db"
  using live_cong [of db' db] by (simp add: same_state_def view_def db_ok_def)

lemma undirty_same: "same_state (undirty a db) db"
  by (simp add: same_state_def undirty_def Let_def)

lemma append_entry_same: "same_state (append_entry e db) db"
  by (auto simp: same_state_def append_entry_def journal_append_def dirty_def Let_def split: option.splits)

lemma journal_append_same: "same_state (journal_append e db) db"
  by (auto simp: same_state_def journal_append_def dirty_def Let_def split: option.splits)

lemma append_entry_fields [simp]:
  "journal (append_entry e db) = journal db @ [e]"
  "validRevisions (append_entry e db) = validRevisions db"
  "nextRevisionId (append_entry e db) = nextRevisionId db"
  "journal (journal_append e db) = journal db @ [e]"
  "validRevisions (journal_append e db) = validRevisions db"
  "nextRevisionId (journal_append e db) = nextRevisionId db"
  by (auto simp: append_entry_def journal_append_def dirty_def Let_def split: option.splits)

section \<open>Undoing entries, on the observable state\<close>

definition code_view :: "Env \<Rightarrow> Hash \<Rightarrow> bytes option \<Rightarrow> bytes option" where
  "code_view e h c = (case c of Some x \<Rightarrow> Some x | None \<Rightarrow> if h = emptyCodeHash e then None else contractCode e h)"

definition on_account :: "(AccountView \<Rightarrow> AccountView) \<Rightarrow> StateView \<Rightarrow> Address \<Rightarrow> StateView option" where
  "on_account h w a = (case v_accounts w a of
      None \<Rightarrow> None
    | Some v \<Rightarrow> Some (w\<lparr>v_accounts := (v_accounts w)(a \<mapsto> h v)\<rparr>))"

fun revertView :: "journalEntry \<Rightarrow> StateView \<Rightarrow> StateView option" where
  "revertView (createObjectChange a) w = Some (w\<lparr>v_accounts := (v_accounts w)(a :=
     map_option (\<lambda>d. object_view (v_env w) (newObject a d)) (v_trie w a))\<rparr>)"
| "revertView (resetObjectChange prev) w =
     Some (w\<lparr>v_accounts := (v_accounts w)(so_address prev \<mapsto> object_view (v_env w) prev)\<rparr>)"
| "revertView (suicideChange isTimeLock a k prev b t) w = (case v_accounts w a of
      None \<Rightarrow> Some w
    | Some _ \<Rightarrow> on_account (\<lambda>v. if isTimeLock then v\<lparr>v_suicided := prev, v_timeLock := (v_timeLock v)(k := TimeLock_Set t)\<rparr>
        else v\<lparr>v_suicided := prev, v_balance := (v_balance v)(k := b)\<rparr>) w a)"
| "revertView (balanceChange a k prev) w = on_account (\<lambda>v. v\<lparr>v_balance := (v_balance v)(k := Some prev)\<rparr>) w a"
| "revertView (timeLockBalanceChange a k prev) w = on_account (\<lambda>v. v\<lparr>v_timeLock := (v_timeLock v)(k := TimeLock_Set (Some prev))\<rparr>) w a"
| "revertView (nonceChange a prev) w = on_account (\<lambda>v. v\<lparr>v_nonce := prev\<rparr>) w a"
| "revertView (notationChange a prev) w = on_account (\<lambda>v. v\<lparr>v_notation := prev\<rparr>) w a"
| "revertView (storageChange a k prev) w = on_account (\<lambda>v. v\<lparr>v_storage := (v_storage v)(k := prev)\<rparr>) w a"
| "revertView (codeChange a c h) w = on_account (\<lambda>v. v\<lparr>v_codeHash := h, v_code := code_view (v_env w) h c\<rparr>) w a"
| "revertView (refundChange prev) w = Some (w\<lparr>v_refund := prev\<rparr>)"
| "revertView (addLogChange h) w = (if v_logs w h = [] then None
     else Some (w\<lparr>v_logs := (v_logs w)(h := butlast (v_logs w h)), v_logSize := v_logSize w - 1\<rparr>))"
| "revertView (addPreimageChange h) w = Some (w\<lparr>v_preimages := (v_preimages w)(h := None)\<rparr>)"
| "revertView (touchChange a) w = Some w"

fun undoView :: "journalEntry list \<Rightarrow> StateView \<Rightarrow> StateView option" where
  "undoView [] w = Some w"
| "undoView (e # es) w = Option.bind (revertView e w) (undoView es)"

lemma undoView_append: "undoView (es @ es') w = Option.bind (undoView es w) (undoView es')"
  by (induction es arbitrary: w) (auto split: bind_split)

text \<open>A change of an object that acts on its view as \<open>h\<close> does.\<close>

definition acts :: "Env \<Rightarrow> (stateObject \<Rightarrow> stateObject option) \<Rightarrow> (AccountView \<Rightarrow> AccountView) \<Rightarrow> bool" where
  "acts e g h \<longleftrightarrow> (\<forall>s. account_ok (data s) \<longrightarrow> (\<exists>s'. g s = Some s' \<and> account_ok (data s') \<and>
     so_address s' = so_address s \<and> deleted s' = deleted s \<and> object_view e s' = h (object_view e s)))"

lemma actsD: "acts e g h \<Longrightarrow> account_ok (data s) \<Longrightarrow> \<exists>s'. g s = Some s' \<and> account_ok (data s') \<and>
     so_address s' = so_address s \<and> deleted s' = deleted s \<and> object_view e s' = h (object_view e s)"
  by (auto simp: acts_def)

lemma object_code_view: "fst (Object_Code e s) = code_view e (CodeHash (data s)) (code s)"
  by (simp add: Object_Code_def code_view_def Let_def split: option.split)

definition storage_view :: "(Hash \<rightharpoonup> Hash) \<Rightarrow> (Hash \<rightharpoonup> Hash) option \<Rightarrow> (Hash \<rightharpoonup> Hash) \<Rightarrow> (Hash \<rightharpoonup> Hash) \<Rightarrow> Hash \<Rightarrow> Hash" where
  "storage_view stored tr origin dirt k = (case dirt k of Some v \<Rightarrow> v | None \<Rightarrow>
     (case origin k of Some v \<Rightarrow> v | None \<Rightarrow>
       (case (case tr of Some t \<Rightarrow> t | None \<Rightarrow> stored) k of Some v \<Rightarrow> v | None \<Rightarrow> 0)))"

lemma object_state_view:
  "fst (Object_GetState e s k) =
     storage_view (storageTrie e (so_address s) (Root (data s))) (so_trie s) (originStorage s) (dirtyStorage s) k"
  by (simp add: storage_view_def Object_GetState_def Object_GetCommittedState_def getTrie_def Let_def split: option.split)

lemmas object_view_eqs = object_view_def object_code_view object_state_view

lemma view_apartBalances: "object_view e (apartBalances s) = (object_view e s)\<lparr>v_balance := \<lambda>_. Some 0\<rparr>"
  by (simp add: object_view_eqs apartBalances_def balanceOf_def table_def timeLockOf_def fun_eq_iff)

lemma view_apartTimeLocks: "object_view e (apartTimeLocks s) = (object_view e s)\<lparr>v_timeLock := \<lambda>_. TimeLock_Set (Some \<lparr>Items = []\<rparr>)\<rparr>"
  by (simp add: object_view_eqs apartTimeLocks_def balanceOf_def table_def timeLockOf_def fun_eq_iff)

lemma apart_fields:
  "so_address (apartBalances s) = so_address s" "deleted (apartBalances s) = deleted s"
  "so_address (apartTimeLocks s) = so_address s" "deleted (apartTimeLocks s) = deleted s"
  by (simp_all add: apartBalances_def apartTimeLocks_def)

lemma same_apartBalances:
  assumes "apartBalances s' = apartBalances s"
  shows "so_address s' = so_address s \<and> deleted s' = deleted s \<and>
    object_view e s' = (object_view e s)\<lparr>v_balance := balanceOf s'\<rparr>"
proof -
  have "(object_view e s')\<lparr>v_balance := \<lambda>_. Some 0\<rparr> = (object_view e s)\<lparr>v_balance := \<lambda>_. Some 0\<rparr>"
    using assms view_apartBalances by metis
  then have "(object_view e s')\<lparr>v_balance := balanceOf s'\<rparr> = (object_view e s)\<lparr>v_balance := balanceOf s'\<rparr>"
    by (simp add: object_view_def)
  then show ?thesis
    using assms apart_fields by (metis (no_types, lifting) AccountView.surjective AccountView.select_convs(3) AccountView.update_convs(3) object_view_def)
qed

lemma same_apartTimeLocks:
  assumes "apartTimeLocks s' = apartTimeLocks s"
  shows "so_address s' = so_address s \<and> deleted s' = deleted s \<and>
    object_view e s' = (object_view e s)\<lparr>v_timeLock := \<lambda>k. TimeLock_Set (timeLockOf s' k)\<rparr>"
proof -
  have "(object_view e s')\<lparr>v_timeLock := \<lambda>_. TimeLock_Set (Some \<lparr>Items = []\<rparr>)\<rparr> = (object_view e s)\<lparr>v_timeLock := \<lambda>_. TimeLock_Set (Some \<lparr>Items = []\<rparr>)\<rparr>"
    using assms view_apartTimeLocks by metis
  then have "(object_view e s')\<lparr>v_timeLock := \<lambda>k. TimeLock_Set (timeLockOf s' k)\<rparr> = (object_view e s)\<lparr>v_timeLock := \<lambda>k. TimeLock_Set (timeLockOf s' k)\<rparr>"
    by (simp add: object_view_def)
  then show ?thesis
    using assms apart_fields by (simp add: object_view_def) metis
qed

lemma setBalance_acts: "acts e (\<lambda>s. Object_setBalance s k v) (\<lambda>w. w\<lparr>v_balance := (v_balance w)(k := v)\<rparr>)"
  unfolding acts_def
proof (intro allI impI)
  fix s :: stateObject assume "account_ok (data s)"
  from bal.store_law [OF this, of k v] obtain s' where s': "Object_setBalance s k v = Some s'" "account_ok (data s')"
    "balanceOf s' = (balanceOf s)(k := v)" "apartBalances s' = apartBalances s" by blast
  from same_apartBalances [OF s'(4)] s' show "\<exists>s'. Object_setBalance s k v = Some s' \<and> account_ok (data s') \<and>
     so_address s' = so_address s \<and> deleted s' = deleted s \<and>
     object_view e s' = (object_view e s)\<lparr>v_balance := (v_balance (object_view e s))(k := v)\<rparr>"
    by (intro exI [of _ s']) (simp add: object_view_def)
qed

lemma setTimeLockBalance_acts:
  "acts e (\<lambda>s. Object_setTimeLockBalance s k v) (\<lambda>w. w\<lparr>v_timeLock := (v_timeLock w)(k := TimeLock_Set v)\<rparr>)"
  unfolding acts_def
proof (intro allI impI)
  fix s :: stateObject assume "account_ok (data s)"
  from tlb.store_law [OF this, of k v] obtain s' where s': "Object_setTimeLockBalance s k v = Some s'" "account_ok (data s')"
    "timeLockOf s' = (timeLockOf s)(k := v)" "apartTimeLocks s' = apartTimeLocks s" by blast
  from same_apartTimeLocks [OF s'(4)] s' show "\<exists>s'. Object_setTimeLockBalance s k v = Some s' \<and> account_ok (data s') \<and>
     so_address s' = so_address s \<and> deleted s' = deleted s \<and>
     object_view e s' = (object_view e s)\<lparr>v_timeLock := (v_timeLock (object_view e s))(k := TimeLock_Set v)\<rparr>"
    by (intro exI [of _ s']) (simp add: object_view_def fun_eq_iff)
qed

lemma setNonce_acts: "acts e (\<lambda>s. Some (Object_setNonce s n)) (\<lambda>w. w\<lparr>v_nonce := n\<rparr>)"
  by (simp add: acts_def Object_setNonce_def account_ok_def object_view_eqs balanceOf_def timeLockOf_def)

lemma setNotation_acts: "acts e (\<lambda>s. Some (Object_setNotation s n)) (\<lambda>w. w\<lparr>v_notation := n\<rparr>)"
  by (simp add: acts_def Object_setNotation_def account_ok_def object_view_eqs balanceOf_def timeLockOf_def)

lemma storage_view_upd: "storage_view st tr org (dirt(k \<mapsto> v)) = (storage_view st tr org dirt)(k := v)"
  by (auto simp: storage_view_def)

lemma setState_acts: "acts e (\<lambda>s. Some (Object_setState s k v)) (\<lambda>w. w\<lparr>v_storage := (v_storage w)(k := v)\<rparr>)"
  by (simp add: acts_def Object_setState_def account_ok_def object_view_eqs balanceOf_def timeLockOf_def storage_view_upd)

lemma setCode_acts: "acts e (\<lambda>s. Some (Object_setCode s h c)) (\<lambda>w. w\<lparr>v_codeHash := h, v_code := code_view e h c\<rparr>)"
  by (simp add: acts_def Object_setCode_def account_ok_def object_view_eqs balanceOf_def timeLockOf_def)

lemma suicided_view: "object_view e (s\<lparr>suicided := b\<rparr>) = (object_view e s)\<lparr>v_suicided := b\<rparr>"
  by (simp add: object_view_eqs balanceOf_def timeLockOf_def)

lemma live_updates [simp]:
  "live (db\<lparr>refund := r\<rparr>) = live db" "live (db\<lparr>logs := l, logSize := n\<rparr>) = live db"
  "live (db\<lparr>preimages := p\<rparr>) = live db" "live (db\<lparr>journal := j\<rparr>) = live db"
  "live (db\<lparr>validRevisions := vr\<rparr>) = live db" "live (db\<lparr>nextRevisionId := i\<rparr>) = live db"
  by (rule live_cong; simp)+

text \<open>Undoing an entry in the database is undoing it in the view.\<close>

lemma revertObject_view:
  assumes "db_ok db" "acts (env db) g h"
  shows "map_option view (revertObject g db a) = on_account h (view db) a \<and>
    (\<forall>db'. revertObject g db a = Some db' \<longrightarrow> db_ok db')"
proof (cases "live db a")
  case None
  then show ?thesis
    by (auto simp: revertObject_def on_account_def view_def Let_def split: prod.split)
      (metis fst_conv getStateObject_fst option.distinct(1) bind.bind_lzero)+
next
  case (Some s)
  obtain db1 where g: "getStateObject db a = (Some s, db1)"
    using Some by (metis getStateObject_fst prod.collapse)
  have db1: "db_ok db1" "view db1 = view db" "env db1 = env db"
    using getStateObject_snd [OF assms(1), of a] g by simp_all
  have s: "so_address s = a" "account_ok (data s)" "\<not> deleted s"
    using live_ok [OF assms(1) Some] by (simp_all add: object_ok_def)
  obtain s' where s': "g s = Some s'" "account_ok (data s')" "so_address s' = so_address s"
    "deleted s' = deleted s" "object_view (env db) s' = h (object_view (env db) s)"
    using actsD [OF assms(2) s(2)] by blast
  have r: "revertObject g db a = Some (setStateObject db1 s')"
    using g s' by (simp add: revertObject_def)
  have "v_accounts (view db) a = Some (object_view (env db) s)"
    using Some by (simp add: view_def)
  then show ?thesis
    using r s s' db1 view_setStateObject [of s' db1] setStateObject_ok [OF db1(1), of s']
    by (simp add: on_account_def)
qed

lemma acts_comp_suicided:
  "acts e g h \<Longrightarrow> acts e (\<lambda>s. g (s\<lparr>suicided := b\<rparr>)) (\<lambda>v. h (v\<lparr>v_suicided := b\<rparr>))"
  unfolding acts_def
proof (intro allI impI)
  fix s :: stateObject
  assume a: "\<forall>s. account_ok (data s) \<longrightarrow> (\<exists>s'. g s = Some s' \<and> account_ok (data s') \<and>
     so_address s' = so_address s \<and> deleted s' = deleted s \<and> object_view e s' = h (object_view e s))"
    and ok: "account_ok (data s)"
  have "account_ok (data (s\<lparr>suicided := b\<rparr>))" using ok by simp
  with a show "\<exists>s'. g (s\<lparr>suicided := b\<rparr>) = Some s' \<and> account_ok (data s') \<and>
     so_address s' = so_address s \<and> deleted s' = deleted s \<and> object_view e s' = h ((object_view e s)\<lparr>v_suicided := b\<rparr>)"
    by (fastforce simp: suicided_view)
qed

lemma revertEntry_suicide:
  "revertEntry (suicideChange lk a k p b t) db = (if live db a = None then Some (snd (getStateObject db a))
    else revertObject (\<lambda>s. if lk then Object_setTimeLockBalance (s\<lparr>suicided := p\<rparr>) k t
        else Object_setBalance (s\<lparr>suicided := p\<rparr>) k b) db a)"
proof -
  obtain so db1 where g: "getStateObject db a = (so, db1)" by fastforce
  then have "live db a = so" by (metis fst_conv getStateObject_fst)
  with g show ?thesis by (auto simp: revertObject_def split: option.split)
qed

lemma revertEntry_refines:
  assumes "db_ok db" "entry_ok e"
  shows "map_option view (revertEntry e db) = revertView e (view db) \<and> (\<forall>db'. revertEntry e db = Some db' \<longrightarrow> db_ok db')"
proof (cases e)
  case (createObjectChange a)
  let ?db = "db\<lparr>stateObjects := (stateObjects db)(a := None), stateObjectsDirty := stateObjectsDirty db - {a}\<rparr>"
  have "live ?db = (live db)(a := map_option (newObject a) (accounts db a))"
    by (auto simp: live_def' fun_eq_iff split: option.split)
  moreover have "db_ok ?db" using assms(1) by (auto simp: db_ok_def)
  ultimately show ?thesis
    by (auto simp: createObjectChange view_def fun_eq_iff option.map_comp o_def)
next
  case (resetObjectChange prev)
  with assms show ?thesis
    by (simp add: view_setStateObject setStateObject_ok) (simp add: view_def)
next
  case (suicideChange lk a k p b t)
  have acts: "acts (env db) (\<lambda>s. if lk then Object_setTimeLockBalance (s\<lparr>suicided := p\<rparr>) k t
        else Object_setBalance (s\<lparr>suicided := p\<rparr>) k b)
      (\<lambda>v. if lk then v\<lparr>v_suicided := p, v_timeLock := (v_timeLock v)(k := TimeLock_Set t)\<rparr>
        else v\<lparr>v_suicided := p, v_balance := (v_balance v)(k := b)\<rparr>)"
    using acts_comp_suicided [OF setTimeLockBalance_acts [of "env db" k t], of p]
      acts_comp_suicided [OF setBalance_acts [of "env db" k b], of p] by (cases lk) simp_all
  show ?thesis
  proof (cases "live db a")
    case None
    then have "v_accounts (view db) a = None" by (simp add: view_def)
    with None show ?thesis
      using getStateObject_snd [OF assms(1), of a]
      by (simp add: suicideChange revertEntry_suicide del: revertEntry.simps(3))
  next
    case (Some s)
    then have "v_accounts (view db) a = Some (object_view (env db) s)" by (simp add: view_def)
    with Some show ?thesis
      using revertObject_view [OF assms(1) acts, of a]
      by (simp add: suicideChange revertEntry_suicide del: revertEntry.simps(3))
  qed
next
  case (balanceChange a k prev)
  then show ?thesis using revertObject_view [OF assms(1) setBalance_acts] by simp
next
  case (timeLockBalanceChange a k prev)
  then show ?thesis using revertObject_view [OF assms(1) setTimeLockBalance_acts] by simp
next
  case (nonceChange a prev)
  then show ?thesis using revertObject_view [OF assms(1) setNonce_acts] by simp
next
  case (notationChange a prev)
  then show ?thesis using revertObject_view [OF assms(1) setNotation_acts] by simp
next
  case (storageChange a k prev)
  then show ?thesis using revertObject_view [OF assms(1) setState_acts] by simp
next
  case (codeChange a c h)
  moreover have "v_env (view db) = env db" by (simp add: view_def)
  ultimately show ?thesis using revertObject_view [OF assms(1) setCode_acts] by simp
next
  case (refundChange prev)
  then show ?thesis using assms by (simp add: view_def db_ok_def)
next
  case (addLogChange h)
  then show ?thesis using assms by (simp add: view_def db_ok_def)
next
  case (addPreimageChange h)
  then show ?thesis using assms by (simp add: view_def db_ok_def)
next
  case (touchChange a)
  then show ?thesis using assms by simp
qed

lemma journal_undo_refines:
  "db_ok db \<Longrightarrow> \<forall>e \<in> set es. entry_ok e \<Longrightarrow>
    map_option view (journal_undo es db) = undoView es (view db) \<and> (\<forall>db'. journal_undo es db = Some db' \<longrightarrow> db_ok db')"
proof (induction es arbitrary: db)
  case (Cons e es)
  show ?case
  proof (cases "revertEntry e db")
    case None
    then show ?thesis using revertEntry_refines [OF Cons.prems(1), of e] Cons.prems(2) by simp
  next
    case (Some db1)
    then have r: "revertView e (view db) = Some (view db1)" "db_ok db1"
      using revertEntry_refines [OF Cons.prems(1), of e] Cons.prems(2) by auto
    let ?db2 = "case dirtied e of Some a \<Rightarrow> undirty a db1 | None \<Rightarrow> db1"
    have "view ?db2 = view db1" "db_ok ?db2"
      using same_state_view [OF undirty_same] r(2) by (auto split: option.split)
    with Cons.IH [of ?db2] Cons.prems Some r show ?thesis by simp
  qed
qed simp

section \<open>Operations can be undone\<close>

definition undoable :: "StateDB \<Rightarrow> StateDB \<Rightarrow> bool" where
  "undoable db db' \<longleftrightarrow> db_ok db' \<and> env db' = env db \<and> validRevisions db' = validRevisions db \<and> nextRevisionId db' = nextRevisionId db \<and>
     (\<exists>es. journal db' = journal db @ es \<and> (\<forall>e \<in> set es. entry_ok e) \<and> undoView (rev es) (view db') = Some (view db))"

lemma undoable_trans [trans]: "undoable a b \<Longrightarrow> undoable b c \<Longrightarrow> undoable a c"
proof -
  assume "undoable a b" "undoable b c"
  then obtain es es' where "journal b = journal a @ es" "\<forall>e \<in> set es. entry_ok e" "undoView (rev es) (view b) = Some (view a)"
    "journal c = journal b @ es'" "\<forall>e \<in> set es'. entry_ok e" "undoView (rev es') (view c) = Some (view b)"
    by (auto simp: undoable_def)
  then have "journal c = journal a @ (es @ es')" "\<forall>e \<in> set (es @ es'). entry_ok e"
    "undoView (rev (es @ es')) (view c) = Some (view a)"
    by (auto simp: undoView_append)
  with \<open>undoable a b\<close> \<open>undoable b c\<close> show ?thesis unfolding undoable_def by auto
qed

text \<open>A step that appends nothing and is not observable.\<close>

lemma undoable_silent:
  "db_ok db' \<Longrightarrow> env db' = env db \<Longrightarrow> view db' = view db \<Longrightarrow> journal db' = journal db \<Longrightarrow> validRevisions db' = validRevisions db \<Longrightarrow>
    nextRevisionId db' = nextRevisionId db \<Longrightarrow> undoable db db'"
  by (simp add: undoable_def)

lemma undoable_entry:
  "db_ok db' \<Longrightarrow> env db' = env db \<Longrightarrow> validRevisions db' = validRevisions db \<Longrightarrow> nextRevisionId db' = nextRevisionId db \<Longrightarrow>
    journal db' = journal db @ [e] \<Longrightarrow> entry_ok e \<Longrightarrow> revertView e (view db') = Some (view db) \<Longrightarrow> undoable db db'"
  by (simp add: undoable_def)

lemma getStateObject_undoable: "db_ok db \<Longrightarrow> undoable db (snd (getStateObject db a))"
  using getStateObject_snd [of db a] by (intro undoable_silent) auto

lemma view_env [simp]: "v_env (view db) = env db" "v_trie (view db) = accounts db"
  by (simp_all add: view_def)

lemma view_account [simp]: "v_accounts (view db) a = map_option (object_view (env db)) (live db a)"
  by (simp add: view_def)

lemma live_none_trie: "db_ok db \<Longrightarrow> live db a = None \<Longrightarrow> accounts db a = None"
  by (auto simp: live_def' db_ok_def split: option.splits if_splits)

lemma emptyAccount_ok: "account_ok (emptyAccount e)"
  by (simp add: account_ok_def emptyAccount_def)

lemma newObject_fields [simp]:
  "so_address (newObject a d) = a" "data (newObject a d) = d" "deleted (newObject a d) = False"
  by (simp_all add: newObject_def)

lemma setNonce_fields [simp]:
  "so_address (Object_setNonce s n) = so_address s" "deleted (Object_setNonce s n) = deleted s"
  "account_ok (data (Object_setNonce s n)) = account_ok (data s)"
  by (simp_all add: Object_setNonce_def account_ok_def)

lemma view_account_undo:
  "v_accounts w a = x \<Longrightarrow> w\<lparr>v_accounts := (v_accounts w)(a := y, a := x)\<rparr> = w"
  by (auto simp: fun_upd_idem)

text \<open>The new object may still be filled before it can be observed, as \<open>CreateAccount\<close> does.\<close>

lemma createObject_replace:
  assumes "db_ok db" "createObject db a = (new, prev, db')" "so_address s = a" "account_ok (data s)" "\<not> deleted s"
  shows "undoable db (setStateObject db' s)"
proof -
  obtain db0 where g: "getStateObject db a = (live db a, db0)" by (metis getStateObject_fst prod.collapse)
  have db0: "db_ok db0" "view db0 = view db" "env db0 = env db" "journal db0 = journal db"
    "validRevisions db0 = validRevisions db" "nextRevisionId db0 = nextRevisionId db"
    using getStateObject_snd [OF assms(1), of a] g by simp_all
  let ?e = "case live db a of None \<Rightarrow> createObjectChange a | Some p \<Rightarrow> resetObjectChange p"
  let ?db = "journal_append ?e db0"
  have "so_address new = a" "db' = setStateObject ?db new"
    using assms(2) g by (auto simp: createObject_def Let_def)
  then have eq: "setStateObject db' s = setStateObject ?db s"
    using assms(3) by (simp add: setStateObject_def)
  have same: "view ?db = view db" "db_ok ?db" "env ?db = env db"
    using same_state_view [OF journal_append_same] journal_append_same db0 by (auto simp: same_state_def)
  have v: "view (setStateObject ?db s) = (view db)\<lparr>v_accounts := (v_accounts (view db))(a \<mapsto> object_view (env db) s)\<rparr>"
    using same view_setStateObject [OF assms(5), of ?db] assms(3) by simp
  have "revertView ?e (view (setStateObject ?db s)) = Some (view db)"
  proof (cases "live db a")
    case None
    then show ?thesis using live_none_trie [OF assms(1) None] unfolding v
      by (simp add: fun_upd_idem)
  next
    case (Some p)
    then show ?thesis using live_ok [OF assms(1) Some] unfolding v
      by (simp add: object_ok_def fun_upd_idem)
  qed
  moreover have "entry_ok ?e"
    using live_ok [OF assms(1)] by (auto simp: object_ok_def split: option.split)
  ultimately show ?thesis
    unfolding eq using setStateObject_ok [OF same(2) assms(4,5)] db0 same(3)
    by (intro undoable_entry) auto
qed

lemma createObject_undoable:
  assumes "db_ok db" "createObject db a = (new, prev, db')"
  shows "undoable db db' \<and> prev = live db a \<and> stateObjects db' a = Some new \<and> so_address new = a \<and>
    account_ok (data new) \<and> \<not> deleted new"
proof -
  obtain db0 where g: "getStateObject db a = (live db a, db0)" by (metis getStateObject_fst prod.collapse)
  have new: "new = Object_setNonce (newObject a (emptyAccount (env db0))) 0" "prev = live db a" "stateObjects db' a = Some new"
    using assms(2) g same_state_view [OF journal_append_same] journal_append_same
    by (auto simp: createObject_def Let_def same_state_def)
  then have "so_address new = a" "account_ok (data new)" "\<not> deleted new" using emptyAccount_ok by simp_all
  moreover from this have "setStateObject db' new = db'"
    using new(3) by (simp add: setStateObject_def fun_upd_idem)
  ultimately show ?thesis using createObject_replace [OF assms, of new] new by simp
qed

lemma GetOrNewStateObject_undoable:
  assumes "db_ok db" "GetOrNewStateObject db a = (s, db')"
  shows "undoable db db' \<and> stateObjects db' a = Some s \<and> so_address s = a \<and> account_ok (data s) \<and> \<not> deleted s"
proof (cases "live db a")
  case None
  obtain db0 where g: "getStateObject db a = (None, db0)" using None by (metis getStateObject_fst prod.collapse)
  have db0: "db_ok db0" "undoable db db0"
    using getStateObject_snd [OF assms(1), of a] getStateObject_undoable [OF assms(1), of a] g by simp_all
  obtain new prev db1 where c: "createObject db0 a = (new, prev, db1)" by (metis prod_cases3)
  then have "s = new" "db' = db1" using assms(2) g by (simp_all add: GetOrNewStateObject_def)
  then show ?thesis using createObject_undoable [OF db0(1) c] undoable_trans [OF db0(2)] by blast
next
  case (Some p)
  obtain db0 where g: "getStateObject db a = (Some p, db0)" using Some by (metis getStateObject_fst prod.collapse)
  have p: "so_address p = a" "account_ok (data p)" "\<not> deleted p"
    using live_ok [OF assms(1) Some] by (simp_all add: object_ok_def)
  have "stateObjects db0 a = Some p"
    using g Some by (auto simp: getStateObject_def Let_def split: option.splits if_splits)
  moreover have "s = p" "db' = db0" using assms(2) g p by (simp_all add: GetOrNewStateObject_def)
  ultimately show ?thesis using getStateObject_undoable [OF assms(1), of a] g p by simp
qed

text \<open>A change of an object whose entries undo it in the view of the object.\<close>

definition undoes :: "Env \<Rightarrow> (stateObject \<Rightarrow> (journalEntry list \<times> stateObject) option) \<Rightarrow> bool" where
  "undoes e f \<longleftrightarrow> (\<forall>s es s'. account_ok (data s) \<and> f s = Some (es, s') \<longrightarrow>
     account_ok (data s') \<and> so_address s' = so_address s \<and> deleted s' = deleted s \<and> (\<forall>x \<in> set es. entry_ok x) \<and>
     (\<forall>w. v_env w = e \<and> v_accounts w (so_address s) = Some (object_view e s') \<longrightarrow>
        undoView (rev es) w = Some (w\<lparr>v_accounts := (v_accounts w)(so_address s \<mapsto> object_view e s)\<rparr>)))"

lemma undoesI:
  assumes "\<And>s es s'. account_ok (data s) \<Longrightarrow> f s = Some (es, s') \<Longrightarrow>
    account_ok (data s') \<and> so_address s' = so_address s \<and> deleted s' = deleted s \<and> (\<forall>x \<in> set es. entry_ok x) \<and>
    (\<forall>w :: StateView. v_env w = e \<and> v_accounts w (so_address s) = Some (object_view e s') \<longrightarrow>
      undoView (rev es) w = Some (w\<lparr>v_accounts := (v_accounts w)(so_address s \<mapsto> object_view e s)\<rparr>))"
  shows "undoes e f"
  unfolding undoes_def using assms by blast

lemma append_entries_same: "same_state (append_entries es db) db \<and> journal (append_entries es db) = journal db @ es \<and>
    validRevisions (append_entries es db) = validRevisions db \<and> nextRevisionId (append_entries es db) = nextRevisionId db"
proof (induction es arbitrary: db)
  case (Cons e es)
  then show ?case using append_entry_same [of e db] by (auto simp: append_entries_def same_state_def)
qed (simp add: append_entries_def same_state_def)

lemma storeObject_undoable:
  assumes "db_ok db" "live db a = Some s" "undoes (env db) f" "f s = Some (es, s')"
  shows "undoable db (setStateObject (append_entries es db) s')"
proof -
  have s: "so_address s = a" "account_ok (data s)" "\<not> deleted s"
    using live_ok [OF assms(1,2)] by (simp_all add: object_ok_def)
  have s': "account_ok (data s')" "so_address s' = a" "\<not> deleted s'" "\<forall>x \<in> set es. entry_ok x"
    and undo: "\<And>w. v_env w = env db \<and> v_accounts w a = Some (object_view (env db) s') \<Longrightarrow>
      undoView (rev es) w = Some (w\<lparr>v_accounts := (v_accounts w)(a \<mapsto> object_view (env db) s)\<rparr>)"
    using assms(3,4) s by (auto simp: undoes_def)
  let ?db = "append_entries es db"
  have same: "view ?db = view db" "db_ok ?db" "env ?db = env db"
    using append_entries_same [of es db] same_state_view [of ?db db] assms(1) by (auto simp: same_state_def)
  have v: "view (setStateObject ?db s') = (view db)\<lparr>v_accounts := (v_accounts (view db))(a \<mapsto> object_view (env db) s')\<rparr>"
    using view_setStateObject [of s' ?db] same s' by simp
  have "undoView (rev es) (view (setStateObject ?db s')) = Some (view db)"
    using undo [of "view (setStateObject ?db s')"] assms(2) unfolding v by (simp add: fun_upd_idem)
  then show ?thesis
    using setStateObject_ok [OF same(2) s'(1,3)] append_entries_same [of es db] s'(4) same(3)
    unfolding undoable_def by auto
qed

lemma withObject_undoable:
  assumes "db_ok db" "undoes (env db) f" "withObject f db a = Some db'"
  shows "undoable db db'"
proof -
  obtain s db1 where g: "GetOrNewStateObject db a = (s, db1)" by fastforce
  have 1: "undoable db db1" "stateObjects db1 a = Some s" "\<not> deleted s"
    using GetOrNewStateObject_undoable [OF assms(1) g] by simp_all
  then have "db_ok db1" "env db1 = env db" "live db1 a = Some s"
    by (simp_all add: undoable_def live_def')
  moreover obtain es s' where "f s = Some (es, s')" "db' = setStateObject (append_entries es db1) s'"
    using assms(3) g by (auto simp: withObject_def bind_eq_Some_conv)
  ultimately show ?thesis
    using storeObject_undoable [of db1 a s f es s'] assms(2) undoable_trans [OF 1(1)] by simp
qed

lemma fetch_balance_view:
  assumes "account_ok (data s)" "Object_Balance s k = Some (v, s')"
  shows "v = balanceOf s k \<and> account_ok (data s') \<and> so_address s' = so_address s \<and> deleted s' = deleted s \<and>
    object_view e s' = object_view e s \<and> balanceOf s' = balanceOf s"
proof -
  have "v = balanceOf s k" "account_ok (data s')" "balanceOf s' = balanceOf s" "apartBalances s' = apartBalances s"
    using bal.fetch_law [OF assms(1), of k] assms(2) by auto
  then show ?thesis using same_apartBalances [of s' s e] by (simp add: object_view_def)
qed

lemma fetch_timeLock_view:
  assumes "account_ok (data s)" "Object_TimeLockBalance s k = Some (v, s')"
  shows "v = timeLockOf s k \<and> account_ok (data s') \<and> so_address s' = so_address s \<and> deleted s' = deleted s \<and>
    object_view e s' = object_view e s \<and> timeLockOf s' = timeLockOf s"
proof -
  have "v = timeLockOf s k" "account_ok (data s')" "timeLockOf s' = timeLockOf s" "apartTimeLocks s' = apartTimeLocks s"
    using tlb.fetch_law [OF assms(1), of k] assms(2) by auto
  then show ?thesis using same_apartTimeLocks [of s' s e] by (simp add: object_view_def)
qed

lemma view_selectors [simp]:
  "v_balance (object_view e s) = balanceOf s" "v_timeLock (object_view e s) k = TimeLock_Set (timeLockOf s k)"
  "v_nonce (object_view e s) = Nonce (data s)" "v_notation (object_view e s) = Notaion (data s)"
  "v_codeHash (object_view e s) = CodeHash (data s)"
  by (simp_all add: object_view_def)

lemma view_balance_id [simp]: "(object_view e s)\<lparr>v_balance := balanceOf s\<rparr> = object_view e s"
  by (simp add: object_view_def)

lemma SetBalance_undoes: "undoes e (\<lambda>s. Object_SetBalance s k amount)"
proof (rule undoesI)
  fix s es s' assume ok: "account_ok (data s)" and f: "Object_SetBalance s k amount = Some (es, s')"
  obtain s1 prev where 1: "Object_Balance s k = Some (Some prev, s1)" "Object_setBalance s1 k amount = Some s'"
    "es = [balanceChange (so_address s1) k prev]"
    using f by (auto simp: Object_SetBalance_def bind_eq_Some_conv)
  note v = fetch_balance_view [OF ok 1(1), of e]
  have s': "account_ok (data s')" "so_address s' = so_address s" "deleted s' = deleted s"
    "object_view e s' = (object_view e s)\<lparr>v_balance := (balanceOf s)(k := amount)\<rparr>"
    using actsD [OF setBalance_acts [of e k amount], of s1] v 1(2) by auto
  have "(object_view e s')\<lparr>v_balance := (balanceOf s')(k := Some prev)\<rparr> = object_view e s"
  proof -
    have "balanceOf s' = (balanceOf s)(k := amount)"
      using arg_cong [OF s'(4), of v_balance] by simp
    then have "(balanceOf s')(k := Some prev) = balanceOf s" using v by (simp add: fun_upd_idem)
    then show ?thesis using s'(4) by (simp add: object_view_def)
  qed
  then show "account_ok (data s') \<and> so_address s' = so_address s \<and> deleted s' = deleted s \<and> (\<forall>x \<in> set es. entry_ok x) \<and>
    (\<forall>w. v_env w = e \<and> v_accounts w (so_address s) = Some (object_view e s') \<longrightarrow>
      undoView (rev es) w = Some (w\<lparr>v_accounts := (v_accounts w)(so_address s \<mapsto> object_view e s)\<rparr>))"
    using s' v 1(3) by (simp add: on_account_def)
qed

lemma TimeLock_Set_idem [simp]: "TimeLock_Set (Some (TimeLock_Set v)) = TimeLock_Set v"
  by (cases v) (simp_all add: TimeLock_Set_def TimeLock_Clone_def NewTimeLock_def SetItems_def Item_Clone_def copyMagnitude_def)

lemma SetTimeLockBalance_undoes: "undoes e (\<lambda>s. Object_SetTimeLockBalance s k amount)"
proof (rule undoesI)
  fix s es s' assume ok: "account_ok (data s)" and f: "Object_SetTimeLockBalance s k amount = Some (es, s')"
  obtain s1 prev where 1: "Object_TimeLockBalance s k = Some (prev, s1)" "Object_setTimeLockBalance s1 k amount = Some s'"
    "es = [timeLockBalanceChange (so_address s1) k (TimeLock_Set prev)]"
    using f by (auto simp: Object_SetTimeLockBalance_def bind_eq_Some_conv)
  note v = fetch_timeLock_view [OF ok 1(1), of e]
  let ?L = "v_timeLock (object_view e s)"
  have s': "account_ok (data s')" "so_address s' = so_address s" "deleted s' = deleted s"
    "object_view e s' = (object_view e s)\<lparr>v_timeLock := ?L(k := TimeLock_Set amount)\<rparr>"
    using actsD [OF setTimeLockBalance_acts [of e k amount], of s1] v 1(2) by auto
  have "v_timeLock (object_view e s') = ?L(k := TimeLock_Set amount)" unfolding s'(4) by simp
  then have "(object_view e s')\<lparr>v_timeLock := (v_timeLock (object_view e s'))(k := TimeLock_Set prev)\<rparr> = object_view e s"
    using v unfolding s'(4) by (simp add: fun_upd_idem)
  then show "account_ok (data s') \<and> so_address s' = so_address s \<and> deleted s' = deleted s \<and> (\<forall>x \<in> set es. entry_ok x) \<and>
    (\<forall>w. v_env w = e \<and> v_accounts w (so_address s) = Some (object_view e s') \<longrightarrow>
      undoView (rev es) w = Some (w\<lparr>v_accounts := (v_accounts w)(so_address s \<mapsto> object_view e s)\<rparr>))"
    using s' v 1(3) by (simp add: on_account_def)
qed

text \<open>Reading before an undoable change, or touching an empty object, changes nothing observable.\<close>

lemma undoes_after:
  assumes "\<And>s s'. account_ok (data s) \<Longrightarrow> g s = Some s' \<Longrightarrow>
      account_ok (data s') \<and> so_address s' = so_address s \<and> deleted s' = deleted s \<and> object_view e s' = object_view e s"
    "\<And>s s' x. g s = Some s' \<Longrightarrow> f s = Some x \<Longrightarrow> \<exists>f'. undoes e f' \<and> f' s' = Some x"
    "\<And>s x. f s = Some x \<Longrightarrow> \<exists>s'. g s = Some s'"
  shows "undoes e f"
proof (rule undoesI)
  fix s es s' assume ok: "account_ok (data s)" and f: "f s = Some (es, s')"
  obtain s1 where g: "g s = Some s1" using assms(3) f by blast
  obtain f' where f': "undoes e f'" "f' s1 = Some (es, s')" using assms(2) [OF g f] by blast
  from assms(1) [OF ok g] f' show "account_ok (data s') \<and> so_address s' = so_address s \<and> deleted s' = deleted s \<and> (\<forall>x \<in> set es. entry_ok x) \<and>
    (\<forall>w :: StateView. v_env w = e \<and> v_accounts w (so_address s) = Some (object_view e s') \<longrightarrow>
      undoView (rev es) w = Some (w\<lparr>v_accounts := (v_accounts w)(so_address s \<mapsto> object_view e s)\<rparr>))"
    unfolding undoes_def by metis
qed

lemma undo_touch:
  "v_accounts w (so_address s) = Some (object_view e s) \<Longrightarrow>
    undoView (rev (if b then touch s else [])) w = Some (w\<lparr>v_accounts := (v_accounts w)(so_address s \<mapsto> object_view e s)\<rparr>)"
  by (simp add: touch_def fun_upd_idem)

lemma undoes_if:
  assumes "\<not> c \<Longrightarrow> undoes e f"
  shows "undoes e (\<lambda>s. if c then Some (if b s then touch s else [], s) else f s)"
proof (cases c)
  case True
  then show ?thesis
    by (auto simp: undoes_def touch_def fun_upd_idem)
qed (use assms in simp)

lemma AddBalance_undoes: "undoes e (\<lambda>s. Object_AddBalance e s k amount)"
  unfolding Object_AddBalance_def
proof (rule undoes_if)
  show "undoes e (\<lambda>s. do { (v, s) \<leftarrow> Object_Balance s k; b \<leftarrow> v; Object_SetBalance s k (Some (b + amount)) })"
  proof (rule undoes_after [where g = "\<lambda>s. map_option snd (Object_Balance s k)"], goal_cases)
    case (1 s s')
    then show ?case using fetch_balance_view [of s k _ s' e] by auto
  next
    case (2 s s' x)
    then obtain b where "Object_Balance s k = Some (Some b, s')" "Object_SetBalance s' k (Some (b + amount)) = Some x"
      by (auto simp: bind_eq_Some_conv)
    then show ?case using SetBalance_undoes by blast
  qed (auto simp: bind_eq_Some_conv)
qed

lemma SubBalance_undoes: "undoes e (\<lambda>s. Object_SubBalance s k amount)"
proof -
  have eq: "Object_SubBalance s k amount = (if amount = 0 then Some (if False then touch s else [], s)
     else do { (v, s) \<leftarrow> Object_Balance s k; b \<leftarrow> v; Object_SetBalance s k (Some (b - amount)) })" for s
    by (simp add: Object_SubBalance_def)
  show ?thesis unfolding eq
  proof (rule undoes_if)
    show "undoes e (\<lambda>s. do { (v, s) \<leftarrow> Object_Balance s k; b \<leftarrow> v; Object_SetBalance s k (Some (b - amount)) })"
    proof (rule undoes_after [where g = "\<lambda>s. map_option snd (Object_Balance s k)"], goal_cases)
      case (1 s s')
      then show ?case using fetch_balance_view [of s k _ s' e] by auto
    next
      case (2 s s' x)
      then obtain b where "Object_Balance s k = Some (Some b, s')" "Object_SetBalance s' k (Some (b - amount)) = Some x"
        by (auto simp: bind_eq_Some_conv)
      then show ?case using SetBalance_undoes by blast
    qed (auto simp: bind_eq_Some_conv)
  qed
qed

lemma AddTimeLockBalance_undoes: "undoes e (\<lambda>s. Object_AddTimeLockBalance dm e s k amount ts)"
  unfolding Object_AddTimeLockBalance_def
proof (rule undoes_if)
  show "undoes e (\<lambda>s. do { (v, s) \<leftarrow> Object_TimeLockBalance s k; res \<leftarrow> Add dm v (Some amount);
       Object_SetTimeLockBalance s k (map_option (\<lambda>r. ClearExpired r ts) res) })"
  proof (rule undoes_after [where g = "\<lambda>s. map_option snd (Object_TimeLockBalance s k)"], goal_cases)
    case (1 s s')
    then show ?case using fetch_timeLock_view [of s k _ s' e] by auto
  next
    case (2 s s' x)
    then obtain res where "Object_SetTimeLockBalance s' k (map_option (\<lambda>r. ClearExpired r ts) res) = Some x"
      by (auto simp: bind_eq_Some_conv)
    then show ?case using SetTimeLockBalance_undoes by blast
  qed (auto simp: bind_eq_Some_conv)
qed

lemma SubTimeLockBalance_undoes: "undoes e (\<lambda>s. Object_SubTimeLockBalance dm s k amount ts)"
proof -
  have eq: "Object_SubTimeLockBalance dm s k amount ts = (if IsEmpty amount then Some (if False then touch s else [], s)
     else do { (v, s) \<leftarrow> Object_TimeLockBalance s k; x \<leftarrow> v; res \<leftarrow> Sub dm x (Some amount);
       Object_SetTimeLockBalance s k (Some (ClearExpired res ts)) })" for s
    by (simp add: Object_SubTimeLockBalance_def)
  show ?thesis unfolding eq
  proof (rule undoes_if)
    show "undoes e (\<lambda>s. do { (v, s) \<leftarrow> Object_TimeLockBalance s k; x \<leftarrow> v; res \<leftarrow> Sub dm x (Some amount);
       Object_SetTimeLockBalance s k (Some (ClearExpired res ts)) })"
    proof (rule undoes_after [where g = "\<lambda>s. map_option snd (Object_TimeLockBalance s k)"], goal_cases)
      case (1 s s')
      then show ?case using fetch_timeLock_view [of s k _ s' e] by auto
    next
      case (2 s s' x)
      then obtain res where "Object_SetTimeLockBalance s' k (Some (ClearExpired res ts)) = Some x"
        by (auto simp: bind_eq_Some_conv)
      then show ?case using SetTimeLockBalance_undoes by blast
    qed (auto simp: bind_eq_Some_conv)
  qed
qed

lemma SetNonce_undoes: "undoes e (\<lambda>s. Some (Object_SetNonce s n))"
  by (auto simp: undoes_def Object_SetNonce_def on_account_def)
    (simp_all add: object_view_eqs Object_setNonce_def balanceOf_def timeLockOf_def)

lemma SetNotation_undoes: "undoes e (\<lambda>s. Some (Object_SetNotation s n))"
  by (auto simp: undoes_def Object_SetNotation_def on_account_def account_ok_def Object_setNotation_def)
    (simp_all add: object_view_eqs balanceOf_def timeLockOf_def)

lemma GetState_view:
  assumes "Object_GetState e s k = (v, s')"
  shows "v = v_storage (object_view e s) k \<and> data s' = data s \<and> so_address s' = so_address s \<and> deleted s' = deleted s \<and>
    object_view e s' = object_view e s"
proof -
  have *: "storage_view st tr (org(k \<mapsto> (case (case tr of Some t \<Rightarrow> t | None \<Rightarrow> st) k of Some v \<Rightarrow> v | None \<Rightarrow> 0))) dirt =
      storage_view st tr org dirt" if "org k = None" for st tr org dirt
    using that by (auto simp: storage_view_def fun_eq_iff split: option.splits)
  have **: "storage_view st (Some st) org dirt = storage_view st None org dirt" for st org dirt
    by (simp add: storage_view_def fun_eq_iff split: option.split)
  have "v = v_storage (object_view e s) k" using assms by (simp add: object_view_def)
  then show ?thesis
    using assms * [of "originStorage s"] ** 
    by (auto simp: Object_GetState_def Object_GetCommittedState_def getTrie_def Let_def object_view_eqs balanceOf_def timeLockOf_def
        split: option.splits)
qed

lemmas GetState_view' = GetState_view [OF surjective_pairing]

lemma SetState_undoes: "undoes e (\<lambda>s. Some (Object_SetState e s k v))"
proof (rule undoes_after [where g = "\<lambda>s. Some (snd (Object_GetState e s k))"], goal_cases)
  case (1 s s')
  then show ?case using GetState_view' [of e s k] by auto
next
  case (2 s s' x)
  let ?p = "v_storage (object_view e s) k"
  have g: "Object_GetState e s k = (?p, s')" "v_storage (object_view e s') k = ?p"
    using 2(1) GetState_view' [of e s k] by (auto intro: prod_eqI)
  let ?f = "\<lambda>t. if ?p = v \<or> v_storage (object_view e t) k \<noteq> ?p then Some ([], t)
     else Some ([storageChange (so_address t) k ?p], Object_setState t k v)"
  have "undoes e ?f"
  proof (rule undoesI)
    fix t es t' assume t: "account_ok (data t)" "?f t = Some (es, t')"
    show "account_ok (data t') \<and> so_address t' = so_address t \<and> deleted t' = deleted t \<and> (\<forall>x \<in> set es. entry_ok x) \<and>
      (\<forall>w :: StateView. v_env w = e \<and> v_accounts w (so_address t) = Some (object_view e t') \<longrightarrow>
        undoView (rev es) w = Some (w\<lparr>v_accounts := (v_accounts w)(so_address t \<mapsto> object_view e t)\<rparr>))"
      using t actsD [OF setState_acts [of e k v] t(1)]
      by (auto simp: fun_upd_idem on_account_def split: if_splits)
  qed
  moreover have "?f s' = Some x" using 2(2) g by (auto simp: Object_SetState_def)
  ultimately show ?case by blast
qed simp

lemma Object_Code_view:
  "so_address (snd (Object_Code e s)) = so_address s \<and> deleted (snd (Object_Code e s)) = deleted s \<and>
   data (snd (Object_Code e s)) = data s \<and> object_view e (snd (Object_Code e s)) = object_view e s"
  by (auto simp: Object_Code_def object_view_eqs code_view_def balanceOf_def timeLockOf_def Let_def split: option.splits)

lemma SetCode_undoes: "undoes e (\<lambda>s. Some (Object_SetCode e s h c))"
proof (rule undoesI)
  fix s es s' assume ok: "account_ok (data s)" and f: "Some (Object_SetCode e s h c) = Some (es, s')"
  let ?s = "snd (Object_Code e s)"
  have es: "es = [codeChange (so_address s) (fst (Object_Code e s)) (CodeHash (data s))]" "s' = Object_setCode ?s h c"
    using f Object_Code_view [of e s] by (auto simp: Object_SetCode_def split: prod.splits)
  have s': "account_ok (data s')" "so_address s' = so_address s" "deleted s' = deleted s"
    "object_view e s' = (object_view e s)\<lparr>v_codeHash := h, v_code := code_view e h c\<rparr>"
    using actsD [OF setCode_acts [of e h c], of ?s] ok Object_Code_view [of e s] es(2) by auto
  have "code_view e (CodeHash (data s)) (fst (Object_Code e s)) = fst (Object_Code e s)"
    by (auto simp: object_code_view code_view_def split: option.splits)
  then have "(object_view e s')\<lparr>v_codeHash := CodeHash (data s), v_code := code_view e (CodeHash (data s)) (fst (Object_Code e s))\<rparr> =
      object_view e s"
    unfolding s'(4) by (simp add: object_view_def)
  then show "account_ok (data s') \<and> so_address s' = so_address s \<and> deleted s' = deleted s \<and> (\<forall>x \<in> set es. entry_ok x) \<and>
    (\<forall>w :: StateView. v_env w = e \<and> v_accounts w (so_address s) = Some (object_view e s') \<longrightarrow>
      undoView (rev es) w = Some (w\<lparr>v_accounts := (v_accounts w)(so_address s \<mapsto> object_view e s)\<rparr>))"
    using s' es(1) by (simp add: on_account_def)
qed

lemma storeSilent_undoable:
  assumes "db_ok db" "live db a = Some s" "account_ok (data s')" "so_address s' = so_address s" "deleted s' = deleted s"
    "object_view (env db) s' = object_view (env db) s"
  shows "undoable db (setStateObject db s')"
proof -
  have s: "so_address s = a" "\<not> deleted s" using live_ok [OF assms(1,2)] by (simp_all add: object_ok_def)
  have "view (setStateObject db s') = view db"
    using view_setStateObject [of s' db] assms s by (simp add: fun_upd_idem)
  then show ?thesis using setStateObject_ok [OF assms(1,3)] assms(5) s(2) by (intro undoable_silent) simp_all
qed

lemma setBalance_fold_ok:
  "fold (\<lambda>(k, v) s. do { s \<leftarrow> s; Object_setBalance s k v }) kvs (Some s) = Some s' \<Longrightarrow> account_ok (data s) \<Longrightarrow>
    account_ok (data s') \<and> so_address s' = so_address s \<and> deleted s' = deleted s"
proof (induction kvs arbitrary: s)
  case (Cons kv kvs)
  obtain k v where kv: "kv = (k, v)" by fastforce
  from actsD [OF setBalance_acts [of _ k v] Cons.prems(2)] obtain s1 where
    "Object_setBalance s k v = Some s1" "account_ok (data s1)" "so_address s1 = so_address s" "deleted s1 = deleted s" by blast
  then show ?case using Cons.IH [of s1] Cons.prems(1) kv by simp
qed simp

lemma setTimeLock_fold_ok:
  "fold (\<lambda>(k, v) s. do { s \<leftarrow> s; Object_setTimeLockBalance s k v }) kvs (Some s) = Some s' \<Longrightarrow> account_ok (data s) \<Longrightarrow>
    account_ok (data s') \<and> so_address s' = so_address s \<and> deleted s' = deleted s"
proof (induction kvs arbitrary: s)
  case (Cons kv kvs)
  obtain k v where kv: "kv = (k, v)" by fastforce
  from actsD [OF setTimeLockBalance_acts [of _ k v] Cons.prems(2)] obtain s1 where
    "Object_setTimeLockBalance s k v = Some s1" "account_ok (data s1)" "so_address s1 = so_address s" "deleted s1 = deleted s" by blast
  then show ?case using Cons.IH [of s1] Cons.prems(1) kv by simp
qed simp

lemma CreateAccount_undoable:
  assumes "db_ok db" "CreateAccount db a = Some db'"
  shows "undoable db db'"
proof -
  obtain new prev db1 where c: "createObject db a = (new, prev, db1)" by (metis prod_cases3)
  note cu = createObject_undoable [OF assms(1) c]
  show ?thesis
  proof (cases prev)
    case None
    then show ?thesis using cu c assms(2) by (simp add: CreateAccount_def)
  next
    case (Some p)
    then obtain s1 s2 where s: "CreateAccount_balances p new = Some s1" "CreateAccount_timeLocks p s1 = Some s2"
      "db' = setStateObject db1 s2"
      using assms(2) c by (auto simp: CreateAccount_def bind_eq_Some_conv)
    have "account_ok (data s2)" "so_address s2 = a" "\<not> deleted s2"
      using s(1,2) cu setBalance_fold_ok [of _ new s1] setTimeLock_fold_ok [of _ s1 s2]
      by (auto simp: CreateAccount_balances_def CreateAccount_timeLocks_def split: if_splits)
    then show ?thesis using createObject_replace [OF assms(1) c] s(3) by simp
  qed
qed

lemma GetBalance_undoable:
  assumes "db_ok db" "GetBalance db k a = Some (v, db')"
  shows "undoable db db'"
proof -
  obtain db0 where g: "getStateObject db a = (live db a, db0)" by (metis getStateObject_fst prod.collapse)
  have db0: "undoable db db0" "db_ok db0" "live db0 a = live db a"
    using getStateObject_snd [OF assms(1), of a] getStateObject_undoable [OF assms(1), of a] g by simp_all
  show ?thesis
  proof (cases "live db a")
    case None
    then show ?thesis using assms(2) g db0(1) by (simp add: GetBalance_def)
  next
    case (Some s)
    then obtain s' where s': "Object_Balance s k = Some (v, s')" "db' = setStateObject db0 s'"
      using assms(2) g by (auto simp: GetBalance_def bind_eq_Some_conv)
    have "account_ok (data s)" using live_ok [OF assms(1) Some] by (simp add: object_ok_def)
    from fetch_balance_view [OF this s'(1)] storeSilent_undoable [OF db0(2), of a s s'] Some db0 s'(2)
    show ?thesis using undoable_trans [OF db0(1)] by simp
  qed
qed

lemma GetTimeLockBalance_undoable:
  assumes "db_ok db" "GetTimeLockBalance db k a = Some (v, db')"
  shows "undoable db db'"
proof -
  obtain db0 where g: "getStateObject db a = (live db a, db0)" by (metis getStateObject_fst prod.collapse)
  have db0: "undoable db db0" "db_ok db0" "live db0 a = live db a"
    using getStateObject_snd [OF assms(1), of a] getStateObject_undoable [OF assms(1), of a] g by simp_all
  show ?thesis
  proof (cases "live db a")
    case None
    then show ?thesis using assms(2) g db0(1) by (simp add: GetTimeLockBalance_def)
  next
    case (Some s)
    then obtain s' where s': "Object_TimeLockBalance s k = Some (v, s')" "db' = setStateObject db0 s'"
      using assms(2) g by (auto simp: GetTimeLockBalance_def bind_eq_Some_conv)
    have "account_ok (data s)" using live_ok [OF assms(1) Some] by (simp add: object_ok_def)
    from fetch_timeLock_view [OF this s'(1)] storeSilent_undoable [OF db0(2), of a s s'] Some db0 s'(2)
    show ?thesis using undoable_trans [OF db0(1)] by simp
  qed
qed

lemma GetState_undoable:
  assumes "db_ok db"
  shows "undoable db (snd (GetState db a k))"
proof -
  obtain db0 where g: "getStateObject db a = (live db a, db0)" by (metis getStateObject_fst prod.collapse)
  have db0: "undoable db db0" "db_ok db0" "live db0 a = live db a"
    using getStateObject_snd [OF assms, of a] getStateObject_undoable [OF assms, of a] g by simp_all
  show ?thesis
  proof (cases "live db a")
    case None
    then show ?thesis using g db0(1) by (simp add: GetState_def)
  next
    case (Some s)
    have "snd (GetState db a k) = setStateObject db0 (snd (Object_GetState (env db0) s k))"
      using Some g by (simp add: GetState_def split: prod.split)
    moreover have "account_ok (data s)" using live_ok [OF assms Some] by (simp add: object_ok_def)
    ultimately show ?thesis
      using GetState_view' [of "env db0" s k] storeSilent_undoable [OF db0(2), of a s] Some db0(3) undoable_trans [OF db0(1)]
      by simp
  qed
qed

lemma GetCode_undoable:
  assumes "db_ok db"
  shows "undoable db (snd (GetCode db a))"
proof -
  obtain db0 where g: "getStateObject db a = (live db a, db0)" by (metis getStateObject_fst prod.collapse)
  have db0: "undoable db db0" "db_ok db0" "live db0 a = live db a"
    using getStateObject_snd [OF assms, of a] getStateObject_undoable [OF assms, of a] g by simp_all
  show ?thesis
  proof (cases "live db a")
    case None
    then show ?thesis using g db0(1) by (simp add: GetCode_def)
  next
    case (Some s)
    have "snd (GetCode db a) = setStateObject db0 (snd (Object_Code (env db0) s))"
      using Some g by (simp add: GetCode_def split: prod.split)
    moreover have "account_ok (data s)" using live_ok [OF assms Some] by (simp add: object_ok_def)
    ultimately show ?thesis
      using Object_Code_view [of "env db0" s] storeSilent_undoable [OF db0(2), of a s] Some db0(3) undoable_trans [OF db0(1)]
      by simp
  qed
qed

lemma AddLog_undoable: "db_ok db \<Longrightarrow> undoable db (AddLog db l)"
  by (rule undoable_entry [where e = "addLogChange (thash db)"])
    (auto simp: AddLog_def journal_append_def Let_def view_def db_ok_def fun_upd_idem)

lemma AddPreimage_undoable: "db_ok db \<Longrightarrow> undoable db (AddPreimage db h p)"
proof (cases "preimages db h")
  case None
  assume "db_ok db"
  with None show ?thesis
    by (intro undoable_entry [where e = "addPreimageChange h"])
      (auto simp: AddPreimage_def journal_append_def Let_def view_def db_ok_def fun_upd_idem)
qed (auto simp: AddPreimage_def intro: undoable_silent)

lemma AddRefund_undoable: "db_ok db \<Longrightarrow> undoable db (AddRefund db gas)"
  by (rule undoable_entry [where e = "refundChange (refund db)"])
    (auto simp: AddRefund_def journal_append_def Let_def view_def db_ok_def)

lemma SubRefund_undoable: "db_ok db \<Longrightarrow> SubRefund db gas = Some db' \<Longrightarrow> undoable db db'"
  by (rule undoable_entry [where e = "refundChange (refund db)"])
    (auto simp: SubRefund_def journal_append_def Let_def view_def db_ok_def split: if_splits)

section \<open>Sequences of operations\<close>

datatype StateOp =
    OpGetBalance Hash Address | OpGetTimeLockBalance Hash Address | OpGetState Address Hash | OpGetCode Address
  | OpAddBalance Address Hash int | OpSubBalance Address Hash int | OpSetBalance Address Hash int
  | OpAddTimeLockBalance Address Hash TimeLock uint64 | OpSubTimeLockBalance Address Hash TimeLock uint64
  | OpSetTimeLockBalance Address Hash TimeLock
  | OpSetNonce Address uint64 | OpSetNotation Address uint64 | OpSetCode Address bytes
  | OpSetState Address Hash Hash | OpCreateAccount Address
  | OpAddLog Log | OpAddPreimage Hash bytes | OpAddRefund uint64 | OpSubRefund uint64
  | OpSnapshot | OpRevert nat

fun exec :: "bool \<Rightarrow> StateOp \<Rightarrow> StateDB \<Rightarrow> StateDB option" where
  "exec dm (OpGetBalance k a) db = map_option snd (GetBalance db k a)"
| "exec dm (OpGetTimeLockBalance k a) db = map_option snd (GetTimeLockBalance db k a)"
| "exec dm (OpGetState a k) db = Some (snd (GetState db a k))"
| "exec dm (OpGetCode a) db = Some (snd (GetCode db a))"
| "exec dm (OpAddBalance a k v) db = AddBalance db a k v"
| "exec dm (OpSubBalance a k v) db = SubBalance db a k v"
| "exec dm (OpSetBalance a k v) db = SetBalance db a k v"
| "exec dm (OpAddTimeLockBalance a k v ts) db = AddTimeLockBalance dm db a k v ts"
| "exec dm (OpSubTimeLockBalance a k v ts) db = SubTimeLockBalance dm db a k v ts"
| "exec dm (OpSetTimeLockBalance a k v) db = SetTimeLockBalance db a k v"
| "exec dm (OpSetNonce a n) db = SetNonce db a n"
| "exec dm (OpSetNotation a n) db = SetNotation db a n"
| "exec dm (OpSetCode a c) db = SetCode db a c"
| "exec dm (OpSetState a k v) db = SetState db a k v"
| "exec dm (OpCreateAccount a) db = CreateAccount db a"
| "exec dm (OpAddLog l) db = Some (AddLog db l)"
| "exec dm (OpAddPreimage h p) db = Some (AddPreimage db h p)"
| "exec dm (OpAddRefund g) db = Some (AddRefund db g)"
| "exec dm (OpSubRefund g) db = SubRefund db g"
| "exec dm OpSnapshot db = Some (snd (Snapshot db))"
| "exec dm (OpRevert i) db = RevertToSnapshot db i"

fun run :: "bool \<Rightarrow> StateOp list \<Rightarrow> StateDB \<Rightarrow> StateDB option" where
  "run dm [] db = Some db"
| "run dm (x # xs) db = Option.bind (exec dm x db) (run dm xs)"

lemma exec_undoable:
  assumes "db_ok db" "exec dm x db = Some db'" "x \<noteq> OpSnapshot" "\<forall>i. x \<noteq> OpRevert i"
  shows "undoable db db'"
proof (cases x)
  case (OpGetBalance k a)
  then show ?thesis using assms(1,2) GetBalance_undoable by auto
next
  case (OpGetTimeLockBalance k a)
  then show ?thesis using assms(1,2) GetTimeLockBalance_undoable by auto
next
  case (OpGetState a k)
  then show ?thesis using assms(1,2) GetState_undoable by auto
next
  case (OpGetCode a)
  then show ?thesis using assms(1,2) GetCode_undoable by auto
next
  case (OpAddBalance a k v)
  then show ?thesis using withObject_undoable [OF assms(1) AddBalance_undoes] assms(2) by (simp add: AddBalance_def)
next
  case (OpSubBalance a k v)
  then show ?thesis using withObject_undoable [OF assms(1) SubBalance_undoes] assms(2) by (simp add: SubBalance_def)
next
  case (OpSetBalance a k v)
  then show ?thesis using withObject_undoable [OF assms(1) SetBalance_undoes] assms(2) by (simp add: SetBalance_def)
next
  case (OpAddTimeLockBalance a k v ts)
  then show ?thesis using withObject_undoable [OF assms(1) AddTimeLockBalance_undoes] assms(2) by (simp add: AddTimeLockBalance_def)
next
  case (OpSubTimeLockBalance a k v ts)
  then show ?thesis using withObject_undoable [OF assms(1) SubTimeLockBalance_undoes] assms(2) by (simp add: SubTimeLockBalance_def)
next
  case (OpSetTimeLockBalance a k v)
  then show ?thesis using withObject_undoable [OF assms(1) SetTimeLockBalance_undoes] assms(2) by (simp add: SetTimeLockBalance_def)
next
  case (OpSetNonce a n)
  then show ?thesis using withObject_undoable [OF assms(1) SetNonce_undoes] assms(2) by (simp add: SetNonce_def)
next
  case (OpSetNotation a n)
  then show ?thesis using withObject_undoable [OF assms(1) SetNotation_undoes] assms(2) by (simp add: SetNotation_def)
next
  case (OpSetCode a c)
  then show ?thesis using withObject_undoable [OF assms(1) SetCode_undoes] assms(2) by (simp add: SetCode_def)
next
  case (OpSetState a k v)
  then show ?thesis using withObject_undoable [OF assms(1) SetState_undoes] assms(2) by (simp add: SetState_def)
next
  case (OpCreateAccount a)
  then show ?thesis using assms(1,2) CreateAccount_undoable by auto
next
  case (OpSubRefund g)
  then show ?thesis using assms(1,2) SubRefund_undoable by auto
qed (use assms AddLog_undoable AddPreimage_undoable AddRefund_undoable in auto)

text \<open>
  A history names, for every valid revision, the view at the time of its snapshot; undoing the
  journal down to the revision leads back to that view.
\<close>

definition hist_ok :: "StateDB \<Rightarrow> (revision \<times> StateView) list \<Rightarrow> bool" where
  "hist_ok db h \<longleftrightarrow> db_ok db \<and> (\<forall>e \<in> set (journal db). entry_ok e) \<and> validRevisions db = map fst h \<and>
     sorted_wrt (<) (map (revId \<circ> fst) h) \<and> sorted (map (journalIndex \<circ> fst) h) \<and>
     (\<forall>(r, w) \<in> set h. revId r < nextRevisionId db \<and> journalIndex r \<le> length (journal db) \<and>
        undoView (rev (drop (journalIndex r) (journal db))) (view db) = Some w)"

lemma hist_ok_New: "\<forall>addr d. tr addr = Some d \<longrightarrow> account_ok d \<Longrightarrow> hist_ok (New e tr mix cache) []"
  by (simp add: hist_ok_def db_ok_def New_def)

lemma undoable_hist:
  assumes "hist_ok db h" "undoable db db'"
  shows "hist_ok db' h"
proof -
  obtain es where es: "journal db' = journal db @ es" "\<forall>e \<in> set es. entry_ok e" "undoView (rev es) (view db') = Some (view db)"
    using assms(2) by (auto simp: undoable_def)
  have "undoView (rev (drop i (journal db'))) (view db') = undoView (rev (drop i (journal db))) (view db)"
    if "i \<le> length (journal db)" for i
    using that es by (simp add: undoView_append)
  with assms es show ?thesis by (auto simp: hist_ok_def undoable_def)
qed

lemma Snapshot_hist:
  assumes "hist_ok db h"
  shows "hist_ok (snd (Snapshot db)) (h @ [(\<lparr>revId = nextRevisionId db, journalIndex = length (journal db)\<rparr>, view db)])"
proof -
  let ?db = "snd (Snapshot db)"
  have eq: "view ?db = view db" "db_ok ?db = db_ok db" "journal ?db = journal db"
    "nextRevisionId ?db = nextRevisionId db + 1"
    "validRevisions ?db = validRevisions db @ [\<lparr>revId = nextRevisionId db, journalIndex = length (journal db)\<rparr>]"
    by (simp_all add: Snapshot_def Let_def view_def db_ok_def)
  show ?thesis using assms unfolding hist_ok_def eq
    by (auto simp: sorted_wrt_append sorted_append less_Suc_eq)
qed

lemma sortSearch_spec:
  assumes "\<forall>a b. a \<le> b \<and> b < n \<and> f a \<longrightarrow> f b" "i \<le> j" "j \<le> n" "\<forall>k < i. \<not> f k" "\<forall>k. j \<le> k \<and> k < n \<longrightarrow> f k"
  shows "sortSearch f i j \<le> n \<and> (\<forall>k < sortSearch f i j. \<not> f k) \<and> (\<forall>k. sortSearch f i j \<le> k \<and> k < n \<longrightarrow> f k)"
  using assms
proof (induction f i j rule: sortSearch.induct)
  case (1 f i j)
  let ?h = "(i + j) div 2"
  show ?case
  proof (cases "i < j")
    case True
    then have h: "i \<le> ?h" "?h < j" "?h < n" using 1(5) by auto
    show ?thesis
    proof (cases "f ?h")
      case f: True
      have eq: "sortSearch f i j = sortSearch f i ?h" using True f by (subst sortSearch.simps) (simp add: Let_def)
      have "\<forall>k. ?h \<le> k \<and> k < n \<longrightarrow> f k" using 1(3) f by blast
      then show ?thesis unfolding eq
        by (intro 1(2) [OF True refl _ 1(3) _ _ 1(6)]) (use f h in simp_all)
    next
      case f: False
      have eq: "sortSearch f i j = sortSearch f (?h + 1) j" using True f by (subst sortSearch.simps) (simp add: Let_def)
      have "\<not> f k" if "k < ?h + 1" for k using 1(3) h(3) f that by (metis Suc_eq_plus1 less_Suc_eq_le)
      then show ?thesis unfolding eq
        by (intro 1(1) [OF True refl f 1(3) _ 1(5) _ 1(7)]) (use h in simp_all)
    qed
  next
    case False
    have eq: "sortSearch f i j = i" using False by (subst sortSearch.simps) simp
    show ?thesis unfolding eq using 1(3-7) False by auto
  qed
qed

text \<open>On revisions with increasing identifiers the binary search finds a revision that is there.\<close>

lemma find_revision:
  assumes "sorted_wrt (<) (map revId rs)" "k < length rs"
  shows "sortSearch (\<lambda>i. revId (rs ! k) \<le> revId (rs ! i)) 0 (length rs) = k"
proof -
  let ?f = "\<lambda>i. revId (rs ! k) \<le> revId (rs ! i)"
  have less: "revId (rs ! a) < revId (rs ! b)" if "a < b" "b < length rs" for a b
    using assms(1) that by (simp add: sorted_wrt_iff_nth_less)
  have "\<forall>a b. a \<le> b \<and> b < length rs \<and> ?f a \<longrightarrow> ?f b"
    using less by (fastforce simp: le_eq_less_or_eq)
  then have sp: "sortSearch ?f 0 (length rs) \<le> length rs \<and> (\<forall>j < sortSearch ?f 0 (length rs). \<not> ?f j) \<and>
      (\<forall>j. sortSearch ?f 0 (length rs) \<le> j \<and> j < length rs \<longrightarrow> ?f j)"
    by (rule sortSearch_spec) simp_all
  then have s: "\<forall>j < sortSearch ?f 0 (length rs). \<not> ?f j" "\<forall>j. sortSearch ?f 0 (length rs) \<le> j \<and> j < length rs \<longrightarrow> ?f j"
    by blast+
  have "sortSearch ?f 0 (length rs) \<le> k" using s(1) [rule_format, of k] by (cases "k < sortSearch ?f 0 (length rs)") simp_all
  moreover have "\<not> sortSearch ?f 0 (length rs) < k"
  proof
    assume *: "sortSearch ?f 0 (length rs) < k"
    then show False
      using s(2) [rule_format, of "sortSearch ?f 0 (length rs)"] less [OF * assms(2)] assms(2) by linarith
  qed
  ultimately show ?thesis by simp
qed

lemma view_updates [simp]:
  "view (db\<lparr>journal := j, validRevisions := vr\<rparr>) = view db" "view (db\<lparr>journal := j\<rparr>) = view db"
  "view (db\<lparr>validRevisions := vr\<rparr>) = view db"
  "db_ok (db\<lparr>journal := j\<rparr>) = db_ok db" "db_ok (db\<lparr>validRevisions := vr\<rparr>) = db_ok db"
  by (simp_all add: view_def db_ok_def)

lemma revertEntry_next: "revertEntry e db = Some db' \<Longrightarrow> nextRevisionId db' = nextRevisionId db"
proof -
  have g: "nextRevisionId (snd (getStateObject db a)) = nextRevisionId db" for a
    by (simp add: getStateObject_def Let_def split: option.split)
  have r: "revertObject f db a = Some db' \<Longrightarrow> nextRevisionId db' = nextRevisionId db" for f a
    using g [of a] by (auto simp: revertObject_def bind_eq_Some_conv split: prod.splits)
  assume "revertEntry e db = Some db'"
  then show ?thesis
    using g r by (cases e) (auto simp: revertEntry_suicide simp del: revertEntry.simps(3) split: if_splits)
qed

lemma journal_undo_next: "journal_undo es db = Some db' \<Longrightarrow> nextRevisionId db' = nextRevisionId db"
proof (induction es arbitrary: db)
  case (Cons e es)
  then obtain db1 where db1: "revertEntry e db = Some db1"
    "journal_undo es (case dirtied e of Some a \<Rightarrow> undirty a db1 | None \<Rightarrow> db1) = Some db'"
    by (auto simp: bind_eq_Some_conv)
  from Cons.IH [OF db1(2)] revertEntry_next [OF db1(1)] show ?case
    by (simp add: undirty_def Let_def split: option.splits)
qed simp

text \<open>Reverting to the revision of a history leads to its view and keeps the history before it.\<close>

lemma Revert_hist:
  assumes h: "hist_ok db h" and k: "k < length h"
  shows "\<exists>db'. RevertToSnapshot db (revId (fst (h ! k))) = Some db' \<and> view db' = snd (h ! k) \<and> hist_ok db' (take k h) \<and>
    nextRevisionId db' = nextRevisionId db \<and> journal db' = take (journalIndex (fst (h ! k))) (journal db)"
proof -
  obtain r w where rw: "h ! k = (r, w)" by fastforce
  let ?J = "journal db" and ?i = "journalIndex r"
  have rs: "validRevisions db = map fst h" and srt: "sorted_wrt (<) (map revId (validRevisions db))"
    and ji: "sorted (map (journalIndex \<circ> fst) h)" and je: "\<forall>e \<in> set ?J. entry_ok e" and ok: "db_ok db"
    using h by (simp_all add: hist_ok_def)
  have mem: "(r, w) \<in> set h" using k rw by (metis nth_mem)
  then have i: "?i \<le> length ?J" "undoView (rev (drop ?i ?J)) (view db) = Some w"
    using h by (auto simp: hist_ok_def)
  have "\<forall>e \<in> set (rev (drop ?i ?J)). entry_ok e" using je by (auto dest: in_set_dropD)
  from journal_undo_refines [OF ok this] i(2) obtain db1 where
    db1: "journal_undo (rev (drop ?i ?J)) db = Some db1" "view db1 = w" "db_ok db1" by auto
  let ?db = "db1\<lparr>journal := take ?i ?J, validRevisions := take k (map fst h)\<rparr>"
  have nth: "validRevisions db ! k = r" using k rw rs by simp
  have idx: "sortSearch (\<lambda>j. revId r \<le> revId (validRevisions db ! j)) 0 (length (validRevisions db)) = k"
    using find_revision [OF srt, of k] nth k rs by simp
  have rev: "RevertToSnapshot db (revId r) = Some ?db"
    using nth k db1(1) rs unfolding RevertToSnapshot_def Let_def idx by (simp add: journal_revert_def)
  have "hist_ok ?db (take k h)"
    unfolding hist_ok_def
  proof (intro conjI ballI)
    fix x assume x: "x \<in> set (take k h)"
    obtain r' w' where x': "x = (r', w')" by fastforce
    have "(r', w') \<in> set h" using x x' by (auto dest: in_set_takeD)
    then have r': "revId r' < nextRevisionId db" "undoView (rev (drop (journalIndex r') ?J)) (view db) = Some w'"
      using h by (auto simp: hist_ok_def)
    obtain j where j: "j < k" "h ! j = (r', w')" using x x' k by (auto simp: in_set_conv_nth)
    then have le: "journalIndex r' \<le> ?i"
      using sorted_nth_mono [OF ji, of j k] k rw by simp
    have "drop (journalIndex r') ?J = drop (journalIndex r') (take ?i ?J) @ drop ?i ?J"
      using le i(1) by (metis append_take_drop_id drop_append diff_is_0_eq' drop0 length_take min.absorb2)
    then have "undoView (rev (drop (journalIndex r') (take ?i ?J))) w = Some w'"
      using r'(2) i(2) by (simp add: undoView_append)
    then show "case x of (r, w) \<Rightarrow> revId r < nextRevisionId ?db \<and> journalIndex r \<le> length (journal ?db) \<and>
        undoView (rev (drop (journalIndex r) (journal ?db))) (view ?db) = Some w"
      using r'(1) le i(1) db1(2) journal_undo_next [OF db1(1)] x' by simp
  qed (use db1 je h in \<open>auto simp: hist_ok_def take_map [symmetric] sorted_wrt_take dest: in_set_takeD\<close>)
  with rev db1 journal_undo_next [OF db1(1)] rw show ?thesis by auto
qed

lemma sortSearch_le: "i \<le> j \<Longrightarrow> sortSearch f i j \<le> j"
proof (induction f i j rule: sortSearch.induct)
  case (1 f i j)
  show ?case
  proof (cases "i < j")
    case True
    then have h: "(i + j) div 2 + 1 \<le> j" "i \<le> (i + j) div 2" "(i + j) div 2 \<le> j" by auto
    from 1(1) [OF True refl _ h(1)] 1(2) [OF True refl _ h(2)] h(3) True show ?thesis
      by (subst sortSearch.simps) (auto simp: Let_def intro: order_trans)
  next
    case False
    then show ?thesis using 1(3) by (subst sortSearch.simps) simp
  qed
qed

lemma RevertToSnapshot_valid:
  assumes "hist_ok db h" "RevertToSnapshot db i = Some db'"
  shows "\<exists>k < length h. revId (fst (h ! k)) = i"
proof -
  let ?idx = "sortSearch (\<lambda>j. revId (validRevisions db ! j) \<ge> i) 0 (length (validRevisions db))"
  have "?idx \<le> length (validRevisions db)" by (rule sortSearch_le) simp
  moreover have "?idx \<noteq> length (validRevisions db)" "revId (validRevisions db ! ?idx) = i"
    using assms(2) by (auto simp: RevertToSnapshot_def Let_def split: if_splits)
  ultimately have "?idx < length h" "revId (fst (h ! ?idx)) = i"
    using assms(1) by (simp_all add: hist_ok_def)
  then show ?thesis by blast
qed

lemma exec_hist:
  assumes "hist_ok db h" "exec dm x db = Some db'"
  shows "\<exists>h'. hist_ok db' h' \<and> nextRevisionId db \<le> nextRevisionId db' \<and>
    (\<forall>(r, w) \<in> set h'. (r, w) \<in> set h \<or> nextRevisionId db \<le> revId r)"
proof -
  consider (snap) "x = OpSnapshot" | (revert) i where "x = OpRevert i" | (other) "x \<noteq> OpSnapshot" "\<forall>i. x \<noteq> OpRevert i"
    by blast
  then show ?thesis
  proof cases
    case snap
    then show ?thesis
      using Snapshot_hist [OF assms(1)] assms(2)
      by (intro exI [of _ "h @ [(\<lparr>revId = nextRevisionId db, journalIndex = length (journal db)\<rparr>, view db)]"])
        (auto simp: Snapshot_def Let_def)
  next
    case (revert i)
    then have r: "RevertToSnapshot db i = Some db'" using assms(2) by simp
    obtain k where k: "k < length h" "revId (fst (h ! k)) = i" using RevertToSnapshot_valid [OF assms(1) r] by blast
    from Revert_hist [OF assms(1) k(1)] k(2) r have "hist_ok db' (take k h)" "nextRevisionId db' = nextRevisionId db" by auto
    then show ?thesis by (intro exI [of _ "take k h"]) (auto dest: in_set_takeD)
  next
    case other
    from exec_undoable [OF _ assms(2) other] assms(1) have "undoable db db'" by (simp add: hist_ok_def)
    then show ?thesis using undoable_hist [OF assms(1)] by (intro exI [of _ h]) (auto simp: undoable_def)
  qed
qed

lemma run_hist:
  assumes "hist_ok db h" "run dm xs db = Some db'"
  shows "\<exists>h'. hist_ok db' h' \<and> (\<forall>(r, w) \<in> set h'. (r, w) \<in> set h \<or> nextRevisionId db \<le> revId r)"
  using assms
proof (induction xs arbitrary: db h)
  case (Cons x xs)
  then obtain db1 where db1: "exec dm x db = Some db1" "run dm xs db1 = Some db'"
    by (auto simp: bind_eq_Some_conv)
  from exec_hist [OF Cons.prems(1) db1(1)] obtain h1 where
    h1: "hist_ok db1 h1" "nextRevisionId db \<le> nextRevisionId db1"
    "\<forall>(r, w) \<in> set h1. (r, w) \<in> set h \<or> nextRevisionId db \<le> revId r" by blast
  from Cons.IH [OF h1(1) db1(2)] obtain h' where
    "hist_ok db' h'" "\<forall>(r, w) \<in> set h'. (r, w) \<in> set h1 \<or> nextRevisionId db1 \<le> revId r" by blast
  with h1 show ?case by (intro exI [of _ h']) fastforce
qed auto

section \<open>Properties\<close>


definition exampleEnv :: Env where
  "exampleEnv = \<lparr>Keccak256Hash = (\<lambda>_. 1), contractCode = Map.empty, storageTrie = (\<lambda>_ _. Map.empty), storageRoot = (\<lambda>_. 0)\<rparr>"

lemmas db_eval = New_def Snapshot_def AddBalance_def SetNonce_def withObject_def GetOrNewStateObject_def getStateObject_def
  createObject_def Object_AddBalance_def Object_SetBalance_def Object_Balance_def Object_setBalance_def balanceAssetIndex_def
  goIndex_def goUpdate_def append_entries_def append_entry_def journal_append_def dirty_def setStateObject_def
  Object_setNonce_def Object_SetNonce_def newObject_def emptyAccount_def ripemd_def


text \<open>
  C33. Reading a balance of an account extends its balance table, so that an account that exists and
  counts as empty does not count as empty any more after \<open>GetBalance\<close>, although the balance that is
  read is zero.
\<close>

theorem balance_read_defeats_empty:
  assumes "db_ok db" "fst (Exist db addr)" "fst (Empty db addr)"
  shows "\<exists>db'. GetBalance db k addr = Some (Some 0, db') \<and> \<not> fst (Empty db' addr)"
proof -
  obtain db0 s where g: "getStateObject db addr = (Some s, db0)"
    using assms(2) by (auto simp: Exist_def split: prod.splits)
  then have s: "so_address s = addr" "account_ok (data s)" "\<not> deleted s"
    using live_ok [OF assms(1), of addr s] by (auto simp: live_def object_ok_def)
  have "BalancesVal (data s) = []" "BalancesHash (data s) = []"
    using assms(3) g s(2) by (auto simp: Empty_def isEmpty_def account_ok_def)
  then have "Object_Balance s k = Some (Some 0, s\<lparr>data := (data s)\<lparr>BalancesHash := [k], BalancesVal := [Some 0]\<rparr>\<rparr>)"
    by (simp add: Object_Balance_def balanceAssetIndex_def goIndex_def Let_def)
  then show ?thesis using g s(1,3)
    by (simp add: GetBalance_def Empty_def isEmpty_def getStateObject_def [of "setStateObject _ _"])
qed

theorem balance_read_defeats_empty_witness:
  "\<exists>db'. GetBalance (New exampleEnv [5 \<mapsto> emptyAccount exampleEnv] 0 emptyTicketSlice) 7 5 = Some (Some 0, db') \<and> \<not> fst (Empty db' 5)"
proof (rule balance_read_defeats_empty)
  show "db_ok (New exampleEnv [5 \<mapsto> emptyAccount exampleEnv] 0 emptyTicketSlice)"
    by (auto simp: db_ok_def New_def emptyAccount_def account_ok_def)
qed (simp_all add: Exist_def Empty_def isEmpty_def getStateObject_def New_def newObject_def emptyAccount_def
    IsSpecialKeyAddress_def TicketKeyAddress_def NotationKeyAddress_def AssetKeyAddress_def SwapKeyAddress_def
    MultiSwapKeyAddress_def setStateObject_def Let_def)


end
