(* ===== verification/Account_State.thy ===== *)
theory Account_State
  imports State_Revert
begin

text \<open>
  The effect of the operations of the state database on the accounts it holds: every address has an
  account, the empty one where the database knows none, and an operation changes one account by a
  function of its state. Loading objects, extending tables and journalling do not show here. The
  handlers of transactions are verified over these effects.
\<close>

section \<open>The state of an account\<close>

record AccountState =
  a_nonce :: uint64
  a_notation :: uint64
  a_balance :: "Hash \<Rightarrow> int option"
  a_lock :: "Hash \<Rightarrow> TimeLock option"
  a_storage :: "Hash \<Rightarrow> Hash"
  a_codeHash :: Hash
  a_code :: "bytes option"

definition object_state :: "Env \<Rightarrow> stateObject \<Rightarrow> AccountState" where
  "object_state e s = \<lparr>a_nonce = Nonce (data s), a_notation = Notaion (data s), a_balance = balanceOf s,
     a_lock = timeLockOf s, a_storage = (\<lambda>k. fst (Object_GetState e s k)), a_codeHash = CodeHash (data s),
     a_code = fst (Object_Code e s)\<rparr>"

definition object_at :: "StateDB \<Rightarrow> Address \<Rightarrow> stateObject" where
  "object_at db a = (case live db a of Some s \<Rightarrow> s | None \<Rightarrow> newObject a (emptyAccount (env db)))"

definition acc :: "StateDB \<Rightarrow> Address \<Rightarrow> AccountState" where
  "acc db a = object_state (env db) (object_at db a)"

text \<open>The parts of the database that the accounts do not show and that their operations leave alone.\<close>

definition same_rest :: "StateDB \<Rightarrow> StateDB \<Rightarrow> bool" where
  "same_rest db' db \<longleftrightarrow> env db' = env db \<and> accounts db' = accounts db \<and> refund db' = refund db \<and> thash db' = thash db \<and>
     bhash db' = bhash db \<and> txIndex db' = txIndex db \<and> logs db' = logs db \<and> logSize db' = logSize db \<and>
     preimages db' = preimages db \<and> ticketsHash db' = ticketsHash db \<and> tickets db' = tickets db \<and>
     ticketCache db' = ticketCache db"

definition becomes :: "StateDB \<Rightarrow> (Address \<Rightarrow> AccountState) \<Rightarrow> StateDB \<Rightarrow> bool" where
  "becomes db A db' \<longleftrightarrow> db_ok db' \<and> acc db' = A \<and> same_rest db' db"

lemma same_rest_trans [trans]: "same_rest a b \<Longrightarrow> same_rest b c \<Longrightarrow> same_rest a c"
  by (simp add: same_rest_def)

lemma same_rest_refl [simp]: "same_rest db db"
  by (simp add: same_rest_def)

lemma becomes_refl: "db_ok db \<Longrightarrow> becomes db (acc db) db"
  by (simp add: becomes_def)

lemma becomes_trans [trans]: "becomes db A db1 \<Longrightarrow> becomes db1 B db2 \<Longrightarrow> becomes db B db2"
  by (auto simp: becomes_def intro: same_rest_trans)

lemma becomes_ok: "becomes db A db' \<Longrightarrow> db_ok db'"
  by (simp add: becomes_def)

lemma becomes_acc: "becomes db A db' \<Longrightarrow> acc db' = A"
  by (simp add: becomes_def)

lemma becomes_env: "becomes db A db' \<Longrightarrow> env db' = env db"
  by (simp add: becomes_def same_rest_def)

section \<open>Fetching and storing objects\<close>

lemma append_entry_rest: "same_rest (append_entry x db) db"
  by (auto simp: same_rest_def append_entry_def journal_append_def dirty_def Let_def split: option.splits)

lemma journal_append_rest: "same_rest (journal_append x db) db"
  by (auto simp: same_rest_def journal_append_def dirty_def Let_def split: option.splits)

lemma append_entries_rest: "same_rest (append_entries es db) db"
proof (induction es arbitrary: db)
  case (Cons x es)
  then show ?case using append_entry_rest [of x db] same_rest_trans by (auto simp: append_entries_def)
qed (simp add: append_entries_def)

lemma setStateObject_rest: "same_rest (setStateObject db s) db"
  by (simp add: same_rest_def setStateObject_def)

lemma acc_cong: "live db' = live db \<Longrightarrow> env db' = env db \<Longrightarrow> acc db' = acc db"
  by (simp add: acc_def object_at_def fun_eq_iff cong: option.case_cong)

lemma store_becomes:
  assumes "db_ok db" "account_ok (data s)" "\<not> deleted s"
  shows "becomes db ((acc db)(so_address s := object_state (env db) s)) (setStateObject db s)"
  using assms setStateObject_ok [OF assms] setStateObject_rest
  by (auto simp: becomes_def acc_def object_at_def fun_eq_iff live_setStateObject
      cong: option.case_cong)

lemma fetch_becomes:
  assumes "db_ok db"
  shows "becomes db (acc db) (snd (getStateObject db a))"
proof -
  have "same_rest (snd (getStateObject db a)) db"
    using setStateObject_rest by (auto simp: getStateObject_def Let_def split: option.split)
  then show ?thesis
    using getStateObject_snd [OF assms, of a] acc_cong [of "snd (getStateObject db a)" db] by (simp add: becomes_def)
qed

lemma object_at_ok:
  assumes "db_ok db"
  shows "so_address (object_at db a) = a" "account_ok (data (object_at db a))" "\<not> deleted (object_at db a)"
  using live_ok [OF assms, of a] emptyAccount_ok by (auto simp: object_at_def object_ok_def split: option.split)

lemma new_object_state:
  "object_state e (Object_setNonce (newObject a (emptyAccount e)) 0) = object_state e (newObject a (emptyAccount e))"
  by (simp add: Object_setNonce_def newObject_def emptyAccount_def)

lemma GetOrNewStateObject_becomes:
  assumes "db_ok db" "GetOrNewStateObject db a = (s, db')"
  shows "becomes db (acc db) db' \<and> live db' a = Some s \<and> object_state (env db) s = acc db a"
proof (cases "live db a")
  case (Some p)
  obtain db0 where g: "getStateObject db a = (Some p, db0)" using Some by (metis getStateObject_fst prod.collapse)
  have "\<not> deleted p" using live_ok [OF assms(1) Some] by simp
  then have "s = p" "db' = db0" using assms(2) g by (simp_all add: GetOrNewStateObject_def)
  then show ?thesis using fetch_becomes [OF assms(1), of a] getStateObject_snd [OF assms(1), of a] g Some
    by (simp add: acc_def object_at_def)
next
  case None
  obtain db0 where g: "getStateObject db a = (None, db0)" using None by (metis getStateObject_fst prod.collapse)
  have b0: "becomes db (acc db) db0" "live db0 = live db"
    using fetch_becomes [OF assms(1), of a] getStateObject_snd [OF assms(1), of a] g by simp_all
  obtain db1 where g1: "getStateObject db0 a = (None, db1)" using None b0(2) by (metis getStateObject_fst prod.collapse)
  have b1: "becomes db0 (acc db0) db1" using fetch_becomes [OF becomes_ok [OF b0(1)], of a] g1 by simp
  let ?new = "Object_setNonce (newObject a (emptyAccount (env db))) 0"
  let ?db = "journal_append (createObjectChange a) db1"
  have env: "env db0 = env db" "env db1 = env db" using b0 b1 becomes_env by metis+
  have eq: "s = ?new" "db' = setStateObject ?db ?new"
    using assms(2) g g1 env by (auto simp: GetOrNewStateObject_def createObject_def Let_def)
  have live: "live ?db = live db1" "db_ok ?db" "env ?db = env db"
    using same_state_view [OF journal_append_same] b1 journal_append_same env
    by (auto simp: becomes_def same_state_def)
  have "becomes db1 (acc db1) ?db"
    using live journal_append_rest acc_cong [of ?db db1] env by (simp add: becomes_def)
  moreover have "becomes ?db ((acc ?db)(a := object_state (env db) ?new)) db'"
    using store_becomes [OF live(2), of ?new] emptyAccount_ok eq live(3) by simp
  moreover have "object_state (env db) ?new = acc db a"
    using None by (simp add: acc_def object_at_def new_object_state)
  moreover have "live db' a = Some ?new" using eq live_setStateObject [of ?new ?db] by simp
  ultimately show ?thesis
    using b0 b1 eq(1) by (auto simp: becomes_def intro: same_rest_trans)
qed

text \<open>A change of an object, given by its effect on accounts that satisfy \<open>P\<close>.\<close>

definition changes :: "Env \<Rightarrow> (AccountState \<Rightarrow> bool) \<Rightarrow> (stateObject \<Rightarrow> (journalEntry list \<times> stateObject) option) \<Rightarrow>
    (AccountState \<Rightarrow> AccountState) \<Rightarrow> bool" where
  "changes e P f h \<longleftrightarrow> (\<forall>s. account_ok (data s) \<and> P (object_state e s) \<longrightarrow> (\<exists>es s'. f s = Some (es, s') \<and>
     account_ok (data s') \<and> so_address s' = so_address s \<and> deleted s' = deleted s \<and>
     object_state e s' = h (object_state e s)))"

lemma withObject_becomes:
  assumes "db_ok db" "changes (env db) P f h" "P (acc db a)"
  shows "\<exists>db'. withObject f db a = Some db' \<and> becomes db ((acc db)(a := h (acc db a))) db'"
proof -
  obtain s db1 where g: "GetOrNewStateObject db a = (s, db1)" by fastforce
  have 1: "becomes db (acc db) db1" "live db1 a = Some s" "object_state (env db) s = acc db a"
    using GetOrNewStateObject_becomes [OF assms(1) g] by simp_all
  have s: "so_address s = a" "account_ok (data s)" "\<not> deleted s"
    using GetOrNewStateObject_undoable [OF assms(1) g] by simp_all
  obtain es s' where f: "f s = Some (es, s')" "account_ok (data s')" "so_address s' = so_address s"
    "deleted s' = deleted s" "object_state (env db) s' = h (acc db a)"
    using assms(2,3) s 1(3) by (auto simp: changes_def)
  let ?db = "append_entries es db1"
  have same: "live ?db = live db1" "db_ok ?db" "env ?db = env db1"
    using append_entries_same [of es db1] same_state_view [of ?db db1] becomes_ok [OF 1(1)] by (auto simp: same_state_def)
  then have "becomes db1 (acc db1) ?db"
    using append_entries_rest [of es db1] acc_cong [of ?db db1] by (simp add: becomes_def)
  moreover have "becomes ?db ((acc ?db)(a := h (acc db a))) (setStateObject ?db s')"
    using store_becomes [OF same(2), of s'] f s same(3) becomes_env [OF 1(1)] by simp
  ultimately have "becomes db ((acc db)(a := h (acc db a))) (setStateObject ?db s')"
    using 1(1) by (auto simp: becomes_def intro: same_rest_trans)
  moreover have "withObject f db a = Some (setStateObject ?db s')" using g f(1) by (simp add: withObject_def)
  ultimately show ?thesis by blast
qed

section \<open>The effect of each operation\<close>

lemmas object_state_eqs = object_state_def object_code_view object_state_view

lemma apart_state:
  "object_state e (apartBalances s) = (object_state e s)\<lparr>a_balance := \<lambda>_. Some 0\<rparr>"
  "object_state e (apartTimeLocks s) = (object_state e s)\<lparr>a_lock := \<lambda>_. Some \<lparr>Items = []\<rparr>\<rparr>"
  by (simp_all add: object_state_eqs apartBalances_def apartTimeLocks_def balanceOf_def table_def timeLockOf_def fun_eq_iff)

lemma apartBalances_state:
  assumes "apartBalances s' = apartBalances s"
  shows "so_address s' = so_address s \<and> deleted s' = deleted s \<and> object_state e s' = (object_state e s)\<lparr>a_balance := balanceOf s'\<rparr>"
proof -
  have "(object_state e s')\<lparr>a_balance := \<lambda>_. Some 0\<rparr> = (object_state e s)\<lparr>a_balance := \<lambda>_. Some 0\<rparr>"
    using assms apart_state(1) by metis
  then have "object_state e s' = (object_state e s)\<lparr>a_balance := balanceOf s'\<rparr>"
    by (simp add: object_state_def)
  then show ?thesis using assms apart_fields by metis
qed

lemma apartTimeLocks_state:
  assumes "apartTimeLocks s' = apartTimeLocks s"
  shows "so_address s' = so_address s \<and> deleted s' = deleted s \<and> object_state e s' = (object_state e s)\<lparr>a_lock := timeLockOf s'\<rparr>"
proof -
  have "(object_state e s')\<lparr>a_lock := \<lambda>_. Some \<lparr>Items = []\<rparr>\<rparr> = (object_state e s)\<lparr>a_lock := \<lambda>_. Some \<lparr>Items = []\<rparr>\<rparr>"
    using assms apart_state(2) by metis
  then have "object_state e s' = (object_state e s)\<lparr>a_lock := timeLockOf s'\<rparr>"
    by (simp add: object_state_def)
  then show ?thesis using assms apart_fields by metis
qed

lemma state_selectors [simp]:
  "a_balance (object_state e s) = balanceOf s" "a_lock (object_state e s) = timeLockOf s"
  "a_nonce (object_state e s) = Nonce (data s)" "a_notation (object_state e s) = Notaion (data s)"
  "a_codeHash (object_state e s) = CodeHash (data s)"
  by (simp_all add: object_state_def)

lemma Balance_state:
  assumes "account_ok (data s)"
  shows "\<exists>s'. Object_Balance s k = Some (balanceOf s k, s') \<and> account_ok (data s') \<and> so_address s' = so_address s \<and>
    deleted s' = deleted s \<and> object_state e s' = object_state e s"
proof -
  obtain s' where s': "Object_Balance s k = Some (balanceOf s k, s')" "account_ok (data s')" "balanceOf s' = balanceOf s"
    "apartBalances s' = apartBalances s" using bal.fetch_law [OF assms] by blast
  then show ?thesis using apartBalances_state [OF s'(4), of e] by (simp add: object_state_def)
qed

lemma TimeLockBalance_state:
  assumes "account_ok (data s)"
  shows "\<exists>s'. Object_TimeLockBalance s k = Some (timeLockOf s k, s') \<and> account_ok (data s') \<and> so_address s' = so_address s \<and>
    deleted s' = deleted s \<and> object_state e s' = object_state e s"
proof -
  obtain s' where s': "Object_TimeLockBalance s k = Some (timeLockOf s k, s')" "account_ok (data s')" "timeLockOf s' = timeLockOf s"
    "apartTimeLocks s' = apartTimeLocks s" using tlb.fetch_law [OF assms] by blast
  then show ?thesis using apartTimeLocks_state [OF s'(4), of e] by (simp add: object_state_def)
qed

lemma SetBalance_changes:
  "changes e (\<lambda>w. a_balance w k \<noteq> None) (\<lambda>s. Object_SetBalance s k v) (\<lambda>w. w\<lparr>a_balance := (a_balance w)(k := v)\<rparr>)"
  unfolding changes_def
proof (intro allI impI, elim conjE)
  fix s :: stateObject assume ok: "account_ok (data s)" and "a_balance (object_state e s) k \<noteq> None"
  then obtain b where b: "balanceOf s k = Some b" by auto
  obtain s1 s2 where s: "Object_Balance s k = Some (Some b, s1)" "Object_setBalance s1 k v = Some s2" "account_ok (data s2)"
    "balanceOf s2 = (balanceOf s)(k := v)" "apartBalances s2 = apartBalances s"
    using bal.fetch_store [OF ok, of k v] b by auto
  from apartBalances_state [OF s(5), of e] s show "\<exists>es s'. Object_SetBalance s k v = Some (es, s') \<and> account_ok (data s') \<and>
     so_address s' = so_address s \<and> deleted s' = deleted s \<and>
     object_state e s' = (object_state e s)\<lparr>a_balance := (a_balance (object_state e s))(k := v)\<rparr>"
    by (simp add: Object_SetBalance_def)
qed

lemma SetTimeLockBalance_changes:
  "changes e (\<lambda>w. True) (\<lambda>s. Object_SetTimeLockBalance s k v) (\<lambda>w. w\<lparr>a_lock := (a_lock w)(k := v)\<rparr>)"
  unfolding changes_def
proof (intro allI impI, elim conjE)
  fix s :: stateObject assume ok: "account_ok (data s)"
  obtain s1 s2 where s: "Object_TimeLockBalance s k = Some (timeLockOf s k, s1)" "Object_setTimeLockBalance s1 k v = Some s2" "account_ok (data s2)"
    "timeLockOf s2 = (timeLockOf s)(k := v)" "apartTimeLocks s2 = apartTimeLocks s"
    using tlb.fetch_store [OF ok, of k v] by auto
  from apartTimeLocks_state [OF s(5), of e] s show "\<exists>es s'. Object_SetTimeLockBalance s k v = Some (es, s') \<and> account_ok (data s') \<and>
     so_address s' = so_address s \<and> deleted s' = deleted s \<and>
     object_state e s' = (object_state e s)\<lparr>a_lock := (a_lock (object_state e s))(k := v)\<rparr>"
    by (simp add: Object_SetTimeLockBalance_def)
qed

text \<open>A change that first reads a balance.\<close>

lemma changes_if:
  assumes "\<not> c \<Longrightarrow> changes e P f h" "c \<Longrightarrow> h = (\<lambda>w. w)"
  shows "changes e (\<lambda>w. c \<or> P w) (\<lambda>s. if c then Some (es s, s) else f s) h"
  using assms by (cases c) (auto simp: changes_def)

lemma changes_mono: "changes e P f h \<Longrightarrow> (\<And>w. Q w \<Longrightarrow> P w) \<Longrightarrow> changes e Q f h"
  by (auto simp: changes_def)

lemma add_balance_changes:
  "changes e (\<lambda>w. a_balance w k \<noteq> None) (\<lambda>s. do { (v, s) \<leftarrow> Object_Balance s k; b \<leftarrow> v; Object_SetBalance s k (Some (b + n)) })
    (\<lambda>w. w\<lparr>a_balance := (a_balance w)(k := map_option (\<lambda>b. b + n) (a_balance w k))\<rparr>)"
  unfolding changes_def
proof (intro allI impI, elim conjE)
  fix s :: stateObject assume ok: "account_ok (data s)" and "a_balance (object_state e s) k \<noteq> None"
  then obtain b where b: "balanceOf s k = Some b" by auto
  obtain s1 where s1: "Object_Balance s k = Some (Some b, s1)" "account_ok (data s1)" "so_address s1 = so_address s"
    "deleted s1 = deleted s" "object_state e s1 = object_state e s"
    using Balance_state [OF ok, of k e] b by auto
  then have "a_balance (object_state e s1) k \<noteq> None" using b by simp
  with SetBalance_changes [of e k "Some (b + n)"] s1(2)
  obtain es s2 where "Object_SetBalance s1 k (Some (b + n)) = Some (es, s2)" "account_ok (data s2)" "so_address s2 = so_address s1"
    "deleted s2 = deleted s1" "object_state e s2 = (object_state e s1)\<lparr>a_balance := (a_balance (object_state e s1))(k := Some (b + n))\<rparr>"
    unfolding changes_def by blast
  then show "\<exists>es s'. (do { (v, s) \<leftarrow> Object_Balance s k; b \<leftarrow> v; Object_SetBalance s k (Some (b + n)) }) = Some (es, s') \<and>
     account_ok (data s') \<and> so_address s' = so_address s \<and> deleted s' = deleted s \<and>
     object_state e s' = (object_state e s)\<lparr>a_balance := (a_balance (object_state e s))(k := map_option (\<lambda>b. b + n) (a_balance (object_state e s) k))\<rparr>"
    using s1 b by simp
qed

definition add_to :: "Hash \<Rightarrow> int \<Rightarrow> AccountState \<Rightarrow> AccountState" where
  "add_to k n w = w\<lparr>a_balance := (a_balance w)(k := map_option (\<lambda>b. b + n) (a_balance w k))\<rparr>"

lemma add_to_zero [simp]: "add_to k 0 w = w"
  by (simp add: add_to_def option.map_id0 [unfolded id_def])

lemma AddBalance_changes:
  "changes e (\<lambda>w. n = 0 \<or> a_balance w k \<noteq> None) (\<lambda>s. Object_AddBalance e s k n) (add_to k n)"
  unfolding Object_AddBalance_def using add_balance_changes [of e k n]
  by (intro changes_if) (simp_all add: add_to_def [abs_def] option.map_id0 [unfolded id_def])

lemma SubBalance_changes:
  "changes e (\<lambda>w. n = 0 \<or> a_balance w k \<noteq> None) (\<lambda>s. Object_SubBalance s k n) (add_to k (- n))"
  unfolding Object_SubBalance_def using add_balance_changes [of e k "- n"]
  by (intro changes_if) (simp_all add: add_to_def [abs_def] option.map_id0 [unfolded id_def])

text \<open>The time lock that an addition or a subtraction leaves.\<close>

definition lock_add :: "bool \<Rightarrow> uint64 \<Rightarrow> TimeLock \<Rightarrow> TimeLock option \<Rightarrow> TimeLock option option" where
  "lock_add dm ts amount v = (if IsEmpty amount then Some v else do {
     res \<leftarrow> Add dm v (Some amount); Some (map_option (\<lambda>r. ClearExpired r ts) res) })"

definition lock_sub :: "bool \<Rightarrow> uint64 \<Rightarrow> TimeLock \<Rightarrow> TimeLock option \<Rightarrow> TimeLock option option" where
  "lock_sub dm ts amount v = (if IsEmpty amount then Some v else do {
     x \<leftarrow> v; res \<leftarrow> Sub dm x (Some amount); Some (Some (ClearExpired res ts)) })"

definition set_lock :: "Hash \<Rightarrow> TimeLock option \<Rightarrow> AccountState \<Rightarrow> AccountState" where
  "set_lock k v w = w\<lparr>a_lock := (a_lock w)(k := v)\<rparr>"

lemma set_lock_same [simp]: "set_lock k (a_lock w k) w = w"
  by (simp add: set_lock_def)

lemma lock_step_changes:
  assumes "\<And>s. f s = (if c then Some (es s, s) else do { (v, s) \<leftarrow> Object_TimeLockBalance s k; x \<leftarrow> g v; Object_SetTimeLockBalance s k x })"
  shows "changes e (\<lambda>w. (if c then Some (a_lock w k) else g (a_lock w k)) = Some x) f (set_lock k x)"
  unfolding changes_def
proof (intro allI impI, elim conjE)
  fix s :: stateObject assume ok: "account_ok (data s)" and x: "(if c then Some (a_lock (object_state e s) k) else g (a_lock (object_state e s) k)) = Some x"
  obtain s1 where s1: "Object_TimeLockBalance s k = Some (timeLockOf s k, s1)" "account_ok (data s1)" "so_address s1 = so_address s"
    "deleted s1 = deleted s" "object_state e s1 = object_state e s"
    using TimeLockBalance_state [OF ok, of k e] by auto
  obtain es' s2 where "Object_SetTimeLockBalance s1 k x = Some (es', s2)" "account_ok (data s2)" "so_address s2 = so_address s1"
    "deleted s2 = deleted s1" "object_state e s2 = (object_state e s1)\<lparr>a_lock := (a_lock (object_state e s1))(k := x)\<rparr>"
    using SetTimeLockBalance_changes [of e k x] s1(2) unfolding changes_def by blast
  then show "\<exists>es s'. f s = Some (es, s') \<and> account_ok (data s') \<and> so_address s' = so_address s \<and> deleted s' = deleted s \<and>
     object_state e s' = set_lock k x (object_state e s)"
    using s1 x ok by (cases c) (auto simp: assms set_lock_def)
qed

lemma AddTimeLockBalance_changes:
  "changes e (\<lambda>w. lock_add dm ts amount (a_lock w k) = Some x) (\<lambda>s. Object_AddTimeLockBalance dm e s k amount ts) (set_lock k x)"
  unfolding lock_add_def
  by (rule lock_step_changes [where es = "\<lambda>s. if isEmpty e s then touch s else []"])
    (simp add: Object_AddTimeLockBalance_def split: bind_split)

lemma SubTimeLockBalance_changes:
  "changes e (\<lambda>w. lock_sub dm ts amount (a_lock w k) = Some x) (\<lambda>s. Object_SubTimeLockBalance dm s k amount ts) (set_lock k x)"
  unfolding lock_sub_def
  by (rule lock_step_changes [where es = "\<lambda>s. []"]) (simp add: Object_SubTimeLockBalance_def split: bind_split)

lemma SetNonce_changes: "changes e (\<lambda>w. True) (\<lambda>s. Some (Object_SetNonce s n)) (a_nonce_update (\<lambda>_. n))"
  by (simp add: changes_def Object_SetNonce_def Object_setNonce_def account_ok_def object_state_eqs balanceOf_def timeLockOf_def)

lemma SetNotation_changes: "changes e (\<lambda>w. True) (\<lambda>s. Some (Object_SetNotation s n)) (a_notation_update (\<lambda>_. n))"
  by (simp add: changes_def Object_SetNotation_def Object_setNotation_def account_ok_def object_state_eqs balanceOf_def timeLockOf_def)

lemma GetState_state:
  assumes "Object_GetState e s k = (v, s')"
  shows "v = a_storage (object_state e s) k \<and> data s' = data s \<and> so_address s' = so_address s \<and> deleted s' = deleted s \<and>
    object_state e s' = object_state e s"
proof -
  note v = GetState_view [OF assms]
  have "object_state e s' = object_state e s"
    using v arg_cong [OF conjunct2 [OF conjunct2 [OF conjunct2 [OF conjunct2 [OF v]]]], of v_storage]
      arg_cong [OF conjunct2 [OF conjunct2 [OF conjunct2 [OF conjunct2 [OF v]]]], of v_code]
    by (simp add: object_state_def object_view_def balanceOf_def timeLockOf_def)
  then show ?thesis using v by (simp add: object_state_def object_view_def)
qed

lemma SetState_changes:
  "changes e (\<lambda>w. True) (\<lambda>s. Some (Object_SetState e s k v)) (\<lambda>w. w\<lparr>a_storage := (a_storage w)(k := v)\<rparr>)"
  unfolding changes_def
proof (intro allI impI, elim conjE)
  fix s :: stateObject assume ok: "account_ok (data s)"
  obtain p s1 where g: "Object_GetState e s k = (p, s1)" by fastforce
  note s1 = GetState_state [OF g]
  have "object_state e (Object_setState s1 k v) = (object_state e s1)\<lparr>a_storage := (a_storage (object_state e s1))(k := v)\<rparr>"
    by (simp add: Object_setState_def object_state_eqs balanceOf_def timeLockOf_def storage_view_upd fun_eq_iff)
  moreover have "(object_state e s)\<lparr>a_storage := (a_storage (object_state e s))(k := p)\<rparr> = object_state e s"
    using s1 by (simp add: fun_upd_idem)
  ultimately show "\<exists>es s'. Some (Object_SetState e s k v) = Some (es, s') \<and> account_ok (data s') \<and> so_address s' = so_address s \<and>
     deleted s' = deleted s \<and> object_state e s' = (object_state e s)\<lparr>a_storage := (a_storage (object_state e s))(k := v)\<rparr>"
    using g s1 ok by (auto simp: Object_SetState_def Object_setState_def)
qed

lemma SetCode_changes:
  "changes e (\<lambda>w. True) (\<lambda>s. Some (Object_SetCode e s h (Some c))) (\<lambda>w. w\<lparr>a_codeHash := h, a_code := Some c\<rparr>)"
  unfolding changes_def
proof (intro allI impI, elim conjE)
  fix s :: stateObject assume ok: "account_ok (data s)"
  obtain p s1 where g: "Object_Code e s = (p, s1)" by fastforce
  have s1: "so_address s1 = so_address s" "deleted s1 = deleted s" "data s1 = data s" "object_view e s1 = object_view e s"
    using Object_Code_view [of e s] g by simp_all
  from s1(4) have "v_storage (object_view e s1) = v_storage (object_view e s)" by simp
  then show "\<exists>es s'. Some (Object_SetCode e s h (Some c)) = Some (es, s') \<and> account_ok (data s') \<and> so_address s' = so_address s \<and>
     deleted s' = deleted s \<and> object_state e s' = (object_state e s)\<lparr>a_codeHash := h, a_code := Some c\<rparr>"
    using g s1 ok
    by (simp add: Object_SetCode_def Object_setCode_def account_ok_def object_state_eqs object_view_eqs code_view_def balanceOf_def timeLockOf_def)
qed

section \<open>The operations of the database\<close>

lemma AddBalance_becomes:
  "db_ok db \<Longrightarrow> n = 0 \<or> a_balance (acc db a) k \<noteq> None \<Longrightarrow>
    \<exists>db'. AddBalance db a k n = Some db' \<and> becomes db ((acc db)(a := add_to k n (acc db a))) db'"
  unfolding AddBalance_def by (rule withObject_becomes [OF _ AddBalance_changes])

lemma SubBalance_becomes:
  "db_ok db \<Longrightarrow> n = 0 \<or> a_balance (acc db a) k \<noteq> None \<Longrightarrow>
    \<exists>db'. SubBalance db a k n = Some db' \<and> becomes db ((acc db)(a := add_to k (- n) (acc db a))) db'"
  unfolding SubBalance_def by (rule withObject_becomes [OF _ SubBalance_changes])

lemma AddTimeLockBalance_becomes:
  "db_ok db \<Longrightarrow> lock_add dm ts amount (a_lock (acc db a) k) = Some x \<Longrightarrow>
    \<exists>db'. AddTimeLockBalance dm db a k amount ts = Some db' \<and> becomes db ((acc db)(a := set_lock k x (acc db a))) db'"
  unfolding AddTimeLockBalance_def by (rule withObject_becomes [OF _ AddTimeLockBalance_changes])

lemma SubTimeLockBalance_becomes:
  "db_ok db \<Longrightarrow> lock_sub dm ts amount (a_lock (acc db a) k) = Some x \<Longrightarrow>
    \<exists>db'. SubTimeLockBalance dm db a k amount ts = Some db' \<and> becomes db ((acc db)(a := set_lock k x (acc db a))) db'"
  unfolding SubTimeLockBalance_def by (rule withObject_becomes [OF _ SubTimeLockBalance_changes])

lemma SetNonce_becomes:
  "db_ok db \<Longrightarrow> \<exists>db'. SetNonce db a n = Some db' \<and> becomes db ((acc db)(a := (acc db a)\<lparr>a_nonce := n\<rparr>)) db'"
  unfolding SetNonce_def by (rule withObject_becomes [OF _ SetNonce_changes]) simp_all

lemma SetNotation_becomes:
  "db_ok db \<Longrightarrow> \<exists>db'. SetNotation db a n = Some db' \<and> becomes db ((acc db)(a := (acc db a)\<lparr>a_notation := n\<rparr>)) db'"
  unfolding SetNotation_def by (rule withObject_becomes [OF _ SetNotation_changes]) simp_all

lemma SetData_becomes:
  assumes "db_ok db"
  shows "\<exists>db'. SetData db a v = Some (Keccak256Hash (env db) v, db') \<and>
    becomes db ((acc db)(a := (acc db a)\<lparr>a_codeHash := Keccak256Hash (env db) v, a_code := Some v\<rparr>)) db'"
proof -
  obtain db' where "withObject (\<lambda>s. Some (Object_SetCode (env db) s (Keccak256Hash (env db) v) (Some v))) db a = Some db'"
    "becomes db ((acc db)(a := (acc db a)\<lparr>a_codeHash := Keccak256Hash (env db) v, a_code := Some v\<rparr>)) db'"
    using withObject_becomes [OF assms SetCode_changes, where a = a] by blast
  then show ?thesis by (simp add: SetData_def Let_def)
qed

text \<open>Readers.\<close>

lemma reader_becomes:
  assumes "db_ok db" "live db a = Some s" "account_ok (data s')" "so_address s' = so_address s" "deleted s' = deleted s"
    "object_state (env db) s' = object_state (env db) s"
  shows "becomes db (acc db) (setStateObject (snd (getStateObject db a)) s')"
proof -
  let ?db = "snd (getStateObject db a)"
  have b: "becomes db (acc db) ?db" by (rule fetch_becomes [OF assms(1)])
  have s: "so_address s = a" "\<not> deleted s" using live_ok [OF assms(1,2)] by (simp_all add: object_ok_def)
  have "becomes ?db ((acc ?db)(a := acc db a)) (setStateObject ?db s')"
    using store_becomes [OF becomes_ok [OF b], of s'] assms s becomes_env [OF b] by (simp add: acc_def object_at_def)
  then show ?thesis using b by (auto simp: becomes_def intro: same_rest_trans)
qed

lemma object_state_new [simp]:
  "balanceOf (newObject a (emptyAccount e)) k = Some 0" "timeLockOf (newObject a (emptyAccount e)) k = Some \<lparr>Items = []\<rparr>"
  "Nonce (emptyAccount e) = 0" "Notaion (emptyAccount e) = 0" "CodeHash (emptyAccount e) = emptyCodeHash e"
  by (simp_all add: balanceOf_def timeLockOf_def table_def emptyAccount_def)

lemma getStateObject_pair: "getStateObject db a = (live db a, snd (getStateObject db a))"
  by (simp add: prod_eq_iff)

lemma GetBalance_becomes:
  assumes "db_ok db"
  shows "\<exists>db'. GetBalance db k a = Some (a_balance (acc db a) k, db') \<and> becomes db (acc db) db'"
proof (cases "live db a")
  case None
  then show ?thesis
    using fetch_becomes [OF assms, of a] by (subst GetBalance_def, subst getStateObject_pair) (simp add: acc_def object_at_def)
next
  case (Some s)
  then have "account_ok (data s)" using live_ok [OF assms Some] by (simp add: object_ok_def)
  from Balance_state [OF this, of k "env db"] Some reader_becomes [OF assms Some] show ?thesis
    by (subst GetBalance_def, subst getStateObject_pair) (auto simp: acc_def object_at_def)
qed

lemma GetTimeLockBalance_becomes:
  assumes "db_ok db"
  shows "\<exists>db'. GetTimeLockBalance db k a = Some (a_lock (acc db a) k, db') \<and> becomes db (acc db) db'"
proof (cases "live db a")
  case None
  then show ?thesis
    using fetch_becomes [OF assms, of a] by (subst GetTimeLockBalance_def, subst getStateObject_pair) (simp add: acc_def object_at_def)
next
  case (Some s)
  then have "account_ok (data s)" using live_ok [OF assms Some] by (simp add: object_ok_def)
  from TimeLockBalance_state [OF this, of k "env db"] Some reader_becomes [OF assms Some] show ?thesis
    by (subst GetTimeLockBalance_def, subst getStateObject_pair) (auto simp: acc_def object_at_def)
qed

lemma GetNonce_becomes:
  "db_ok db \<Longrightarrow> \<exists>db'. GetNonce db a = (a_nonce (acc db a), db') \<and> becomes db (acc db) db'"
  using fetch_becomes [of db a]
  by (subst GetNonce_def, subst getStateObject_pair) (simp add: acc_def object_at_def split: option.split)

lemma GetNotation_becomes:
  "db_ok db \<Longrightarrow> \<exists>db'. GetNotation db a = (a_notation (acc db a), db') \<and> becomes db (acc db) db'"
  using fetch_becomes [of db a]
  by (subst GetNotation_def, subst getStateObject_pair) (simp add: acc_def object_at_def split: option.split)

lemma GetCode_becomes:
  assumes "db_ok db"
  shows "\<exists>db'. GetCode db a = (a_code (acc db a), db') \<and> becomes db (acc db) db'"
proof (cases "live db a")
  case None
  then have "a_code (acc db a) = None"
    by (simp add: acc_def object_at_def object_state_def Object_Code_def newObject_def emptyAccount_def)
  then show ?thesis using None
    using fetch_becomes [OF assms, of a] by (subst GetCode_def, subst getStateObject_pair) simp
next
  case (Some s)
  obtain c s' where c: "Object_Code (env db) s = (c, s')" by fastforce
  have s': "so_address s' = so_address s" "deleted s' = deleted s" "data s' = data s" "object_view (env db) s' = object_view (env db) s"
    using Object_Code_view [of "env db" s] c by simp_all
  from s'(4) have "v_storage (object_view (env db) s') = v_storage (object_view (env db) s)"
    "v_code (object_view (env db) s') = v_code (object_view (env db) s)" by simp_all
  then have "object_state (env db) s' = object_state (env db) s"
    using s'(3) by (simp add: object_state_def object_view_def balanceOf_def timeLockOf_def)
  moreover have "account_ok (data s)" using live_ok [OF assms Some] by (simp add: object_ok_def)
  ultimately show ?thesis
    using reader_becomes [OF assms Some, of s'] s' Some c becomes_env [OF fetch_becomes [OF assms, of a]]
    by (subst GetCode_def, subst getStateObject_pair) (simp add: acc_def object_at_def object_state_def)
qed

end
