(* ===== verification/Byte_Codec.thy ===== *)
theory Byte_Codec
  imports Efsn_Prelude
begin

text \<open>
  Big-endian byte strings: the bytes of a \<open>common.Hash\<close> and of a \<open>big.Int\<close>, the 32-bit integers of
  \<open>common/convert.go\<close>, and the variable-length integers (\<open>binary.PutUvarint\<close>) under which the
  notations are filed.
\<close>

section \<open>Numbers as big-endian byte strings\<close>

definition from_be :: "bytes \<Rightarrow> nat" where
  "from_be bs = foldl (\<lambda>n b. n * 256 + unat b) 0 bs"

fun to_be :: "nat \<Rightarrow> nat \<Rightarrow> bytes" where
  "to_be 0 n = []"
| "to_be (Suc k) n = to_be k (n div 256) @ [of_nat n]"

text \<open>\<open>big.Int.Bytes\<close>: as many bytes as needed, none for zero.\<close>

fun big_bytes :: "nat \<Rightarrow> bytes" where
  "big_bytes n = (if n = 0 then [] else big_bytes (n div 256) @ [of_nat n])"

declare big_bytes.simps [simp del]

lemma from_be_Nil [simp]: "from_be [] = 0"
  by (simp add: from_be_def)

lemma from_be_snoc [simp]: "from_be (bs @ [b]) = from_be bs * 256 + unat b"
  by (simp add: from_be_def)

lemma to_be_length [simp]: "length (to_be k n) = k"
  by (induction k arbitrary: n) auto

lemma unat_byte [simp]: "unat (of_nat n :: 8 word) = n mod 256"
  by (simp add: unat_of_nat)

lemma numeral_256_byte: "(256 :: 8 word) = 0"
  by simp

lemma from_be_bound: "from_be bs < 256 ^ length bs"
proof (induction bs rule: rev_induct)
  case (snoc b bs)
  have "unat b < 256" using unsigned_less [of b] by simp
  with snoc show ?case by simp
qed simp

lemma from_to_be: "from_be (to_be k n) = n mod 256 ^ k"
proof (induction k arbitrary: n)
  case (Suc k)
  have "n mod 256 ^ Suc k = (n div 256) mod 256 ^ k * 256 + n mod 256"
    by (metis mod_mult2_eq mult.commute power_Suc)
  then show ?case using Suc by simp
qed simp

lemma to_from_be: "to_be (length bs) (from_be bs) = bs"
proof (induction bs rule: rev_induct)
  case (snoc b bs)
  have b: "unat b < 256" using unsigned_less [of b] by simp
  then have "(from_be bs * 256 + unat b) div 256 = from_be bs" by simp
  moreover have "(of_nat (from_be bs * 256 + unat b) :: 8 word) = b"
    by (simp add: numeral_256_byte)
  ultimately show ?case using snoc by simp
qed simp

lemma to_be_inj: "n < 256 ^ k \<Longrightarrow> m < 256 ^ k \<Longrightarrow> to_be k n = to_be k m \<Longrightarrow> n = m"
  by (metis from_to_be mod_less)

lemma from_be_replicate: "from_be (replicate k 0 @ bs) = from_be bs"
proof (induction bs rule: rev_induct)
  case Nil
  show ?case by (induction k) (simp_all add: replicate_append_same [symmetric])
next
  case (snoc b bs)
  then show ?case by (metis append.assoc from_be_snoc)
qed

lemma to_be_zero [simp]: "to_be k 0 = replicate k 0"
  by (induction k) (simp_all add: replicate_append_same)

lemma from_be_zeros [simp]: "from_be (replicate k 0) = 0"
  using from_be_replicate [of k "[]"] by simp

lemma from_big_bytes: "from_be (big_bytes n) = n"
proof (induction n rule: big_bytes.induct)
  case (1 n)
  then show ?case by (subst big_bytes.simps) simp
qed

lemma big_bytes_inj: "big_bytes n = big_bytes m \<longleftrightarrow> n = m"
  by (metis from_big_bytes)

section \<open>Hashes\<close>

text \<open>\<open>Hash.Bytes\<close>, and \<open>Hash.SetBytes\<close> on the zero hash: the last 32 bytes, right-aligned.\<close>

definition hash_bytes :: "Hash \<Rightarrow> bytes" where
  "hash_bytes h = to_be 32 (unat h)"

definition BytesToHash :: "bytes \<Rightarrow> Hash" where
  "BytesToHash b = of_nat (from_be (if length b > 32 then drop (length b - 32) b else b))"

definition address_bytes :: "Address \<Rightarrow> bytes" where
  "address_bytes a = to_be 20 (unat a)"

lemma hash_bytes_length [simp]: "length (hash_bytes h) = 32"
  by (simp add: hash_bytes_def)

lemma hash_bound: "unat (h :: Hash) < 256 ^ 32"
  using unsigned_less [of h] by simp

lemma BytesToHash_hash_bytes [simp]: "BytesToHash (hash_bytes h) = h"
  using hash_bound [of h] by (simp add: BytesToHash_def hash_bytes_def from_to_be)

lemma unat_BytesToHash: "length b \<le> 32 \<Longrightarrow> unat (BytesToHash b) = from_be b"
proof -
  assume l: "length b \<le> 32"
  have "from_be b < 256 ^ length b" by (rule from_be_bound)
  also have "(256 :: nat) ^ length b \<le> 256 ^ 32" using l by (intro power_increasing) simp_all
  finally have "from_be b < 2 ^ 256" by simp
  then show ?thesis using l by (simp add: BytesToHash_def unat_of_nat)
qed

lemma hash_bytes_BytesToHash: "length b \<le> 32 \<Longrightarrow> hash_bytes (BytesToHash b) = replicate (32 - length b) 0 @ b"
proof -
  assume l: "length b \<le> 32"
  let ?c = "replicate (32 - length b) 0 @ b"
  have "to_be (length ?c) (from_be ?c) = ?c" by (rule to_from_be)
  then show ?thesis using l by (simp add: hash_bytes_def unat_BytesToHash from_be_replicate)
qed

lemma hash_bytes_inj [simp]: "hash_bytes h = hash_bytes h' \<longleftrightarrow> h = h'"
  by (metis BytesToHash_hash_bytes)

section \<open>32-bit integers\<close>

text \<open>\<open>IntToBytes\<close> truncates an \<open>int\<close> to an \<open>int32\<close>; \<open>BytesToInt\<close> reads four bytes with their sign.\<close>

definition IntToBytes :: "int \<Rightarrow> bytes" where
  "IntToBytes n = to_be 4 (nat (n mod 2 ^ 32))"

definition BytesToInt :: "bytes \<Rightarrow> int" where
  "BytesToInt b = (let n = int (from_be (take 4 b)) in if length b < 4 then 0 else if n < 2 ^ 31 then n else n - 2 ^ 32)"

lemma IntToBytes_length [simp]: "length (IntToBytes n) = 4"
  by (simp add: IntToBytes_def)

lemma BytesToInt_IntToBytes: "- (2 ^ 31) \<le> n \<Longrightarrow> n < 2 ^ 31 \<Longrightarrow> BytesToInt (IntToBytes n) = n"
proof -
  assume n: "- (2 ^ 31) \<le> n" "n < 2 ^ 31"
  have "0 \<le> n mod 2 ^ 32" "n mod 2 ^ 32 < 2 ^ 32" by simp_all
  then have "int (from_be (IntToBytes n)) = n mod 2 ^ 32" by (simp add: IntToBytes_def from_to_be)
  moreover have "n mod 2 ^ 32 = (if 0 \<le> n then n else n + 2 ^ 32)"
  proof (cases "0 \<le> n")
    case False
    have "n mod 2 ^ 32 = (n + 2 ^ 32) mod 2 ^ 32" by simp
    also have "\<dots> = n + 2 ^ 32" using n False by (intro mod_pos_pos_trivial) simp_all
    finally show ?thesis using False by simp
  qed (use n in simp)
  ultimately show ?thesis using n by (simp add: BytesToInt_def Let_def)
qed

definition Uint32ToBytes :: "32 word \<Rightarrow> bytes" where
  "Uint32ToBytes n = to_be 4 (unat n)"

definition BytesToUint32 :: "bytes \<Rightarrow> 32 word" where
  "BytesToUint32 b = (if length b < 4 then 0 else of_nat (from_be (take 4 b)))"

definition Uint64ToBytes :: "uint64 \<Rightarrow> bytes" where
  "Uint64ToBytes n = to_be 8 (unat n)"

definition BytesToUint64 :: "bytes \<Rightarrow> uint64" where
  "BytesToUint64 b = (if length b < 8 then 0 else of_nat (from_be (take 8 b)))"

lemma BytesToUint64_Uint64ToBytes [simp]: "BytesToUint64 (Uint64ToBytes n @ bs) = n"
proof -
  have "unat n < 2 ^ 64" using unsigned_less [of n] by simp
  then show ?thesis by (simp add: BytesToUint64_def Uint64ToBytes_def from_to_be)
qed

lemma BytesToUint32_Uint32ToBytes [simp]: "BytesToUint32 (Uint32ToBytes n @ bs) = n"
proof -
  have "unat n < 2 ^ 32" using unsigned_less [of n] by simp
  then show ?thesis by (simp add: BytesToUint32_def Uint32ToBytes_def from_to_be)
qed

section \<open>Variable-length integers\<close>

text \<open>\<open>binary.PutUvarint\<close>: seven bits to a byte, the least significant ones first, all bytes but the
  last with their top bit set.\<close>

fun putUvarint :: "nat \<Rightarrow> bytes" where
  "putUvarint x = (if x < 128 then [of_nat x] else of_nat (x mod 128 + 128) # putUvarint (x div 128))"

declare putUvarint.simps [simp del]

text \<open>The key of a notation: the encoding in a zeroed buffer of \<open>binary.MaxVarintLen64\<close> bytes.\<close>

definition notation_key :: "uint64 \<Rightarrow> bytes" where
  "notation_key n = (let v = putUvarint (unat n) in v @ replicate (10 - length v) 0)"

lemma byte_eqD: "(of_nat z :: 8 word) = of_nat w \<Longrightarrow> z < 256 \<Longrightarrow> w < 256 \<Longrightarrow> z = w"
  by (metis unat_byte mod_less)

lemma putUvarint_inj:
  "putUvarint x @ replicate i 0 = putUvarint y @ replicate j 0 \<Longrightarrow> x = y"
proof (induction x arbitrary: y rule: putUvarint.induct)
  case (1 x)
  show ?case
  proof (cases "x < 128")
    case x: True
    have "y < 128"
    proof (rule ccontr)
      assume "\<not> y < 128"
      then have "(of_nat x :: 8 word) = of_nat (y mod 128 + 128)"
        using 1(2) x by (subst (asm) (1 2) putUvarint.simps) simp
      moreover have "y mod 128 + 128 < 256" by simp
      ultimately have "x = y mod 128 + 128" by (intro byte_eqD) (use x in simp_all)
      then show False using x by simp
    qed
    then have "(of_nat x :: 8 word) = of_nat y"
      using 1(2) x by (subst (asm) (1 2) putUvarint.simps) simp
    then show ?thesis by (rule byte_eqD) (use x \<open>y < 128\<close> in simp_all)
  next
    case x: False
    have "\<not> y < 128"
    proof
      assume "y < 128"
      then have "(of_nat y :: 8 word) = of_nat (x mod 128 + 128)"
        using 1(2) x by (subst (asm) (1 2) putUvarint.simps) simp
      moreover have "x mod 128 + 128 < 256" by simp
      ultimately have "y = x mod 128 + 128" by (intro byte_eqD) (use \<open>y < 128\<close> in simp_all)
      then show False using \<open>y < 128\<close> by simp
    qed
    then have y: "putUvarint y = of_nat (y mod 128 + 128) # putUvarint (y div 128)"
      by (subst putUvarint.simps) simp
    have "putUvarint x = of_nat (x mod 128 + 128) # putUvarint (x div 128)"
      using x by (subst putUvarint.simps) simp
    then have e: "(of_nat (x mod 128 + 128) :: 8 word) = of_nat (y mod 128 + 128)"
      "putUvarint (x div 128) @ replicate i 0 = putUvarint (y div 128) @ replicate j 0"
      using 1(2) y by simp_all
    have "x mod 128 + 128 < 256" "y mod 128 + 128 < 256" by simp_all
    then have "x mod 128 = y mod 128" using byte_eqD [OF e(1)] by simp
    moreover have "x div 128 = y div 128" using 1(1) [OF x e(2)] .
    ultimately show ?thesis by (metis div_mod_decomp)
  qed
qed

lemma notation_key_inj: "notation_key n = notation_key m \<longleftrightarrow> n = m"
  by (auto simp: notation_key_def Let_def word_unat_eq_iff dest!: putUvarint_inj)

end
