(* ===== verification/Struct_Data.thy ===== *)
theory Struct_Data
  imports Account_State Byte_Codec
begin

text \<open>
  Byte strings in the storage of an account (\<open>GetStructData\<close> and \<open>SetStructData\<close> of
  \<open>core/state/statedb.go\<close>): the hash of the key holds the size and the number of chunks, and each chunk
  of 32 bytes is stored under the hash of its number and the hash of the key. What is written under a
  key is read back, and other keys keep their strings, when the storage keys involved are distinct.
\<close>

section \<open>Operations\<close>

text \<open>\<open>crypto.Keccak256Hash(tempIndex.Bytes(), keyIndex.Bytes())\<close>, both numbers without leading zeros.\<close>

definition structChunkKey :: "Env \<Rightarrow> nat \<Rightarrow> Hash \<Rightarrow> Hash" where
  "structChunkKey e i keyHash = Keccak256Hash e (big_bytes i @ big_bytes (unat keyHash))"

definition structLength :: "nat \<Rightarrow> nat" where
  "structLength sz = sz div 32 + (if sz mod 32 \<noteq> 0 then 1 else 0)"

definition structInfo :: "nat \<Rightarrow> Hash" where
  "structInfo sz = BytesToHash (IntToBytes (int sz) @ replicate 12 0 @ IntToBytes (int (structLength sz)) @ replicate 12 0)"

definition chunkEnd :: "nat \<Rightarrow> nat \<Rightarrow> nat" where
  "chunkEnd sz start = (if start + 32 > sz then sz else start + 32)"

text \<open>The loop of \<open>GetStructData\<close>; slicing \<open>data[start:end]\<close> panics when the start is behind the end.\<close>

fun getChunks :: "Env \<Rightarrow> Hash \<Rightarrow> nat \<Rightarrow> nat list \<Rightarrow> stateObject \<Rightarrow> bytes \<Rightarrow> (bytes \<times> stateObject) option" where
  "getChunks e keyHash sz [] s d = Some (d, s)"
| "getChunks e keyHash sz (i # is) s d = (let
     (tempData, s) = Object_GetState e s (structChunkKey e i keyHash);
     start = i * 32; end' = chunkEnd sz start in
     if start > end' then None
     else getChunks e keyHash sz is s (take start d @ drop (32 + start - end') (hash_bytes tempData) @ drop end' d))"

definition Object_getStruct :: "Env \<Rightarrow> stateObject \<Rightarrow> bytes \<Rightarrow> (bytes \<times> stateObject) option" where
  "Object_getStruct e s key = (let
     keyHash = Keccak256Hash e key;
     (info, s) = Object_GetState e s keyHash;
     sz = BytesToInt (take 4 (hash_bytes info));
     len = BytesToInt (take 4 (drop 16 (hash_bytes info))) in
     if sz < 0 then None
     else getChunks e keyHash (nat sz) [0..<nat len] s (replicate (nat sz) 0))"

definition GetStructData :: "StateDB \<Rightarrow> Address \<Rightarrow> bytes option \<Rightarrow> (bytes option \<times> StateDB) option" where
  "GetStructData db addr key = (case key of
      None \<Rightarrow> Some (None, db)
    | Some k \<Rightarrow> let (s, db) = GetOrNewStateObject db addr in
        do { (d, s) \<leftarrow> Object_getStruct (env db) s k; Some (Some d, setStateObject db s) })"

fun setChunks :: "Env \<Rightarrow> Hash \<Rightarrow> bytes \<Rightarrow> nat list \<Rightarrow> stateObject \<Rightarrow> journalEntry list \<times> stateObject" where
  "setChunks e keyHash v [] s = ([], s)"
| "setChunks e keyHash v (i # is) s = (let
     start = i * 32; end' = chunkEnd (length v) start;
     (es, s) = Object_SetState e s (structChunkKey e i keyHash) (BytesToHash (take (end' - start) (drop start v)));
     (es', s) = setChunks e keyHash v is s in (es @ es', s))"

definition Object_setStruct :: "Env \<Rightarrow> stateObject \<Rightarrow> bytes \<Rightarrow> bytes \<Rightarrow> journalEntry list \<times> stateObject" where
  "Object_setStruct e s key v = (let
     keyHash = Keccak256Hash e key;
     (es, s) = Object_SetState e s keyHash (structInfo (length v));
     (es', s) = setChunks e keyHash v [0..<structLength (length v)] s;
     (es'', s) = Object_SetNonce s (Nonce (data s) + 1) in (es @ es' @ es'', s))"

definition SetStructData :: "StateDB \<Rightarrow> Address \<Rightarrow> bytes option \<Rightarrow> bytes option \<Rightarrow> StateDB option" where
  "SetStructData db addr key v = (case (key, v) of
      (Some k, Some x) \<Rightarrow> withObject (\<lambda>s. Some (Object_setStruct (env db) s k x)) db addr
    | _ \<Rightarrow> Some db)"

section \<open>Structures in a storage function\<close>

definition chunk :: "bytes \<Rightarrow> nat \<Rightarrow> bytes" where
  "chunk v i = take (chunkEnd (length v) (i * 32) - i * 32) (drop (i * 32) v)"

fun readChunks :: "(nat \<Rightarrow> Hash) \<Rightarrow> nat \<Rightarrow> nat list \<Rightarrow> bytes \<Rightarrow> bytes option" where
  "readChunks g sz [] d = Some d"
| "readChunks g sz (i # is) d = (let start = i * 32; end' = chunkEnd sz start in
     if start > end' then None
     else readChunks g sz is (take start d @ drop (32 + start - end') (hash_bytes (g i)) @ drop end' d))"

definition storedSize :: "Env \<Rightarrow> bytes \<Rightarrow> (Hash \<Rightarrow> Hash) \<Rightarrow> int" where
  "storedSize e key st = BytesToInt (take 4 (hash_bytes (st (Keccak256Hash e key))))"

definition storedLength :: "Env \<Rightarrow> bytes \<Rightarrow> (Hash \<Rightarrow> Hash) \<Rightarrow> nat" where
  "storedLength e key st = nat (BytesToInt (take 4 (drop 16 (hash_bytes (st (Keccak256Hash e key))))))"

definition struct_get :: "Env \<Rightarrow> (Hash \<Rightarrow> Hash) \<Rightarrow> bytes \<Rightarrow> bytes option" where
  "struct_get e st key = (if storedSize e key st < 0 then None
     else readChunks (\<lambda>i. st (structChunkKey e i (Keccak256Hash e key))) (nat (storedSize e key st))
       [0..<storedLength e key st] (replicate (nat (storedSize e key st)) 0))"

definition struct_put :: "Env \<Rightarrow> (Hash \<Rightarrow> Hash) \<Rightarrow> bytes \<Rightarrow> bytes \<Rightarrow> Hash \<Rightarrow> Hash" where
  "struct_put e st key v = fold (\<lambda>i st. st(structChunkKey e i (Keccak256Hash e key) := BytesToHash (chunk v i)))
     [0..<structLength (length v)] (st(Keccak256Hash e key := structInfo (length v)))"

text \<open>The storage keys of a structure of \<open>n\<close> chunks.\<close>

definition struct_keys :: "Env \<Rightarrow> bytes \<Rightarrow> nat \<Rightarrow> Hash list" where
  "struct_keys e key n = Keccak256Hash e key # map (\<lambda>i. structChunkKey e i (Keccak256Hash e key)) [0..<n]"

lemma readChunks_append: "readChunks g sz (is @ js) d = Option.bind (readChunks g sz is d) (readChunks g sz js)"
  by (induction "is" arbitrary: d) (simp_all add: Let_def)

lemma readChunks_cong: "(\<And>i. i \<in> set is \<Longrightarrow> g i = g' i) \<Longrightarrow> readChunks g sz is d = readChunks g' sz is d"
  by (induction "is" arbitrary: d) (simp_all add: Let_def)

lemma structLength_start: "i < structLength sz \<Longrightarrow> i * 32 < sz"
proof -
  assume i: "i < structLength sz"
  have e: "sz div 32 * 32 + sz mod 32 = sz" by (rule div_mult_mod_eq)
  show ?thesis
  proof (cases "sz mod 32 = 0")
    case True
    then have "i + 1 \<le> sz div 32" using i by (simp add: structLength_def)
    then have "(i + 1) * 32 \<le> sz div 32 * 32" by (rule mult_right_mono) simp
    also have "sz div 32 * 32 \<le> sz" by simp
    finally show ?thesis by simp
  next
    case False
    then have "i \<le> sz div 32" using i by (simp add: structLength_def)
    then have "i * 32 \<le> sz div 32 * 32" by (rule mult_right_mono) simp
    also have "\<dots> < sz div 32 * 32 + sz mod 32" using False by (simp only: less_add_same_cancel1 neq0_conv)
    also note e
    finally show ?thesis .
  qed
qed

lemma structLength_cover: "sz \<le> structLength sz * 32"
proof -
  have "sz div 32 * 32 + sz mod 32 = sz" "sz mod 32 < 32" by simp_all
  then show ?thesis unfolding structLength_def by (cases "sz mod 32 = 0") (simp_all del: div_mult_mod_eq mult_div_mod_eq)
qed

lemma structLength_le: "structLength sz \<le> sz"
  by (auto simp: structLength_def)

lemma chunk_length: "i < structLength (length v) \<Longrightarrow> length (chunk v i) = chunkEnd (length v) (i * 32) - i * 32 \<and> length (chunk v i) \<le> 32"
  using structLength_start [of i "length v"] by (auto simp: chunk_def chunkEnd_def)

lemma readChunks_prefix:
  assumes "m \<le> structLength (length v)" "\<And>i. i < m \<Longrightarrow> g i = BytesToHash (chunk v i)"
  shows "readChunks g (length v) [0..<m] (replicate (length v) 0) = Some (take (m * 32) v @ replicate (length v - m * 32) 0)"
  using assms
proof (induction m)
  case (Suc m)
  let ?n = "length v" and ?s = "m * 32"
  let ?e = "chunkEnd ?n ?s"
  have m: "m < structLength ?n" using Suc.prems(1) by simp
  then have s: "?s < ?n" by (rule structLength_start)
  have IH: "readChunks g ?n [0..<m] (replicate ?n 0) = Some (take ?s v @ replicate (?n - ?s) 0)" using Suc by simp
  have e: "?s < ?e" "?e \<le> ?n" "?e \<le> ?s + 32" using s by (auto simp: chunkEnd_def)
  have "hash_bytes (g m) = replicate (32 - length (chunk v m)) 0 @ chunk v m"
    using Suc.prems(2) hash_bytes_BytesToHash [of "chunk v m"] chunk_length [OF m] by simp
  moreover have "32 + ?s - ?e = 32 - length (chunk v m)" using chunk_length [OF m] e by simp
  ultimately have tail: "drop (32 + ?s - ?e) (hash_bytes (g m)) = chunk v m" by simp
  have "take ?s v @ chunk v m = take ?e v"
    using e take_add [of ?s "?e - ?s" v] by (simp add: chunk_def)
  moreover have "take (Suc m * 32) v = take ?e v" "?n - Suc m * 32 = ?n - ?e" using s by (auto simp: chunkEnd_def add.commute)
  ultimately show ?case
    using IH e s tail by (simp add: readChunks_append Let_def min_def)
qed simp

lemma fold_upd_other: "k \<notin> set (map f is) \<Longrightarrow> fold (\<lambda>i st. st(f i := g i)) is st k = st k"
  by (induction "is" arbitrary: st) auto

lemma fold_upd_same:
  assumes "distinct (map f is)" "i \<in> set is"
  shows "fold (\<lambda>i st. st(f i := g i)) is st (f i) = g i"
  using assms
proof (induction "is" arbitrary: st)
  case (Cons j js)
  show ?case
  proof (cases "i \<in> set js")
    case False
    then have "i = j" "f i \<notin> set (map f js)" using Cons.prems by auto
    then show ?thesis using fold_upd_other [of "f i" f js g "st(f i := g i)"] by (simp add: fun_upd_def)
  qed (use Cons in simp)
qed simp

lemma struct_put_other:
  "k \<notin> set (struct_keys e key (structLength (length v))) \<Longrightarrow> struct_put e st key v k = st k"
  unfolding struct_put_def struct_keys_def by (subst fold_upd_other) simp_all

lemma struct_put_chunk:
  assumes "distinct (struct_keys e key (structLength (length v)))" "i < structLength (length v)"
  shows "struct_put e st key v (structChunkKey e i (Keccak256Hash e key)) = BytesToHash (chunk v i)"
  unfolding struct_put_def using assms
  by (intro fold_upd_same [where f = "\<lambda>i. structChunkKey e i (Keccak256Hash e key)" and g = "\<lambda>i. BytesToHash (chunk v i)"])
    (auto simp: struct_keys_def)

lemma struct_put_info:
  assumes "distinct (struct_keys e key (structLength (length v)))"
  shows "struct_put e st key v (Keccak256Hash e key) = structInfo (length v)"
  using assms unfolding struct_put_def struct_keys_def by (subst fold_upd_other) simp_all

lemma structInfo_bytes:
  "hash_bytes (structInfo n) = IntToBytes (int n) @ replicate 12 0 @ IntToBytes (int (structLength n)) @ replicate 12 0"
  unfolding structInfo_def by (subst hash_bytes_BytesToHash) simp_all

lemma stored_put:
  assumes "distinct (struct_keys e key (structLength (length v)))" "length v < 2 ^ 31"
  shows "storedSize e key (struct_put e st key v) = int (length v)"
    "storedLength e key (struct_put e st key v) = structLength (length v)"
proof -
  have "structLength (length v) < 2 ^ 31" using structLength_le [of "length v"] assms(2) by simp
  then show "storedSize e key (struct_put e st key v) = int (length v)"
    "storedLength e key (struct_put e st key v) = structLength (length v)"
    unfolding storedSize_def storedLength_def struct_put_info [OF assms(1)] structInfo_bytes
    using assms(2) by (simp_all add: BytesToInt_IntToBytes)
qed

lemma struct_get_put:
  assumes "distinct (struct_keys e key (structLength (length v)))" "length v < 2 ^ 31"
  shows "struct_get e (struct_put e st key v) key = Some v"
  unfolding struct_get_def stored_put [OF assms]
  using readChunks_prefix [of "structLength (length v)" v "\<lambda>i. struct_put e st key v (structChunkKey e i (Keccak256Hash e key))"]
    struct_put_chunk [OF assms(1)] structLength_cover [of "length v"] by simp

text \<open>Two keys whose structures, the second one with \<open>n\<close> chunks, use different storage.\<close>

definition struct_apart :: "Env \<Rightarrow> (Hash \<Rightarrow> Hash) \<Rightarrow> bytes \<Rightarrow> bytes \<Rightarrow> nat \<Rightarrow> bool" where
  "struct_apart e st key' key n \<longleftrightarrow> set (struct_keys e key' (storedLength e key' st)) \<inter> set (struct_keys e key n) = {}"

lemma struct_get_put_other:
  assumes "struct_apart e st key' key (structLength (length v))"
  shows "struct_get e (struct_put e st key v) key' = struct_get e st key'"
proof -
  have k: "struct_put e st key v k = st k" if "k \<in> set (struct_keys e key' (storedLength e key' st))" for k
    using assms that struct_put_other [of k e key v st] by (auto simp: struct_apart_def)
  have "struct_put e st key v (Keccak256Hash e key') = st (Keccak256Hash e key')" by (rule k) (simp add: struct_keys_def)
  then have s: "storedSize e key' (struct_put e st key v) = storedSize e key' st"
    "storedLength e key' (struct_put e st key v) = storedLength e key' st"
    by (simp_all add: storedSize_def storedLength_def)
  have "i < storedLength e key' st \<Longrightarrow>
      struct_put e st key v (structChunkKey e i (Keccak256Hash e key')) = st (structChunkKey e i (Keccak256Hash e key'))" for i
    by (rule k) (auto simp: struct_keys_def)
  then show ?thesis unfolding struct_get_def s by (auto intro: readChunks_cong)
qed

section \<open>The effect on accounts\<close>

lemma getChunks_state:
  "\<exists>s'. getChunks e keyHash n is s d =
      map_option (\<lambda>d. (d, s')) (readChunks (\<lambda>i. a_storage (object_state e s) (structChunkKey e i keyHash)) n is d) \<and>
    data s' = data s \<and> so_address s' = so_address s \<and> deleted s' = deleted s \<and> object_state e s' = object_state e s"
proof (induction "is" arbitrary: s d)
  case (Cons i js)
  obtain v s1 where g: "Object_GetState e s (structChunkKey e i keyHash) = (v, s1)" by fastforce
  note s1 = GetState_state [OF g]
  show ?case
  proof (cases "i * 32 > chunkEnd n (i * 32)")
    case True
    then show ?thesis using g by auto
  next
    case False
    then show ?thesis using Cons [of s1 "take (i * 32) d @ drop (32 + i * 32 - chunkEnd n (i * 32)) (hash_bytes v) @ drop (chunkEnd n (i * 32)) d"] g s1
      by (auto simp: Let_def)
  qed
qed auto

lemma getStruct_state:
  "\<exists>s'. Object_getStruct e s key = map_option (\<lambda>d. (d, s')) (struct_get e (a_storage (object_state e s)) key) \<and>
    data s' = data s \<and> so_address s' = so_address s \<and> deleted s' = deleted s \<and> object_state e s' = object_state e s"
proof -
  let ?k = "Keccak256Hash e key"
  obtain v s1 where g: "Object_GetState e s ?k = (v, s1)" by fastforce
  note s1 = GetState_state [OF g]
  let ?z = "BytesToInt (take 4 (hash_bytes v))" and ?n = "nat (BytesToInt (take 4 (drop 16 (hash_bytes v))))"
  have st: "storedSize e key (a_storage (object_state e s)) = ?z" "storedLength e key (a_storage (object_state e s)) = ?n"
    using s1 by (simp_all add: storedSize_def storedLength_def)
  obtain s2 where "getChunks e ?k (nat ?z) [0..<?n] s1 (replicate (nat ?z) 0) =
      map_option (\<lambda>d. (d, s2)) (readChunks (\<lambda>i. a_storage (object_state e s1) (structChunkKey e i ?k)) (nat ?z) [0..<?n] (replicate (nat ?z) 0))"
    "data s2 = data s1 \<and> so_address s2 = so_address s1 \<and> deleted s2 = deleted s1 \<and> object_state e s2 = object_state e s1"
    using getChunks_state [of e ?k "nat ?z" "[0..<?n]" s1 "replicate (nat ?z) 0"] by auto
  then show ?thesis
    using g s1 unfolding Object_getStruct_def struct_get_def st by (intro exI [of _ s2]) (simp add: Let_def)
qed

lemma GetStructData_becomes:
  assumes "db_ok db" "struct_get (env db) (a_storage (acc db a)) key = Some d"
  shows "\<exists>db'. GetStructData db a (Some key) = Some (Some d, db') \<and> becomes db (acc db) db'"
proof -
  obtain s db1 where g: "GetOrNewStateObject db a = (s, db1)" by fastforce
  have 1: "becomes db (acc db) db1" "live db1 a = Some s" "object_state (env db) s = acc db a"
    using GetOrNewStateObject_becomes [OF assms(1) g] by simp_all
  have s: "so_address s = a" "account_ok (data s)" "\<not> deleted s"
    using GetOrNewStateObject_undoable [OF assms(1) g] by simp_all
  obtain s' where s': "Object_getStruct (env db) s key = Some (d, s')" "data s' = data s" "so_address s' = so_address s"
      "deleted s' = deleted s" "object_state (env db) s' = object_state (env db) s"
    using getStruct_state [of "env db" s key] assms(2) 1(3) by auto
  have "becomes db1 ((acc db1)(a := acc db a)) (setStateObject db1 s')"
    using store_becomes [OF becomes_ok [OF 1(1)], of s'] s s' 1(3) becomes_env [OF 1(1)] by simp
  then have "becomes db (acc db) (setStateObject db1 s')"
    using 1(1) by (auto simp: becomes_def intro: same_rest_trans)
  moreover have "GetStructData db a (Some key) = Some (Some d, setStateObject db1 s')"
    using g s'(1) becomes_env [OF 1(1)] by (simp add: GetStructData_def)
  ultimately show ?thesis by blast
qed

lemma GetStructData_panics:
  assumes "db_ok db" "struct_get (env db) (a_storage (acc db a)) key = None"
  shows "GetStructData db a (Some key) = None"
proof -
  obtain s db1 where g: "GetOrNewStateObject db a = (s, db1)" by fastforce
  have 1: "becomes db (acc db) db1" "object_state (env db) s = acc db a"
    using GetOrNewStateObject_becomes [OF assms(1) g] by simp_all
  then have "Object_getStruct (env db) s key = None" using getStruct_state [of "env db" s key] assms(2) by auto
  then show ?thesis using g becomes_env [OF 1(1)] by (simp add: GetStructData_def)
qed

lemma changes_then:
  assumes "changes e P f h" "changes e Q g k" "\<And>w. P w \<Longrightarrow> Q (h w)"
  shows "changes e P (\<lambda>s. do { (es, s) \<leftarrow> f s; (es', s) \<leftarrow> g s; Some (es @ es', s) }) (\<lambda>w. k (h w))"
  unfolding changes_def
proof (intro allI impI, elim conjE)
  fix s :: stateObject assume s: "account_ok (data s)" "P (object_state e s)"
  with assms(1) obtain es s1 where 1: "f s = Some (es, s1)" "account_ok (data s1)" "so_address s1 = so_address s"
    "deleted s1 = deleted s" "object_state e s1 = h (object_state e s)" unfolding changes_def by blast
  moreover obtain es' s2 where "g s1 = Some (es', s2)" "account_ok (data s2)" "so_address s2 = so_address s1"
    "deleted s2 = deleted s1" "object_state e s2 = k (object_state e s1)"
    using assms(2,3) 1 s(2) unfolding changes_def by metis
  ultimately show "\<exists>es s'. (do { (es, s) \<leftarrow> f s; (es', s) \<leftarrow> g s; Some (es @ es', s) }) = Some (es, s') \<and> account_ok (data s') \<and>
     so_address s' = so_address s \<and> deleted s' = deleted s \<and> object_state e s' = k (h (object_state e s))"
    by simp
qed

lemma setChunks_changes:
  "changes e (\<lambda>w. True) (\<lambda>s. Some (setChunks e keyHash v is s))
    (\<lambda>w. w\<lparr>a_storage := fold (\<lambda>i st. st(structChunkKey e i keyHash := BytesToHash (chunk v i))) is (a_storage w)\<rparr>)"
proof (induction "is")
  case Nil
  then show ?case by (simp add: changes_def)
next
  case (Cons i js)
  have "(\<lambda>s. Some (setChunks e keyHash v (i # js) s)) = (\<lambda>s. do {
      (es, s) \<leftarrow> Some (Object_SetState e s (structChunkKey e i keyHash) (BytesToHash (chunk v i)));
      (es', s) \<leftarrow> Some (setChunks e keyHash v js s); Some (es @ es', s) })"
    by (auto simp: fun_eq_iff Let_def chunk_def split: prod.split)
  then show ?case using changes_then [OF SetState_changes Cons] by simp
qed

lemma bumpNonce_changes: "changes e (\<lambda>w. True) (\<lambda>s. Some (Object_SetNonce s (Nonce (data s) + 1))) (\<lambda>w. w\<lparr>a_nonce := a_nonce w + 1\<rparr>)"
  by (simp add: changes_def Object_SetNonce_def Object_setNonce_def account_ok_def object_state_eqs balanceOf_def timeLockOf_def)

lemma setStruct_changes:
  "changes e (\<lambda>w. True) (\<lambda>s. Some (Object_setStruct e s key v))
    (\<lambda>w. w\<lparr>a_storage := struct_put e (a_storage w) key v, a_nonce := a_nonce w + 1\<rparr>)"
proof -
  have "(\<lambda>s. Some (Object_setStruct e s key v)) = (\<lambda>s. do {
      (es, s) \<leftarrow> Some (Object_SetState e s (Keccak256Hash e key) (structInfo (length v)));
      (es', s) \<leftarrow> (do { (es', s) \<leftarrow> Some (setChunks e (Keccak256Hash e key) v [0..<structLength (length v)] s);
        (es'', s) \<leftarrow> Some (Object_SetNonce s (Nonce (data s) + 1)); Some (es' @ es'', s) });
      Some (es @ es', s) })"
    by (auto simp: fun_eq_iff Let_def Object_setStruct_def split: prod.split)
  then show ?thesis
    using changes_then [OF SetState_changes changes_then [OF setChunks_changes bumpNonce_changes]]
    by (simp add: struct_put_def)
qed

lemma SetStructData_becomes:
  "db_ok db \<Longrightarrow> \<exists>db'. SetStructData db a (Some key) (Some v) = Some db' \<and>
    becomes db ((acc db)(a := (acc db a)\<lparr>a_storage := struct_put (env db) (a_storage (acc db a)) key v, a_nonce := a_nonce (acc db a) + 1\<rparr>)) db'"
  using withObject_becomes [OF _ setStruct_changes, of db key v a] by (simp add: SetStructData_def)

section \<open>The store as a map of byte strings\<close>

text \<open>
  What the records above rely on: a string that fits is read back from under its key, and the
  strings under keys apart from it stay. A record is filed as the encoding of a value with a
  deletion mark.
\<close>

record 'r persist =
  P_Deleted :: bool
  P_Value :: 'r

text \<open>An encoding: \<open>rlp.EncodeToBytes\<close>, and \<open>rlp.DecodeBytes\<close> with whether it succeeded and the value it left.\<close>

record 'r RLP =
  EncodeToBytes :: "'r \<Rightarrow> bytes option"
  DecodeBytes :: "bytes \<Rightarrow> bool \<times> 'r"

definition codec_ok :: "'r RLP \<Rightarrow> bool" where
  "codec_ok c \<longleftrightarrow> (\<forall>r d. EncodeToBytes c r = Some d \<longrightarrow> d \<noteq> [] \<and> DecodeBytes c d = (True, r))"

datatype record_error = RecordNotFound | RecordDeleted

definition record_of :: "'r persist RLP \<Rightarrow> bytes option \<Rightarrow> record_error + 'r" where
  "record_of c d = (case d of
      None \<Rightarrow> Inl RecordNotFound
    | Some d \<Rightarrow> if d = [] then Inl RecordNotFound
        else let p = snd (DecodeBytes c d) in if P_Deleted p then Inl RecordDeleted else Inr (P_Value p))"

locale byte_store =
  fixes get :: "'st \<Rightarrow> 'k \<Rightarrow> bytes option"
    and put :: "'st \<Rightarrow> 'k \<Rightarrow> bytes \<Rightarrow> 'st"
    and fits :: "'k \<Rightarrow> bytes \<Rightarrow> bool"
    and apart :: "'st \<Rightarrow> 'k \<Rightarrow> 'k \<Rightarrow> bytes \<Rightarrow> bool"
  assumes get_put_law: "fits k v \<Longrightarrow> get (put st k v) k = Some v"
    and get_other_law: "apart st k' k v \<Longrightarrow> get (put st k v) k' = get st k'"
begin

lemma saved_record:
  assumes "codec_ok c" "EncodeToBytes c \<lparr>P_Deleted = False, P_Value = r\<rparr> = Some d" "fits k d"
  shows "record_of c (get (put st k d) k) = Inr r"
proof -
  have "d \<noteq> [] \<and> DecodeBytes c d = (True, \<lparr>P_Deleted = False, P_Value = r\<rparr>)"
    using assms(1,2) unfolding codec_ok_def by blast
  then show ?thesis using get_put_law [OF assms(3)] by (simp add: record_of_def)
qed

lemma removed_record:
  assumes "codec_ok c" "EncodeToBytes c \<lparr>P_Deleted = True, P_Value = r\<rparr> = Some d" "fits k d"
  shows "record_of c (get (put st k d) k) = Inl RecordDeleted"
proof -
  have "d \<noteq> [] \<and> DecodeBytes c d = (True, \<lparr>P_Deleted = True, P_Value = r\<rparr>)"
    using assms(1,2) unfolding codec_ok_def by blast
  then show ?thesis using get_put_law [OF assms(3)] by (simp add: record_of_def)
qed

lemma other_record: "apart st k' k d \<Longrightarrow> record_of c (get (put st k d) k') = record_of c (get st k')"
  by (simp add: get_other_law)

end

definition struct_fits :: "Env \<Rightarrow> bytes \<Rightarrow> bytes \<Rightarrow> bool" where
  "struct_fits e key v \<longleftrightarrow> length v < 2 ^ 31 \<and> distinct (struct_keys e key (structLength (length v)))"

interpretation sd: byte_store "struct_get e" "struct_put e" "struct_fits e" "\<lambda>st k' k v. struct_apart e st k' k (structLength (length v))" for e
  by unfold_locales (simp_all add: struct_fits_def struct_get_put struct_get_put_other)

section \<open>Round trip\<close>

text \<open>C16. A byte string written with \<open>SetStructData\<close> is read back by \<open>GetStructData\<close>: if its length fits
  the 32-bit size field and the hash function gives distinct storage keys to its chunks, then the write
  succeeds, a following read under the same key returns exactly the string, and a read under any key
  whose storage is apart returns what it returned before. The write raises the nonce of the account by
  one and changes no other account; the reads change nothing.\<close>

theorem struct_data_roundtrip:
  assumes "db_ok db" "length v < 2 ^ 31" "distinct (struct_keys (env db) key (structLength (length v)))"
    "struct_apart (env db) (a_storage (acc db a)) key' key (structLength (length v))"
    "GetStructData db a (Some key') = Some (old, db0)"
  shows "\<exists>db1 db2 db3. SetStructData db a (Some key) (Some v) = Some db1 \<and>
    GetStructData db1 a (Some key) = Some (Some v, db2) \<and> GetStructData db1 a (Some key') = Some (old, db3) \<and>
    a_nonce (acc db1 a) = a_nonce (acc db a) + 1 \<and> (\<forall>b. b \<noteq> a \<longrightarrow> acc db1 b = acc db b) \<and>
    acc db2 = acc db1 \<and> acc db3 = acc db1"
proof -
  obtain db1 where db1: "SetStructData db a (Some key) (Some v) = Some db1"
    "becomes db ((acc db)(a := (acc db a)\<lparr>a_storage := struct_put (env db) (a_storage (acc db a)) key v, a_nonce := a_nonce (acc db a) + 1\<rparr>)) db1"
    using SetStructData_becomes [OF assms(1), of a key v] by blast
  have st: "a_storage (acc db1 a) = struct_put (env db) (a_storage (acc db a)) key v" "env db1 = env db" "db_ok db1"
    using becomes_acc [OF db1(2)] becomes_env [OF db1(2)] becomes_ok [OF db1(2)] by simp_all
  have "struct_get (env db1) (a_storage (acc db1 a)) key = Some v"
    unfolding st by (rule sd.get_put_law) (use assms in \<open>simp add: struct_fits_def\<close>)
  from GetStructData_becomes [OF st(3) this] obtain db2 where
    db2: "GetStructData db1 a (Some key) = Some (Some v, db2)" "acc db2 = acc db1" using becomes_acc by blast
  obtain d where d: "struct_get (env db) (a_storage (acc db a)) key' = Some d"
    using GetStructData_panics [OF assms(1), of a key'] assms(5) by (cases "struct_get (env db) (a_storage (acc db a)) key'") auto
  then have old: "old = Some d" using GetStructData_becomes [OF assms(1) d] assms(5) by auto
  have "struct_get (env db1) (a_storage (acc db1 a)) key' = Some d"
    unfolding st using sd.get_other_law [of "env db", OF assms(4)] d by simp
  from GetStructData_becomes [OF st(3) this] obtain db3 where
    db3: "GetStructData db1 a (Some key') = Some (Some d, db3)" "acc db3 = acc db1" using becomes_acc by blast
  show ?thesis using db1(1) db2 db3 old becomes_acc [OF db1(2)] by auto
qed

definition hashEnv :: Env where
  "hashEnv = \<lparr>Keccak256Hash = (\<lambda>bs. of_nat (from_be (1 # bs))), contractCode = Map.empty, storageTrie = (\<lambda>_ _. Map.empty), storageRoot = (\<lambda>_. 0)\<rparr>"

lemma stored_zero [simp]: "storedSize e key (\<lambda>_. 0) = 0" "storedLength e key (\<lambda>_. 0) = 0"
  by (simp_all add: storedSize_def storedLength_def hash_bytes_def BytesToInt_def Let_def)

lemma struct_get_zero [simp]: "struct_get e (\<lambda>_. 0) key = Some []"
  by (simp add: struct_get_def)

lemma acc_New: "acc (New e Map.empty h cache) a = object_state e (newObject a (emptyAccount e))"
  by (simp add: acc_def object_at_def live_def' New_def)

lemma db_ok_New: "db_ok (New e Map.empty h cache)"
  by (simp add: db_ok_def New_def)

lemma storage_New: "a_storage (acc (New hashEnv Map.empty h cache) a) = (\<lambda>_. 0)"
  by (simp add: acc_New object_state_eqs storage_view_def newObject_def hashEnv_def fun_eq_iff)

theorem struct_data_roundtrip_witness:
  "\<exists>db1 db2 db3. SetStructData (New hashEnv Map.empty 0 emptyTicketSlice) SwapKeyAddress (Some [7]) (Some (replicate 40 5)) = Some db1 \<and>
    GetStructData db1 SwapKeyAddress (Some [7]) = Some (Some (replicate 40 5), db2) \<and>
    GetStructData db1 SwapKeyAddress (Some [8]) = Some (Some [], db3)"
proof -
  let ?db = "New hashEnv Map.empty 0 emptyTicketSlice"
  have e: "env ?db = hashEnv" by (simp add: New_def)
  have keys: "struct_keys hashEnv [7] (structLength 40) = [263, 65799, 16843015]" "struct_keys hashEnv [8] 0 = [264]"
    by (simp_all add: struct_keys_def structLength_def structChunkKey_def hashEnv_def from_be_def big_bytes.simps upt_rec)
  obtain db0 where g: "GetStructData ?db SwapKeyAddress (Some [8]) = Some (Some [], db0)"
    using GetStructData_becomes [OF db_ok_New [of hashEnv 0 emptyTicketSlice], of SwapKeyAddress "[8]" "[]"] e by (auto simp: storage_New)
  show ?thesis
    using struct_data_roundtrip [OF db_ok_New, of "replicate 40 5" hashEnv 0 emptyTicketSlice "[7]" SwapKeyAddress "[8]" "Some []" db0]
      e keys g by (auto simp: struct_apart_def storage_New)
qed

end
