(* ===== verification/State_Records.thy ===== *)
theory State_Records
  imports Struct_Data
begin

text \<open>
  The records that the state database keeps in the storage of special addresses
  (\<open>core/state/statedb.go\<close>): notations, assets, swaps and multi-swaps, and the pool of tickets kept as
  the code of the ticket address. The RLP and gzip encodings are the fields of \<open>Codecs\<close>; that they can
  be read back is the hypothesis \<open>codec_ok\<close> of the properties that need it.
\<close>

unbundle bit_operations_syntax

section \<open>Operations\<close>

record notationPersist =
  NP_Deleted :: bool
  NP_Count :: uint64
  NP_Address :: Address

text \<open>\<open>ticketsEncode\<close> is \<open>calcTicketsStorageData\<close>, \<open>ticketsDecode\<close> the inverse steps of \<open>AllTickets\<close>.\<close>

record Codecs =
  notationRLP :: "notationPersist RLP"
  assetRLP :: "Asset persist RLP"
  swapRLP :: "Swap persist RLP"
  multiSwapRLP :: "MultiSwap persist RLP"
  ticketsEncode :: "TicketsData list \<Rightarrow> bytes option"
  ticketsDecode :: "bytes \<Rightarrow> TicketsData list option"

datatype state_error =
    HasNotation | NotationNotExist | NotationUnreadable | NotationWasDeleted | NotFromNotation
  | RecordExists | RecordMissing | EncodeFailed
  | TicketsUnreadable | TicketFailed ticket_error

subsection \<open>Notations\<close>

text \<open>The constant term of the check digits, \<open>73/76798669*708583737978\<close>, is zero in integer arithmetic.\<close>

definition calcNotationDisplay :: "uint64 \<Rightarrow> uint64" where
  "calcNotationDisplay n = (if n = 0 then n
     else let check = (((n XOR 8192) XOR 13) + 73 div 76798669 * 708583737978) mod 100 in n * 100 + check)"

definition getNotationCount :: "Codecs \<Rightarrow> StateDB \<Rightarrow> (uint64 \<times> StateDB) option" where
  "getNotationCount c db = do {
     (d, db) \<leftarrow> GetStructData db NotationKeyAddress (Some (address_bytes NotationKeyAddress));
     Some (case d of
         None \<Rightarrow> 0
       | Some d \<Rightarrow> if d = [] then 0 else NP_Count (snd (DecodeBytes (notationRLP c) d)), db) }"

definition setNotationCount :: "Codecs \<Rightarrow> StateDB \<Rightarrow> uint64 \<Rightarrow> (state_error option \<times> StateDB) option" where
  "setNotationCount c db newCount =
    (case EncodeToBytes (notationRLP c) \<lparr>NP_Deleted = False, NP_Count = newCount, NP_Address = 0\<rparr> of
       None \<Rightarrow> Some (Some EncodeFailed, db)
     | Some d \<Rightarrow> do {
         db \<leftarrow> SetStructData db NotationKeyAddress (Some (address_bytes NotationKeyAddress)) (Some d);
         Some (None, db) })"

definition setNotationToAddressLookup :: "Codecs \<Rightarrow> StateDB \<Rightarrow> uint64 \<Rightarrow> Address \<Rightarrow> (state_error option \<times> StateDB) option" where
  "setNotationToAddressLookup c db n addr =
    (case EncodeToBytes (notationRLP c) \<lparr>NP_Deleted = False, NP_Count = n, NP_Address = addr\<rparr> of
       None \<Rightarrow> Some (Some EncodeFailed, db)
     | Some d \<Rightarrow> do { db \<leftarrow> SetStructData db NotationKeyAddress (Some (notation_key n)) (Some d); Some (None, db) })"

definition GetAddressByNotation :: "Codecs \<Rightarrow> StateDB \<Rightarrow> uint64 \<Rightarrow> ((state_error + Address) \<times> StateDB) option" where
  "GetAddressByNotation c db n = do {
     (d, db) \<leftarrow> GetStructData db NotationKeyAddress (Some (notation_key n));
     Some (case d of
         None \<Rightarrow> Inl NotationNotExist
       | Some d \<Rightarrow> if d = [] then Inl NotationNotExist
           else let (ok, np) = DecodeBytes (notationRLP c) d in
             if \<not> ok then Inl NotationUnreadable
             else if NP_Deleted np then Inl NotationWasDeleted
             else Inr (NP_Address np), db) }"

definition GenNotation :: "Codecs \<Rightarrow> StateDB \<Rightarrow> Address \<Rightarrow> (state_error option \<times> StateDB) option" where
  "GenNotation c db addr = (let
     (obj, db) = GetOrNewStateObject db addr;
     (n, db) = GetNotation db addr in
     if n \<noteq> 0 then Some (Some HasNotation, db)
     else do {
       (count, db) \<leftarrow> getNotationCount c db;
       let nextNotation = count + 1;
       let newNotation = calcNotationDisplay nextNotation;
       (_, db) \<leftarrow> setNotationCount c db nextNotation;
       (_, db) \<leftarrow> setNotationToAddressLookup c db newNotation addr;
       db \<leftarrow> SetNotation db addr newNotation;
       Some (None, db) })"

definition TransferNotation :: "Codecs \<Rightarrow> StateDB \<Rightarrow> uint64 \<Rightarrow> Address \<Rightarrow> Address \<Rightarrow> (state_error option \<times> StateDB) option" where
  "TransferNotation c db n from to = (let
     (objFrom, db) = GetOrNewStateObject db from;
     (objTo, db) = GetOrNewStateObject db to in
     do {
       (r, db) \<leftarrow> GetAddressByNotation c db n;
       case r of
         Inl err \<Rightarrow> Some (Some err, db)
       | Inr address \<Rightarrow>
           if address \<noteq> from then Some (Some NotFromNotation, db)
           else do {
             let (oldNotationTo, db) = GetNotation db to;
             (_, db) \<leftarrow> (if oldNotationTo \<noteq> 0 then setNotationToAddressLookup c db oldNotationTo 0 else Some (None, db));
             (_, db) \<leftarrow> setNotationToAddressLookup c db n to;
             db \<leftarrow> SetNotation db to n;
             db \<leftarrow> SetNotation db from 0;
             Some (None, db) } })"

subsection \<open>Assets\<close>

definition GetAsset :: "Codecs \<Rightarrow> StateDB \<Rightarrow> Hash \<Rightarrow> ((record_error + Asset) \<times> StateDB) option" where
  "GetAsset c db assetID = do {
     (d, db) \<leftarrow> GetStructData db AssetKeyAddress (Some (hash_bytes assetID));
     Some (record_of (assetRLP c) d, db) }"

definition UpdateAsset :: "Codecs \<Rightarrow> StateDB \<Rightarrow> Asset \<Rightarrow> (state_error option \<times> StateDB) option" where
  "UpdateAsset c db asset = (case EncodeToBytes (assetRLP c) \<lparr>P_Deleted = False, P_Value = asset\<rparr> of
      None \<Rightarrow> Some (Some EncodeFailed, db)
    | Some d \<Rightarrow> do { db \<leftarrow> SetStructData db AssetKeyAddress (Some (hash_bytes (A_ID asset))) (Some d); Some (None, db) })"

definition GenAsset :: "Codecs \<Rightarrow> StateDB \<Rightarrow> Asset \<Rightarrow> (state_error option \<times> StateDB) option" where
  "GenAsset c db asset = do {
     (r, db) \<leftarrow> GetAsset c db (A_ID asset);
     case r of
       Inr _ \<Rightarrow> Some (Some RecordExists, db)
     | Inl _ \<Rightarrow> (case EncodeToBytes (assetRLP c) \<lparr>P_Deleted = False, P_Value = asset\<rparr> of
           None \<Rightarrow> Some (Some EncodeFailed, db)
         | Some d \<Rightarrow> do { db \<leftarrow> SetStructData db AssetKeyAddress (Some (hash_bytes (A_ID asset))) (Some d); Some (None, db) }) }"

subsection \<open>Swaps\<close>

definition GetSwap :: "Codecs \<Rightarrow> StateDB \<Rightarrow> Hash \<Rightarrow> ((record_error + Swap) \<times> StateDB) option" where
  "GetSwap c db swapID = do {
     (d, db) \<leftarrow> GetStructData db SwapKeyAddress (Some (hash_bytes swapID));
     Some (record_of (swapRLP c) d, db) }"

definition UpdateSwap :: "Codecs \<Rightarrow> StateDB \<Rightarrow> Swap \<Rightarrow> (state_error option \<times> StateDB) option" where
  "UpdateSwap c db swap = (case EncodeToBytes (swapRLP c) \<lparr>P_Deleted = False, P_Value = swap\<rparr> of
      None \<Rightarrow> Some (Some EncodeFailed, db)
    | Some d \<Rightarrow> do { db \<leftarrow> SetStructData db SwapKeyAddress (Some (hash_bytes (S_ID swap))) (Some d); Some (None, db) })"

definition AddSwap :: "Codecs \<Rightarrow> StateDB \<Rightarrow> Swap \<Rightarrow> (state_error option \<times> StateDB) option" where
  "AddSwap c db swap = do {
     (r, db) \<leftarrow> GetSwap c db (S_ID swap);
     case r of
       Inr _ \<Rightarrow> Some (Some RecordExists, db)
     | Inl _ \<Rightarrow> (case EncodeToBytes (swapRLP c) \<lparr>P_Deleted = False, P_Value = swap\<rparr> of
           None \<Rightarrow> Some (Some EncodeFailed, db)
         | Some d \<Rightarrow> do { db \<leftarrow> SetStructData db SwapKeyAddress (Some (hash_bytes (S_ID swap))) (Some d); Some (None, db) }) }"

definition RemoveSwap :: "Codecs \<Rightarrow> StateDB \<Rightarrow> Hash \<Rightarrow> (state_error option \<times> StateDB) option" where
  "RemoveSwap c db swapID = do {
     (r, db) \<leftarrow> GetSwap c db swapID;
     case r of
       Inl _ \<Rightarrow> Some (Some RecordMissing, db)
     | Inr swapFound \<Rightarrow> (case EncodeToBytes (swapRLP c) \<lparr>P_Deleted = True, P_Value = swapFound\<rparr> of
           None \<Rightarrow> Some (Some EncodeFailed, db)
         | Some d \<Rightarrow> do { db \<leftarrow> SetStructData db SwapKeyAddress (Some (hash_bytes swapID)) (Some d); Some (None, db) }) }"

definition GetMultiSwap :: "Codecs \<Rightarrow> StateDB \<Rightarrow> Hash \<Rightarrow> ((record_error + MultiSwap) \<times> StateDB) option" where
  "GetMultiSwap c db swapID = do {
     (d, db) \<leftarrow> GetStructData db MultiSwapKeyAddress (Some (hash_bytes swapID));
     Some (record_of (multiSwapRLP c) d, db) }"

definition UpdateMultiSwap :: "Codecs \<Rightarrow> StateDB \<Rightarrow> MultiSwap \<Rightarrow> (state_error option \<times> StateDB) option" where
  "UpdateMultiSwap c db swap = (case EncodeToBytes (multiSwapRLP c) \<lparr>P_Deleted = False, P_Value = swap\<rparr> of
      None \<Rightarrow> Some (Some EncodeFailed, db)
    | Some d \<Rightarrow> do { db \<leftarrow> SetStructData db MultiSwapKeyAddress (Some (hash_bytes (M_ID swap))) (Some d); Some (None, db) })"

definition AddMultiSwap :: "Codecs \<Rightarrow> StateDB \<Rightarrow> MultiSwap \<Rightarrow> (state_error option \<times> StateDB) option" where
  "AddMultiSwap c db swap = do {
     (r, db) \<leftarrow> GetMultiSwap c db (M_ID swap);
     case r of
       Inr _ \<Rightarrow> Some (Some RecordExists, db)
     | Inl _ \<Rightarrow> (case EncodeToBytes (multiSwapRLP c) \<lparr>P_Deleted = False, P_Value = swap\<rparr> of
           None \<Rightarrow> Some (Some EncodeFailed, db)
         | Some d \<Rightarrow> do { db \<leftarrow> SetStructData db MultiSwapKeyAddress (Some (hash_bytes (M_ID swap))) (Some d); Some (None, db) }) }"

definition RemoveMultiSwap :: "Codecs \<Rightarrow> StateDB \<Rightarrow> Hash \<Rightarrow> (state_error option \<times> StateDB) option" where
  "RemoveMultiSwap c db swapID = do {
     (r, db) \<leftarrow> GetMultiSwap c db swapID;
     case r of
       Inl _ \<Rightarrow> Some (Some RecordMissing, db)
     | Inr swapFound \<Rightarrow> (case EncodeToBytes (multiSwapRLP c) \<lparr>P_Deleted = True, P_Value = swapFound\<rparr> of
           None \<Rightarrow> Some (Some EncodeFailed, db)
         | Some d \<Rightarrow> do { db \<leftarrow> SetStructData db MultiSwapKeyAddress (Some (hash_bytes swapID)) (Some d); Some (None, db) }) }"

subsection \<open>Tickets\<close>

definition GetData :: "StateDB \<Rightarrow> Address \<Rightarrow> bytes option \<times> StateDB" where
  "GetData db addr = (let (so, db) = getStateObject db addr in
     case so of
       None \<Rightarrow> (None, db)
     | Some s \<Rightarrow> let (d, s) = Object_Code (env db) s in (d, setStateObject db s))"

definition GetDataHash :: "StateDB \<Rightarrow> Address \<Rightarrow> Hash \<times> StateDB" where
  "GetDataHash db addr = (let (so, db) = getStateObject db addr in
     (case so of None \<Rightarrow> 0 | Some s \<Rightarrow> CodeHash (data s), db))"

definition AllTickets :: "Codecs \<Rightarrow> StateDB \<Rightarrow> (state_error + TicketsData list) \<times> StateDB" where
  "AllTickets c db =
    (if length (tickets db) \<noteq> 0 then (Inr (tickets db), db)
     else let key = ticketsHash db in
       case cachedTickets_Get (ticketCache db) key of
         Some ts \<Rightarrow> (Inr ts, db\<lparr>tickets := ts\<rparr>)
       | None \<Rightarrow> let (blob, db) = GetData db TicketKeyAddress in
           case blob of
             None \<Rightarrow> (Inr [], db)
           | Some b \<Rightarrow> if length b = 0 then (Inr [], db)
               else (case ticketsDecode c b of
                   None \<Rightarrow> (Inl TicketsUnreadable, db)
                 | Some ts \<Rightarrow> (Inr ts, db\<lparr>tickets := ts, ticketCache := cachedTickets_Add (ticketCache db) key ts\<rparr>)))"

definition IsTicketExist :: "Codecs \<Rightarrow> StateDB \<Rightarrow> Hash \<Rightarrow> bool \<times> StateDB" where
  "IsTicketExist c db i = (let (r, db) = AllTickets c db in
     (case r of Inl _ \<Rightarrow> False | Inr ts \<Rightarrow> (case Get ts i of Inl _ \<Rightarrow> False | Inr _ \<Rightarrow> True), db))"

definition GetTicket :: "Codecs \<Rightarrow> StateDB \<Rightarrow> Hash \<Rightarrow> (state_error + Ticket) \<times> StateDB" where
  "GetTicket c db i = (let (r, db) = AllTickets c db in
     (case r of Inl e \<Rightarrow> Inl e | Inr ts \<Rightarrow> (case Get ts i of Inl e \<Rightarrow> Inl (TicketFailed e) | Inr t \<Rightarrow> Inr t), db))"

definition StateDB_AddTicket :: "Codecs \<Rightarrow> StateDB \<Rightarrow> Ticket \<Rightarrow> state_error option \<times> StateDB" where
  "StateDB_AddTicket c db ticket = (let (r, db) = AllTickets c db in
     case r of
       Inl e \<Rightarrow> (Some e, db)
     | Inr ts \<Rightarrow> (case AddTicket ts ticket of
           (_, Some e) \<Rightarrow> (Some (TicketFailed e), db)
         | (ts', None) \<Rightarrow> (None, db\<lparr>tickets := ts'\<rparr>)))"

definition StateDB_RemoveTicket :: "Codecs \<Rightarrow> StateDB \<Rightarrow> Hash \<Rightarrow> state_error option \<times> StateDB" where
  "StateDB_RemoveTicket c db i = (let (r, db) = AllTickets c db in
     case r of
       Inl e \<Rightarrow> (Some e, db)
     | Inr ts \<Rightarrow> (case RemoveTicket ts i of
           (_, Some e) \<Rightarrow> (Some (TicketFailed e), db)
         | (ts', None) \<Rightarrow> (None, db\<lparr>tickets := ts'\<rparr>)))"

definition TotalNumberOfTickets :: "StateDB \<Rightarrow> uint64" where
  "TotalNumberOfTickets db = NumberOfTickets (tickets db)"

definition UpdateTickets :: "Codecs \<Rightarrow> StateDB \<Rightarrow> uint64 \<Rightarrow> ((state_error + Hash) \<times> StateDB) option" where
  "UpdateTickets c db timestamp = (case ClearExpiredTickets (tickets db) timestamp of
      (_, Some e) \<Rightarrow> Some (Inl (TicketFailed e), db)
    | (ts, None) \<Rightarrow> let db = db\<lparr>tickets := ts\<rparr> in
        (case ticketsEncode c ts of
           None \<Rightarrow> Some (Inl EncodeFailed, db)
         | Some d \<Rightarrow> do {
             (h, db) \<leftarrow> SetData db TicketKeyAddress d;
             Some (Inr h, db\<lparr>ticketCache := cachedTickets_Add (ticketCache db) h ts\<rparr>) }))"

section \<open>Records under their keys\<close>

text \<open>The record that the storage of address \<open>A\<close> holds under an identifier, and the accounts after one is written.\<close>

definition record_at :: "'r persist RLP \<Rightarrow> Address \<Rightarrow> StateDB \<Rightarrow> Hash \<Rightarrow> record_error + 'r" where
  "record_at rlp A db i = record_of rlp (struct_get (env db) (a_storage (acc db A)) (hash_bytes i))"

definition put_struct :: "Env \<Rightarrow> Address \<Rightarrow> bytes \<Rightarrow> bytes \<Rightarrow> (Address \<Rightarrow> AccountState) \<Rightarrow> Address \<Rightarrow> AccountState" where
  "put_struct e A key d as = as(A := (as A)\<lparr>a_storage := struct_put e (a_storage (as A)) key d, a_nonce := a_nonce (as A) + 1\<rparr>)"

text \<open>A structure can be read: its size is not negative, and its chunks lie within it.\<close>

definition readable :: "StateDB \<Rightarrow> Address \<Rightarrow> bytes \<Rightarrow> bool" where
  "readable db A key \<longleftrightarrow> struct_get (env db) (a_storage (acc db A)) key \<noteq> None"

lemma GetStructData_iff:
  assumes "db_ok db"
  shows "GetStructData db A (Some key) = Some (x, db') \<Longrightarrow>
      x = struct_get (env db) (a_storage (acc db A)) key \<and> readable db A key \<and> becomes db (acc db) db'"
    and "readable db A key \<Longrightarrow> \<exists>db'. GetStructData db A (Some key) = Some (struct_get (env db) (a_storage (acc db A)) key, db') \<and>
      becomes db (acc db) db'"
  using GetStructData_panics [OF assms, of A key] GetStructData_becomes [OF assms, of A key]
  by (cases "struct_get (env db) (a_storage (acc db A)) key"; force simp: readable_def)+

lemma SetStructData_put:
  "db_ok db \<Longrightarrow> \<exists>db'. SetStructData db A (Some key) (Some d) = Some db' \<and> becomes db (put_struct (env db) A key d (acc db)) db'"
  using SetStructData_becomes [of db A key d] by (simp add: put_struct_def)

lemma put_struct_get:
  assumes "becomes db (put_struct (env db) A key d (acc db)) db'" "struct_fits (env db) key d"
  shows "struct_get (env db') (a_storage (acc db' A)) key = Some d"
  using sd.get_put_law [OF assms(2)] becomes_acc [OF assms(1)] becomes_env [OF assms(1)] by (simp add: put_struct_def)

lemma put_struct_other:
  assumes "becomes db (put_struct (env db) A key d (acc db)) db'"
    "B \<noteq> A \<or> struct_apart (env db) (a_storage (acc db A)) key' key (structLength (length d))"
  shows "struct_get (env db') (a_storage (acc db' B)) key' = struct_get (env db) (a_storage (acc db B)) key'"
  using assms(2) sd.get_other_law [of "env db" "a_storage (acc db A)" key' key d] becomes_acc [OF assms(1)] becomes_env [OF assms(1)]
  by (auto simp: put_struct_def)

lemma put_record_at:
  assumes "becomes db (put_struct (env db) A (hash_bytes i) d (acc db)) db'" "struct_fits (env db) (hash_bytes i) d"
    "codec_ok rlp" "EncodeToBytes rlp \<lparr>P_Deleted = del, P_Value = r\<rparr> = Some d"
  shows "record_at rlp A db' i = (if del then Inl RecordDeleted else Inr r)" "readable db' A (hash_bytes i)"
proof -
  have g: "struct_get (env db') (a_storage (acc db' A)) (hash_bytes i) = Some d" by (rule put_struct_get [OF assms(1,2)])
  have st: "a_storage (acc db' A) = struct_put (env db) (a_storage (acc db A)) (hash_bytes i) d" "env db' = env db"
    using becomes_acc [OF assms(1)] becomes_env [OF assms(1)] by (simp_all add: put_struct_def)
  show "record_at rlp A db' i = (if del then Inl RecordDeleted else Inr r)"
    unfolding record_at_def st
    using sd.saved_record [OF assms(3) _ assms(2)] sd.removed_record [OF assms(3) _ assms(2)] assms(4) by (cases del) auto
  show "readable db' A (hash_bytes i)" using g by (simp add: readable_def)
qed

lemma same_records:
  assumes "becomes db (acc db) db'"
  shows "record_at rlp A db' = record_at rlp A db" "readable db' A = readable db A"
  using becomes_acc [OF assms] becomes_env [OF assms] by (simp_all add: record_at_def readable_def fun_eq_iff)

text \<open>The shape of the operations that file a record under an identifier.\<close>

definition file_record :: "'r RLP \<Rightarrow> Address \<Rightarrow> Hash \<Rightarrow> 'r \<Rightarrow> StateDB \<Rightarrow> (state_error option \<times> StateDB) option" where
  "file_record rlp A i r db = (case EncodeToBytes rlp r of
      None \<Rightarrow> Some (Some EncodeFailed, db)
    | Some d \<Rightarrow> do { db \<leftarrow> SetStructData db A (Some (hash_bytes i)) (Some d); Some (None, db) })"

lemma file_record_becomes:
  assumes "db_ok db"
  shows "\<exists>db'. file_record rlp A i r db = Some (case EncodeToBytes rlp r of None \<Rightarrow> Some EncodeFailed | Some _ \<Rightarrow> None, db') \<and>
    becomes db (case EncodeToBytes rlp r of None \<Rightarrow> acc db | Some d \<Rightarrow> put_struct (env db) A (hash_bytes i) d (acc db)) db'"
proof (cases "EncodeToBytes rlp r")
  case None
  then show ?thesis using becomes_refl [OF assms] by (simp add: file_record_def)
next
  case (Some d)
  then show ?thesis using SetStructData_put [OF assms, of A "hash_bytes i" d] by (auto simp: file_record_def)
qed

definition read_record :: "'r persist RLP \<Rightarrow> Address \<Rightarrow> StateDB \<Rightarrow> Hash \<Rightarrow> ((record_error + 'r) \<times> StateDB) option" where
  "read_record rlp A db i = do { (d, db) \<leftarrow> GetStructData db A (Some (hash_bytes i)); Some (record_of rlp d, db) }"

lemma read_record_iff:
  assumes "db_ok db"
  shows "read_record rlp A db i = Some (r, db') \<Longrightarrow> r = record_at rlp A db i \<and> readable db A (hash_bytes i) \<and> becomes db (acc db) db'"
    and "readable db A (hash_bytes i) \<Longrightarrow> \<exists>db'. read_record rlp A db i = Some (record_at rlp A db i, db') \<and> becomes db (acc db) db'"
  using GetStructData_iff [OF assms, of A "hash_bytes i"]
  by (auto simp: read_record_def record_at_def bind_eq_Some_conv)

lemma record_ops:
  "GetAsset c db i = read_record (assetRLP c) AssetKeyAddress db i"
  "GetSwap c db i = read_record (swapRLP c) SwapKeyAddress db i"
  "GetMultiSwap c db i = read_record (multiSwapRLP c) MultiSwapKeyAddress db i"
  "UpdateAsset c db a = file_record (assetRLP c) AssetKeyAddress (A_ID a) \<lparr>P_Deleted = False, P_Value = a\<rparr> db"
  "UpdateSwap c db s = file_record (swapRLP c) SwapKeyAddress (S_ID s) \<lparr>P_Deleted = False, P_Value = s\<rparr> db"
  "UpdateMultiSwap c db m = file_record (multiSwapRLP c) MultiSwapKeyAddress (M_ID m) \<lparr>P_Deleted = False, P_Value = m\<rparr> db"
  by (simp_all add: GetAsset_def GetSwap_def GetMultiSwap_def UpdateAsset_def UpdateSwap_def UpdateMultiSwap_def
      read_record_def file_record_def)

definition add_record :: "'r persist RLP \<Rightarrow> Address \<Rightarrow> Hash \<Rightarrow> 'r \<Rightarrow> StateDB \<Rightarrow> (state_error option \<times> StateDB) option" where
  "add_record rlp A i r db = do {
     (x, db) \<leftarrow> read_record rlp A db i;
     case x of Inr _ \<Rightarrow> Some (Some RecordExists, db) | Inl _ \<Rightarrow> file_record rlp A i \<lparr>P_Deleted = False, P_Value = r\<rparr> db }"

definition remove_record :: "'r persist RLP \<Rightarrow> Address \<Rightarrow> Hash \<Rightarrow> StateDB \<Rightarrow> (state_error option \<times> StateDB) option" where
  "remove_record rlp A i db = do {
     (x, db) \<leftarrow> read_record rlp A db i;
     case x of Inl _ \<Rightarrow> Some (Some RecordMissing, db) | Inr r \<Rightarrow> file_record rlp A i \<lparr>P_Deleted = True, P_Value = r\<rparr> db }"

lemma record_changes:
  "GenAsset c db a = add_record (assetRLP c) AssetKeyAddress (A_ID a) a db"
  "AddSwap c db s = add_record (swapRLP c) SwapKeyAddress (S_ID s) s db"
  "AddMultiSwap c db m = add_record (multiSwapRLP c) MultiSwapKeyAddress (M_ID m) m db"
  "RemoveSwap c db i = remove_record (swapRLP c) SwapKeyAddress i db"
  "RemoveMultiSwap c db i = remove_record (multiSwapRLP c) MultiSwapKeyAddress i db"
  unfolding GenAsset_def AddSwap_def AddMultiSwap_def RemoveSwap_def RemoveMultiSwap_def add_record_def remove_record_def
    record_ops file_record_def by (rule refl)+

text \<open>What adding and removing a record does, on every branch.\<close>

lemma add_record_becomes:
  assumes "db_ok db" "readable db A (hash_bytes i)"
  shows "\<exists>db'. add_record rlp A i r db =
      Some (if isl (record_at rlp A db i) then (case EncodeToBytes rlp \<lparr>P_Deleted = False, P_Value = r\<rparr> of None \<Rightarrow> Some EncodeFailed | Some _ \<Rightarrow> None)
        else Some RecordExists, db') \<and>
    becomes db (if isl (record_at rlp A db i) then
        (case EncodeToBytes rlp \<lparr>P_Deleted = False, P_Value = r\<rparr> of None \<Rightarrow> acc db | Some d \<Rightarrow> put_struct (env db) A (hash_bytes i) d (acc db))
      else acc db) db'"
proof -
  obtain db1 where 1: "read_record rlp A db i = Some (record_at rlp A db i, db1)" "becomes db (acc db) db1"
    using read_record_iff(2) [OF assms] by blast
  then have "acc db1 = acc db" "env db1 = env db" by (simp_all add: becomes_acc becomes_env)
  with file_record_becomes [OF becomes_ok [OF 1(2)], of rlp A i "\<lparr>P_Deleted = False, P_Value = r\<rparr>"] 1 show ?thesis
    by (cases "record_at rlp A db i") (auto simp: add_record_def intro: becomes_trans cong: option.case_cong)
qed

lemma remove_record_becomes:
  assumes "db_ok db" "readable db A (hash_bytes i)" "record_at rlp A db i = Inr r"
  shows "\<exists>db'. remove_record rlp A i db = Some (case EncodeToBytes rlp \<lparr>P_Deleted = True, P_Value = r\<rparr> of None \<Rightarrow> Some EncodeFailed | Some _ \<Rightarrow> None, db') \<and>
    becomes db (case EncodeToBytes rlp \<lparr>P_Deleted = True, P_Value = r\<rparr> of None \<Rightarrow> acc db | Some d \<Rightarrow> put_struct (env db) A (hash_bytes i) d (acc db)) db'"
proof -
  obtain db1 where 1: "read_record rlp A db i = Some (Inr r, db1)" "becomes db (acc db) db1"
    using read_record_iff(2) [OF assms(1,2)] assms(3) by metis
  then have "acc db1 = acc db" "env db1 = env db" by (simp_all add: becomes_acc becomes_env)
  with file_record_becomes [OF becomes_ok [OF 1(2)], of rlp A i "\<lparr>P_Deleted = True, P_Value = r\<rparr>"] 1 show ?thesis
    by (auto simp: remove_record_def intro: becomes_trans cong: option.case_cong)
qed

lemma remove_record_missing:
  assumes "db_ok db" "readable db A (hash_bytes i)" "record_at rlp A db i = Inl x"
  shows "\<exists>db'. remove_record rlp A i db = Some (Some RecordMissing, db') \<and> becomes db (acc db) db'"
proof -
  obtain db1 where "read_record rlp A db i = Some (Inl x, db1)" "becomes db (acc db) db1"
    using read_record_iff(2) [OF assms(1,2)] assms(3) by metis
  then show ?thesis by (simp add: remove_record_def)
qed

section \<open>Assets and swaps\<close>

lemma record_readable:
  assumes "db_ok db"
  shows "read_record rlp A db i = Some x \<Longrightarrow> readable db A (hash_bytes i)"
    "add_record rlp A i r db = Some y \<Longrightarrow> readable db A (hash_bytes i)"
    "remove_record rlp A i db = Some y \<Longrightarrow> readable db A (hash_bytes i)"
  using read_record_iff(1) [OF assms, of rlp A i]
  by (auto simp: add_record_def remove_record_def bind_eq_Some_conv prod_eq_iff)

lemma added_record:
  assumes "db_ok db" "add_record rlp A i r db = Some (None, db1)" "codec_ok rlp"
    "EncodeToBytes rlp \<lparr>P_Deleted = False, P_Value = r\<rparr> = Some d" "struct_fits (env db) (hash_bytes i) d"
  shows "becomes db (put_struct (env db) A (hash_bytes i) d (acc db)) db1 \<and> record_at rlp A db1 i = Inr r \<and>
    readable db1 A (hash_bytes i) \<and> isl (record_at rlp A db i)"
proof -
  have r: "readable db A (hash_bytes i)"
    using record_readable(2) [OF assms(1,2)] .
  have b: "isl (record_at rlp A db i)" "becomes db (put_struct (env db) A (hash_bytes i) d (acc db)) db1"
    using add_record_becomes [OF assms(1) r, of rlp r] assms(2,4) by (auto split: if_splits)
  then show ?thesis using put_record_at [OF b(2) assms(5,3,4)] by simp
qed

lemma removed_record_at:
  assumes "db_ok db" "remove_record rlp A i db = Some (None, db1)" "codec_ok rlp" "record_at rlp A db i = Inr r"
    "EncodeToBytes rlp \<lparr>P_Deleted = True, P_Value = r\<rparr> = Some d" "struct_fits (env db) (hash_bytes i) d"
  shows "becomes db (put_struct (env db) A (hash_bytes i) d (acc db)) db1 \<and> record_at rlp A db1 i = Inl RecordDeleted \<and>
    readable db1 A (hash_bytes i)"
proof -
  have r: "readable db A (hash_bytes i)"
    using record_readable(3) [OF assms(1,2)] .
  have b: "becomes db (put_struct (env db) A (hash_bytes i) d (acc db)) db1"
    using remove_record_becomes [OF assms(1) r assms(4)] assms(2,5) by auto
  then show ?thesis using put_record_at [OF b assms(6,3,5)] by simp
qed

text \<open>C25. An asset is issued once: when \<open>GenAsset\<close> succeeds there was no live asset under its identifier,
  \<open>GetAsset\<close> then returns exactly the asset, a second \<open>GenAsset\<close> under the identifier is refused without
  changing any account, \<open>UpdateAsset\<close> replaces the asset, and the assets under other identifiers, whose
  storage keys are apart, are as before. The encoding is any one that can be read back.\<close>

theorem asset_issued_once:
  assumes "db_ok db" "codec_ok (assetRLP c)" "GenAsset c db a = Some (None, db1)"
    "EncodeToBytes (assetRLP c) \<lparr>P_Deleted = False, P_Value = a\<rparr> = Some d" "struct_fits (env db) (hash_bytes (A_ID a)) d"
    "EncodeToBytes (assetRLP c) \<lparr>P_Deleted = False, P_Value = a'\<rparr> = Some d'" "struct_fits (env db) (hash_bytes (A_ID a)) d'"
    "A_ID a' = A_ID a" "struct_apart (env db) (a_storage (acc db AssetKeyAddress)) (hash_bytes j) (hash_bytes (A_ID a)) (structLength (length d))"
    "GetAsset c db j = Some (r, db0)"
  shows "(\<exists>e0 db2. GetAsset c db (A_ID a) = Some (Inl e0, db2)) \<and>
    (\<exists>db2. GetAsset c db1 (A_ID a) = Some (Inr a, db2) \<and> acc db2 = acc db1) \<and>
    (\<exists>db2. GenAsset c db1 a' = Some (Some RecordExists, db2) \<and> acc db2 = acc db1) \<and>
    (\<exists>db2 db3. UpdateAsset c db1 a' = Some (None, db2) \<and> GetAsset c db2 (A_ID a) = Some (Inr a', db3)) \<and>
    (\<exists>db2. GetAsset c db1 j = Some (r, db2) \<and> acc db2 = acc db1)"
proof (intro conjI)
  note add = added_record [OF assms(1) assms(3) [unfolded record_changes] assms(2,4,5)]
  then have b: "becomes db (put_struct (env db) AssetKeyAddress (hash_bytes (A_ID a)) d (acc db)) db1" by simp
  then have ok: "db_ok db1" and env: "env db1 = env db" by (simp_all add: becomes_ok becomes_env)
  have "readable db AssetKeyAddress (hash_bytes (A_ID a))"
    using record_readable(2) [OF assms(1) assms(3) [unfolded record_changes]] .
  from read_record_iff(2) [OF assms(1) this, of "assetRLP c"] add show "\<exists>e0 db2. GetAsset c db (A_ID a) = Some (Inl e0, db2)"
    by (auto simp: record_ops isl_def)
  show "\<exists>db2. GetAsset c db1 (A_ID a) = Some (Inr a, db2) \<and> acc db2 = acc db1"
    using read_record_iff(2) [OF ok, of AssetKeyAddress "A_ID a" "assetRLP c"] add becomes_acc by (fastforce simp: record_ops)
  show "\<exists>db2. GenAsset c db1 a' = Some (Some RecordExists, db2) \<and> acc db2 = acc db1"
    using add_record_becomes [OF ok, of AssetKeyAddress "A_ID a" "assetRLP c" a'] add becomes_acc assms(8) by (auto simp: record_changes)
  show "\<exists>db2 db3. UpdateAsset c db1 a' = Some (None, db2) \<and> GetAsset c db2 (A_ID a) = Some (Inr a', db3)"
  proof -
    obtain db2 where u: "UpdateAsset c db1 a' = Some (None, db2)"
      "becomes db1 (put_struct (env db1) AssetKeyAddress (hash_bytes (A_ID a)) d' (acc db1)) db2"
      using file_record_becomes [OF ok, of "assetRLP c" AssetKeyAddress "A_ID a" "\<lparr>P_Deleted = False, P_Value = a'\<rparr>"] assms(6,8)
      by (auto simp: record_ops)
    have "struct_fits (env db1) (hash_bytes (A_ID a)) d'" using assms(7) env by simp
    from put_record_at [OF u(2) this assms(2,6)] read_record_iff(2) [OF becomes_ok [OF u(2)], of AssetKeyAddress "A_ID a" "assetRLP c"]
    show ?thesis using u(1) by (auto simp: record_ops)
  qed
  have r: "r = record_at (assetRLP c) AssetKeyAddress db j" "readable db AssetKeyAddress (hash_bytes j)"
    using read_record_iff(1) [OF assms(1) assms(10) [unfolded record_ops]] by simp_all
  have "struct_get (env db1) (a_storage (acc db1 AssetKeyAddress)) (hash_bytes j) = struct_get (env db) (a_storage (acc db AssetKeyAddress)) (hash_bytes j)"
    using put_struct_other [OF b] assms(9) by blast
  with r have "record_at (assetRLP c) AssetKeyAddress db1 j = r" "readable db1 AssetKeyAddress (hash_bytes j)"
    by (simp_all add: record_at_def readable_def)
  then show "\<exists>db2. GetAsset c db1 j = Some (r, db2) \<and> acc db2 = acc db1"
    using read_record_iff(2) [OF ok, of AssetKeyAddress j "assetRLP c"] becomes_acc by (fastforce simp: record_ops)
qed

lemma from_be_Cons: "from_be (b # bs) = unat b * 256 ^ length bs + from_be bs"
  by (induction bs rule: rev_induct) (simp_all add: from_be_snoc [of "b # _", simplified] from_be_def algebra_simps)

lemma hashEnv_hash [simp]: "Keccak256Hash hashEnv (hash_bytes h) = h"
proof -
  have "of_nat (256 ^ 32) = (0 :: Hash)" by simp
  moreover have "from_be (1 # hash_bytes h) = 256 ^ 32 + unat h"
    using hash_bound [of h] by (simp add: from_be_Cons hash_bytes_def from_to_be del: power_numeral)
  ultimately show ?thesis by (simp add: hashEnv_def del: power_numeral of_nat_power)
qed

lemma hashEnv_keys:
  "struct_keys hashEnv (hash_bytes 7) (structLength (Suc 0)) = [7, 263]" "struct_keys hashEnv (hash_bytes 9) 0 = [9]"
  "struct_fits hashEnv (hash_bytes 7) [b]"
  by (simp_all add: struct_fits_def struct_keys_def structLength_def structChunkKey_def upt_rec big_bytes.simps)
    (simp_all add: hashEnv_def from_be_def)

definition exampleAsset :: "uint8 \<Rightarrow> Asset" where
  "exampleAsset n = \<lparr>A_ID = 7, A_Owner = 1, A_Name = [], A_Symbol = [], A_Decimals = n, A_Total = 100, A_CanChange = True, A_Description = []\<rparr>"

definition exampleSwap :: Swap where
  "exampleSwap = \<lparr>S_ID = 7, S_Owner = 1, S_FromAssetID = 5, S_FromStartTime = 0, S_FromEndTime = TimeLockForever, S_MinFromAmount = 3,
     S_ToAssetID = 6, S_ToStartTime = 0, S_ToEndTime = TimeLockForever, S_MinToAmount = 4, S_SwapSize = 10, S_Targes = [], S_Time = 0,
     S_Description = [], S_Notation = 0\<rparr>"

definition exampleMulti :: MultiSwap where
  "exampleMulti = \<lparr>M_ID = 7, M_Owner = 1, M_FromAssetID = [5], M_FromStartTime = [0], M_FromEndTime = [TimeLockForever],
     M_MinFromAmount = [3], M_ToAssetID = [6], M_ToStartTime = [0], M_ToEndTime = [TimeLockForever], M_MinToAmount = [4],
     M_SwapSize = 10, M_Targes = [], M_Time = 0, M_Description = [], M_Notation = 0\<rparr>"

text \<open>An encoding, of two values, that can be read back.\<close>

definition pairCodec :: "'r \<Rightarrow> 'r \<Rightarrow> 'r RLP" where
  "pairCodec x y = \<lparr>EncodeToBytes = (\<lambda>r. if r = x then Some [1] else if r = y then Some [2] else None),
     DecodeBytes = (\<lambda>d. (True, if d = [1] then x else y))\<rparr>"

lemma pairCodec_ok: "codec_ok (pairCodec x y)"
  by (auto simp: codec_ok_def pairCodec_def)

definition exampleCodecs :: Codecs where
  "exampleCodecs = \<lparr>
     notationRLP = pairCodec \<lparr>NP_Deleted = False, NP_Count = 1, NP_Address = 0\<rparr> \<lparr>NP_Deleted = False, NP_Count = 104, NP_Address = 1\<rparr>,
     assetRLP = pairCodec \<lparr>P_Deleted = False, P_Value = exampleAsset 0\<rparr> \<lparr>P_Deleted = False, P_Value = exampleAsset 1\<rparr>,
     swapRLP = pairCodec \<lparr>P_Deleted = False, P_Value = exampleSwap\<rparr> \<lparr>P_Deleted = True, P_Value = exampleSwap\<rparr>,
     multiSwapRLP = pairCodec \<lparr>P_Deleted = False, P_Value = exampleMulti\<rparr> \<lparr>P_Deleted = True, P_Value = exampleMulti\<rparr>,
     ticketsEncode = (\<lambda>ts. if ts = examplePool then Some [1] else None), ticketsDecode = (\<lambda>d. if d = [1] then Some examplePool else None)\<rparr>"

lemma New_fields [simp]: "env (New e tr h cache) = e" "tickets (New e tr h cache) = []"
    "ticketCache (New e tr h cache) = cache" "ticketsHash (New e tr h cache) = h"
  by (simp_all add: New_def)

lemma New_record: "record_at rlp A (New hashEnv Map.empty h cache) i = Inl RecordNotFound"
  "readable (New hashEnv Map.empty h cache) A key"
  by (simp_all add: record_at_def readable_def storage_New record_of_def)

theorem asset_issued_once_witness:
  "\<exists>db1 db2 db3. GenAsset exampleCodecs (New hashEnv Map.empty 0 emptyTicketSlice) (exampleAsset 0) = Some (None, db1) \<and>
    UpdateAsset exampleCodecs db1 (exampleAsset 1) = Some (None, db2) \<and>
    GetAsset exampleCodecs db2 7 = Some (Inr (exampleAsset 1), db3)"
proof -
  let ?db = "New hashEnv Map.empty 0 emptyTicketSlice" and ?c = exampleCodecs and ?a = "exampleAsset 0" and ?a' = "exampleAsset 1"
  have c: "codec_ok (assetRLP ?c)" "EncodeToBytes (assetRLP ?c) \<lparr>P_Deleted = False, P_Value = ?a\<rparr> = Some [1]"
    "EncodeToBytes (assetRLP ?c) \<lparr>P_Deleted = False, P_Value = ?a'\<rparr> = Some [2]"
    by (simp_all add: exampleCodecs_def pairCodec_ok) (simp_all add: pairCodec_def exampleAsset_def)
  have i: "A_ID ?a = 7" "A_ID ?a' = 7" by (simp_all add: exampleAsset_def)
  obtain db1 where db1: "GenAsset ?c ?db ?a = Some (None, db1)"
    using add_record_becomes [OF db_ok_New New_record(2), where rlp = "assetRLP ?c" and r = ?a] c i by (fastforce simp: record_changes New_record)
  obtain db0 where "GetAsset ?c ?db 9 = Some (Inl RecordNotFound, db0)"
    using read_record_iff(2) [OF db_ok_New New_record(2), where rlp = "assetRLP ?c"] by (fastforce simp: record_ops New_record)
  from asset_issued_once [OF db_ok_New c(1) db1 c(2) _ c(3) _ _ _ this] i db1
  show ?thesis by (auto simp: hashEnv_keys struct_apart_def storage_New)
qed



section \<open>Notations\<close>

lemma calcNotationDisplay_unat:
  assumes "0 < n" "unat n * 100 + 99 < 2 ^ 64"
  shows "unat (calcNotationDisplay n) div 100 = unat n"
proof -
  let ?c = "((n XOR 8192) XOR 13) mod 100 :: uint64"
  have c: "unat ?c < 100" by (simp add: unat_mod)
  have "unat (n * 100) = unat n * 100" using assms(2) by (simp add: unat_word_ariths)
  then have "unat (n * 100 + ?c) = unat n * 100 + unat ?c" using assms(2) c by (simp add: unat_word_ariths)
  moreover have "calcNotationDisplay n = n * 100 + ?c" using assms(1) by (auto simp: calcNotationDisplay_def Let_def)
  ultimately show ?thesis using c by simp
qed

text \<open>As long as the count times one hundred fits 64 bits, the notation shown for a count is not zero, its
  last two digits are a check and the digits before them are the count: different counts have different
  notations.\<close>

theorem notation_display_injective:
  assumes "0 < n" "unat n * 100 + 99 < 2 ^ 64" "0 < m" "unat m * 100 + 99 < 2 ^ 64"
  shows "calcNotationDisplay n \<noteq> 0 \<and> unat (calcNotationDisplay n) div 100 = unat n \<and>
    (calcNotationDisplay n = calcNotationDisplay m \<longleftrightarrow> n = m)"
proof -
  note n = calcNotationDisplay_unat [OF assms(1,2)] and m = calcNotationDisplay_unat [OF assms(3,4)]
  have "0 < unat n" using assms(1) by (metis unat_gt_0 word_gt_0)
  then have "calcNotationDisplay n \<noteq> 0" using n by (metis div_0 less_irrefl unat_0)
  moreover have "calcNotationDisplay n = calcNotationDisplay m \<longleftrightarrow> n = m" using n m by (metis word_unat_eq_iff)
  ultimately show ?thesis using n by simp
qed

theorem notation_display_injective_witness:
  "calcNotationDisplay 1 = 104 \<and> calcNotationDisplay 2 = 207 \<and> calcNotationDisplay (1 :: uint64) \<noteq> calcNotationDisplay 2"
  using notation_display_injective [of 1 2] by (simp add: calcNotationDisplay_def)

definition notation_at :: "Codecs \<Rightarrow> bytes option \<Rightarrow> state_error + Address" where
  "notation_at c d = (case d of
         None \<Rightarrow> Inl NotationNotExist
       | Some d \<Rightarrow> if d = [] then Inl NotationNotExist
           else let (ok, np) = DecodeBytes (notationRLP c) d in
             if \<not> ok then Inl NotationUnreadable
             else if NP_Deleted np then Inl NotationWasDeleted
             else Inr (NP_Address np))"

lemma GetAddressByNotation_iff:
  assumes "db_ok db"
  shows "GetAddressByNotation c db n = Some (r, db') \<Longrightarrow>
      r = notation_at c (struct_get (env db) (a_storage (acc db NotationKeyAddress)) (notation_key n)) \<and>
      readable db NotationKeyAddress (notation_key n) \<and> becomes db (acc db) db'"
    and "readable db NotationKeyAddress (notation_key n) \<Longrightarrow> \<exists>db'. GetAddressByNotation c db n =
      Some (notation_at c (struct_get (env db) (a_storage (acc db NotationKeyAddress)) (notation_key n)), db') \<and> becomes db (acc db) db'"
  using GetStructData_iff [OF assms, of NotationKeyAddress "notation_key n"]
  by (auto simp: GetAddressByNotation_def notation_at_def bind_eq_Some_conv)

definition count_at :: "Codecs \<Rightarrow> bytes option \<Rightarrow> uint64" where
  "count_at c d = (case d of None \<Rightarrow> 0 | Some d \<Rightarrow> if d = [] then 0 else NP_Count (snd (DecodeBytes (notationRLP c) d)))"

lemma getNotationCount_iff:
  assumes "db_ok db"
  shows "getNotationCount c db = Some (n, db') \<Longrightarrow>
      n = count_at c (struct_get (env db) (a_storage (acc db NotationKeyAddress)) (address_bytes NotationKeyAddress)) \<and>
      readable db NotationKeyAddress (address_bytes NotationKeyAddress) \<and> becomes db (acc db) db'"
    and "readable db NotationKeyAddress (address_bytes NotationKeyAddress) \<Longrightarrow> \<exists>db'. getNotationCount c db =
      Some (count_at c (struct_get (env db) (a_storage (acc db NotationKeyAddress)) (address_bytes NotationKeyAddress)), db') \<and> becomes db (acc db) db'"
  using GetStructData_iff [OF assms, of NotationKeyAddress "address_bytes NotationKeyAddress"]
  by (auto simp: getNotationCount_def count_at_def bind_eq_Some_conv)

lemma count_at_stored:
  assumes "codec_ok (notationRLP c)" "EncodeToBytes (notationRLP c) \<lparr>NP_Deleted = x, NP_Count = n, NP_Address = y\<rparr> = Some d"
  shows "count_at c (Some d) = n"
proof -
  have "d \<noteq> [] \<and> DecodeBytes (notationRLP c) d = (True, \<lparr>NP_Deleted = x, NP_Count = n, NP_Address = y\<rparr>)"
    using assms unfolding codec_ok_def by blast
  then show ?thesis by (simp add: count_at_def)
qed

lemma notation_at_stored:
  assumes "codec_ok (notationRLP c)" "EncodeToBytes (notationRLP c) \<lparr>NP_Deleted = False, NP_Count = n, NP_Address = a\<rparr> = Some d"
  shows "notation_at c (Some d) = Inr a"
proof -
  have "d \<noteq> [] \<and> DecodeBytes (notationRLP c) d = (True, \<lparr>NP_Deleted = False, NP_Count = n, NP_Address = a\<rparr>)"
    using assms unfolding codec_ok_def by blast
  then show ?thesis by (simp add: notation_at_def)
qed

lemma setNotationCount_becomes:
  assumes "db_ok db" "EncodeToBytes (notationRLP c) \<lparr>NP_Deleted = False, NP_Count = n, NP_Address = 0\<rparr> = Some d"
  shows "\<exists>db'. setNotationCount c db n = Some (None, db') \<and>
    becomes db (put_struct (env db) NotationKeyAddress (address_bytes NotationKeyAddress) d (acc db)) db'"
  using SetStructData_put [OF assms(1), of NotationKeyAddress "address_bytes NotationKeyAddress" d] assms(2)
  by (auto simp: setNotationCount_def)

lemma setNotationToAddressLookup_becomes:
  assumes "db_ok db" "EncodeToBytes (notationRLP c) \<lparr>NP_Deleted = False, NP_Count = n, NP_Address = a\<rparr> = Some d"
  shows "\<exists>db'. setNotationToAddressLookup c db n a = Some (None, db') \<and>
    becomes db (put_struct (env db) NotationKeyAddress (notation_key n) d (acc db)) db'"
  using SetStructData_put [OF assms(1), of NotationKeyAddress "notation_key n" d] assms(2)
  by (auto simp: setNotationToAddressLookup_def)

lemma GetOrNew_pair:
  assumes "db_ok db"
  obtains s db' where "GetOrNewStateObject db a = (s, db')" "becomes db (acc db) db'"
  using GetOrNewStateObject_becomes [OF assms, of a] by (cases "GetOrNewStateObject db a") auto

lemmas becomes_D = becomes_ok becomes_acc becomes_env

text \<open>The accounts after a notation has been given out.\<close>

definition notated :: "Env \<Rightarrow> Address \<Rightarrow> uint64 \<Rightarrow> bytes \<Rightarrow> bytes \<Rightarrow> (Address \<Rightarrow> AccountState) \<Rightarrow> Address \<Rightarrow> AccountState" where
  "notated e a m d1 d2 as = (let
     as' = put_struct e NotationKeyAddress (notation_key m) d2 (put_struct e NotationKeyAddress (address_bytes NotationKeyAddress) d1 as)
     in as'(a := (as' a)\<lparr>a_notation := m\<rparr>))"

lemma GenNotation_becomes:
  assumes "db_ok db" "a_notation (acc db a) = 0" "getNotationCount c db = Some (n, db0)" "m = calcNotationDisplay (n + 1)"
    "EncodeToBytes (notationRLP c) \<lparr>NP_Deleted = False, NP_Count = n + 1, NP_Address = 0\<rparr> = Some d1"
    "EncodeToBytes (notationRLP c) \<lparr>NP_Deleted = False, NP_Count = m, NP_Address = a\<rparr> = Some d2"
  shows "\<exists>db1. GenNotation c db a = Some (None, db1) \<and> becomes db (notated (env db) a m d1 d2 (acc db)) db1"
proof -
  obtain s db2 where 2: "GetOrNewStateObject db a = (s, db2)" "becomes db (acc db) db2" using GetOrNew_pair [OF assms(1)] by metis
  note d2 = becomes_D [OF 2(2)]
  obtain db3 where 3: "GetNotation db2 a = (0, db3)" "becomes db2 (acc db2) db3"
    using GetNotation_becomes [OF d2(1), of a] assms(2) d2(2) by auto
  note d3 = becomes_D [OF 3(2), unfolded d2]
  have "readable db NotationKeyAddress (address_bytes NotationKeyAddress)"
    "n = count_at c (struct_get (env db) (a_storage (acc db NotationKeyAddress)) (address_bytes NotationKeyAddress))"
    using getNotationCount_iff(1) [OF assms(1,3)] by simp_all
  then obtain db4 where 4: "getNotationCount c db3 = Some (n, db4)" "becomes db3 (acc db3) db4"
    using getNotationCount_iff(2) [OF d3(1), of c] d3 by (auto simp: readable_def)
  note d4 = becomes_D [OF 4(2), unfolded d3]
  obtain db5 where 5: "setNotationCount c db4 (n + 1) = Some (None, db5)"
    "becomes db4 (put_struct (env db) NotationKeyAddress (address_bytes NotationKeyAddress) d1 (acc db)) db5"
    using setNotationCount_becomes [OF d4(1) assms(5)] d4 by auto
  note d5 = becomes_D [OF 5(2), unfolded d4]
  obtain db6 where 6: "setNotationToAddressLookup c db5 m a = Some (None, db6)"
    "becomes db5 (put_struct (env db) NotationKeyAddress (notation_key m) d2 (acc db5)) db6"
    using setNotationToAddressLookup_becomes [OF d5(1) assms(6)] d5 by auto
  note d6 = becomes_D [OF 6(2), unfolded d5]
  obtain db7 where 7: "SetNotation db6 a m = Some db7" "becomes db6 ((acc db6)(a := (acc db6 a)\<lparr>a_notation := m\<rparr>)) db7"
    using SetNotation_becomes [OF d6(1)] by blast
  have "becomes db (notated (env db) a m d1 d2 (acc db)) db7"
    using becomes_trans [OF 2(2) becomes_trans [OF 3(2) becomes_trans [OF 4(2) becomes_trans [OF 5(2) becomes_trans [OF 6(2) 7(2)]]]]] d6(2)
    by (simp add: notated_def Let_def)
  then show ?thesis using 2(1) 3(1) 4(1) 5(1) 6(1) 7(1) assms(4) by (simp add: GenNotation_def Let_def)
qed

lemma GenNotation_refused:
  assumes "db_ok db" "a_notation (acc db a) \<noteq> 0"
  shows "\<exists>db1. GenNotation c db a = Some (Some HasNotation, db1) \<and> becomes db (acc db) db1"
proof -
  obtain s db2 where 2: "GetOrNewStateObject db a = (s, db2)" "becomes db (acc db) db2" using GetOrNew_pair [OF assms(1)] by metis
  note d2 = becomes_D [OF 2(2)]
  obtain db3 where 3: "GetNotation db2 a = (a_notation (acc db a), db3)" "becomes db2 (acc db2) db3"
    using GetNotation_becomes [OF d2(1), of a] d2(2) by auto
  have "becomes db (acc db) db3" using becomes_trans [OF 2(2) 3(2)] d2 by simp
  then show ?thesis using 2(1) 3(1) assms(2) by (auto simp: GenNotation_def)
qed

lemma notated_stored:
  assumes "becomes db (notated (env db) a m d1 d2 (acc db)) db1"
    "struct_fits (env db) (address_bytes NotationKeyAddress) d1" "struct_fits (env db) (notation_key m) d2"
    "set (struct_keys (env db) (address_bytes NotationKeyAddress) (structLength (length d1))) \<inter>
      set (struct_keys (env db) (notation_key m) (structLength (length d2))) = {}"
  shows "struct_get (env db1) (a_storage (acc db1 NotationKeyAddress)) (address_bytes NotationKeyAddress) = Some d1"
    "struct_get (env db1) (a_storage (acc db1 NotationKeyAddress)) (notation_key m) = Some d2"
    "a_notation (acc db1 a) = m"
proof -
  let ?st = "struct_put (env db) (a_storage (acc db NotationKeyAddress)) (address_bytes NotationKeyAddress) d1"
  have st: "a_storage (acc db1 NotationKeyAddress) = struct_put (env db) ?st (notation_key m) d2"
    and m: "a_notation (acc db1 a) = m"
    using becomes_acc [OF assms(1)] by (simp_all add: notated_def put_struct_def Let_def)
  have "struct_apart (env db) ?st (address_bytes NotationKeyAddress) (notation_key m) (structLength (length d2))"
    using assms(2,4) stored_put(2) [of "env db" "address_bytes NotationKeyAddress" d1] by (simp add: struct_apart_def struct_fits_def)
  from sd.get_other_law [OF this] sd.get_put_law [OF assms(2)] st
  show "struct_get (env db1) (a_storage (acc db1 NotationKeyAddress)) (address_bytes NotationKeyAddress) = Some d1"
    using becomes_env [OF assms(1)] by simp
  show "struct_get (env db1) (a_storage (acc db1 NotationKeyAddress)) (notation_key m) = Some d2"
    using sd.get_put_law [OF assms(3)] st becomes_env [OF assms(1)] by simp
  show "a_notation (acc db1 a) = m" by (rule m)
qed

text \<open>C27. \<open>GenNotation\<close> gives an account without a notation the next one: the count goes up by one, the
  account carries the notation shown for the new count, \<open>GetAddressByNotation\<close> leads from the notation
  back to the account, and a further request of the account is refused and changes nothing. The encoding
  is one that can be read back, and the two structures written are stored apart.\<close>

theorem notation_assigned:
  assumes "db_ok db" "codec_ok (notationRLP c)" "a_notation (acc db a) = 0" "getNotationCount c db = Some (n, db0)"
    "m = calcNotationDisplay (n + 1)" "m \<noteq> 0"
    "EncodeToBytes (notationRLP c) \<lparr>NP_Deleted = False, NP_Count = n + 1, NP_Address = 0\<rparr> = Some d1"
    "EncodeToBytes (notationRLP c) \<lparr>NP_Deleted = False, NP_Count = m, NP_Address = a\<rparr> = Some d2"
    "struct_fits (env db) (address_bytes NotationKeyAddress) d1" "struct_fits (env db) (notation_key m) d2"
    "set (struct_keys (env db) (address_bytes NotationKeyAddress) (structLength (length d1))) \<inter>
      set (struct_keys (env db) (notation_key m) (structLength (length d2))) = {}"
  shows "\<exists>db1. GenNotation c db a = Some (None, db1) \<and> fst (GetNotation db1 a) = m \<and>
    (\<exists>db2. GetAddressByNotation c db1 m = Some (Inr a, db2)) \<and> (\<exists>db2. getNotationCount c db1 = Some (n + 1, db2)) \<and>
    (\<exists>db2. GenNotation c db1 a = Some (Some HasNotation, db2) \<and> acc db2 = acc db1)"
proof -
  obtain db1 where db1: "GenNotation c db a = Some (None, db1)" "becomes db (notated (env db) a m d1 d2 (acc db)) db1"
    using GenNotation_becomes [OF assms(1,3,4,5,7,8)] by blast
  note ok = becomes_ok [OF db1(2)]
  note st = notated_stored [OF db1(2) assms(9-11)]
  have "fst (GetNotation db1 a) = m" using GetNotation_becomes [OF ok, of a] st(3) by auto
  moreover have "\<exists>db2. GetAddressByNotation c db1 m = Some (Inr a, db2)"
    using GetAddressByNotation_iff(2) [OF ok, of m c] st(2) notation_at_stored [OF assms(2,8)] by (auto simp: readable_def)
  moreover have "\<exists>db2. getNotationCount c db1 = Some (n + 1, db2)"
    using getNotationCount_iff(2) [OF ok, of c] st(1) count_at_stored [OF assms(2,7)] by (auto simp: readable_def)
  moreover have "\<exists>db2. GenNotation c db1 a = Some (Some HasNotation, db2) \<and> acc db2 = acc db1"
    using GenNotation_refused [OF ok, of a c] st(3) assms(6) becomes_acc by blast
  ultimately show ?thesis using db1(1) by blast
qed

lemma hashEnv_Keccak: "Keccak256Hash hashEnv bs = of_nat (256 ^ length bs + from_be bs)"
  by (simp add: hashEnv_def from_be_Cons)

lemma hashEnv_notation_hashes:
  "Keccak256Hash hashEnv (address_bytes NotationKeyAddress) = 0x01fffffffffffffffffffffffffffffffffffffffd"
  "Keccak256Hash hashEnv (notation_key 104) = 0x0168000000000000000000"
proof -
  show "Keccak256Hash hashEnv (address_bytes NotationKeyAddress) = 0x01fffffffffffffffffffffffffffffffffffffffd"
    by (simp add: hashEnv_Keccak address_bytes_def from_to_be NotationKeyAddress_def)
  have "notation_key 104 = 104 # replicate 9 0" by (simp add: notation_key_def putUvarint.simps Let_def)
  then show "Keccak256Hash hashEnv (notation_key 104) = 0x0168000000000000000000"
    by (simp add: hashEnv_Keccak from_be_Cons)
qed

lemma hashEnv_notation_keys:
  "struct_keys hashEnv (address_bytes NotationKeyAddress) (structLength (Suc 0)) =
     [0x01fffffffffffffffffffffffffffffffffffffffd, 0x0101fffffffffffffffffffffffffffffffffffffffd]"
  "struct_keys hashEnv (notation_key 104) (structLength (Suc 0)) = [0x0168000000000000000000, 0x010168000000000000000000]"
  by (simp_all add: struct_keys_def structLength_def structChunkKey_def upt_rec hashEnv_notation_hashes big_bytes.simps)
    (simp_all add: hashEnv_Keccak from_be_def)

theorem notation_assigned_witness:
  "\<exists>db1 db2. GenNotation exampleCodecs (New hashEnv Map.empty 0 emptyTicketSlice) 1 = Some (None, db1) \<and>
    fst (GetNotation db1 1) = 104 \<and> GetAddressByNotation exampleCodecs db1 104 = Some (Inr 1, db2)"
proof -
  let ?db = "New hashEnv Map.empty 0 emptyTicketSlice" and ?c = exampleCodecs
  have z: "a_notation (acc ?db 1) = 0" by (simp add: acc_New)
  obtain db0 where n: "getNotationCount ?c ?db = Some (0, db0)"
    using getNotationCount_iff(2) [OF db_ok_New New_record(2), of ?c] by (fastforce simp: storage_New count_at_def)
  have m: "104 = calcNotationDisplay (0 + 1)" by (simp add: calcNotationDisplay_def)
  have c: "codec_ok (notationRLP ?c)" "EncodeToBytes (notationRLP ?c) \<lparr>NP_Deleted = False, NP_Count = 0 + 1, NP_Address = 0\<rparr> = Some [1]"
    "EncodeToBytes (notationRLP ?c) \<lparr>NP_Deleted = False, NP_Count = 104, NP_Address = 1\<rparr> = Some [2]"
    by (simp_all add: exampleCodecs_def pairCodec_ok) (simp_all add: pairCodec_def)
  have f: "struct_fits (env ?db) (address_bytes NotationKeyAddress) [1]" "struct_fits (env ?db) (notation_key 104) [2]"
    by (simp_all add: struct_fits_def hashEnv_notation_keys)
  have "set (struct_keys (env ?db) (address_bytes NotationKeyAddress) (structLength (length [1 :: 8 word]))) \<inter>
      set (struct_keys (env ?db) (notation_key 104) (structLength (length [2 :: 8 word]))) = {}"
    by (simp add: hashEnv_notation_keys)
  from notation_assigned [OF db_ok_New c(1) z n m _ c(2,3) f this] show ?thesis by auto
qed

section \<open>Tickets\<close>

text \<open>\<open>AddCachedTickets\<close> admits a pool from outside only under the hash of its storage data.\<close>

definition AddCachedTickets :: "Codecs \<Rightarrow> Env \<Rightarrow> CachedTicketSlice \<Rightarrow> Hash \<Rightarrow> TicketsData list \<Rightarrow> state_error option \<times> CachedTicketSlice" where
  "AddCachedTickets c e cts hash ts = (case ticketsEncode c ts of
      None \<Rightarrow> (Some EncodeFailed, cts)
    | Some d \<Rightarrow> if hash \<noteq> Keccak256Hash e d then (Some TicketsUnreadable, cts)
        else (None, cachedTickets_Add cts hash ts))"

text \<open>Every cached pool is filed under the hash of its storage data.\<close>

definition cache_sound :: "Codecs \<Rightarrow> Env \<Rightarrow> CachedTicketSlice \<Rightarrow> bool" where
  "cache_sound c e cts \<longleftrightarrow> slice_ok cts \<and>
     (\<forall>v \<in> set (slice_list cts). \<exists>d. ticketsEncode c (C_tickets v) = Some d \<and> Keccak256Hash e d = C_hash v)"

lemma cache_sound_Add:
  assumes "cache_sound c e cts" "ticketsEncode c ts = Some d" "Keccak256Hash e d = h"
  shows "cache_sound c e (cachedTickets_Add cts h ts)"
proof (cases "cachedTickets_Get cts h")
  case None
  have "slice_ok cts" using assms(1) by (simp add: cache_sound_def)
  from cachedTickets_Add_list [OF this None, of ts] assms show ?thesis
    by (auto simp: cache_sound_def dest: list.set_sel(2) [rotated])
      (metis (no_types, lifting) list.sel(2) list.set_sel(2))
next
  case (Some x)
  then show ?thesis using assms(1) by (simp add: cachedTickets_Add_def)
qed

lemma cache_sound_Get:
  assumes "cache_sound c e cts" "cachedTickets_Get cts h = Some ts" "h \<noteq> 0"
  shows "\<exists>d. ticketsEncode c ts = Some d \<and> Keccak256Hash e d = h"
proof -
  obtain v where "v \<in> set (slice_list cts)" "C_hash v = h" "C_tickets v = ts"
    using assms(2,3) by (auto simp: cachedTickets_Get_list find_Some_iff intro: nth_mem)
  then show ?thesis using assms(1) by (auto simp: cache_sound_def)
qed

lemma tickets_update [simp]:
  "acc (db\<lparr>tickets := ts\<rparr>) = acc db" "acc (db\<lparr>ticketCache := cts\<rparr>) = acc db" "acc (db\<lparr>ticketsHash := h\<rparr>) = acc db"
  "db_ok (db\<lparr>tickets := ts\<rparr>) = db_ok db" "db_ok (db\<lparr>ticketCache := cts\<rparr>) = db_ok db" "db_ok (db\<lparr>ticketsHash := h\<rparr>) = db_ok db"
  by (simp_all add: fun_eq_iff acc_def object_at_def db_ok_def live_def' cong: option.case_cong)

lemma GetData_becomes: "db_ok db \<Longrightarrow> \<exists>db'. GetData db a = (a_code (acc db a), db') \<and> becomes db (acc db) db'"
  using GetCode_becomes [of db a] by (simp add: GetData_def GetCode_def)

text \<open>C29. The pool of tickets survives the block: after \<open>UpdateTickets\<close> has removed the expired tickets and
  returned the hash \<open>h\<close> for the header, a database opened on that state with \<open>h\<close> and no pool loaded
  finds, through \<open>AllTickets\<close>, exactly the pool that was stored, whether the cache still has it or not.
  The cache may be any one in which pools are filed under the hash of their data, the pool is not
  empty, its storage data can be read back, and no other pool has the same hash.\<close>

theorem tickets_reloaded:
  assumes "db_ok db" "UpdateTickets c db ts = Some (Inr h, db1)" "tickets db1 \<noteq> []" "h \<noteq> 0"
    "\<And>p d. ticketsEncode c p = Some d \<Longrightarrow> d \<noteq> [] \<and> ticketsDecode c d = Some p"
    "\<And>p d. ticketsEncode c p = Some d \<Longrightarrow> Keccak256Hash (env db) d = h \<Longrightarrow> p = tickets db1"
    "cache_sound c (env db) cache"
  shows "\<exists>db2. AllTickets c (db1\<lparr>tickets := [], ticketsHash := h, ticketCache := cache\<rparr>) = (Inr (tickets db1), db2) \<and>
    tickets db2 = tickets db1 \<and> acc db2 = acc db1 \<and> cache_sound c (env db) (ticketCache db2)"
proof -
  obtain p d db0 where p: "ClearExpiredTickets (tickets db) ts = (p, None)" "ticketsEncode c p = Some d"
    "SetData (db\<lparr>tickets := p\<rparr>) TicketKeyAddress d = Some (h, db0)"
    "db1 = db0\<lparr>ticketCache := cachedTickets_Add (ticketCache db0) h p\<rparr>"
    using assms(2) by (auto simp: UpdateTickets_def Let_def bind_eq_Some_conv split: prod.splits option.splits)
  have h: "h = Keccak256Hash (env db) d"
    and b: "becomes (db\<lparr>tickets := p\<rparr>) ((acc db)(TicketKeyAddress := (acc db TicketKeyAddress)\<lparr>a_codeHash := h, a_code := Some d\<rparr>)) db0"
    using SetData_becomes [of "db\<lparr>tickets := p\<rparr>" TicketKeyAddress d] assms(1) p(3) by auto
  have tk: "tickets db1 = p" "env db1 = env db" "db_ok db1" and code: "a_code (acc db1 TicketKeyAddress) = Some d"
    using b p(4) by (simp_all add: becomes_def same_rest_def)
  let ?db = "db1\<lparr>tickets := [], ticketsHash := h, ticketCache := cache\<rparr>"
  show ?thesis
  proof (cases "cachedTickets_Get cache h")
    case (Some q)
    obtain d' where "ticketsEncode c q = Some d'" "Keccak256Hash (env db) d' = h"
      using cache_sound_Get [OF assms(7) Some assms(4)] by blast
    then have "q = tickets db1" using assms(6) by blast
    then show ?thesis using Some assms(7) by (simp add: AllTickets_def Let_def)
  next
    case None
    obtain db2 where g: "GetData ?db TicketKeyAddress = (Some d, db2)" "becomes ?db (acc ?db) db2"
      using GetData_becomes [of ?db TicketKeyAddress] tk code by auto
    have d: "d \<noteq> []" "ticketsDecode c d = Some p" using assms(5) [OF p(2)] by simp_all
    have "ticketCache db2 = cache" using g(2) by (simp add: becomes_def same_rest_def)
    then have "cache_sound c (env db) (cachedTickets_Add (ticketCache db2) h p)"
      using cache_sound_Add [OF assms(7) p(2)] h by simp
    then show ?thesis using None g d tk becomes_acc [OF g(2)] by (simp add: AllTickets_def Let_def)
  qed
qed

theorem tickets_reloaded_witness:
  "\<exists>db1 db2. UpdateTickets exampleCodecs ((New hashEnv Map.empty 0 emptyTicketSlice)\<lparr>tickets := examplePool\<rparr>) 5 = Some (Inr 257, db1) \<and>
    AllTickets exampleCodecs (db1\<lparr>tickets := [], ticketsHash := 257, ticketCache := emptyTicketSlice\<rparr>) = (Inr examplePool, db2)"
proof -
  let ?db = "(New hashEnv Map.empty 0 emptyTicketSlice)\<lparr>tickets := examplePool\<rparr>" and ?c = exampleCodecs
  have ok: "db_ok ?db" by (simp add: db_ok_New)
  have clear: "ClearExpiredTickets examplePool 5 = (examplePool, None)" by code_simp
  have k: "Keccak256Hash hashEnv [1] = 257" by (simp add: hashEnv_def from_be_def)
  have enc: "ticketsEncode ?c = (\<lambda>ts. if ts = examplePool then Some [1] else None)"
    "ticketsDecode ?c [1] = Some examplePool" by (simp_all add: exampleCodecs_def)
  obtain db0 where db0: "SetData ?db TicketKeyAddress [1] = Some (257, db0)" "tickets db0 = examplePool"
    using SetData_becomes [OF ok, of TicketKeyAddress "[1]"] k by (auto simp: becomes_def same_rest_def)
  let ?db1 = "db0\<lparr>ticketCache := cachedTickets_Add (ticketCache db0) 257 examplePool\<rparr>"
  have u: "UpdateTickets ?c ?db 5 = Some (Inr 257, ?db1)"
    using clear db0 enc by (simp add: UpdateTickets_def Let_def)
  have sound: "cache_sound ?c (env ?db) emptyTicketSlice"
    by (simp add: cache_sound_def slice_ok_def slice_list_def slice_positions_def emptyTicketSlice_def maxCachedTicketsCount_def)
  have ne: "tickets ?db1 \<noteq> []" using db0 by (simp add: examplePool_def)
  have "\<exists>db2. AllTickets ?c (?db1\<lparr>tickets := [], ticketsHash := 257, ticketCache := emptyTicketSlice\<rparr>) = (Inr (tickets ?db1), db2) \<and>
    tickets db2 = tickets ?db1 \<and> acc db2 = acc ?db1 \<and> cache_sound ?c (env ?db) (ticketCache db2)"
    by (rule tickets_reloaded [OF ok u ne _ _ _ sound]) (use enc db0 in \<open>auto split: if_splits\<close>)
  then show ?thesis using u db0 by auto
qed

lemma revertEntry_tickets: "revertEntry x db = Some db' \<Longrightarrow> tickets db' = tickets db"
proof -
  have g: "tickets (snd (getStateObject db a)) = tickets db" for a
    by (simp add: getStateObject_def setStateObject_def Let_def split: option.split)
  have r: "revertObject f db a = Some db' \<Longrightarrow> tickets db' = tickets db" for f a
    using g [of a] by (auto simp: revertObject_def setStateObject_def bind_eq_Some_conv split: prod.splits)
  assume "revertEntry x db = Some db'"
  then show ?thesis
    using g r by (cases x) (auto simp: revertEntry_suicide setStateObject_def simp del: revertEntry.simps(3) split: if_splits)
qed

lemma journal_undo_tickets: "journal_undo es db = Some db' \<Longrightarrow> tickets db' = tickets db"
proof (induction es arbitrary: db)
  case (Cons x es)
  then obtain db1 where db1: "revertEntry x db = Some db1"
    "journal_undo es (case dirtied x of Some a \<Rightarrow> undirty a db1 | None \<Rightarrow> db1) = Some db'"
    by (auto simp: bind_eq_Some_conv)
  from Cons.IH [OF db1(2)] revertEntry_tickets [OF db1(1)] show ?case
    by (simp add: undirty_def Let_def split: option.splits)
qed simp

lemma RevertToSnapshot_tickets: "RevertToSnapshot db r = Some db' \<Longrightarrow> tickets db' = tickets db"
  using journal_undo_tickets by (auto simp: RevertToSnapshot_def journal_revert_def Let_def bind_eq_Some_conv split: if_splits)

text \<open>C36. The pool of tickets is not journalled: when a ticket is added after a snapshot and the database is
  then reverted to the snapshot, everything that the journal covers is as it was, balances included,
  but the new ticket is still in the pool.\<close>

theorem ticket_survives_revert:
  assumes "hist_ok db h" "tickets_ok (tickets db)" "tickets db \<noteq> []" "ticket_map (tickets db) (ID (T_Body t)) = None"
  shows "\<exists>db1 db2. StateDB_AddTicket c (snd (Snapshot db)) t = (None, db1) \<and> RevertToSnapshot db1 (fst (Snapshot db)) = Some db2 \<and>
    view db2 = view db \<and> ticket_map (tickets db2) = (ticket_map (tickets db))(ID (T_Body t) \<mapsto> t)"
proof -
  obtain ts where ts: "AddTicket (tickets db) t = (ts, None)" "ticket_map ts = (ticket_map (tickets db))(ID (T_Body t) \<mapsto> t)"
    using AddTicket_ok [OF assms(2,4)] by blast
  let ?s = "snd (Snapshot db)"
  have s: "tickets ?s = tickets db" "fst (Snapshot db) = nextRevisionId db" by (simp_all add: Snapshot_def Let_def)
  have a: "StateDB_AddTicket c ?s t = (None, ?s\<lparr>tickets := ts\<rparr>)"
    using ts(1) s assms(3) by (simp add: StateDB_AddTicket_def AllTickets_def)
  let ?h = "h @ [(\<lparr>revId = nextRevisionId db, journalIndex = length (journal db)\<rparr>, view db)]"
  have "view (?s\<lparr>tickets := ts\<rparr>) = view ?s" by (simp add: view_def live_def' fun_eq_iff cong: option.case_cong)
  then have "hist_ok (?s\<lparr>tickets := ts\<rparr>) ?h" using Snapshot_hist [OF assms(1)] by (simp add: hist_ok_def)
  from Revert_hist [OF this, of "length h"] obtain db2 where
    r: "RevertToSnapshot (?s\<lparr>tickets := ts\<rparr>) (nextRevisionId db) = Some db2" "view db2 = view db" by auto
  have "tickets db2 = ts" using RevertToSnapshot_tickets [OF r(1)] by simp
  then show ?thesis using a r s ts(2) by auto
qed

theorem ticket_survives_revert_witness:
  "\<exists>db1 db2. StateDB_AddTicket exampleCodecs (snd (Snapshot ((New hashEnv Map.empty 0 emptyTicketSlice)\<lparr>tickets := examplePool\<rparr>)))
      \<lparr>T_Owner = 7, T_Body = \<lparr>ID = 4, TB_Height = 3, TB_StartTime = 0, ExpireTime = 40\<rparr>\<rparr> = (None, db1) \<and>
    RevertToSnapshot db1 0 = Some db2 \<and> ticket_map (tickets db2) 4 \<noteq> None"
proof -
  let ?db = "(New hashEnv Map.empty 0 emptyTicketSlice)\<lparr>tickets := examplePool\<rparr>"
    and ?t = "\<lparr>T_Owner = 7, T_Body = \<lparr>ID = 4, TB_Height = 3, TB_StartTime = 0, ExpireTime = 40\<rparr>\<rparr> :: Ticket"
  have h: "hist_ok ?db []" by (simp add: hist_ok_def db_ok_New) (simp add: New_def)
  have t: "tickets_ok (tickets ?db)" "tickets ?db \<noteq> []" "ticket_map (tickets ?db) (ID (T_Body ?t)) = None"
    using examplePool_ok by (simp_all add: ticket_eval examplePool_def)
  have "fst (Snapshot ?db) = 0" by (simp add: Snapshot_def New_def)
  with ticket_survives_revert [OF h t, of exampleCodecs] show ?thesis by auto
qed

section \<open>Moving a notation\<close>

lemma TransferNotation_refused:
  assumes "db_ok db" "readable db NotationKeyAddress (notation_key n)"
    "notation_at c (struct_get (env db) (a_storage (acc db NotationKeyAddress)) (notation_key n)) \<noteq> Inr from"
  shows "\<exists>x db1. TransferNotation c db n from to = Some (Some x, db1) \<and> becomes db (acc db) db1"
proof -
  obtain s db2 where 2: "GetOrNewStateObject db from = (s, db2)" "becomes db (acc db) db2" using GetOrNew_pair [OF assms(1)] by metis
  note d2 = becomes_D [OF 2(2)]
  obtain s' db3 where 3: "GetOrNewStateObject db2 to = (s', db3)" "becomes db2 (acc db2) db3" using GetOrNew_pair [OF d2(1)] by metis
  note d3 = becomes_D [OF 3(2), unfolded d2]
  obtain db4 where 4: "GetAddressByNotation c db3 n =
      Some (notation_at c (struct_get (env db) (a_storage (acc db NotationKeyAddress)) (notation_key n)), db4)" "becomes db3 (acc db3) db4"
    using GetAddressByNotation_iff(2) [OF d3(1), of n c] assms(2) d3 by (auto simp: readable_def)
  have "becomes db (acc db) db4" using becomes_trans [OF 2(2) becomes_trans [OF 3(2) 4(2)]] d3 by simp
  then show ?thesis
    using 2(1) 3(1) 4(1) assms(3) by (auto simp: TransferNotation_def split: sum.split)
qed

text \<open>The accounts after a notation has moved to an account that had none.\<close>

definition moved :: "Env \<Rightarrow> uint64 \<Rightarrow> Address \<Rightarrow> Address \<Rightarrow> bytes \<Rightarrow> (Address \<Rightarrow> AccountState) \<Rightarrow> Address \<Rightarrow> AccountState" where
  "moved e n from to d as = (let
     as1 = put_struct e NotationKeyAddress (notation_key n) d as;
     as2 = as1(to := (as1 to)\<lparr>a_notation := n\<rparr>) in as2(from := (as2 from)\<lparr>a_notation := 0\<rparr>))"

lemma TransferNotation_becomes:
  assumes "db_ok db" "readable db NotationKeyAddress (notation_key n)"
    "notation_at c (struct_get (env db) (a_storage (acc db NotationKeyAddress)) (notation_key n)) = Inr from"
    "a_notation (acc db to) = 0"
    "EncodeToBytes (notationRLP c) \<lparr>NP_Deleted = False, NP_Count = n, NP_Address = to\<rparr> = Some d"
  shows "\<exists>db1. TransferNotation c db n from to = Some (None, db1) \<and> becomes db (moved (env db) n from to d (acc db)) db1"
proof -
  obtain s db2 where 2: "GetOrNewStateObject db from = (s, db2)" "becomes db (acc db) db2" using GetOrNew_pair [OF assms(1)] by metis
  note d2 = becomes_D [OF 2(2)]
  obtain s' db3 where 3: "GetOrNewStateObject db2 to = (s', db3)" "becomes db2 (acc db2) db3" using GetOrNew_pair [OF d2(1)] by metis
  note d3 = becomes_D [OF 3(2), unfolded d2]
  obtain db4 where 4: "GetAddressByNotation c db3 n = Some (Inr from, db4)" "becomes db3 (acc db3) db4"
    using GetAddressByNotation_iff(2) [OF d3(1), of n c] assms(2,3) d3 by (auto simp: readable_def)
  note d4 = becomes_D [OF 4(2), unfolded d3]
  obtain db5 where 5: "GetNotation db4 to = (0, db5)" "becomes db4 (acc db4) db5"
    using GetNotation_becomes [OF d4(1), of to] assms(4) d4 by auto
  note d5 = becomes_D [OF 5(2), unfolded d4]
  obtain db6 where 6: "setNotationToAddressLookup c db5 n to = Some (None, db6)"
    "becomes db5 (put_struct (env db) NotationKeyAddress (notation_key n) d (acc db)) db6"
    using setNotationToAddressLookup_becomes [OF d5(1) assms(5)] d5 by auto
  note d6 = becomes_D [OF 6(2), unfolded d5]
  obtain db7 where 7: "SetNotation db6 to n = Some db7" "becomes db6 ((acc db6)(to := (acc db6 to)\<lparr>a_notation := n\<rparr>)) db7"
    using SetNotation_becomes [OF d6(1)] by blast
  note d7 = becomes_D [OF 7(2), unfolded d6]
  obtain db8 where 8: "SetNotation db7 from 0 = Some db8" "becomes db7 ((acc db7)(from := (acc db7 from)\<lparr>a_notation := 0\<rparr>)) db8"
    using SetNotation_becomes [OF d7(1)] by blast
  have "becomes db (moved (env db) n from to d (acc db)) db8"
    using becomes_trans [OF 2(2) becomes_trans [OF 3(2) becomes_trans [OF 4(2) becomes_trans [OF 5(2) becomes_trans [OF 6(2) becomes_trans [OF 7(2) 8(2)]]]]]]
    unfolding d7 by (simp add: moved_def Let_def)
  then show ?thesis using 2(1) 3(1) 4(1) 5(1) 6(1) 7(1) 8(1) by (simp add: TransferNotation_def Let_def)
qed



end
