(* ===== verification/Fsn_Call.thy ===== *)
theory Fsn_Call
  imports State_Records
begin

text \<open>
  The special calls of \<open>core/state_transition.go\<close>: \<open>handleFsnCall\<close> with one definition for each of its
  cases. A handler takes the context of the call and the database and returns the error, if any, and
  the database with the log entry that every outcome leaves; \<open>None\<close> is a panic. The decoded parameters,
  the JSON text of a log entry, the hashes of earlier blocks and the local clock, which one case
  reads, are fields of the context.
\<close>

section \<open>Context, errors and logs\<close>

datatype fsn_error =
    E_state state_error
  | E_check check_error
  | E_timeLock tl_error
  | NotEnoughAsset | NotEnoughTimeLock | NotEnoughTimeLockOrAsset | NotEnoughFromAsset
  | StartAfterNow | TicketExists
  | AssetNotFound | AssetFixed | NotOwner | DecrementOther
  | SwapExists | SwapUSAN | ToAssetNotFound | NoNotation
  | SwapNotFound | NotSwapOwner | NotationInvalid
  | Unsupported

datatype LogBase =
    LB_FSNCall FSNCallParam
  | LB_GenAsset GenAssetParam
  | LB_SendAsset SendAssetParam
  | LB_TimeLock TimeLockParam
  | LB_Bytes bytes
  | LB_AssetValueChange AssetValueChangeExParam
  | LB_MakeSwap MakeSwapParam
  | LB_MakeMultiSwap MakeMultiSwapParam
  | LB_RecallSwap RecallSwapParam
  | LB_TakeSwap TakeSwapParam

datatype LogField = LF_String string | LF_Error fsn_error | LF_Hash Hash | LF_Address Address | LF_Uint uint64

text \<open>What \<open>rlp.DecodeBytes\<close> leaves in a zero value of each parameter type, its error being ignored.\<close>

record Params =
  decFSNCall :: "bytes \<Rightarrow> FSNCallParam"
  decGenAsset :: "bytes \<Rightarrow> GenAssetParam"
  decSendAsset :: "bytes \<Rightarrow> SendAssetParam"
  decTimeLock :: "bytes \<Rightarrow> TimeLockParam"
  decBuyTicket :: "bytes \<Rightarrow> BuyTicketParam"
  decAssetValueChange :: "bytes \<Rightarrow> AssetValueChangeExParam"
  decMakeSwap :: "bytes \<Rightarrow> MakeSwapParam"
  decMakeMultiSwap :: "bytes \<Rightarrow> MakeMultiSwapParam"
  decRecallSwap :: "bytes \<Rightarrow> RecallSwapParam"
  decTakeSwap :: "bytes \<Rightarrow> TakeSwapParam"

record CallContext =
  X_from :: Address
  X_txHash :: Hash
  X_height :: int
  X_timestamp :: uint64
  X_now :: uint64
  X_getHash :: "uint64 \<Rightarrow> Hash"
  X_debug :: bool
  X_codecs :: Codecs
  X_params :: Params
  X_marshal :: "LogBase \<Rightarrow> (string \<times> LogField) list \<Rightarrow> bytes"

fun codeOfFunc :: "FSNCallFunc \<Rightarrow> uint8" where
  "codeOfFunc GenNotationFunc = 0"
| "codeOfFunc GenAssetFunc = 1"
| "codeOfFunc SendAssetFunc = 2"
| "codeOfFunc TimeLockFunc = 3"
| "codeOfFunc BuyTicketFunc = 4"
| "codeOfFunc OldAssetValueChangeFunc = 5"
| "codeOfFunc MakeSwapFunc = 6"
| "codeOfFunc RecallSwapFunc = 7"
| "codeOfFunc TakeSwapFunc = 8"
| "codeOfFunc EmptyFunc = 9"
| "codeOfFunc MakeSwapFuncExt = 10"
| "codeOfFunc TakeSwapFuncExt = 11"
| "codeOfFunc AssetValueChangeFunc = 12"
| "codeOfFunc MakeMultiSwapFunc = 13"
| "codeOfFunc RecallMultiSwapFunc = 14"
| "codeOfFunc TakeMultiSwapFunc = 15"
| "codeOfFunc (OtherFunc c) = c"

definition addLog :: "CallContext \<Rightarrow> StateDB \<Rightarrow> FSNCallFunc \<Rightarrow> LogBase \<Rightarrow> (string \<times> LogField) list \<Rightarrow> StateDB" where
  "addLog x db typ base keyValues = AddLog db \<lparr>L_Address = FSNCallAddress,
     L_Topics = [of_nat (unat (codeOfFunc typ))], L_Data = X_marshal x base keyValues,
     L_BlockNumber = of_int (X_height x), L_TxHash = 0, L_TxIndex = 0, L_BlockHash = 0, L_Index = 0, L_Removed = False\<rparr>"

text \<open>An error is returned with a log entry whose field \<open>Error\<close> has a text for it.\<close>

definition failWith :: "CallContext \<Rightarrow> StateDB \<Rightarrow> FSNCallFunc \<Rightarrow> LogBase \<Rightarrow> LogField \<Rightarrow> fsn_error \<Rightarrow> (fsn_error option \<times> StateDB) option" where
  "failWith x db typ base txt err = Some (Some err, addLog x db typ base [(''Error'', txt)])"

definition failErr :: "CallContext \<Rightarrow> StateDB \<Rightarrow> FSNCallFunc \<Rightarrow> LogBase \<Rightarrow> fsn_error \<Rightarrow> (fsn_error option \<times> StateDB) option" where
  "failErr x db typ base err = failWith x db typ base (LF_Error err) err"

definition MaxUint64 :: "uint64 \<Rightarrow> uint64 \<Rightarrow> uint64" where
  "MaxUint64 x y = (if x < y then y else x)"

text \<open>A time lock with one item, and the comparison of a time lock balance with it.\<close>

definition oneItem :: "uint64 \<Rightarrow> uint64 \<Rightarrow> int \<Rightarrow> TimeLock" where
  "oneItem start ende v = NewTimeLock [\<lparr>StartTime = start, EndTime = ende, Value = v\<rparr>]"

definition lockCmp :: "StateDB \<Rightarrow> Hash \<Rightarrow> Address \<Rightarrow> TimeLock \<Rightarrow> (int \<times> StateDB) option" where
  "lockCmp db assetID addr need = do {
     (l, db) \<leftarrow> GetTimeLockBalance db assetID addr;
     l \<leftarrow> l;
     c \<leftarrow> Cmp l (Some need);
     Some (c, db) }"

text \<open>\<open>GetBalance(...).Cmp(v) < 0\<close>, which panics on a nil balance.\<close>

definition balanceBelow :: "StateDB \<Rightarrow> Hash \<Rightarrow> Address \<Rightarrow> int \<Rightarrow> (bool \<times> StateDB) option" where
  "balanceBelow db assetID addr v = do { (b, db) \<leftarrow> GetBalance db assetID addr; b \<leftarrow> b; Some (b < v, db) }"

section \<open>Notations and assets\<close>

definition handleGenNotation :: "CallContext \<Rightarrow> FSNCallParam \<Rightarrow> StateDB \<Rightarrow> (fsn_error option \<times> StateDB) option" where
  "handleGenNotation x p db = do {
     (r, db) \<leftarrow> GenNotation (X_codecs x) db (X_from x);
     case r of
       Some e \<Rightarrow> failErr x db GenNotationFunc (LB_FSNCall p) (E_state e)
     | None \<Rightarrow> let (n, db) = GetNotation db (X_from x) in
         Some (None, addLog x db GenNotationFunc (LB_FSNCall p) [(''notation'', LF_Uint n)]) }"

definition handleGenAsset :: "CallContext \<Rightarrow> FSNCallParam \<Rightarrow> StateDB \<Rightarrow> (fsn_error option \<times> StateDB) option" where
  "handleGenAsset x p db = (let g = decGenAsset (X_params x) (Data p) in
     case GenAsset_Check g of
       Some e \<Rightarrow> failErr x db GenAssetFunc (LB_GenAsset g) (E_check e)
     | None \<Rightarrow> do {
         asset \<leftarrow> ToAsset g;
         let asset = asset\<lparr>A_ID := X_txHash x, A_Owner := X_from x\<rparr>;
         (r, db) \<leftarrow> GenAsset (X_codecs x) db asset;
         case r of
           Some e \<Rightarrow> failWith x db GenAssetFunc (LB_GenAsset g) (LF_String ''unable to gen asset'') (E_state e)
         | None \<Rightarrow> do {
             db \<leftarrow> AddBalance db (X_from x) (A_ID asset) (A_Total asset);
             Some (None, addLog x db GenAssetFunc (LB_GenAsset g) [(''AssetID'', LF_Hash (A_ID asset))]) } })"

definition handleSendAsset :: "CallContext \<Rightarrow> FSNCallParam \<Rightarrow> StateDB \<Rightarrow> (fsn_error option \<times> StateDB) option" where
  "handleSendAsset x p db = (let s = decSendAsset (X_params x) (Data p) in
     case SendAsset_Check s of
       Some e \<Rightarrow> failErr x db SendAssetFunc (LB_SendAsset s) (E_check e)
     | None \<Rightarrow> do {
         v \<leftarrow> SA_Value s;
         (below, db) \<leftarrow> balanceBelow db (SA_AssetID s) (X_from x) v;
         if below then failErr x db SendAssetFunc (LB_SendAsset s) NotEnoughAsset
         else do {
           db \<leftarrow> SubBalance db (X_from x) (SA_AssetID s) v;
           db \<leftarrow> AddBalance db (SA_To s) (SA_AssetID s) v;
           Some (None, addLog x db SendAssetFunc (LB_SendAsset s) [(''AssetID'', LF_Hash (SA_AssetID s))]) } })"

definition handleAssetValueChange :: "CallContext \<Rightarrow> FSNCallParam \<Rightarrow> StateDB \<Rightarrow> (fsn_error option \<times> StateDB) option" where
  "handleAssetValueChange x p db = (let a = decAssetValueChange (X_params x) (Data p); f = AssetValueChangeFunc; base = LB_AssetValueChange a in
     case AssetValueChangeEx_Check a of
       Some e \<Rightarrow> failErr x db f base (E_check e)
     | None \<Rightarrow> do {
         v \<leftarrow> AV_Value a;
         (r, db) \<leftarrow> GetAsset (X_codecs x) db (AV_AssetID a);
         case r of
           Inl _ \<Rightarrow> failErr x db f base AssetNotFound
         | Inr asset \<Rightarrow>
             if \<not> A_CanChange asset then failErr x db f base AssetFixed
             else if A_Owner asset \<noteq> X_from x then failErr x db f base NotOwner
             else if A_Owner asset \<noteq> AV_To a \<and> \<not> AV_IsInc a then failErr x db f base DecrementOther
             else if AV_IsInc a then do {
               db \<leftarrow> AddBalance db (AV_To a) (AV_AssetID a) v;
               (e, db) \<leftarrow> UpdateAsset (X_codecs x) db (asset\<lparr>A_Total := A_Total asset + v\<rparr>);
               case e of
                 None \<Rightarrow> Some (None, addLog x db f base [(''AssetID'', LF_Hash (AV_AssetID a))])
               | Some e \<Rightarrow> failWith x db f base (LF_String ''error update asset'') (E_state e) }
             else do {
               (below, db) \<leftarrow> balanceBelow db (AV_AssetID a) (AV_To a) v;
               if below then failErr x db f base NotEnoughAsset
               else do {
                 db \<leftarrow> SubBalance db (AV_To a) (AV_AssetID a) v;
                 (e, db) \<leftarrow> UpdateAsset (X_codecs x) db (asset\<lparr>A_Total := A_Total asset - v\<rparr>);
                 case e of
                   None \<Rightarrow> Some (None, addLog x db f base [(''AssetID'', LF_Hash (AV_AssetID a))])
                 | Some e \<Rightarrow> failWith x db f base (LF_String ''error update asset'') (E_state e) } } })"

section \<open>Time locks\<close>

text \<open>The three cases by \<open>Type\<close>; any other value falls out of both switches.\<close>

definition failLock :: "CallContext \<Rightarrow> StateDB \<Rightarrow> TimeLockParam \<Rightarrow> string \<Rightarrow> fsn_error \<Rightarrow> (fsn_error option \<times> StateDB) option" where
  "failLock x db t lockType err =
     Some (Some err, addLog x db TimeLockFunc (LB_TimeLock t) [(''LockType'', LF_String lockType), (''Error'', LF_Error err)])"

definition doneLock :: "CallContext \<Rightarrow> StateDB \<Rightarrow> TimeLockParam \<Rightarrow> string \<Rightarrow> (fsn_error option \<times> StateDB) option" where
  "doneLock x db t lockType =
     Some (None, addLog x db TimeLockFunc (LB_TimeLock t) [(''LockType'', LF_String lockType), (''AssetID'', LF_Hash (TL_AssetID t))])"

definition assetToTimeLock :: "CallContext \<Rightarrow> TimeLockParam \<Rightarrow> int \<Rightarrow> TimeLock \<Rightarrow> StateDB \<Rightarrow> (fsn_error option \<times> StateDB) option" where
  "assetToTimeLock x t v needValue db = (let from = X_from x; ts = X_timestamp x; k = TL_AssetID t in
     do {
       (below, db) \<leftarrow> balanceBelow db k from v;
       if below then failLock x db t ''AssetToTimeLock'' NotEnoughAsset
       else do {
         db \<leftarrow> SubBalance db from k v;
         let totalValue = oneItem ts TimeLockForever (copyMagnitude v);
         db \<leftarrow> (if from = TL_To t then AddTimeLockBalance (X_debug x) db (TL_To t) k totalValue ts
                else do {
                  surplusValue \<leftarrow> Sub (X_debug x) totalValue (Some needValue);
                  db \<leftarrow> (if \<not> IsEmpty surplusValue then AddTimeLockBalance (X_debug x) db from k surplusValue ts else Some db);
                  AddTimeLockBalance (X_debug x) db (TL_To t) k needValue ts });
         doneLock x db t ''AssetToTimeLock'' } })"

definition timeLockToTimeLock :: "CallContext \<Rightarrow> TimeLockParam \<Rightarrow> TimeLock \<Rightarrow> StateDB \<Rightarrow> (fsn_error option \<times> StateDB) option" where
  "timeLockToTimeLock x t needValue db = do {
     (c, db) \<leftarrow> lockCmp db (TL_AssetID t) (X_from x) needValue;
     if c < 0 then failLock x db t ''TimeLockToTimeLock'' NotEnoughTimeLock
     else do {
       db \<leftarrow> SubTimeLockBalance (X_debug x) db (X_from x) (TL_AssetID t) needValue (X_timestamp x);
       db \<leftarrow> AddTimeLockBalance (X_debug x) db (TL_To t) (TL_AssetID t) needValue (X_timestamp x);
       doneLock x db t ''TimeLockToTimeLock'' } }"

definition timeLockToAsset :: "CallContext \<Rightarrow> TimeLockParam \<Rightarrow> int \<Rightarrow> TimeLock \<Rightarrow> StateDB \<Rightarrow> (fsn_error option \<times> StateDB) option" where
  "timeLockToAsset x t v needValue db = do {
     (c, db) \<leftarrow> lockCmp db (TL_AssetID t) (X_from x) needValue;
     if c < 0 then failLock x db t ''TimeLockToAsset'' NotEnoughTimeLock
     else do {
       db \<leftarrow> SubTimeLockBalance (X_debug x) db (X_from x) (TL_AssetID t) needValue (X_timestamp x);
       db \<leftarrow> AddBalance db (TL_To t) (TL_AssetID t) v;
       doneLock x db t ''TimeLockToAsset'' } }"

definition handleTimeLock :: "CallContext \<Rightarrow> FSNCallParam \<Rightarrow> StateDB \<Rightarrow> (fsn_error option \<times> StateDB) option" where
  "handleTimeLock x p db = (let t = decTimeLock (X_params x) (Data p) in
     if TL_Type t = TimeLockToAsset \<and> TL_StartTime t > X_now x then failLock x db t ''TimeLockToAsset'' StartAfterNow
     else let t = (if TL_Type t = TimeLockToAsset then t\<lparr>TL_EndTime := TimeLockForever\<rparr> else t) in
       case TimeLock_Check t (X_timestamp x) of
         Some e \<Rightarrow> failErr x db TimeLockFunc (LB_TimeLock t) (E_check e)
       | None \<Rightarrow> do {
           v \<leftarrow> TL_Value t;
           let needValue = oneItem (MaxUint64 (TL_StartTime t) (X_timestamp x)) (TL_EndTime t) (copyMagnitude v);
           case IsValid needValue of
             Some e \<Rightarrow> failErr x db TimeLockFunc (LB_TimeLock t) (E_timeLock e)
           | None \<Rightarrow>
               if TL_Type t = AssetToTimeLock then assetToTimeLock x t v needValue db
               else if TL_Type t = TimeLockToTimeLock then timeLockToTimeLock x t needValue db
               else if TL_Type t = TimeLockToAsset then timeLockToAsset x t v needValue db
               else Some (Some Unsupported, db) })"

section \<open>Tickets\<close>

definition buyTicket_pay :: "CallContext \<Rightarrow> TimeLock \<Rightarrow> int \<Rightarrow> StateDB \<Rightarrow> (bool \<times> StateDB) option" where
  "buyTicket_pay x needValue v db = (let from = X_from x; ts = X_timestamp x in
     do {
       (c, db) \<leftarrow> lockCmp db SystemAssetID from needValue;
       (below, db) \<leftarrow> (if c < 0 then balanceBelow db SystemAssetID from v else Some (False, db));
       if below then Some (False, db)
       else if c < 0 then do {
         db \<leftarrow> SubBalance db from SystemAssetID v;
         surplusValue \<leftarrow> Sub (X_debug x) (oneItem ts TimeLockForever v) (Some needValue);
         db \<leftarrow> (if \<not> IsEmpty surplusValue then AddTimeLockBalance (X_debug x) db from SystemAssetID surplusValue ts else Some db);
         Some (True, db) }
       else do {
         db \<leftarrow> SubTimeLockBalance (X_debug x) db from SystemAssetID needValue ts;
         Some (True, db) } })"

definition handleBuyTicket :: "CallContext \<Rightarrow> FSNCallParam \<Rightarrow> StateDB \<Rightarrow> (fsn_error option \<times> StateDB) option" where
  "handleBuyTicket x p db = (let
     from = X_from x; c = X_codecs x; f = BuyTicketFunc; base = LB_Bytes (Data p);
     h = of_int (X_height x) :: uint64;
     i = Keccak256Hash (env db) (address_bytes from @ hash_bytes (X_getHash x (h - 1)));
     (exist, db) = IsTicketExist c db i in
     if exist then failWith x db f base (LF_String ''Ticket already exist'') TicketExists
     else let b = decBuyTicket (X_params x) (Data p) in
       case BuyTicket_Check b 0 0 of
         Some e \<Rightarrow> failErr x db f base (E_check e)
       | None \<Rightarrow> let
           v = TicketPrice (X_height x);
           needValue = oneItem (MaxUint64 (BT_Start b) (X_timestamp x)) (BT_End b) v in
         (case IsValid needValue of
           Some e \<Rightarrow> failErr x db f base (E_timeLock e)
         | None \<Rightarrow> do {
             let ticket = \<lparr>T_Owner = from, T_Body = \<lparr>ID = i, TB_Height = h, TB_StartTime = BT_Start b, ExpireTime = BT_End b\<rparr>\<rparr>;
             (paid, db) \<leftarrow> buyTicket_pay x needValue v db;
             if \<not> paid then failErr x db f base NotEnoughTimeLockOrAsset
             else let (e, db) = StateDB_AddTicket c db ticket in
               case e of
                 Some e \<Rightarrow> failWith x db f base (LF_String ''unable to add ticket'') (E_state e)
               | None \<Rightarrow> Some (None, addLog x db f base [(''TicketID'', LF_Hash i), (''TicketOwner'', LF_Address from)]) }))"

section \<open>Swaps\<close>

definition useAsset :: "uint64 \<Rightarrow> uint64 \<Rightarrow> bool" where
  "useAsset start ende \<longleftrightarrow> start = TimeLockNow \<and> ende = TimeLockForever"

text \<open>A nil number in a record is written as zero; the checks leave none here.\<close>

definition bigOr0 :: "int option \<Rightarrow> int" where
  "bigOr0 v = (case v of Some i \<Rightarrow> i | None \<Rightarrow> 0)"

text \<open>The terms of a new swap: the adjusted parameter, whether assets are used, the total and the time lock needed.\<close>

definition MakeSwap_terms :: "CallContext \<Rightarrow> MakeSwapParam \<Rightarrow> uint64 \<Rightarrow>
    (fsn_error + MakeSwapParam \<times> bool \<times> int \<times> TimeLock option) option" where
  "MakeSwap_terms x m notation' =
    (if MS_FromAssetID m = OwnerUSANAssetID then
       (if notation' = 0 then Some (Inl NoNotation)
        else let m = m\<lparr>MS_MinFromAmount := Some 1, MS_SwapSize := Some 1, MS_FromStartTime := TimeLockNow, MS_FromEndTime := TimeLockForever\<rparr> in
          do { total' \<leftarrow> bigMul (MS_MinFromAmount m) (MS_SwapSize m); Some (Inr (m, True, total', None)) })
     else do {
       total' \<leftarrow> bigMul (MS_MinFromAmount m) (MS_SwapSize m);
       let start = MS_FromStartTime m;
       let ende = MS_FromEndTime m;
       if useAsset start ende then Some (Inr (m, True, total', None))
       else let needValue = oneItem (MaxUint64 start (X_timestamp x)) ende total' in
         case IsValid needValue of
           Some e \<Rightarrow> Some (Inl (E_timeLock e))
         | None \<Rightarrow> Some (Inr (m, False, total', Some needValue)) })"

definition MakeSwap_swap :: "CallContext \<Rightarrow> MakeSwapParam \<Rightarrow> uint64 \<Rightarrow> Swap" where
  "MakeSwap_swap x m notation' = \<lparr>S_ID = X_txHash x, S_Owner = X_from x, S_FromAssetID = MS_FromAssetID m,
     S_FromStartTime = MS_FromStartTime m, S_FromEndTime = MS_FromEndTime m, S_MinFromAmount = bigOr0 (MS_MinFromAmount m),
     S_ToAssetID = MS_ToAssetID m, S_ToStartTime = MS_ToStartTime m, S_ToEndTime = MS_ToEndTime m,
     S_MinToAmount = bigOr0 (MS_MinToAmount m), S_SwapSize = bigOr0 (MS_SwapSize m), S_Targes = MS_Targes m,
     S_Time = MS_Time m, S_Description = MS_Description m, S_Notation = notation'\<rparr>"

text \<open>
  Paying for a leg of a swap: the asset must be there, or the time lock, or, unless the legacy call is
  used, the asset out of which the whole time lock is made first. \<open>legacyTxt\<close> and \<open>txt\<close> are the texts of
  the log entries of the two failures.
\<close>

definition fundLock :: "CallContext \<Rightarrow> bool \<Rightarrow> string \<Rightarrow> string \<Rightarrow> Hash \<Rightarrow> int \<Rightarrow> TimeLock \<Rightarrow> StateDB \<Rightarrow>
    ((LogField \<times> fsn_error) option \<times> StateDB) option" where
  "fundLock x legacy legacyTxt txt k total' needValue db = (let from = X_from x; ts = X_timestamp x in do {
     (c, db) \<leftarrow> lockCmp db k from needValue;
     if c < 0 then
       (if legacy then Some (Some (LF_String legacyTxt, NotEnoughTimeLock), db)
        else do {
          (below, db) \<leftarrow> balanceBelow db k from total';
          if below then Some (Some (LF_String txt, NotEnoughTimeLockOrAsset), db)
          else do {
            db \<leftarrow> SubBalance db from k total';
            db \<leftarrow> AddTimeLockBalance (X_debug x) db from k (oneItem ts TimeLockForever total') ts;
            Some (None, db) } })
     else Some (None, db) })"

definition MakeSwap_fund :: "CallContext \<Rightarrow> FSNCallFunc \<Rightarrow> Hash \<Rightarrow> int \<Rightarrow> TimeLock option \<Rightarrow> StateDB \<Rightarrow>
    ((LogField \<times> fsn_error) option \<times> StateDB) option" where
  "MakeSwap_fund x f k total' need db = (case need of
      None \<Rightarrow> do {
        (below, db) \<leftarrow> balanceBelow db k (X_from x) total';
        Some (if below then Some (LF_Error NotEnoughFromAsset, NotEnoughFromAsset) else None, db) }
    | Some needValue \<Rightarrow> fundLock x (f = MakeSwapFunc) ''not enough time lock or asset balance''
        ''not enough time lock or asset balance'' k total' needValue db)"

definition handleMakeSwap :: "CallContext \<Rightarrow> FSNCallFunc \<Rightarrow> FSNCallParam \<Rightarrow> StateDB \<Rightarrow> (fsn_error option \<times> StateDB) option" where
  "handleMakeSwap x f p db = (let
     (notation', db) = GetNotation db (X_from x);
     m = decMakeSwap (X_params x) (Data p); c = X_codecs x in
     do {
       (r, db) \<leftarrow> GetSwap c db (X_txHash x);
       case r of
         Inr _ \<Rightarrow> failErr x db MakeSwapFunc (LB_MakeSwap m) SwapExists
       | Inl _ \<Rightarrow> (case MakeSwap_Check m (X_timestamp x) of
           Some e \<Rightarrow> failErr x db MakeSwapFunc (LB_MakeSwap m) (E_check e)
         | None \<Rightarrow>
             if MS_ToAssetID m = OwnerUSANAssetID then failErr x db MakeSwapFunc (LB_MakeSwap m) SwapUSAN
             else do {
               (ra, db) \<leftarrow> GetAsset c db (MS_ToAssetID m);
               (case ra of
                 Inl _ \<Rightarrow> failErr x db MakeSwapFunc (LB_MakeSwap m) ToAssetNotFound
               | Inr _ \<Rightarrow> do {
                   terms \<leftarrow> MakeSwap_terms x m notation';
                   (case terms of
                     Inl e \<Rightarrow> failErr x db MakeSwapFunc (LB_MakeSwap m) e
                   | Inr (m, byAsset, total', need) \<Rightarrow>
                       let base = LB_MakeSwap m; swap = MakeSwap_swap x m notation'; k = MS_FromAssetID m in
                       if k = OwnerUSANAssetID then do {
                         (e, db) \<leftarrow> AddSwap c db swap;
                         (case e of
                           Some e \<Rightarrow> failWith x db MakeSwapFunc base (LF_String ''System error can't add swap'') (E_state e)
                         | None \<Rightarrow> Some (None, addLog x db MakeSwapFunc base [(''SwapID'', LF_Hash (S_ID swap))])) }
                       else do {
                         (e, db) \<leftarrow> MakeSwap_fund x f k total' need db;
                         (case e of
                           Some (txt, e) \<Rightarrow> failWith x db MakeSwapFunc base txt e
                         | None \<Rightarrow> do {
                             (e, db) \<leftarrow> AddSwap c db swap;
                             (case e of
                               Some e \<Rightarrow> failWith x db MakeSwapFunc base (LF_String ''System error can't add swap'') (E_state e)
                             | None \<Rightarrow> do {
                                 db \<leftarrow> (case need of
                                     None \<Rightarrow> SubBalance db (X_from x) k total'
                                   | Some needValue \<Rightarrow> SubTimeLockBalance (X_debug x) db (X_from x) k needValue (X_timestamp x));
                                 Some (None, addLog x db MakeSwapFunc base [(''SwapID'', LF_Hash (S_ID swap))]) }) }) }) }) }) })"

text \<open>Paying out one leg: as an asset, or as the part of the time lock that is not over yet.\<close>

definition payOut :: "CallContext \<Rightarrow> Address \<Rightarrow> Hash \<Rightarrow> uint64 \<Rightarrow> uint64 \<Rightarrow> int \<Rightarrow> StateDB \<Rightarrow> StateDB option" where
  "payOut x addr k start ende total' db =
    (if useAsset start ende then AddBalance db addr k total'
     else let needValue = oneItem (MaxUint64 start (X_timestamp x)) ende total' in
       if IsValid needValue = None then AddTimeLockBalance (X_debug x) db addr k needValue (X_timestamp x) else Some db)"

definition handleRecallSwap :: "CallContext \<Rightarrow> FSNCallParam \<Rightarrow> StateDB \<Rightarrow> (fsn_error option \<times> StateDB) option" where
  "handleRecallSwap x p db = (let r = decRecallSwap (X_params x) (Data p); f = RecallSwapFunc; base = LB_RecallSwap r; c = X_codecs x in
     do {
       (rs, db) \<leftarrow> GetSwap c db (RS_SwapID r);
       (case rs of
         Inl _ \<Rightarrow> failErr x db f base SwapNotFound
       | Inr swap \<Rightarrow>
           if S_Owner swap \<noteq> X_from x then failErr x db f base NotSwapOwner
           else do {
             (e, db) \<leftarrow> RemoveSwap c db (S_ID swap);
             (case e of
               Some e \<Rightarrow> failWith x db f base (LF_String ''Unable to remove swap'') (E_state e)
             | None \<Rightarrow> do {
                 db \<leftarrow> (if S_FromAssetID swap \<noteq> OwnerUSANAssetID then
                     payOut x (X_from x) (S_FromAssetID swap) (S_FromStartTime swap) (S_FromEndTime swap) (S_MinFromAmount swap * S_SwapSize swap) db
                   else Some db);
                 Some (None, addLog x db f base [(''SwapID'', LF_Hash (S_ID swap))]) }) }) })"

text \<open>Whether the taker can pay the \<open>to\<close> leg, of which a time lock that is over costs nothing.\<close>

definition TakeSwap_fund :: "CallContext \<Rightarrow> FSNCallFunc \<Rightarrow> Swap \<Rightarrow> int \<Rightarrow> TimeLock \<Rightarrow> StateDB \<Rightarrow> ((LogField \<times> fsn_error) option \<times> StateDB) option" where
  "TakeSwap_fund x f swap toTotal toNeed db =
    (if useAsset (S_ToStartTime swap) (S_ToEndTime swap) then do {
       (below, db) \<leftarrow> balanceBelow db (S_ToAssetID swap) (X_from x) toTotal;
       Some (if below then Some (LF_Error NotEnoughFromAsset, NotEnoughFromAsset) else None, db) }
     else if IsValid toNeed = None then
       fundLock x (f = TakeSwapFunc) ''not enough time lock balance'' ''not enough time lock balance''
         (S_ToAssetID swap) toTotal toNeed db
     else do { (available, db) \<leftarrow> GetTimeLockBalance db (S_ToAssetID swap) (X_from x); Some (None, db) })"

definition handleTakeSwap :: "CallContext \<Rightarrow> FSNCallFunc \<Rightarrow> FSNCallParam \<Rightarrow> StateDB \<Rightarrow> (fsn_error option \<times> StateDB) option" where
  "handleTakeSwap x f p db = (let t = decTakeSwap (X_params x) (Data p); base = LB_TakeSwap t; c = X_codecs x; from = X_from x; ts = X_timestamp x in
     do {
       (rs, db) \<leftarrow> GetSwap c db (TS_SwapID t);
       (case rs of
         Inl _ \<Rightarrow> failWith x db TakeSwapFunc base (LF_String ''swap not found'') SwapNotFound
       | Inr swap \<Rightarrow> (case TakeSwap_Check t swap ts of
           Some e \<Rightarrow> failErr x db TakeSwapFunc base (E_check e)
         | None \<Rightarrow> do {
             size' \<leftarrow> TS_Size t;
             let usanSwap = (S_FromAssetID swap = OwnerUSANAssetID);
             let (notation', db) = (if usanSwap then GetNotation db (S_Owner swap) else (0, db));
             if usanSwap \<and> (notation' = 0 \<or> notation' \<noteq> S_Notation swap) then failErr x db TakeSwapFunc base NotationInvalid
             else do {
               let fromTotal = S_MinFromAmount swap * size';
               let toTotal = S_MinToAmount swap * size';
               let toUseAsset = useAsset (S_ToStartTime swap) (S_ToEndTime swap);
               let toNeed = oneItem (MaxUint64 (S_ToStartTime swap) ts) (S_ToEndTime swap) toTotal;
               (e, db) \<leftarrow> TakeSwap_fund x f swap toTotal toNeed db;
               (case e of
                 Some (txt, e) \<Rightarrow> failWith x db TakeSwapFunc base txt e
               | None \<Rightarrow> do {
                   let deleted' = (S_SwapSize swap = size');
                   (e, db) \<leftarrow> (if deleted' then RemoveSwap c db (S_ID swap)
                              else UpdateSwap c db (swap\<lparr>S_SwapSize := S_SwapSize swap - size'\<rparr>));
                   (case e of
                     Some e \<Rightarrow> failWith x db TakeSwapFunc base (LF_String ''System Error'') (E_state e)
                   | None \<Rightarrow> do {
                       db \<leftarrow> (if toUseAsset then do {
                           db \<leftarrow> AddBalance db (S_Owner swap) (S_ToAssetID swap) toTotal;
                           SubBalance db from (S_ToAssetID swap) toTotal }
                         else if IsValid toNeed = None then do {
                           db \<leftarrow> AddTimeLockBalance (X_debug x) db (S_Owner swap) (S_ToAssetID swap) toNeed ts;
                           SubTimeLockBalance (X_debug x) db from (S_ToAssetID swap) toNeed ts }
                         else Some db);
                       (e, db) \<leftarrow> (if usanSwap then TransferNotation c db (S_Notation swap) (S_Owner swap) from
                         else do {
                           db \<leftarrow> payOut x from (S_FromAssetID swap) (S_FromStartTime swap) (S_FromEndTime swap) fromTotal db;
                           Some (None, db) });
                       (case e of
                         Some e \<Rightarrow> failWith x db TakeSwapFunc base (LF_String ''System Error'') (E_state e)
                       | None \<Rightarrow> Some (None, addLog x db TakeSwapFunc base
                           [(''SwapID'', LF_Hash (S_ID swap)), (''Deleted'', LF_String (if deleted' then ''true'' else ''false''))])) }) }) } })) })"

section \<open>Multi-swaps\<close>

text \<open>
  The slices \<open>useAsset\<close>, \<open>total\<close> and \<open>needValue\<close> of the handlers, index by index: \<open>leg_need\<close> is nil for a
  leg that uses the asset itself.
\<close>

record Leg =
  leg_asset :: Hash
  leg_total :: int
  leg_need :: "TimeLock option"

definition newLeg :: "CallContext \<Rightarrow> Hash \<Rightarrow> uint64 \<Rightarrow> uint64 \<Rightarrow> int \<Rightarrow> Leg" where
  "newLeg x k start ende total' = \<lparr>leg_asset = k, leg_total = total',
     leg_need = (if useAsset start ende then None else Some (oneItem (MaxUint64 start (X_timestamp x)) ende total'))\<rparr>"

definition legValid :: "Leg \<Rightarrow> bool" where
  "legValid g = (case leg_need g of None \<Rightarrow> True | Some need \<Rightarrow> IsValid need = None)"

text \<open>Recalling pays out every \<open>from\<close> leg.\<close>

fun RecallMulti_loop :: "CallContext \<Rightarrow> MultiSwap \<Rightarrow> nat list \<Rightarrow> StateDB \<Rightarrow> StateDB option" where
  "RecallMulti_loop x swap [] db = Some db"
| "RecallMulti_loop x swap (i # is) db = do {
     amount \<leftarrow> goIndex (M_MinFromAmount swap) i;
     start \<leftarrow> goIndex (M_FromStartTime swap) i;
     ende \<leftarrow> goIndex (M_FromEndTime swap) i;
     k \<leftarrow> goIndex (M_FromAssetID swap) i;
     db \<leftarrow> payOut x (X_from x) k start ende (amount * M_SwapSize swap) db;
     RecallMulti_loop x swap is db }"

definition handleRecallMultiSwap :: "CallContext \<Rightarrow> FSNCallParam \<Rightarrow> StateDB \<Rightarrow> (fsn_error option \<times> StateDB) option" where
  "handleRecallMultiSwap x p db = (let r = decRecallSwap (X_params x) (Data p); f = RecallMultiSwapFunc; base = LB_RecallSwap r; c = X_codecs x in
     do {
       (rs, db) \<leftarrow> GetMultiSwap c db (RS_SwapID r);
       (case rs of
         Inl _ \<Rightarrow> failErr x db f base SwapNotFound
       | Inr swap \<Rightarrow>
           if M_Owner swap \<noteq> X_from x then failErr x db f base NotSwapOwner
           else do {
             (e, db) \<leftarrow> RemoveMultiSwap c db (M_ID swap);
             (case e of
               Some e \<Rightarrow> failWith x db f base (LF_String ''Unable to remove swap'') (E_state e)
             | None \<Rightarrow> do {
                 db \<leftarrow> RecallMulti_loop x swap [0..<length (M_FromAssetID swap)] db;
                 Some (None, addLog x db f base [(''SwapID'', LF_Hash (M_ID swap))]) }) }) })"

subsection \<open>Making\<close>

fun MakeMulti_toAssets :: "Codecs \<Rightarrow> Hash list \<Rightarrow> StateDB \<Rightarrow> (fsn_error option \<times> StateDB) option" where
  "MakeMulti_toAssets c [] db = Some (None, db)"
| "MakeMulti_toAssets c (k # ks) db =
    (if k = OwnerUSANAssetID then Some (Some SwapUSAN, db)
     else do {
       (r, db) \<leftarrow> GetAsset c db k;
       (case r of Inl _ \<Rightarrow> Some (Some ToAssetNotFound, db) | Inr _ \<Rightarrow> MakeMulti_toAssets c ks db) })"

text \<open>The balances and time locks of the sender in the assets of a swap, copied when first needed.\<close>

definition snapshotAsset :: "CallContext \<Rightarrow> Hash \<Rightarrow> StateDB \<Rightarrow> (Hash \<rightharpoonup> int) \<Rightarrow> (Hash \<rightharpoonup> TimeLock) \<Rightarrow>
    (StateDB \<times> (Hash \<rightharpoonup> int) \<times> (Hash \<rightharpoonup> TimeLock)) option" where
  "snapshotAsset x k db bals locks = (if bals k \<noteq> None then Some (db, bals, locks)
     else do {
       (b, db) \<leftarrow> GetBalance db k (X_from x);
       (l, db) \<leftarrow> GetTimeLockBalance db k (X_from x);
       b \<leftarrow> b;
       l \<leftarrow> l;
       Some (db, bals(k \<mapsto> b), locks(k \<mapsto> TimeLock_Clone l)) })"

fun MakeMulti_legs :: "CallContext \<Rightarrow> MakeMultiSwapParam \<Rightarrow> nat list \<Rightarrow> StateDB \<Rightarrow> (Hash \<rightharpoonup> int) \<Rightarrow> (Hash \<rightharpoonup> TimeLock) \<Rightarrow>
    ((fsn_error + Leg list \<times> (Hash \<rightharpoonup> int) \<times> (Hash \<rightharpoonup> TimeLock)) \<times> StateDB) option" where
  "MakeMulti_legs x m [] db bals locks = Some (Inr ([], bals, locks), db)"
| "MakeMulti_legs x m (i # is) db bals locks = do {
     k \<leftarrow> goIndex (MM_FromAssetID m) i;
     if k = OwnerUSANAssetID then Some (Inl SwapUSAN, db)
     else do {
       (db, bals, locks) \<leftarrow> snapshotAsset x k db bals locks;
       amount \<leftarrow> goIndex (MM_MinFromAmount m) i;
       total' \<leftarrow> bigMul amount (MM_SwapSize m);
       start \<leftarrow> goIndex (MM_FromStartTime m) i;
       ende \<leftarrow> goIndex (MM_FromEndTime m) i;
       let leg = newLeg x k start ende total';
       (case (case leg_need leg of None \<Rightarrow> None | Some need \<Rightarrow> IsValid need) of
         Some e \<Rightarrow> Some (Inl (E_timeLock e), db)
       | None \<Rightarrow> do {
           (r, db) \<leftarrow> MakeMulti_legs x m is db bals locks;
           Some (map_sum id (\<lambda>(legs, bl). (leg # legs, bl)) r, db) }) } }"

definition MakeMulti_swap :: "CallContext \<Rightarrow> MakeMultiSwapParam \<Rightarrow> uint64 \<Rightarrow> MultiSwap" where
  "MakeMulti_swap x m notation' = \<lparr>M_ID = X_txHash x, M_Owner = X_from x, M_FromAssetID = MM_FromAssetID m,
     M_FromStartTime = MM_FromStartTime m, M_FromEndTime = MM_FromEndTime m, M_MinFromAmount = map bigOr0 (MM_MinFromAmount m),
     M_ToAssetID = MM_ToAssetID m, M_ToStartTime = MM_ToStartTime m, M_ToEndTime = MM_ToEndTime m,
     M_MinToAmount = map bigOr0 (MM_MinToAmount m), M_SwapSize = bigOr0 (MM_SwapSize m), M_Targes = MM_Targes m,
     M_Time = MM_Time m, M_Description = MM_Description m, M_Notation = notation'\<rparr>"

text \<open>Checking a time-locked leg against the copies, which are reduced by what the leg takes.\<close>

definition checkLock :: "CallContext \<Rightarrow> int \<Rightarrow> TimeLock \<Rightarrow> int \<Rightarrow> TimeLock \<Rightarrow> (fsn_error + int \<times> TimeLock) option" where
  "checkLock x total' need b l = do {
     c \<leftarrow> Cmp l (Some need);
     if c < 0 \<and> b < total' then Some (Inl NotEnoughTimeLockOrAsset)
     else do {
       (b, l) \<leftarrow> (if c < 0 then do {
           r \<leftarrow> Add (X_debug x) (Some l) (Some (oneItem (X_timestamp x) TimeLockForever total'));
           Some (b - total', case r of Some l' \<Rightarrow> l' | None \<Rightarrow> l) }
         else Some (b, l));
       l \<leftarrow> Sub (X_debug x) l (Some need);
       Some (Inr (b, l)) } }"

fun MakeMulti_check :: "CallContext \<Rightarrow> Leg list \<Rightarrow> (Hash \<rightharpoonup> int) \<Rightarrow> (Hash \<rightharpoonup> TimeLock) \<Rightarrow> fsn_error option option" where
  "MakeMulti_check x [] bals locks = Some None"
| "MakeMulti_check x (g # gs) bals locks = do {
     b \<leftarrow> bals (leg_asset g);
     l \<leftarrow> locks (leg_asset g);
     (case leg_need g of
       None \<Rightarrow>
         if b < leg_total g then Some (Some NotEnoughFromAsset)
         else MakeMulti_check x gs (bals(leg_asset g \<mapsto> b - leg_total g)) locks
     | Some need \<Rightarrow> do {
         r \<leftarrow> checkLock x (leg_total g) need b l;
         (case r of
           Inl e \<Rightarrow> Some (Some e)
         | Inr (b, l) \<Rightarrow> MakeMulti_check x gs (bals(leg_asset g \<mapsto> b)) (locks(leg_asset g \<mapsto> l))) }) }"

text \<open>Taking one leg from the sender: the asset, or the time lock, made out of the asset where it falls short.\<close>

definition deductLeg :: "CallContext \<Rightarrow> Leg \<Rightarrow> StateDB \<Rightarrow> (fsn_error option \<times> StateDB) option" where
  "deductLeg x g db = (case leg_need g of
      None \<Rightarrow> do {
        (below, db) \<leftarrow> balanceBelow db (leg_asset g) (X_from x) (leg_total g);
        if below then Some (Some NotEnoughFromAsset, db)
        else do { db \<leftarrow> SubBalance db (X_from x) (leg_asset g) (leg_total g); Some (None, db) } }
    | Some need \<Rightarrow> do {
        (e, db) \<leftarrow> fundLock x False [] [] (leg_asset g) (leg_total g) need db;
        (case e of
          Some (_, e) \<Rightarrow> Some (Some e, db)
        | None \<Rightarrow> do {
            db \<leftarrow> SubTimeLockBalance (X_debug x) db (X_from x) (leg_asset g) need (X_timestamp x);
            Some (None, db) }) })"

fun MakeMulti_deduct :: "CallContext \<Rightarrow> Leg list \<Rightarrow> StateDB \<Rightarrow> (fsn_error option \<times> StateDB) option" where
  "MakeMulti_deduct x [] db = Some (None, db)"
| "MakeMulti_deduct x (g # gs) db = do {
     (e, db) \<leftarrow> deductLeg x g db;
     (case e of Some e \<Rightarrow> Some (Some e, db) | None \<Rightarrow> MakeMulti_deduct x gs db) }"

definition handleMakeMultiSwap :: "CallContext \<Rightarrow> FSNCallParam \<Rightarrow> StateDB \<Rightarrow> (fsn_error option \<times> StateDB) option" where
  "handleMakeMultiSwap x p db = (let
     (notation', db) = GetNotation db (X_from x);
     m = decMakeMultiSwap (X_params x) (Data p); c = X_codecs x; f = MakeMultiSwapFunc; base = LB_MakeMultiSwap m in
     do {
       (r, db) \<leftarrow> GetSwap c db (X_txHash x);
       (case r of
         Inr _ \<Rightarrow> failErr x db f base SwapExists
       | Inl _ \<Rightarrow> (case MakeMultiSwap_Check m (X_timestamp x) of
           Some e \<Rightarrow> failErr x db f base (E_check e)
         | None \<Rightarrow> do {
             (e, db) \<leftarrow> MakeMulti_toAssets c (MM_ToAssetID m) db;
             (case e of
               Some e \<Rightarrow> failErr x db f base e
             | None \<Rightarrow> do {
                 (r, db) \<leftarrow> MakeMulti_legs x m [0..<length (MM_FromAssetID m)] db Map.empty Map.empty;
                 (case r of
                   Inl e \<Rightarrow> failErr x db f base e
                 | Inr (legs, bals, locks) \<Rightarrow> do {
                     e \<leftarrow> MakeMulti_check x legs bals locks;
                     (case e of
                       Some e \<Rightarrow> failErr x db f base e
                     | None \<Rightarrow> do {
                         (e, db) \<leftarrow> MakeMulti_deduct x legs db;
                         (case e of
                           Some e \<Rightarrow> failErr x db f base e
                         | None \<Rightarrow> do {
                             (e, db) \<leftarrow> AddMultiSwap c db (MakeMulti_swap x m notation');
                             (case e of
                               Some e \<Rightarrow> failWith x db f base (LF_String ''System error can't add swap'') (E_state e)
                             | None \<Rightarrow> Some (None, addLog x db f base [(''SwapID'', LF_Hash (X_txHash x))])) }) }) }) }) })) })"

subsection \<open>Taking\<close>

fun TakeMulti_from :: "CallContext \<Rightarrow> MultiSwap \<Rightarrow> int \<Rightarrow> nat list \<Rightarrow> Leg list option" where
  "TakeMulti_from x swap size' [] = Some []"
| "TakeMulti_from x swap size' (i # is) = do {
     amount \<leftarrow> goIndex (M_MinFromAmount swap) i;
     start \<leftarrow> goIndex (M_FromStartTime swap) i;
     ende \<leftarrow> goIndex (M_FromEndTime swap) i;
     k \<leftarrow> goIndex (M_FromAssetID swap) i;
     legs \<leftarrow> TakeMulti_from x swap size' is;
     Some (newLeg x k start ende (amount * size') # legs) }"

text \<open>
  The \<open>to\<close> legs. The slice \<open>toNeedValue\<close> is made with \<open>lnFrom\<close> elements: storing the time lock of a leg
  with a larger index panics.
\<close>

fun TakeMulti_to :: "CallContext \<Rightarrow> MultiSwap \<Rightarrow> int \<Rightarrow> nat list \<Rightarrow> StateDB \<Rightarrow> (Hash \<rightharpoonup> int) \<Rightarrow> (Hash \<rightharpoonup> TimeLock) \<Rightarrow>
    (Leg list \<times> (Hash \<rightharpoonup> int) \<times> (Hash \<rightharpoonup> TimeLock) \<times> StateDB) option" where
  "TakeMulti_to x swap size' [] db bals locks = Some ([], bals, locks, db)"
| "TakeMulti_to x swap size' (i # is) db bals locks = do {
     k \<leftarrow> goIndex (M_ToAssetID swap) i;
     (db, bals, locks) \<leftarrow> snapshotAsset x k db bals locks;
     amount \<leftarrow> goIndex (M_MinToAmount swap) i;
     start \<leftarrow> goIndex (M_ToStartTime swap) i;
     ende \<leftarrow> goIndex (M_ToEndTime swap) i;
     let leg = newLeg x k start ende (amount * size');
     if leg_need leg \<noteq> None \<and> i \<ge> length (M_FromAssetID swap) then None
     else do {
       (legs, bals, locks, db) \<leftarrow> TakeMulti_to x swap size' is db bals locks;
       Some (leg # legs, bals, locks, db) } }"

fun TakeMulti_check :: "CallContext \<Rightarrow> Leg list \<Rightarrow> (Hash \<rightharpoonup> int) \<Rightarrow> (Hash \<rightharpoonup> TimeLock) \<Rightarrow> fsn_error option option" where
  "TakeMulti_check x [] bals locks = Some None"
| "TakeMulti_check x (g # gs) bals locks = do {
     b \<leftarrow> bals (leg_asset g);
     l \<leftarrow> locks (leg_asset g);
     (case leg_need g of
       None \<Rightarrow>
         if b < leg_total g then Some (Some NotEnoughFromAsset)
         else TakeMulti_check x gs (bals(leg_asset g \<mapsto> b - leg_total g)) locks
     | Some need \<Rightarrow>
         if IsValid need \<noteq> None then TakeMulti_check x gs bals locks
         else do {
           r \<leftarrow> checkLock x (leg_total g) need b l;
           (case r of
             Inl e \<Rightarrow> Some (Some e)
           | Inr (b, l) \<Rightarrow> TakeMulti_check x gs (bals(leg_asset g \<mapsto> b)) (locks(leg_asset g \<mapsto> l))) }) }"

fun TakeMulti_deduct :: "CallContext \<Rightarrow> Leg list \<Rightarrow> StateDB \<Rightarrow> (fsn_error option \<times> StateDB) option" where
  "TakeMulti_deduct x [] db = Some (None, db)"
| "TakeMulti_deduct x (g # gs) db =
    (if \<not> legValid g then TakeMulti_deduct x gs db
     else do {
       (e, db) \<leftarrow> deductLeg x g db;
       (case e of Some e \<Rightarrow> Some (Some e, db) | None \<Rightarrow> TakeMulti_deduct x gs db) })"

definition creditLeg :: "CallContext \<Rightarrow> Address \<Rightarrow> Leg \<Rightarrow> StateDB \<Rightarrow> StateDB option" where
  "creditLeg x addr g db = (case leg_need g of
      None \<Rightarrow> AddBalance db addr (leg_asset g) (leg_total g)
    | Some need \<Rightarrow> if IsValid need = None then AddTimeLockBalance (X_debug x) db addr (leg_asset g) need (X_timestamp x) else Some db)"

fun creditLegs :: "CallContext \<Rightarrow> Address \<Rightarrow> Leg list \<Rightarrow> StateDB \<Rightarrow> StateDB option" where
  "creditLegs x addr [] db = Some db"
| "creditLegs x addr (g # gs) db = do { db \<leftarrow> creditLeg x addr g db; creditLegs x addr gs db }"

definition handleTakeMultiSwap :: "CallContext \<Rightarrow> FSNCallParam \<Rightarrow> StateDB \<Rightarrow> (fsn_error option \<times> StateDB) option" where
  "handleTakeMultiSwap x p db = (let t = decTakeSwap (X_params x) (Data p); base = LB_TakeSwap t; c = X_codecs x; f = TakeMultiSwapFunc in
     do {
       (rs, db) \<leftarrow> GetMultiSwap c db (TS_SwapID t);
       (case rs of
         Inl _ \<Rightarrow> failWith x db TakeSwapFunc base (LF_String ''swap not found'') SwapNotFound
       | Inr swap \<Rightarrow> (case TakeMultiSwap_Check t swap (X_timestamp x) of
           Some e \<Rightarrow> failErr x db TakeSwapFunc base (E_check e)
         | None \<Rightarrow> do {
             size' \<leftarrow> TS_Size t;
             fromLegs \<leftarrow> TakeMulti_from x swap size' [0..<length (M_FromAssetID swap)];
             (toLegs, bals, locks, db) \<leftarrow> TakeMulti_to x swap size' [0..<length (M_ToAssetID swap)] db Map.empty Map.empty;
             e \<leftarrow> TakeMulti_check x toLegs bals locks;
             (case e of
               Some e \<Rightarrow> failErr x db f base e
             | None \<Rightarrow> do {
                 (e, db) \<leftarrow> TakeMulti_deduct x toLegs db;
                 (case e of
                   Some e \<Rightarrow> failErr x db f base e
                 | None \<Rightarrow> do {
                     let deleted' = (M_SwapSize swap = size');
                     (e, db) \<leftarrow> (if deleted' then RemoveMultiSwap c db (M_ID swap)
                                else UpdateMultiSwap c db (swap\<lparr>M_SwapSize := M_SwapSize swap - size'\<rparr>));
                     (case e of
                       Some e \<Rightarrow> failWith x db f base (LF_String ''System Error'') (E_state e)
                     | None \<Rightarrow> do {
                         db \<leftarrow> creditLegs x (M_Owner swap) toLegs db;
                         db \<leftarrow> creditLegs x (X_from x) fromLegs db;
                         Some (None, addLog x db f base
                           [(''SwapID'', LF_Hash (M_ID swap)), (''Deleted'', LF_String (if deleted' then ''true'' else ''false''))]) }) }) }) })) })"

section \<open>The dispatcher\<close>

definition handleFsnCall :: "CallContext \<Rightarrow> FSNCallParam \<Rightarrow> StateDB \<Rightarrow> (fsn_error option \<times> StateDB) option" where
  "handleFsnCall x p db = (case funcOfCode (Func p) of
      GenNotationFunc \<Rightarrow> handleGenNotation x p db
    | GenAssetFunc \<Rightarrow> handleGenAsset x p db
    | SendAssetFunc \<Rightarrow> handleSendAsset x p db
    | TimeLockFunc \<Rightarrow> handleTimeLock x p db
    | BuyTicketFunc \<Rightarrow> handleBuyTicket x p db
    | AssetValueChangeFunc \<Rightarrow> handleAssetValueChange x p db
    | MakeSwapFunc \<Rightarrow> handleMakeSwap x MakeSwapFunc p db
    | MakeSwapFuncExt \<Rightarrow> handleMakeSwap x MakeSwapFuncExt p db
    | RecallSwapFunc \<Rightarrow> handleRecallSwap x p db
    | TakeSwapFunc \<Rightarrow> handleTakeSwap x TakeSwapFunc p db
    | TakeSwapFuncExt \<Rightarrow> handleTakeSwap x TakeSwapFuncExt p db
    | RecallMultiSwapFunc \<Rightarrow> handleRecallMultiSwap x p db
    | MakeMultiSwapFunc \<Rightarrow> handleMakeMultiSwap x p db
    | TakeMultiSwapFunc \<Rightarrow> handleTakeMultiSwap x p db
    | _ \<Rightarrow> Some (Some Unsupported, db))"

end
