(* ===== verification/Fsn_Ledger.thy ===== *)
theory Fsn_Ledger
  imports Fsn_Call
begin

text \<open>
  What the accounts hold, and how the steps of the special calls change it. The ledger, that is the
  balance and the time lock of every account in every asset, is well formed when no balance is nil or
  negative and every time lock is valid. A step is described by what it adds to balances and to the
  amounts locked from the time of the block on, and steps are composed by a calculus that covers
  partial and total correctness at once: \<open>runs t m Q\<close> says that \<open>m\<close> establishes \<open>Q\<close> when it
  returns, and that it does return if \<open>t\<close> is set.
\<close>

section \<open>The ledger\<close>

definition bal :: "StateDB \<Rightarrow> Address \<Rightarrow> Hash \<Rightarrow> int option" where
  "bal db a k = a_balance (acc db a) k"

definition lck :: "StateDB \<Rightarrow> Address \<Rightarrow> Hash \<Rightarrow> TimeLock option" where
  "lck db a k = a_lock (acc db a) k"

definition ledger_ok :: "StateDB \<Rightarrow> bool" where
  "ledger_ok db \<longleftrightarrow> db_ok db \<and> (\<forall>a k. \<exists>b \<ge> 0. bal db a k = Some b) \<and> (\<forall>a k. \<exists>l. lck db a k = Some l \<and> items_ok (Items l))"

text \<open>Steps that leave the ledger alone.\<close>

definition keeps :: "StateDB \<Rightarrow> StateDB \<Rightarrow> bool" where
  "keeps db db' \<longleftrightarrow> db_ok db' \<and> env db' = env db \<and> bal db' = bal db \<and> lck db' = lck db"

lemma keeps_refl: "db_ok db \<Longrightarrow> keeps db db"
  by (simp add: keeps_def)

lemma keeps_trans [trans]: "keeps a b \<Longrightarrow> keeps b c \<Longrightarrow> keeps a c"
  by (simp add: keeps_def)

lemma keeps_ledger: "ledger_ok db \<Longrightarrow> keeps db db' \<Longrightarrow> ledger_ok db'"
  by (simp add: keeps_def ledger_ok_def)

lemma ledger_db_ok: "ledger_ok db \<Longrightarrow> db_ok db"
  by (simp add: ledger_ok_def)

lemma becomes_keeps: "becomes db A db' \<Longrightarrow> (\<And>a. a_balance (A a) = a_balance (acc db a)) \<Longrightarrow> (\<And>a. a_lock (A a) = a_lock (acc db a)) \<Longrightarrow> keeps db db'"
  by (simp add: keeps_def becomes_def bal_def lck_def fun_eq_iff same_rest_def)

lemma becomes_same_keeps: "becomes db (acc db) db' \<Longrightarrow> keeps db db'"
  by (rule becomes_keeps) simp_all

lemma AddLog_keeps: "db_ok db \<Longrightarrow> keeps db (AddLog db l)"
proof -
  assume ok: "db_ok db"
  have j: "same_state (journal_append (addLogChange (thash db)) db) db" by (rule journal_append_same)
  then have "live (AddLog db l) = live db" "env (AddLog db l) = env db" "db_ok (AddLog db l)"
    using same_state_view [OF j] ok by (simp_all add: AddLog_def Let_def same_state_def db_ok_def)
  then show ?thesis using acc_cong [of "AddLog db l" db] by (simp add: keeps_def bal_def lck_def fun_eq_iff)
qed

lemma addLog_keeps: "db_ok db \<Longrightarrow> keeps db (addLog x db f b kv)"
  by (simp add: addLog_def AddLog_keeps)

lemma put_struct_funds:
  "a_balance (put_struct e A key d as a) = a_balance (as a)" "a_lock (put_struct e A key d as a) = a_lock (as a)"
  by (simp_all add: put_struct_def)

lemma GetStructData_keeps: "db_ok db \<Longrightarrow> GetStructData db A (Some key) = Some (r, db') \<Longrightarrow> keeps db db'"
  using GetStructData_iff(1) becomes_same_keeps by blast

lemma SetStructData_keeps: "db_ok db \<Longrightarrow> SetStructData db A (Some key) (Some d) = Some db' \<Longrightarrow> keeps db db'"
  using SetStructData_put [of db A key d] by (auto intro!: becomes_keeps simp: put_struct_funds)

lemma read_record_keeps: "db_ok db \<Longrightarrow> read_record rlp A db i = Some (r, db') \<Longrightarrow> keeps db db'"
  using read_record_iff(1) becomes_same_keeps by blast

lemma file_record_keeps: "db_ok db \<Longrightarrow> file_record rlp A i r db = Some (e, db') \<Longrightarrow> keeps db db'"
  using file_record_becomes [of db rlp A i r]
  by (auto intro!: becomes_keeps simp: put_struct_funds split: option.splits)

lemma keeps_then: "db_ok db \<Longrightarrow> keeps db db1 \<Longrightarrow> (db_ok db1 \<Longrightarrow> keeps db1 db') \<Longrightarrow> keeps db db'"
  by (auto simp: keeps_def)

lemma add_record_keeps:
  assumes "db_ok db" "add_record rlp A i r db = Some (e, db')"
  shows "keeps db db'"
proof -
  obtain y db1 where 1: "read_record rlp A db i = Some (y, db1)"
    "(case y of Inr _ \<Rightarrow> Some (Some RecordExists, db1) | Inl _ \<Rightarrow> file_record rlp A i \<lparr>P_Deleted = False, P_Value = r\<rparr> db1) = Some (e, db')"
    using assms(2) by (auto simp: add_record_def bind_eq_Some_conv)
  show ?thesis
  proof (rule keeps_then [OF assms(1) read_record_keeps [OF assms(1) 1(1)]])
    assume "db_ok db1"
    then show "keeps db1 db'" using 1(2) file_record_keeps keeps_refl by (cases y) auto
  qed
qed

lemma remove_record_keeps:
  assumes "db_ok db" "remove_record rlp A i db = Some (e, db')"
  shows "keeps db db'"
proof -
  obtain y db1 where 1: "read_record rlp A db i = Some (y, db1)"
    "(case y of Inl _ \<Rightarrow> Some (Some RecordMissing, db1) | Inr r \<Rightarrow> file_record rlp A i \<lparr>P_Deleted = True, P_Value = r\<rparr> db1) = Some (e, db')"
    using assms(2) by (auto simp: remove_record_def bind_eq_Some_conv)
  show ?thesis
  proof (rule keeps_then [OF assms(1) read_record_keeps [OF assms(1) 1(1)]])
    assume "db_ok db1"
    then show "keeps db1 db'" using 1(2) file_record_keeps keeps_refl by (cases y) auto
  qed
qed

lemma record_keeps:
  assumes "db_ok db"
  shows "GetAsset c db i = Some (ra, db') \<Longrightarrow> keeps db db'" "GetSwap c db i = Some (rs, db') \<Longrightarrow> keeps db db'"
    "GetMultiSwap c db i = Some (rm, db') \<Longrightarrow> keeps db db'"
    "GenAsset c db a = Some (e, db') \<Longrightarrow> keeps db db'" "UpdateAsset c db a = Some (e, db') \<Longrightarrow> keeps db db'"
    "AddSwap c db s = Some (e, db') \<Longrightarrow> keeps db db'" "UpdateSwap c db s = Some (e, db') \<Longrightarrow> keeps db db'"
    "RemoveSwap c db i = Some (e, db') \<Longrightarrow> keeps db db'"
    "AddMultiSwap c db m = Some (e, db') \<Longrightarrow> keeps db db'" "UpdateMultiSwap c db m = Some (e, db') \<Longrightarrow> keeps db db'"
    "RemoveMultiSwap c db i = Some (e, db') \<Longrightarrow> keeps db db'"
  unfolding record_ops record_changes
  by (erule read_record_keeps [OF assms] file_record_keeps [OF assms] add_record_keeps [OF assms] remove_record_keeps [OF assms])+

lemma GetNotation_keeps: "db_ok db \<Longrightarrow> GetNotation db a = (n, db') \<Longrightarrow> keeps db db'"
  using GetNotation_becomes [of db a] becomes_same_keeps by auto

lemma GetOrNew_keeps: "db_ok db \<Longrightarrow> GetOrNewStateObject db a = (s, db') \<Longrightarrow> keeps db db'"
  using GetOrNewStateObject_becomes becomes_same_keeps by blast

lemma SetNotation_keeps: "db_ok db \<Longrightarrow> SetNotation db a n = Some db' \<Longrightarrow> keeps db db'"
  using SetNotation_becomes [of db a n] by (auto intro!: becomes_keeps)

lemma setNotation_keeps:
  "db_ok db \<Longrightarrow> setNotationCount c db n = Some (e, db') \<Longrightarrow> keeps db db'"
  "db_ok db \<Longrightarrow> setNotationToAddressLookup c db n a = Some (e, db') \<Longrightarrow> keeps db db'"
  using SetStructData_keeps keeps_refl
  by (auto simp: setNotationCount_def setNotationToAddressLookup_def bind_eq_Some_conv split: option.splits)

lemma readNotation_keeps:
  "db_ok db \<Longrightarrow> getNotationCount c db = Some (n, db') \<Longrightarrow> keeps db db'"
  "db_ok db \<Longrightarrow> GetAddressByNotation c db n = Some (r, db') \<Longrightarrow> keeps db db'"
  using GetStructData_keeps by (auto simp: getNotationCount_def GetAddressByNotation_def bind_eq_Some_conv)

lemma GenNotation_keeps:
  assumes "db_ok db" "GenNotation c db a = Some (e, db')"
  shows "keeps db db'"
proof -
  obtain s db1 n db2 where 1: "GetOrNewStateObject db a = (s, db1)" "GetNotation db1 a = (n, db2)" by (metis surj_pair)
  have k1: "keeps db db1" by (rule GetOrNew_keeps [OF assms(1) 1(1)])
  then have k2: "keeps db1 db2" using GetNotation_keeps [OF _ 1(2)] by (simp add: keeps_def)
  note k = keeps_trans [OF k1 k2]
  show ?thesis
  proof (cases "n = 0")
    case True
    then obtain m db3 e1 db4 e2 db5 where s: "getNotationCount c db2 = Some (m, db3)"
      "setNotationCount c db3 (m + 1) = Some (e1, db4)" "setNotationToAddressLookup c db4 (calcNotationDisplay (m + 1)) a = Some (e2, db5)"
      "SetNotation db5 a (calcNotationDisplay (m + 1)) = Some db'"
      using assms(2) 1 by (auto simp: GenNotation_def Let_def bind_eq_Some_conv)
    have k3: "keeps db2 db3" using readNotation_keeps(1) [OF _ s(1)] k2 by (simp add: keeps_def)
    have k4: "keeps db3 db4" using setNotation_keeps(1) [OF _ s(2)] k3 by (simp add: keeps_def)
    have k5: "keeps db4 db5" using setNotation_keeps(2) [OF _ s(3)] k4 by (simp add: keeps_def)
    have k6: "keeps db5 db'" using SetNotation_keeps [OF _ s(4)] k5 by (simp add: keeps_def)
    show ?thesis by (rule keeps_trans [OF k keeps_trans [OF k3 keeps_trans [OF k4 keeps_trans [OF k5 k6]]]])
  next
    case False
    then show ?thesis using assms(2) 1 k by (auto simp: GenNotation_def)
  qed
qed

section \<open>A calculus of effects\<close>

text \<open>
  \<open>runs t m Q\<close>: when the step \<open>m\<close> returns, \<open>Q\<close> holds of what it returns, and if \<open>t\<close> is set it does return.
\<close>

definition runs :: "bool \<Rightarrow> 'a option \<Rightarrow> ('a \<Rightarrow> bool) \<Rightarrow> bool" where
  "runs t m Q = (case m of None \<Rightarrow> \<not> t | Some r \<Rightarrow> Q r)"

lemma runs_simps [simp]:
  "runs t (Some r) Q \<longleftrightarrow> Q r" "runs t (Option.bind m f) Q \<longleftrightarrow> runs t m (\<lambda>r. runs t (f r) Q)"
  by (cases m; simp add: runs_def)+

lemma runs_returns: "runs True m Q \<longleftrightarrow> (\<exists>r. m = Some r \<and> Q r)"
  by (cases m) (simp_all add: runs_def)

lemma runs_partial: "runs False m Q \<longleftrightarrow> (\<forall>r. m = Some r \<longrightarrow> Q r)"
  by (cases m) (simp_all add: runs_def)

lemma runs_if: "(c \<Longrightarrow> runs t m Q) \<Longrightarrow> (\<not> c \<Longrightarrow> runs t n Q) \<Longrightarrow> runs t (if c then m else n) Q"
  by simp

lemma runs_mono: "runs t m Q \<Longrightarrow> (\<And>r. Q r \<Longrightarrow> R r) \<Longrightarrow> runs t m R"
  by (cases m) (simp_all add: runs_def)

text \<open>What an account holds: the coins of its balance, and the amount its time lock gives at a time.\<close>

definition coins :: "StateDB \<Rightarrow> Address \<Rightarrow> Hash \<Rightarrow> int" where
  "coins db a k = (case bal db a k of Some b \<Rightarrow> b | None \<Rightarrow> 0)"

definition locked :: "StateDB \<Rightarrow> Address \<Rightarrow> Hash \<Rightarrow> uint64 \<Rightarrow> int" where
  "locked db a k u = (case lck db a k of Some l \<Rightarrow> amount_at (Items l) u | None \<Rightarrow> 0)"

text \<open>A change of one account in one asset, and a step whose effect from time \<open>ts\<close> on is given by such changes.\<close>

definition only :: "Address \<Rightarrow> Hash \<Rightarrow> int \<Rightarrow> Address \<Rightarrow> Hash \<Rightarrow> int" where
  "only a k v b j = (if b = a \<and> j = k then v else 0)"

definition moves :: "uint64 \<Rightarrow> StateDB \<Rightarrow> (Address \<Rightarrow> Hash \<Rightarrow> int) \<Rightarrow> (Address \<Rightarrow> Hash \<Rightarrow> uint64 \<Rightarrow> int) \<Rightarrow> StateDB \<Rightarrow> bool" where
  "moves ts db f g db' \<longleftrightarrow> ledger_ok db' \<and> env db' = env db \<and> (\<forall>a k. coins db' a k = coins db a k + f a k) \<and>
     (\<forall>a k u. ts \<le> u \<longrightarrow> locked db' a k u = locked db a k u + g a k u)"

text \<open>A step that leaves the holdings as they are.\<close>

definition still :: "StateDB \<Rightarrow> StateDB \<Rightarrow> bool" where
  "still db db' \<longleftrightarrow> ledger_ok db' \<and> env db' = env db \<and> coins db' = coins db \<and> locked db' = locked db"

lemma keeps_still: "ledger_ok db \<Longrightarrow> keeps db db' \<Longrightarrow> still db db'"
  using keeps_ledger [of db db'] by (simp add: still_def coins_def locked_def keeps_def fun_eq_iff)

lemma still_refl: "ledger_ok db \<Longrightarrow> still db db"
  by (simp add: still_def)

lemma still_trans [trans]: "still db db1 \<Longrightarrow> still db1 db2 \<Longrightarrow> still db db2"
  by (simp add: still_def)

lemma still_moves: "still db db' \<Longrightarrow> moves ts db (\<lambda>a k. 0) (\<lambda>a k u. 0) db'"
  by (simp add: still_def moves_def)

lemma still_ledger: "still db db' \<Longrightarrow> ledger_ok db'"
  by (simp add: still_def)

lemma moves_ledger: "moves ts db f g db' \<Longrightarrow> ledger_ok db'"
  by (simp add: moves_def)

lemma moves_trans:
  "moves ts db f g db1 \<Longrightarrow> moves ts db1 f' g' db2 \<Longrightarrow> moves ts db (\<lambda>a k. f a k + f' a k) (\<lambda>a k u. g a k u + g' a k u) db2"
  by (simp add: moves_def)

lemma ledger_bal: "ledger_ok db \<Longrightarrow> bal db a k = Some (coins db a k)" "ledger_ok db \<Longrightarrow> 0 \<le> coins db a k"
  by (auto simp: ledger_ok_def coins_def split: option.split) (metis option.distinct(1) option.sel)+

lemma ledger_lck: "ledger_ok db \<Longrightarrow> \<exists>l. lck db a k = Some l \<and> items_ok (Items l) \<and> locked db a k = amount_at (Items l)"
  by (auto simp: ledger_ok_def locked_def fun_eq_iff) (metis option.simps(5))

lemma ledger_locked: "ledger_ok db \<Longrightarrow> 0 \<le> locked db a k u"
  using ledger_lck [of db a k] amount_nonneg by auto

lemma only_simps [simp]: "only a k 0 = (\<lambda>b j. 0)" "only a k v a k = v" "b \<noteq> a \<Longrightarrow> only a k v b j = 0" "j \<noteq> k \<Longrightarrow> only a k v b j = 0"
  by (simp_all add: only_def fun_eq_iff)

text \<open>A change of the balance, and one of the time lock, of one account.\<close>

lemma balance_moves:
  assumes "ledger_ok db" "becomes db ((acc db)(a := add_to k v (acc db a))) db'" "0 \<le> coins db a k + v"
  shows "moves ts db (only a k v) (\<lambda>a k u. 0) db'"
proof -
  have b: "bal db' b j = (if b = a \<and> j = k then Some (coins db a k + v) else bal db b j)" for b j
    using becomes_acc [OF assms(2)] ledger_bal(1) [OF assms(1), of a k] by (simp add: bal_def add_to_def)
  have l: "lck db' = lck db"
    using becomes_acc [OF assms(2)] by (simp add: lck_def add_to_def fun_eq_iff)
  have "ledger_ok db'" using assms becomes_ok [OF assms(2)] b l by (simp add: ledger_ok_def)
  then show ?thesis using b l becomes_env [OF assms(2)] by (simp add: moves_def coins_def locked_def only_def)
qed

lemma lock_moves:
  assumes "ledger_ok db" "becomes db ((acc db)(a := set_lock k (Some l) (acc db a))) db'" "items_ok (Items l)"
    "\<And>u. ts \<le> u \<Longrightarrow> amount_at (Items l) u = locked db a k u + v u"
  shows "moves ts db (\<lambda>a k. 0) (\<lambda>b j u. only a k (v u) b j) db'"
proof -
  have l: "lck db' b j = (if b = a \<and> j = k then Some l else lck db b j)" for b j
    using becomes_acc [OF assms(2)] by (simp add: lck_def set_lock_def)
  have b: "bal db' = bal db"
    using becomes_acc [OF assms(2)] by (simp add: bal_def set_lock_def fun_eq_iff)
  have "ledger_ok db'" using assms becomes_ok [OF assms(2)] b l by (simp add: ledger_ok_def)
  then show ?thesis using b l becomes_env [OF assms(2)] assms(4) by (simp add: moves_def coins_def locked_def only_def)
qed

text \<open>The storage of every account stays the same.\<close>

definition same_storage :: "StateDB \<Rightarrow> StateDB \<Rightarrow> bool" where
  "same_storage db db' \<longleftrightarrow> (\<forall>A. a_storage (acc db' A) = a_storage (acc db A))"

lemma becomes_storage:
  "becomes db ((acc db)(a := add_to k v (acc db a))) db' \<Longrightarrow> same_storage db db'"
  "becomes db ((acc db)(a := set_lock k l (acc db a))) db' \<Longrightarrow> same_storage db db'"
  using becomes_acc by (auto simp: same_storage_def add_to_def set_lock_def fun_upd_def)

subsection \<open>Rules for the steps of the handlers\<close>

lemma AddBalance_runs:
  assumes "ledger_ok db" "0 \<le> coins db a k + v" "\<And>db'. moves ts db (only a k v) (\<lambda>a k u. 0) db' \<Longrightarrow> Q db'"
  shows "runs t (AddBalance db a k v) Q"
  using AddBalance_becomes [OF ledger_db_ok [OF assms(1)], of v a k] balance_moves [OF assms(1) _ assms(2)] ledger_bal(1) [OF assms(1), of a k] assms(3)
  by (auto simp: bal_def)

lemma SubBalance_runs:
  assumes "ledger_ok db" "v \<le> coins db a k" "\<And>db'. moves ts db (only a k (- v)) (\<lambda>a k u. 0) db' \<Longrightarrow> same_storage db db' \<Longrightarrow> Q db'"
  shows "runs t (SubBalance db a k v) Q"
  using SubBalance_becomes [OF ledger_db_ok [OF assms(1)], of v a k] balance_moves [OF assms(1), of a k "- v"] becomes_storage(1)
    ledger_bal(1) [OF assms(1), of a k] assms(2,3)
  by (auto simp: bal_def)

lemma ClearExpired_amounts:
  "items_ok (Items z) \<Longrightarrow> items_ok (Items (ClearExpired z ts)) \<and> (\<forall>u. ts \<le> u \<longrightarrow> amount_at (Items (ClearExpired z ts)) u = amount_at (Items z) u)"
  using ClearExpired_loop_ok [of "Items z" ts] by (auto simp: ClearExpired_def)

lemma AddTimeLockBalance_runs:
  assumes "ledger_ok db" "items_ok (Items y)" "\<And>db'. moves ts db (\<lambda>a k. 0) (\<lambda>b j u. only a k (amount_at (Items y) u) b j) db' \<Longrightarrow> Q db'"
  shows "runs t (AddTimeLockBalance dm db a k y ts) Q"
proof -
  obtain l where l: "a_lock (acc db a) k = Some l" "items_ok (Items l)" "locked db a k = amount_at (Items l)"
    using ledger_lck [OF assms(1), of a k] by (auto simp: lck_def)
  obtain z where z: "lock_add dm ts y (Some l) = Some (Some z)" "items_ok (Items z)"
    "\<forall>u. ts \<le> u \<longrightarrow> amount_at (Items z) u = amount_at (Items l) u + amount_at (Items y) u"
  proof (cases "IsEmpty y")
    case True
    then show ?thesis using that l by (simp add: lock_add_def IsEmpty_def)
  next
    case False
    from Add_ok [OF l(2) assms(2), of dm] False obtain z where "Add dm (Some l) (Some y) = Some (Some z)" "items_ok (Items z)"
      "\<forall>t. amount_at (Items z) t = amount_at (Items l) t + amount_at (Items y) t" by auto
    then show ?thesis using that [of "ClearExpired z ts"] ClearExpired_amounts [of z ts] False by (simp add: lock_add_def)
  qed
  obtain db' where db': "AddTimeLockBalance dm db a k y ts = Some db'" "becomes db ((acc db)(a := set_lock k (Some z) (acc db a))) db'"
    using AddTimeLockBalance_becomes [OF ledger_db_ok [OF assms(1)], of dm ts y a k "Some z"] z(1) l(1) by auto
  have "Q db'" by (rule assms(3), rule lock_moves [OF assms(1) db'(2) z(2)]) (use z(3) l(3) in simp)
  with db'(1) show ?thesis by simp
qed

lemma SubTimeLockBalance_runs:
  assumes "ledger_ok db" "Items y = [item]" "item_ok item" "StartTime item \<noteq> 0"
    "\<And>u. StartTime item \<le> u \<Longrightarrow> u \<le> EndTime item \<Longrightarrow> Value item \<le> locked db a k u"
    "\<And>db'. moves ts db (\<lambda>a k. 0) (\<lambda>b j u. only a k (- item_amount item u) b j) db' \<Longrightarrow> same_storage db db' \<Longrightarrow> Q db'"
  shows "runs t (SubTimeLockBalance dm db a k y ts) Q"
proof -
  obtain l where l: "a_lock (acc db a) k = Some l" "items_ok (Items l)" "locked db a k = amount_at (Items l)"
    using ledger_lck [OF assms(1), of a k] by (auto simp: lck_def)
  have "covers (Items l) item" using assms(5) l(3) by (simp add: covers_def)
  then obtain z where z: "Sub dm l (Some y) = Some z" "items_ok (Items z)"
    "\<forall>u. amount_at (Items z) u = amount_at (Items l) u - item_amount item u"
    using Sub_ok [OF l(2) assms(2,3), of dm] assms(4) by (auto simp: lateStart_def)
  have s: "lock_sub dm ts y (a_lock (acc db a) k) = Some (Some (ClearExpired z ts))"
    using assms(2) z(1) l(1) by (simp add: lock_sub_def IsEmpty_def)
  note c = ClearExpired_amounts [OF z(2), of ts]
  obtain db' where db': "SubTimeLockBalance dm db a k y ts = Some db'"
    "becomes db ((acc db)(a := set_lock k (Some (ClearExpired z ts)) (acc db a))) db'"
    using SubTimeLockBalance_becomes [OF ledger_db_ok [OF assms(1)] s] by blast
  have "Q db'" by (rule assms(6), rule lock_moves [OF assms(1) db'(2)]) (use z(3) l(3) c becomes_storage(2) [OF db'(2)] in simp_all)
  with db'(1) show ?thesis by simp
qed

lemma balanceBelow_runs:
  assumes "ledger_ok db" "\<And>db'. still db db' \<Longrightarrow> Q (coins db a k < v, db')"
  shows "runs t (balanceBelow db k a v) Q"
proof -
  obtain db' where db': "GetBalance db k a = Some (Some (coins db a k), db')" "becomes db (acc db) db'"
    using GetBalance_becomes [OF ledger_db_ok [OF assms(1)], of k a] ledger_bal(1) [OF assms(1), of a k] by (auto simp: bal_def)
  have "keeps db db'" by (rule becomes_same_keeps [OF db'(2)])
  then show ?thesis using db'(1) assms(2) keeps_still [OF assms(1)] by (simp add: balanceBelow_def)
qed

lemma lockCmp_runs:
  assumes "ledger_ok db" "Items y = [item]" "item_ok item" "StartTime item \<noteq> 0"
    "\<And>c db'. still db db' \<Longrightarrow>
      0 \<le> c \<longleftrightarrow> (\<forall>u. StartTime item \<le> u \<and> u \<le> EndTime item \<longrightarrow> Value item \<le> locked db a k u) \<Longrightarrow> Q (c, db')"
  shows "runs t (lockCmp db k a y) Q"
proof -
  obtain l where l: "a_lock (acc db a) k = Some l" "items_ok (Items l)" "locked db a k = amount_at (Items l)"
    using ledger_lck [OF assms(1), of a k] by (auto simp: lck_def)
  obtain db' where db': "GetTimeLockBalance db k a = Some (Some l, db')" "becomes db (acc db) db'"
    using GetTimeLockBalance_becomes [OF ledger_db_ok [OF assms(1)], of k a] l(1) by auto
  obtain c where c: "Cmp l (Some y) = Some c" "0 \<le> c \<longleftrightarrow> covers (Items l) item"
    using Cmp_ok [OF l(2) assms(2,3)] assms(4) by (auto simp: lateStart_def)
  have k: "keeps db db'" by (rule becomes_same_keeps [OF db'(2)])
  show ?thesis using db'(1) c assms(5) [OF keeps_still [OF assms(1) k]] l(3) by (simp add: lockCmp_def covers_def)
qed

subsection \<open>Time locks of one item\<close>

lemma oneItem_Items [simp]: "Items (oneItem s e v) = [\<lparr>StartTime = s, EndTime = e, Value = \<bar>v\<bar>\<rparr>]"
  by (simp add: oneItem_def NewTimeLock_def SetItems_def Item_Clone_def copyMagnitude_def)

lemma oneItem_valid: "IsValid (oneItem s e v) = None \<longleftrightarrow> s \<le> e \<and> v \<noteq> 0"
  by (simp add: IsValid_iff items_ok_Cons item_ok_def)

lemma oneItem_ok [simp]:
  "item_ok \<lparr>StartTime = s, EndTime = e, Value = v\<rparr> \<longleftrightarrow> s \<le> e \<and> 0 < v"
  "items_ok [\<lparr>StartTime = s, EndTime = e, Value = v\<rparr>] \<longleftrightarrow> s \<le> e \<and> 0 < v"
  by (auto simp: items_ok_Cons item_ok_def)

lemma Forever_max [simp]: "u \<le> TimeLockForever"
proof -
  have "unat u < 2 ^ 64" using unsigned_less [of u] by simp
  then show ?thesis by (simp add: TimeLockForever_def word_le_nat_alt)
qed

lemma MaxUint64_max: "MaxUint64 x y = max x y"
  by (auto simp: MaxUint64_def max_def)

text \<open>The amount \<open>v\<close> in the closed interval from \<open>s\<close> to \<open>e\<close>.\<close>

definition span :: "uint64 \<Rightarrow> uint64 \<Rightarrow> int \<Rightarrow> uint64 \<Rightarrow> int" where
  "span s e v u = (if s \<le> u \<and> u \<le> e then v else 0)"

lemma item_span [simp]: "item_amount \<lparr>StartTime = s, EndTime = e, Value = v\<rparr> u = span s e v u"
  by (simp add: item_amount_def span_def)

lemma span_forever [simp]: "s \<le> u \<Longrightarrow> span s TimeLockForever v u = v"
  by (simp add: span_def)

lemma AddOne_runs:
  assumes "ledger_ok db" "s \<le> e" "0 < v" "\<And>db'. moves ts db (\<lambda>a k. 0) (\<lambda>b j u. only a k (span s e v u) b j) db' \<Longrightarrow> Q db'"
  shows "runs t (AddTimeLockBalance dm db a k (oneItem s e v) ts) Q"
  by (rule AddTimeLockBalance_runs) (use assms in auto)

lemma SubOne_runs:
  assumes "ledger_ok db" "s \<le> e" "0 < v" "s \<noteq> 0" "\<And>u. s \<le> u \<Longrightarrow> u \<le> e \<Longrightarrow> v \<le> locked db a k u"
    "\<And>db'. moves ts db (\<lambda>a k. 0) (\<lambda>b j u. only a k (- span s e v u) b j) db' \<Longrightarrow> same_storage db db' \<Longrightarrow> Q db'"
  shows "runs t (SubTimeLockBalance dm db a k (oneItem s e v) ts) Q"
  by (rule SubTimeLockBalance_runs) (use assms in auto)

lemma CmpOne_runs:
  assumes "ledger_ok db" "s \<le> e" "0 < v" "s \<noteq> 0"
    "\<And>c db'. still db db' \<Longrightarrow> 0 \<le> c \<longleftrightarrow> (\<forall>u. s \<le> u \<and> u \<le> e \<longrightarrow> v \<le> locked db a k u) \<Longrightarrow> Q (c, db')"
  shows "runs t (lockCmp db k a (oneItem s e v)) Q"
  by (rule lockCmp_runs [OF assms(1) oneItem_Items]) (use assms in auto)

lemma surplus_runs:
  assumes "0 < v" "ts \<noteq> 0" "ts \<le> s" "s \<le> e"
    "\<And>z. items_ok (Items z) \<Longrightarrow> (\<And>u. ts \<le> u \<Longrightarrow> amount_at (Items z) u = v - span s e v u) \<Longrightarrow> Q z"
  shows "runs t (Sub dm (oneItem ts TimeLockForever v) (Some (oneItem s e v))) Q"
proof -
  let ?i = "\<lparr>StartTime = s, EndTime = e, Value = v\<rparr>"
  have c: "covers (Items (oneItem ts TimeLockForever v)) ?i"
    using assms by (auto simp: covers_def span_def)
  have "s \<noteq> 0" using assms(2,3) by (metis antisym word_zero_le)
  then obtain z where "Sub dm (oneItem ts TimeLockForever v) (Some (oneItem s e v)) = Some z" "items_ok (Items z)"
    "\<forall>u. amount_at (Items z) u = amount_at (Items (oneItem ts TimeLockForever v)) u - item_amount ?i u"
    using Sub_ok [OF _ _ _ _ c, of "oneItem s e v" dm] assms by (auto simp: lateStart_def)
  then show ?thesis using assms by simp
qed

lemma AddSurplus_runs:
  assumes "ledger_ok db" "items_ok (Items z)" "\<And>db'. moves ts db (\<lambda>a k. 0) (\<lambda>b j u. only a k (amount_at (Items z) u) b j) db' \<Longrightarrow> Q db'"
  shows "runs t (if \<not> IsEmpty z then AddTimeLockBalance dm db a k z ts else Some db) Q"
  using AddTimeLockBalance_runs [OF assms] assms(3) [of db] assms(1) by (auto simp: IsEmpty_def moves_def)

lemma addLog_still: "ledger_ok db \<Longrightarrow> still db (addLog x db f b kv)"
  by (simp add: keeps_still addLog_keeps ledger_db_ok)

lemmas fail_simps = failErr_def failWith_def failLock_def doneLock_def
lemmas ledger_simps = still_def moves_def addLog_still [unfolded still_def]

text \<open>Making a time lock available, out of the asset where it is not there; \<open>w\<close> is what is taken from the asset.\<close>

lemma fundLock_runs:
  assumes "ledger_ok db" "X_timestamp x \<le> s" "X_timestamp x \<noteq> 0" "s \<le> e" "0 < v"
    "\<And>err db'. still db db' \<Longrightarrow> Q (Some err, db')"
    "\<And>w db'. 0 \<le> w \<Longrightarrow> moves (X_timestamp x) db (only (X_from x) k (- w)) (\<lambda>b j u. only (X_from x) k w b j) db' \<Longrightarrow>
      (\<And>u. s \<le> u \<Longrightarrow> u \<le> e \<Longrightarrow> v \<le> locked db' (X_from x) k u) \<Longrightarrow> Q (None, db')"
  shows "runs t (fundLock x legacy txt txt' k v (oneItem s e v) db) Q"
proof -
  have s: "s \<noteq> 0" using assms(2,3) by (metis antisym word_zero_le)
  note l = ledger_locked [OF assms(1), of "X_from x" k]
  show ?thesis
    unfolding fundLock_def Let_def runs_simps
    apply (rule CmpOne_runs [OF assms(1,4,5) s])
    apply (simp add: not_less split del: if_split)
    apply (intro runs_if)
      apply (simp add: assms(6))
     apply simp
     apply (rule balanceBelow_runs [OF still_ledger], assumption)
     apply (simp add: not_less split del: if_split)
     apply (intro runs_if)
      apply (simp add: assms(6) [OF still_trans])
    subgoal for c db1 db2
      apply simp
      apply (rule SubBalance_runs [OF still_ledger, where ts = "X_timestamp x"], assumption)
       apply (simp add: still_def)
      apply (rule AddOne_runs [OF moves_ledger], assumption)
        apply (simp_all add: assms)
      apply (rule assms(7) [of v])
      using l assms(2,5) by (auto simp: ledger_simps intro: order_trans)
    apply (simp only: runs_simps)
    apply (rule assms(7) [of 0])
    by (auto simp: ledger_simps not_less)
qed

lemma runs_with: "runs t m P \<Longrightarrow> (\<And>r. m = Some r \<Longrightarrow> P r \<Longrightarrow> Q r) \<Longrightarrow> runs t m Q"
  by (cases m) (simp_all add: runs_def)

text \<open>What an account can dispose of at a time.\<close>

definition worth :: "StateDB \<Rightarrow> Address \<Rightarrow> Hash \<Rightarrow> uint64 \<Rightarrow> int" where
  "worth db a k u = coins db a k + locked db a k u"

lemma moves_worth: "moves ts db f g db' \<Longrightarrow> ts \<le> u \<Longrightarrow> worth db' a k u = worth db a k u + f a k + g a k u"
  by (simp add: moves_def worth_def)

lemma worth_cong: "coins db' = coins db \<Longrightarrow> locked db' = locked db \<Longrightarrow> worth db' = worth db"
  by (simp add: worth_def fun_eq_iff)

section \<open>Steps on records and notations\<close>

lemma keeps_runs:
  assumes "ledger_ok db" "\<And>r db'. db_ok db \<Longrightarrow> m = Some (r, db') \<Longrightarrow> keeps db db'" "\<And>r db'. still db db' \<Longrightarrow> Q (r, db')"
  shows "runs False m Q"
  using assms(2,3) keeps_still [OF assms(1)] ledger_db_ok [OF assms(1)] by (auto simp: runs_partial)

lemma TransferNotation_keeps:
  assumes "db_ok db" "TransferNotation c db n from to = Some (e, db')"
  shows "keeps db db'"
proof -
  obtain s db1 s' db2 where 1: "GetOrNewStateObject db from = (s, db1)" "GetOrNewStateObject db1 to = (s', db2)" by (metis surj_pair)
  have k1: "keeps db db1" by (rule GetOrNew_keeps [OF assms(1) 1(1)])
  then have k2: "keeps db1 db2" using GetOrNew_keeps [OF _ 1(2)] by (simp add: keeps_def)
  obtain r db3 where 3: "GetAddressByNotation c db2 n = Some (r, db3)" using assms(2) 1 by (auto simp: TransferNotation_def bind_eq_Some_conv)
  have k3: "keeps db2 db3" using readNotation_keeps(2) [OF _ 3] k2 by (simp add: keeps_def)
  note k = keeps_trans [OF k1 keeps_trans [OF k2 k3]]
  show ?thesis
  proof (cases "r = Inr from")
    case True
    obtain o' db4 where 4: "GetNotation db3 to = (o', db4)" by fastforce
    obtain e5 db5 e6 db6 db7 where s: "(if o' \<noteq> 0 then setNotationToAddressLookup c db4 o' 0 else Some (None, db4)) = Some (e5, db5)"
      "setNotationToAddressLookup c db5 n to = Some (e6, db6)" "SetNotation db6 to n = Some db7" "SetNotation db7 from 0 = Some db'"
      using assms(2) 1 3 4 True by (auto simp: TransferNotation_def bind_eq_Some_conv)
    have k4: "keeps db3 db4" using GetNotation_keeps [OF _ 4] k3 by (simp add: keeps_def)
    have k5: "keeps db4 db5" using setNotation_keeps(2) s(1) k4 keeps_refl by (auto simp: keeps_def split: if_splits)
    have k6: "keeps db5 db6" using setNotation_keeps(2) [OF _ s(2)] k5 by (simp add: keeps_def)
    have k7: "keeps db6 db7" using SetNotation_keeps [OF _ s(3)] k6 by (simp add: keeps_def)
    have k8: "keeps db7 db'" using SetNotation_keeps [OF _ s(4)] k7 by (simp add: keeps_def)
    show ?thesis by (rule keeps_trans [OF k keeps_trans [OF k4 keeps_trans [OF k5 keeps_trans [OF k6 keeps_trans [OF k7 k8]]]]])
  next
    case False
    then show ?thesis using assms(2) 1 3 k by (auto simp: TransferNotation_def split: sum.splits if_splits)
  qed
qed

lemma change_runs:
  assumes "ledger_ok db" "\<And>r db'. still db db' \<Longrightarrow> Q (r, db')"
  shows "runs False (GenAsset c db a) Q" "runs False (UpdateAsset c db a) Q"
    "runs False (AddSwap c db s) Q" "runs False (UpdateSwap c db s) Q" "runs False (RemoveSwap c db i) Q"
    "runs False (AddMultiSwap c db m) Q" "runs False (UpdateMultiSwap c db m) Q" "runs False (RemoveMultiSwap c db i) Q"
    "runs False (GenNotation c db h) Q" "runs False (TransferNotation c db n h to) Q"
  by (rule keeps_runs [OF assms(1)], erule (1) record_keeps GenNotation_keeps TransferNotation_keeps, erule assms(2))+

text \<open>A record that is read is the one filed; \<open>acc\<close> stays the same.\<close>

lemma read_runs:
  assumes "ledger_ok db" "\<And>db'. still db db' \<Longrightarrow> acc db' = acc db \<Longrightarrow> Q (record_at rlp A db i, db')"
  shows "runs False (read_record rlp A db i) Q"
  using read_record_iff(1) [OF ledger_db_ok [OF assms(1)], of rlp A i] assms(2) keeps_still [OF assms(1) becomes_same_keeps] becomes_acc
  by (auto simp: runs_partial)

lemma get_runs:
  assumes "ledger_ok db"
  shows "(\<And>db'. still db db' \<Longrightarrow> acc db' = acc db \<Longrightarrow> Q (record_at (assetRLP c) AssetKeyAddress db i, db')) \<Longrightarrow> runs False (GetAsset c db i) Q"
    "(\<And>db'. still db db' \<Longrightarrow> acc db' = acc db \<Longrightarrow> R (record_at (swapRLP c) SwapKeyAddress db i, db')) \<Longrightarrow> runs False (GetSwap c db i) R"
    "(\<And>db'. still db db' \<Longrightarrow> acc db' = acc db \<Longrightarrow> S (record_at (multiSwapRLP c) MultiSwapKeyAddress db i, db')) \<Longrightarrow> runs False (GetMultiSwap c db i) S"
  unfolding record_ops by (rule read_runs [OF assms], blast)+

text \<open>A record that is added is there afterwards, when its encoding can be read back.\<close>

definition fileable :: "'r persist RLP \<Rightarrow> Env \<Rightarrow> Hash \<Rightarrow> 'r \<Rightarrow> bool" where
  "fileable rlp e i r \<longleftrightarrow> codec_ok rlp \<and> (\<forall>del d. EncodeToBytes rlp \<lparr>P_Deleted = del, P_Value = r\<rparr> = Some d \<longrightarrow> struct_fits e (hash_bytes i) d)"

lemma add_runs:
  assumes "ledger_ok db" "\<And>r db'. still db db' \<Longrightarrow>
    (r = None \<Longrightarrow> fileable rlp (env db) i v \<Longrightarrow> record_at rlp A db' i = Inr v) \<Longrightarrow> Q (r, db')"
  shows "runs False (add_record rlp A i v db) Q"
proof -
  have "Q (r, db')" if a: "add_record rlp A i v db = Some (r, db')" for r db'
  proof (rule assms(2))
    note ok = ledger_db_ok [OF assms(1)]
    show "still db db'" using keeps_still [OF assms(1) add_record_keeps [OF ok a]] .
    assume "r = None" and f: "fileable rlp (env db) i v"
    then obtain d where "EncodeToBytes rlp \<lparr>P_Deleted = False, P_Value = v\<rparr> = Some d"
      using add_record_becomes [OF ok record_readable(2) [OF ok a], of rlp v] a by (auto split: if_splits option.splits)
    with added_record [OF ok, of rlp A i v db'] a \<open>r = None\<close> f show "record_at rlp A db' i = Inr v" by (auto simp: fileable_def)
  qed
  then show ?thesis by (auto simp: runs_partial)
qed

lemma same_storage_record: "same_storage db db' \<Longrightarrow> env db' = env db \<Longrightarrow> record_at rlp A db' = record_at rlp A db"
  by (rule ext) (simp add: same_storage_def record_at_def)

lemma addLog_acc: "acc (addLog x db f b kv) = acc db" "env (addLog x db f b kv) = env db"
proof -
  have j: "same_state (journal_append (addLogChange (thash db)) db) db" by (rule journal_append_same)
  have "live (AddLog db l) = live db" "env (AddLog db l) = env db" for l
    using same_state_view [OF j] j by (simp_all add: AddLog_def Let_def same_state_def)
  then show "acc (addLog x db f b kv) = acc db" "env (addLog x db f b kv) = env db"
    unfolding addLog_def by (blast intro: acc_cong)+
qed

lemma addLog_record: "record_at rlp A (addLog x db f b kv) = record_at rlp A db"
  by (simp add: record_at_def addLog_acc fun_eq_iff)

lemma GetNotation_still:
  assumes "ledger_ok db"
  shows "still db (snd (GetNotation db a))" "acc (snd (GetNotation db a)) = acc db"
  using GetNotation_becomes [OF ledger_db_ok [OF assms], of a] keeps_still [OF assms becomes_same_keeps] becomes_acc by auto

end
