(* ===== verification/Fsn_Transfers.thy ===== *)
theory Fsn_Transfers
  imports Fsn_Ledger
begin

text \<open>
  The special calls that move the funds of one sender: sending an asset, time locks, tickets, and the
  supply of an asset. Each has its exact effect on the ledger, on every outcome; the calls that only
  touch balances and time locks are shown to return.
\<close>

section \<open>Sending an asset\<close>

lemma SendAsset_runs:
  fixes x p defines "s \<equiv> decSendAsset (X_params x) (Data p)"
  assumes "ledger_ok db"
  shows "runs t (handleSendAsset x p db) (\<lambda>(e, db').
    if SendAsset_Check s = None \<and> the (SA_Value s) \<le> coins db (X_from x) (SA_AssetID s)
    then e = None \<and> moves ts db (\<lambda>a k. only (X_from x) (SA_AssetID s) (- the (SA_Value s)) a k + only (SA_To s) (SA_AssetID s) (the (SA_Value s)) a k) (\<lambda>a k u. 0) db'
    else e \<noteq> None \<and> still db db')"
proof (cases "SendAsset_Check s")
  case None
  then obtain v where v: "SA_Value s = Some v" "0 < v"
    by (auto simp: SendAsset_Check_def notPositive_def split: if_splits option.splits)
  show ?thesis
    unfolding handleSendAsset_def Let_def s_def [symmetric] None v option.case runs_simps
    apply (rule balanceBelow_runs [OF assms(2)], unfold prod.case, intro runs_if)
     apply (simp add: fail_simps ledger_simps)
    apply simp
    apply (rule SubBalance_runs [OF still_ledger, where ts = ts], assumption)
     apply (simp add: still_def)
    apply (rule AddBalance_runs [OF moves_ledger, where ts = ts], assumption)
    subgoal for db1 db2
      using ledger_bal(2) [of db2 "SA_To s" "SA_AssetID s"] v(2) by (simp add: moves_def)
    using addLog_still by (auto simp: ledger_simps)
qed (use assms in \<open>simp add: handleSendAsset_def fail_simps s_def ledger_simps\<close>)

section \<open>Time locks\<close>

lemma assetToTimeLock_runs:
  assumes "ledger_ok db" "X_timestamp x \<noteq> 0" "X_timestamp x \<le> s" "s \<le> e" "0 < v"
  shows "runs t (assetToTimeLock x p v (oneItem s e v) db) (\<lambda>(r, db').
    if v \<le> coins db (X_from x) (TL_AssetID p)
    then r = None \<and> moves (X_timestamp x) db (only (X_from x) (TL_AssetID p) (- v))
      (\<lambda>a k u. only (X_from x) (TL_AssetID p) (v - span s e v u) a k + only (TL_To p) (TL_AssetID p) (span s e v u) a k) db'
    else r \<noteq> None \<and> still db db')"
  unfolding assetToTimeLock_def Let_def runs_simps
  apply (rule balanceBelow_runs [OF assms(1)], unfold prod.case, intro runs_if)
   apply (simp add: fail_simps ledger_simps)
  apply (simp split del: if_split)
  apply (rule SubBalance_runs [OF still_ledger, where ts = "X_timestamp x"], assumption)
   apply (simp add: still_def)
  apply (intro runs_if)
  subgoal for db1 db2
    apply (rule AddOne_runs [OF moves_ledger], assumption)
    using assms by (auto simp: fail_simps ledger_simps copyMagnitude_def only_def)
  subgoal for db1 db2
    using assms apply (simp split del: if_split)
    apply (rule surplus_runs)
        apply (simp_all split del: if_split)
    apply (rule AddSurplus_runs [OF moves_ledger], assumption, assumption)
    apply (rule AddOne_runs [OF moves_ledger], assumption)
    by (auto simp: fail_simps ledger_simps only_def)
  done

lemma timeLockToTimeLock_runs:
  assumes "ledger_ok db" "X_timestamp x \<noteq> 0" "X_timestamp x \<le> s" "s \<le> e" "0 < v"
  shows "runs t (timeLockToTimeLock x p (oneItem s e v) db) (\<lambda>(r, db').
    if \<forall>u. s \<le> u \<and> u \<le> e \<longrightarrow> v \<le> locked db (X_from x) (TL_AssetID p) u
    then r = None \<and> moves (X_timestamp x) db (\<lambda>a k. 0)
      (\<lambda>a k u. only (X_from x) (TL_AssetID p) (- span s e v u) a k + only (TL_To p) (TL_AssetID p) (span s e v u) a k) db'
    else r \<noteq> None \<and> still db db')"
proof -
  have s: "s \<noteq> 0" using assms(2,3) by (metis antisym word_zero_le)
  show ?thesis
    unfolding timeLockToTimeLock_def Let_def runs_simps
    apply (rule CmpOne_runs [OF assms(1,4,5) s], unfold prod.case, intro runs_if)
     apply (simp add: fail_simps ledger_simps)
    apply simp
    apply (rule SubOne_runs [OF still_ledger _ _ s, where ts = "X_timestamp x"], assumption)
       apply (simp_all add: assms)
     apply (simp add: still_def not_less)
    apply (rule AddOne_runs [OF moves_ledger], assumption)
    using assms by (auto simp: fail_simps ledger_simps not_less)
qed

lemma timeLockToAsset_runs:
  assumes "ledger_ok db" "X_timestamp x \<noteq> 0" "X_timestamp x \<le> s" "s \<le> e" "0 < v"
  shows "runs t (timeLockToAsset x p v (oneItem s e v) db) (\<lambda>(r, db').
    if \<forall>u. s \<le> u \<and> u \<le> e \<longrightarrow> v \<le> locked db (X_from x) (TL_AssetID p) u
    then r = None \<and> moves (X_timestamp x) db (only (TL_To p) (TL_AssetID p) v)
      (\<lambda>a k u. only (X_from x) (TL_AssetID p) (- span s e v u) a k) db'
    else r \<noteq> None \<and> still db db')"
proof -
  have s: "s \<noteq> 0" using assms(2,3) by (metis antisym word_zero_le)
  show ?thesis
    unfolding timeLockToAsset_def Let_def runs_simps
    apply (rule CmpOne_runs [OF assms(1,4,5) s], unfold prod.case, intro runs_if)
     apply (simp add: fail_simps ledger_simps)
    apply simp
    apply (rule SubOne_runs [OF still_ledger _ _ s, where ts = "X_timestamp x"], assumption)
       apply (simp_all add: assms)
     apply (simp add: still_def not_less)
    apply (rule AddBalance_runs [OF moves_ledger, where ts = "X_timestamp x"], assumption)
    subgoal for c db1 db2
      using ledger_bal(2) [of db2 "TL_To p" "TL_AssetID p"] assms(5) by (simp add: moves_def)
    using assms by (auto simp: fail_simps ledger_simps not_less)
qed

text \<open>The parameter as the handler uses it, and the effect of a successful call on balances and time locks.\<close>

definition lockParam :: "CallContext \<Rightarrow> FSNCallParam \<Rightarrow> TimeLockParam" where
  "lockParam x p = (let q = decTimeLock (X_params x) (Data p) in if TL_Type q = TimeLockToAsset then q\<lparr>TL_EndTime := TimeLockForever\<rparr> else q)"

definition lockSpan :: "CallContext \<Rightarrow> TimeLockParam \<Rightarrow> uint64 \<Rightarrow> int" where
  "lockSpan x q = span (max (TL_StartTime q) (X_timestamp x)) (TL_EndTime q) (the (TL_Value q))"

definition lockCoins :: "CallContext \<Rightarrow> TimeLockParam \<Rightarrow> Address \<Rightarrow> Hash \<Rightarrow> int" where
  "lockCoins x q = (if TL_Type q = AssetToTimeLock then only (X_from x) (TL_AssetID q) (- the (TL_Value q))
     else if TL_Type q = TimeLockToTimeLock then (\<lambda>a k. 0) else only (TL_To q) (TL_AssetID q) (the (TL_Value q)))"

definition lockLocked :: "CallContext \<Rightarrow> TimeLockParam \<Rightarrow> Address \<Rightarrow> Hash \<Rightarrow> uint64 \<Rightarrow> int" where
  "lockLocked x q a k u =
    only (X_from x) (TL_AssetID q) ((if TL_Type q = AssetToTimeLock then the (TL_Value q) else 0) - lockSpan x q u) a k +
    (if TL_Type q = TimeLockToAsset then 0 else only (TL_To q) (TL_AssetID q) (lockSpan x q u) a k)"

definition lockFunds :: "CallContext \<Rightarrow> TimeLockParam \<Rightarrow> StateDB \<Rightarrow> bool" where
  "lockFunds x q db \<longleftrightarrow> (if TL_Type q = AssetToTimeLock then the (TL_Value q) \<le> coins db (X_from x) (TL_AssetID q)
     else \<forall>u. lockSpan x q u \<le> locked db (X_from x) (TL_AssetID q) u)"

definition lockAccepted :: "CallContext \<Rightarrow> TimeLockParam \<Rightarrow> bool" where
  "lockAccepted x q \<longleftrightarrow> TL_Type q \<in> {AssetToTimeLock, TimeLockToTimeLock, TimeLockToAsset} \<and>
     (TL_Type q = TimeLockToAsset \<longrightarrow> TL_StartTime q \<le> X_now x) \<and> TimeLock_Check q (X_timestamp x) = None"

lemma type_codes [simp]:
  "AssetToTimeLock \<noteq> TimeLockToTimeLock" "AssetToTimeLock \<noteq> TimeLockToAsset" "TimeLockToTimeLock \<noteq> TimeLockToAsset"
  "TimeLockToTimeLock \<noteq> AssetToTimeLock" "TimeLockToAsset \<noteq> AssetToTimeLock" "TimeLockToAsset \<noteq> TimeLockToTimeLock"
  by (simp_all add: AssetToTimeLock_def TimeLockToTimeLock_def TimeLockToAsset_def)

lemma span_covered:
  assumes "ledger_ok db" "0 < v"
  shows "(\<forall>u. span s e v u \<le> locked db a k u) \<longleftrightarrow> (\<forall>u. s \<le> u \<and> u \<le> e \<longrightarrow> v \<le> locked db a k u)"
  using ledger_locked [OF assms(1), of a k] by (auto simp: span_def)

lemma handleTimeLock_runs:
  fixes x p defines "q \<equiv> lockParam x p"
  assumes "ledger_ok db" "X_timestamp x \<noteq> 0"
  shows "runs t (handleTimeLock x p db) (\<lambda>(r, db').
    if lockAccepted x q \<and> lockFunds x q db then r = None \<and> moves (X_timestamp x) db (lockCoins x q) (lockLocked x q) db'
    else r \<noteq> None \<and> still db db')"
proof -
  let ?q = "decTimeLock (X_params x) (Data p)" and ?s = "max (TL_StartTime q) (X_timestamp x)" and ?v = "the (TL_Value q)"
  have q: "TL_Type q = TL_Type ?q" "TL_StartTime q = TL_StartTime ?q" "TL_Value q = TL_Value ?q" "TL_To q = TL_To ?q"
    by (simp_all add: q_def lockParam_def Let_def)
  show ?thesis
  proof (cases "TL_Type q = TimeLockToAsset \<and> TL_StartTime q > X_now x")
    case True
    then have "\<not> lockAccepted x q" by (auto simp: lockAccepted_def)
    then show ?thesis using True q assms by (simp add: handleTimeLock_def Let_def fail_simps ledger_simps)
  next
    case now: False
    have now': "(TL_Type ?q = TimeLockToAsset \<and> TL_StartTime ?q > X_now x) = False" using now q by simp
    have h: "handleTimeLock x p db = (case TimeLock_Check q (X_timestamp x) of
         Some e \<Rightarrow> failErr x db TimeLockFunc (LB_TimeLock q) (E_check e)
       | None \<Rightarrow> do {
           v \<leftarrow> TL_Value q;
           let needValue = oneItem (MaxUint64 (TL_StartTime q) (X_timestamp x)) (TL_EndTime q) (copyMagnitude v);
           case IsValid needValue of
             Some e \<Rightarrow> failErr x db TimeLockFunc (LB_TimeLock q) (E_timeLock e)
           | None \<Rightarrow>
               if TL_Type q = AssetToTimeLock then assetToTimeLock x q v needValue db
               else if TL_Type q = TimeLockToTimeLock then timeLockToTimeLock x q needValue db
               else if TL_Type q = TimeLockToAsset then timeLockToAsset x q v needValue db
               else Some (Some Unsupported, db) })"
      unfolding handleTimeLock_def q_def lockParam_def Let_def now' if_False by (rule refl)
    show ?thesis
    proof (cases "TimeLock_Check q (X_timestamp x)")
      case (Some err)
      then show ?thesis using assms(2) by (simp add: h lockAccepted_def fail_simps ledger_simps)
    next
      case None
      then obtain v where v: "TL_Value q = Some v" "0 < v" "?s \<le> TL_EndTime q"
        by (auto simp: TimeLock_Check_def notPositive_def not_less not_le split: if_splits option.splits)
      then have valid: "IsValid (oneItem ?s (TL_EndTime q) v) = None" by (simp add: oneItem_valid)
      note runs = assetToTimeLock_runs [OF assms(2,3) _ v(3,2), of t q] timeLockToTimeLock_runs [OF assms(2,3) _ v(3,2), of t q]
        timeLockToAsset_runs [OF assms(2,3) _ v(3,2), of t q]
      show ?thesis
        unfolding h None v(1) option.case runs_simps Let_def MaxUint64_max copyMagnitude_pos [OF v(2)] valid
        using now None assms(2)
        by (auto intro!: runs_mono [OF runs(1)] runs_mono [OF runs(2)] runs_mono [OF runs(3)]
            simp: lockAccepted_def lockFunds_def lockCoins_def lockLocked_def [abs_def] lockSpan_def v span_covered still_refl not_less
            split: if_splits)
    qed
  qed
qed

section \<open>Tickets\<close>

lemma buyTicket_pay_runs:
  assumes "ledger_ok db" "X_timestamp x \<noteq> 0" "X_timestamp x \<le> s" "s \<le> e" "0 < v"
  shows "runs t (buyTicket_pay x (oneItem s e v) v db) (\<lambda>(paid, db').
    if \<forall>u. s \<le> u \<and> u \<le> e \<longrightarrow> v \<le> locked db (X_from x) SystemAssetID u
    then paid \<and> moves (X_timestamp x) db (\<lambda>a k. 0) (\<lambda>a k u. only (X_from x) SystemAssetID (- span s e v u) a k) db'
    else if v \<le> coins db (X_from x) SystemAssetID
    then paid \<and> moves (X_timestamp x) db (only (X_from x) SystemAssetID (- v)) (\<lambda>a k u. only (X_from x) SystemAssetID (v - span s e v u) a k) db'
    else \<not> paid \<and> still db db')"
proof -
  have s: "s \<noteq> 0" using assms(2,3) by (metis antisym word_zero_le)
  show ?thesis
    unfolding buyTicket_pay_def Let_def runs_simps
    apply (rule CmpOne_runs [OF assms(1,4,5) s], unfold prod.case)
    subgoal for c db1
      apply (cases "c < 0")
       apply (simp split del: if_split)
       apply (rule balanceBelow_runs [OF still_ledger], assumption)
       apply (simp split del: if_split)
       apply (intro runs_if)
        apply (simp add: ledger_simps)
       apply (simp split del: if_split)
       apply (rule SubBalance_runs [OF still_ledger, where ts = "X_timestamp x"], assumption)
        apply (simp add: still_def)
       apply (rule surplus_runs)
           apply (simp_all add: assms split del: if_split)
       apply (rule AddSurplus_runs [OF moves_ledger], assumption, assumption)
       apply (auto simp: ledger_simps not_less)[1]
      apply (rule SubOne_runs [OF still_ledger _ _ s, where ts = "X_timestamp x"], assumption)
         apply (simp_all add: assms)
       apply (simp add: still_def not_less)
      by (auto simp: ledger_simps not_less)
    done
qed

text \<open>Paying does not touch the pool of tickets.\<close>

lemma tickets_kept:
  "tickets (setStateObject db s) = tickets db" "tickets (append_entries es db) = tickets db"
  "tickets (journal_append y db) = tickets db" "tickets (snd (getStateObject db a)) = tickets db"
  using setStateObject_rest [of db s] append_entries_rest [of es db] journal_append_rest [of y db]
  by (auto simp: same_rest_def getStateObject_def setStateObject_def Let_def split: option.split)

lemma fetch_tickets: "getStateObject db a = (s, db') \<Longrightarrow> tickets db' = tickets db"
  using tickets_kept(4) [of db a] by simp

lemma GetOrNew_tickets: "GetOrNewStateObject db a = (s, db') \<Longrightarrow> tickets db' = tickets db"
  by (auto simp: GetOrNewStateObject_def createObject_def Let_def tickets_kept dest!: fetch_tickets split: prod.splits option.splits if_splits)

lemma withObject_tickets: "withObject f db a = Some db' \<Longrightarrow> tickets db' = tickets db"
  by (auto simp: withObject_def tickets_kept bind_eq_Some_conv dest!: GetOrNew_tickets split: prod.splits)

lemma pay_tickets:
  "SubBalance db a k v = Some db' \<Longrightarrow> tickets db' = tickets db"
  "AddTimeLockBalance dm db a k y ts = Some db' \<Longrightarrow> tickets db' = tickets db"
  "SubTimeLockBalance dm db a k y ts = Some db' \<Longrightarrow> tickets db' = tickets db"
  "balanceBelow db k a v = Some (b, db') \<Longrightarrow> tickets db' = tickets db"
  "lockCmp db k a y = Some (c, db') \<Longrightarrow> tickets db' = tickets db"
  unfolding SubBalance_def AddTimeLockBalance_def SubTimeLockBalance_def
  by (erule withObject_tickets)+
    (auto simp: balanceBelow_def lockCmp_def GetBalance_def GetTimeLockBalance_def bind_eq_Some_conv tickets_kept
      dest!: fetch_tickets split: prod.splits option.splits)

lemma buyTicket_pay_tickets: "buyTicket_pay x y v db = Some (b, db') \<Longrightarrow> tickets db' = tickets db"
  by (auto simp: buyTicket_pay_def Let_def bind_eq_Some_conv split: if_splits dest!: pay_tickets)

lemma addLog_tickets [simp]: "tickets (addLog x db f b kv) = tickets db"
  by (simp add: addLog_def AddLog_def Let_def tickets_kept)

lemma AllTickets_keeps:
  assumes "db_ok db" "AllTickets c db = (r, db')"
  shows "keeps db db'"
proof -
  obtain db1 where "GetData db TicketKeyAddress = (a_code (acc db TicketKeyAddress), db1)" "keeps db db1"
    using GetData_becomes [OF assms(1), of TicketKeyAddress] becomes_same_keeps by blast
  with assms show ?thesis
    by (auto simp: AllTickets_def keeps_def bal_def lck_def fun_eq_iff Let_def split: if_splits option.splits)
qed

lemma IsTicketExist_still: "ledger_ok db \<Longrightarrow> IsTicketExist c db i = (b, db') \<Longrightarrow> still db db'"
  using AllTickets_keeps [of db c] ledger_db_ok keeps_still by (fastforce simp: IsTicketExist_def split: prod.splits)

lemma AddTicket_still:
  assumes "ledger_ok db" "StateDB_AddTicket c db y = (r, db')"
  shows "still db db'"
proof -
  obtain q db1 where a: "AllTickets c db = (q, db1)" by fastforce
  then have k: "keeps db db1" using AllTickets_keeps assms(1) ledger_db_ok by blast
  moreover have "keeps db (db1\<lparr>tickets := ts\<rparr>)" for ts using k by (simp add: keeps_def bal_def lck_def fun_eq_iff)
  ultimately show ?thesis using keeps_still [OF assms(1)] assms(2) a
    by (auto simp: StateDB_AddTicket_def split: sum.splits prod.splits option.splits)
qed

lemma pay_worth:
  assumes "ledger_ok db" "X_timestamp x \<noteq> 0" "X_timestamp x \<le> s" "s \<le> e" "0 < v"
  shows "runs t (buyTicket_pay x (oneItem s e v) v db) (\<lambda>(paid, db').
    paid = ((\<forall>u. s \<le> u \<and> u \<le> e \<longrightarrow> v \<le> locked db (X_from x) SystemAssetID u) \<or> v \<le> coins db (X_from x) SystemAssetID) \<and>
    tickets db' = tickets db \<and> env db' = env db \<and> ledger_ok db' \<and> (\<not> paid \<longrightarrow> still db db') \<and>
    (paid \<longrightarrow> (\<forall>a k u. X_timestamp x \<le> u \<longrightarrow> worth db' a k u = worth db a k u - only (X_from x) SystemAssetID (span s e v u) a k)))"
  apply (rule runs_with [OF buyTicket_pay_runs [OF assms]])
  apply (clarsimp simp: buyTicket_pay_tickets split del: if_split)
  apply (auto simp: ledger_simps worth_def only_def split: if_splits)
  done

lemma ledger_tickets [simp]: "ledger_ok (db\<lparr>tickets := ts\<rparr>) = ledger_ok db" "coins (db\<lparr>tickets := ts\<rparr>) = coins db" "locked (db\<lparr>tickets := ts\<rparr>) = locked db"
  by (simp_all add: ledger_ok_def coins_def locked_def bal_def lck_def fun_eq_iff)

definition boughtTicket :: "CallContext \<Rightarrow> FSNCallParam \<Rightarrow> StateDB \<Rightarrow> Ticket" where
  "boughtTicket x p db = (let b = decBuyTicket (X_params x) (Data p); h = of_int (X_height x) in
     \<lparr>T_Owner = X_from x, T_Body = \<lparr>ID = Keccak256Hash (env db) (address_bytes (X_from x) @ hash_bytes (X_getHash x (h - 1))),
       TB_Height = h, TB_StartTime = BT_Start b, ExpireTime = BT_End b\<rparr>\<rparr>)"

lemma IsTicketExist_loaded: "tickets db \<noteq> [] \<Longrightarrow> IsTicketExist c db i = (ticket_map (tickets db) i \<noteq> None, db)"
  by (simp add: IsTicketExist_def AllTickets_def Get_map split: option.split)

lemma AddTicket_loaded:
  assumes "tickets db = ts" "ts \<noteq> []" "tickets_ok ts" "ticket_map ts (ID (T_Body y)) = None"
  obtains ts' where "StateDB_AddTicket c db y = (None, db\<lparr>tickets := ts'\<rparr>)" "tickets_ok ts'"
    "ticket_map ts' = (ticket_map ts)(ID (T_Body y) \<mapsto> y)"
  using AddTicket_ok [OF assms(3,4)] assms(1,2) that by (auto simp: StateDB_AddTicket_def AllTickets_def)

lemma handleBuyTicket_runs:
  fixes x p db
  defines "b \<equiv> decBuyTicket (X_params x) (Data p)" and "y \<equiv> boughtTicket x p db" and "v \<equiv> TicketPrice (X_height x)"
  defines "s \<equiv> max (BT_Start b) (X_timestamp x)" and "e \<equiv> BT_End b"
  assumes "ledger_ok db" "X_timestamp x \<noteq> 0" "tickets db \<noteq> []" "tickets_ok (tickets db)"
  shows "runs t (handleBuyTicket x p db) (\<lambda>(r, db').
    if ticket_map (tickets db) (ID (T_Body y)) = None \<and> BuyTicket_Check b 0 0 = None \<and> s \<le> e \<and>
      ((\<forall>u. s \<le> u \<and> u \<le> e \<longrightarrow> v \<le> locked db (X_from x) SystemAssetID u) \<or> v \<le> coins db (X_from x) SystemAssetID)
    then r = None \<and> ledger_ok db' \<and> tickets_ok (tickets db') \<and> ticket_map (tickets db') = (ticket_map (tickets db))(ID (T_Body y) \<mapsto> y) \<and>
      (\<forall>a k u. X_timestamp x \<le> u \<longrightarrow> worth db' a k u = worth db a k u - only (X_from x) SystemAssetID (span s e v u) a k)
    else r \<noteq> None \<and> still db db' \<and> tickets db' = tickets db)"
proof -
  let ?i = "Keccak256Hash (env db) (address_bytes (X_from x) @ hash_bytes (X_getHash x (of_int (X_height x) - 1)))"
  have y: "y = \<lparr>T_Owner = X_from x, T_Body = \<lparr>ID = ?i, TB_Height = of_int (X_height x), TB_StartTime = BT_Start b, ExpireTime = BT_End b\<rparr>\<rparr>"
    by (simp add: y_def boughtTicket_def b_def Let_def)
  have v: "0 < v" by (simp add: v_def TicketPrice_def)
  note simps = fail_simps still_def addLog_still [unfolded still_def]
  show ?thesis
  proof (cases "ticket_map (tickets db) ?i = None \<and> BuyTicket_Check b 0 0 = None \<and> s \<le> e")
    case False
    then show ?thesis using assms(6,8) v
      by (auto simp: handleBuyTicket_def Let_def IsTicketExist_loaded y simps b_def [symmetric] v_def [symmetric] MaxUint64_max
          s_def [symmetric] e_def [symmetric] split: option.split) (auto simp: oneItem_valid)
  next
    case True
    then have valid: "IsValid (oneItem s e v) = None" using v by (simp add: oneItem_valid)
    have ts: "X_timestamp x \<le> s" by (simp add: s_def)
    have added: "\<exists>db2. StateDB_AddTicket (X_codecs x) db1 y = (None, db2) \<and> ledger_ok db2 \<and> coins db2 = coins db1 \<and> locked db2 = locked db1 \<and>
      tickets_ok (tickets db2) \<and> ticket_map (tickets db2) = (ticket_map (tickets db))(?i \<mapsto> y)"
      if l: "ledger_ok db1" and tk: "tickets db1 = tickets db" for db1
    proof -
      have i: "ticket_map (tickets db) (ID (T_Body y)) = None" "ID (T_Body y) = ?i" using True y by simp_all
      obtain ts' where ts': "StateDB_AddTicket (X_codecs x) db1 y = (None, db1\<lparr>tickets := ts'\<rparr>)" "tickets_ok ts'"
        "ticket_map ts' = (ticket_map (tickets db))(ID (T_Body y) \<mapsto> y)"
        using AddTicket_loaded [OF tk assms(8,9) i(1)] by metis
      then show ?thesis using i(2) l by simp
    qed
    have h: "handleBuyTicket x p db = do {
             (paid, db) \<leftarrow> buyTicket_pay x (oneItem s e v) v db;
             if \<not> paid then failErr x db BuyTicketFunc (LB_Bytes (Data p)) NotEnoughTimeLockOrAsset
             else let (e, db) = StateDB_AddTicket (X_codecs x) db y in
               case e of
                 Some e \<Rightarrow> failWith x db BuyTicketFunc (LB_Bytes (Data p)) (LF_String ''unable to add ticket'') (E_state e)
               | None \<Rightarrow> Some (None, addLog x db BuyTicketFunc (LB_Bytes (Data p)) [(''TicketID'', LF_Hash ?i), (''TicketOwner'', LF_Address (X_from x))]) }"
      using True valid
      by (simp add: handleBuyTicket_def Let_def IsTicketExist_loaded assms(8) b_def [symmetric] v_def [symmetric] MaxUint64_max
          s_def [symmetric] e_def [symmetric] y cong: if_cong)
    show ?thesis
      unfolding h runs_simps
      apply (rule runs_mono [OF pay_worth [OF assms(6,7) ts _ v]])
       apply (simp add: True)
      subgoal for r
        using added [of "snd r"] True y by (cases r) (auto simp: simps worth_def)
      done
  qed
qed

subsection \<open>Notations and assets\<close>

lemma handleGenNotation_runs:
  assumes "ledger_ok db"
  shows "runs False (handleGenNotation x p db) (\<lambda>(r, db'). still db db')"
  unfolding handleGenNotation_def runs_simps
  apply (rule change_runs(9) [OF assms])
  subgoal for r db1
    using GetNotation_still(1) [of db1 "X_from x"] addLog_still [of "snd (GetNotation db1 (X_from x))"]
    by (cases r) (auto simp: fail_simps Let_def ledger_simps split: prod.split)
  done

lemma handleGenAsset_runs:
  fixes x p db defines "g \<equiv> decGenAsset (X_params x) (Data p)"
  assumes "ledger_ok db"
  shows "runs False (handleGenAsset x p db) (\<lambda>(r, db'). moves ts db
    (if r = None then only (X_from x) (X_txHash x) (the (GA_Total g)) else (\<lambda>a k. 0)) (\<lambda>a k u. 0) db')"
proof (cases "GenAsset_Check g")
  case None
  then obtain v where v: "GA_Total g = Some v" "0 \<le> v" by (auto simp: GenAsset_Check_def split: if_splits option.splits)
  show ?thesis
    unfolding handleGenAsset_def Let_def g_def [symmetric] None option.case
    apply (simp add: ToAsset_def v)
    apply (rule change_runs(1) [OF assms(2)])
    subgoal for r db1
      apply (cases r; simp add: fail_simps)
       apply (rule AddBalance_runs [OF still_ledger, where ts = ts], assumption)
      using ledger_bal(2) [of db1] v by (auto simp: ledger_simps intro: add_nonneg_nonneg)
    done
qed (use assms in \<open>simp add: handleGenAsset_def fail_simps ledger_simps\<close>)

text \<open>The supply of an asset is changed by its owner only, and reduced on the owner's account only.\<close>

definition mayChange :: "CallContext \<Rightarrow> AssetValueChangeExParam \<Rightarrow> Asset \<Rightarrow> bool" where
  "mayChange x q asset \<longleftrightarrow> A_CanChange asset \<and> A_Owner asset = X_from x \<and> (AV_IsInc q \<or> AV_To q = X_from x)"

lemma handleAssetValueChange_runs:
  fixes x p db defines "q \<equiv> decAssetValueChange (X_params x) (Data p)"
  assumes "ledger_ok db"
  shows "runs False (handleAssetValueChange x p db) (\<lambda>(r, db'). ledger_ok db' \<and>
    (case record_at (assetRLP (X_codecs x)) AssetKeyAddress db (AV_AssetID q) of
      Inr asset \<Rightarrow> if mayChange x q asset then
        r = None \<longrightarrow> moves ts db (only (AV_To q) (AV_AssetID q) (if AV_IsInc q then the (AV_Value q) else - the (AV_Value q))) (\<lambda>a k u. 0) db'
      else r \<noteq> None \<and> still db db'
    | Inl _ \<Rightarrow> r \<noteq> None \<and> still db db'))"
proof (cases "AssetValueChangeEx_Check q")
  case None
  then obtain v where v: "AV_Value q = Some v" "0 < v" by (auto simp: AssetValueChangeEx_Check_def notPositive_def split: if_splits option.splits)
  show ?thesis
    unfolding handleAssetValueChange_def Let_def q_def [symmetric] None option.case runs_simps v
    apply (rule get_runs(1) [OF assms(2)], unfold prod.case)
    subgoal for db1
      apply (cases "record_at (assetRLP (X_codecs x)) AssetKeyAddress db (AV_AssetID q)"; simp only: sum.case)
       apply (simp add: fail_simps ledger_simps)
      subgoal for asset
        apply (intro runs_if)
            apply (auto simp: mayChange_def fail_simps ledger_simps)[3]
        subgoal
          apply (simp only: runs_simps)
          apply (rule AddBalance_runs [OF still_ledger, where ts = ts], assumption)
           apply (use ledger_bal(2) [OF assms(2), of "AV_To q" "AV_AssetID q"] v(2) in \<open>simp add: still_def\<close>)
          apply (rule change_runs(2) [OF moves_ledger], assumption)
          by (auto simp: mayChange_def fail_simps ledger_simps split: option.split)
        subgoal
          apply (simp only: runs_simps)
          apply (rule balanceBelow_runs [OF still_ledger], assumption, unfold prod.case, intro runs_if)
           apply (auto simp: mayChange_def fail_simps ledger_simps)[1]
          apply (simp only: runs_simps)
          apply (rule SubBalance_runs [OF still_ledger, where ts = ts], assumption)
           apply (simp add: still_def)
          apply (rule change_runs(2) [OF moves_ledger], assumption)
          by (auto simp: mayChange_def fail_simps ledger_simps split: option.split)
        done
      done
    done
qed (use assms in \<open>simp add: handleAssetValueChange_def fail_simps ledger_simps split: sum.split\<close>)

section \<open>Properties\<close>

subsection \<open>Sending\<close>

text \<open>C13. Sending an asset never panics, succeeds exactly when the parameters are well formed and the sender has
  the amount, and then moves exactly that amount from the sender to the receiver; otherwise every
  balance is as before. Time locks never change and the ledger stays well formed.\<close>

theorem send_asset_exact:
  assumes "ledger_ok db" "funcOfCode (Func p) = SendAssetFunc" "s = decSendAsset (X_params x) (Data p)"
  shows "\<exists>r db'. handleFsnCall x p db = Some (r, db') \<and> ledger_ok db' \<and> locked db' = locked db \<and>
    (r = None \<longleftrightarrow> SendAsset_Check s = None \<and> the (SA_Value s) \<le> coins db (X_from x) (SA_AssetID s)) \<and>
    (\<forall>a k. coins db' a k = coins db a k + (if r = None \<and> k = SA_AssetID s
       then (if a = SA_To s then the (SA_Value s) else 0) - (if a = X_from x then the (SA_Value s) else 0) else 0))"
proof -
  obtain r db' where r: "handleSendAsset x p db = Some (r, db')"
    "if SendAsset_Check s = None \<and> the (SA_Value s) \<le> coins db (X_from x) (SA_AssetID s)
      then r = None \<and> moves 0 db (\<lambda>a k. only (X_from x) (SA_AssetID s) (- the (SA_Value s)) a k + only (SA_To s) (SA_AssetID s) (the (SA_Value s)) a k) (\<lambda>a k u. 0) db'
      else r \<noteq> None \<and> still db db'"
    using SendAsset_runs [OF assms(1), of True x p 0] assms(3) unfolding runs_returns by auto
  have "handleFsnCall x p db = Some (r, db')" using r(1) assms(2) by (simp add: handleFsnCall_def)
  then show ?thesis using r(2) by (auto simp: moves_def still_def only_def fun_eq_iff split: if_splits)
qed

text \<open>A context and a well-formed ledger to run calls in.\<close>

definition exampleContext :: "SendAssetParam \<Rightarrow> TimeLockParam \<Rightarrow> BuyTicketParam \<Rightarrow> CallContext" where
  "exampleContext s l b = \<lparr>X_from = 1, X_txHash = 7, X_height = 5, X_timestamp = 100, X_now = 200, X_getHash = (\<lambda>_. 0), X_debug = False,
     X_codecs = exampleCodecs, X_params = \<lparr>decFSNCall = (\<lambda>d. \<lparr>Func = 0, Data = d\<rparr>),
       decGenAsset = (\<lambda>_. \<lparr>GA_Name = [], GA_Symbol = [], GA_Decimals = 0, GA_Total = None, GA_CanChange = False, GA_Description = []\<rparr>),
       decSendAsset = (\<lambda>_. s), decTimeLock = (\<lambda>_. l), decBuyTicket = (\<lambda>_. b),
       decAssetValueChange = (\<lambda>_. \<lparr>AV_AssetID = 7, AV_To = 1, AV_Value = Some 40, AV_IsInc = True, AV_TransacData = []\<rparr>),
       decMakeSwap = (\<lambda>_. \<lparr>MS_FromAssetID = 5, MS_FromStartTime = 0, MS_FromEndTime = TimeLockForever, MS_MinFromAmount = Some 3,
         MS_ToAssetID = 7, MS_ToStartTime = 0, MS_ToEndTime = TimeLockForever, MS_MinToAmount = Some 4, MS_SwapSize = Some 10,
         MS_Targes = [], MS_Time = 0, MS_Description = []\<rparr>),
       decMakeMultiSwap = (\<lambda>_. exampleMultiSwap), decRecallSwap = (\<lambda>_. \<lparr>RS_SwapID = 7\<rparr>),
       decTakeSwap = (\<lambda>_. \<lparr>TS_SwapID = 7, TS_Size = Some 10\<rparr>)\<rparr>, X_marshal = (\<lambda>_ _. [])\<rparr>"

definition exampleSend :: SendAssetParam where "exampleSend = \<lparr>SA_AssetID = 5, SA_To = 2, SA_Value = Some 30\<rparr>"
definition exampleLock :: TimeLockParam where
  "exampleLock = \<lparr>TL_Type = AssetToTimeLock, TL_AssetID = 5, TL_To = 2, TL_StartTime = 150, TL_EndTime = 180, TL_Value = Some 30\<rparr>"
definition exampleTicket :: BuyTicketParam where "exampleTicket = \<lparr>BT_Start = 100, BT_End = 100 + 30 * 24 * 3600\<rparr>"

lemma ledger_New: "ledger_ok (New e Map.empty h cache)"
  by (simp add: ledger_ok_def db_ok_New bal_def lck_def acc_New items_ok_def)

lemma coins_New: "coins (New e Map.empty h cache) a k = 0" "locked (New e Map.empty h cache) a k u = 0"
  by (simp_all add: coins_def locked_def bal_def lck_def acc_New)

lemma funded:
  assumes "ledger_ok db" "0 \<le> v"
  obtains db' where "AddBalance db a k v = Some db'" "moves ts db (only a k v) (\<lambda>a k u. 0) db'"
  using AddBalance_runs [OF assms(1), of a k v ts "moves ts db (only a k v) (\<lambda>a k u. 0)" True] ledger_bal(2) [OF assms(1), of a k] assms(2)
  by (auto simp: runs_returns)

lemma exampleLedger:
  obtains db where "AddBalance (New hashEnv Map.empty 0 emptyTicketSlice) 1 5 100 = Some db" "ledger_ok db"
    "\<And>a k. coins db a k = (if a = 1 \<and> k = 5 then 100 else 0)" "\<And>a k u. locked db a k u = 0" "env db = hashEnv"
proof -
  obtain db where db: "AddBalance (New hashEnv Map.empty 0 emptyTicketSlice) 1 5 100 = Some db"
    "moves 0 (New hashEnv Map.empty 0 emptyTicketSlice) (only 1 5 100) (\<lambda>a k u. 0) db"
    using funded [OF ledger_New, of 100] by (metis zero_le_numeral)
  then show thesis using that [OF db(1)] by (simp add: moves_def coins_New only_def)
qed

theorem send_asset_exact_witness:
  "\<exists>db db'. AddBalance (New hashEnv Map.empty 0 emptyTicketSlice) 1 5 100 = Some db \<and>
    handleFsnCall (exampleContext exampleSend exampleLock exampleTicket) \<lparr>Func = 2, Data = []\<rparr> db = Some (None, db') \<and>
    coins db' 1 5 = 70 \<and> coins db' 2 5 = 30"
proof -
  let ?x = "exampleContext exampleSend exampleLock exampleTicket"
  obtain db where db: "AddBalance (New hashEnv Map.empty 0 emptyTicketSlice) 1 5 100 = Some db" "ledger_ok db"
    and c: "\<And>a k. coins db a k = (if a = 1 \<and> k = 5 then 100 else 0)" "\<And>a k u. locked db a k u = 0" and e: "env db = hashEnv"
    by (rule exampleLedger) blast
  have f: "funcOfCode 2 = SendAssetFunc" by (simp add: funcOfCode_def)
  have chk: "SendAsset_Check exampleSend = None" by (simp add: SendAsset_Check_def exampleSend_def notPositive_def)
  have x: "decSendAsset (X_params ?x) d = exampleSend" "X_from ?x = 1" for d by (simp_all add: exampleContext_def)
  show ?thesis
    using send_asset_exact [OF db(2), of "\<lparr>Func = 2, Data = []\<rparr>" exampleSend ?x] db(1) c chk
    by (auto simp: f x) (auto simp: exampleSend_def)
qed

subsection \<open>Locking\<close>

lemma TimeLock_call:
  assumes "ledger_ok db" "funcOfCode (Func p) = TimeLockFunc" "X_timestamp x \<noteq> 0"
  obtains r db' where "handleFsnCall x p db = Some (r, db')"
    "r = None \<longleftrightarrow> lockAccepted x (lockParam x p) \<and> lockFunds x (lockParam x p) db"
    "r = None \<Longrightarrow> moves (X_timestamp x) db (lockCoins x (lockParam x p)) (lockLocked x (lockParam x p)) db'"
    "r \<noteq> None \<Longrightarrow> still db db'"
  using handleTimeLock_runs [OF assms(1,3), of True p] assms(2) unfolding runs_returns
  by (fastforce simp: handleFsnCall_def split: if_splits)

text \<open>C5. A time lock call never panics and has one of two outcomes. It succeeds exactly when the parameter is
  accepted and the sender has the asset, or the time lock throughout the interval; then the balances
  and the amounts locked from the time of the block on change as the kind of transfer says: an asset
  that is locked goes to the receiver within the interval and stays with the sender outside it, a time
  lock passes on within the interval, and a time lock without end turns into the asset. Otherwise
  nothing changes. The ledger stays well formed.\<close>

theorem time_lock_exact:
  assumes "ledger_ok db" "funcOfCode (Func p) = TimeLockFunc" "X_timestamp x \<noteq> 0" "q = lockParam x p"
  shows "\<exists>r db'. handleFsnCall x p db = Some (r, db') \<and> ledger_ok db' \<and>
    (r = None \<longleftrightarrow> lockAccepted x q \<and> lockFunds x q db) \<and>
    (\<forall>a k. coins db' a k = coins db a k + (if r = None then lockCoins x q a k else 0)) \<and>
    (\<forall>a k u. X_timestamp x \<le> u \<longrightarrow> locked db' a k u = locked db a k u + (if r = None then lockLocked x q a k u else 0))"
proof -
  obtain r db' where "handleFsnCall x p db = Some (r, db')"
    "r = None \<longleftrightarrow> lockAccepted x q \<and> lockFunds x q db"
    "r = None \<Longrightarrow> moves (X_timestamp x) db (lockCoins x q) (lockLocked x q) db'" "r \<noteq> None \<Longrightarrow> still db db'"
    using TimeLock_call [OF assms(1-3)] assms(4) by metis
  then show ?thesis by (cases r) (auto simp: moves_def still_def)
qed

lemma funcOfCode_3: "funcOfCode 3 = TimeLockFunc"
  by (simp add: funcOfCode_def)

lemma exampleContext_simps:
  "decTimeLock (X_params (exampleContext s l b)) d = l" "decBuyTicket (X_params (exampleContext s l b)) d = b"
  "X_from (exampleContext s l b) = 1" "X_timestamp (exampleContext s l b) = 100" "X_now (exampleContext s l b) = 200"
  "X_txHash (exampleContext s l b) = 7" "X_height (exampleContext s l b) = 5" "X_getHash (exampleContext s l b) h = 0"
  "X_codecs (exampleContext s l b) = exampleCodecs"
  by (simp_all add: exampleContext_def)

lemmas lock_eval = exampleContext_simps lockAccepted_def lockFunds_def lockParam_def lockCoins_def lockLocked_def lockSpan_def
  TimeLock_Check_def notPositive_def span_def

theorem time_lock_exact_witness:
  "\<exists>db db'. AddBalance (New hashEnv Map.empty 0 emptyTicketSlice) 1 5 100 = Some db \<and>
    handleFsnCall (exampleContext exampleSend exampleLock exampleTicket) \<lparr>Func = 3, Data = []\<rparr> db = Some (None, db') \<and>
    coins db' 1 5 = 70 \<and> locked db' 2 5 160 = 30 \<and> locked db' 1 5 160 = 0 \<and> locked db' 1 5 190 = 30"
proof -
  let ?x = "exampleContext exampleSend exampleLock exampleTicket"
  obtain db where db: "AddBalance (New hashEnv Map.empty 0 emptyTicketSlice) 1 5 100 = Some db" "ledger_ok db"
    and c: "\<And>a k. coins db a k = (if a = 1 \<and> k = 5 then 100 else 0)" "\<And>a k u. locked db a k u = 0" and e: "env db = hashEnv"
    by (rule exampleLedger) blast
  have q: "lockParam ?x \<lparr>Func = 3, Data = []\<rparr> = exampleLock"
    by (simp add: lockParam_def exampleContext_simps) (simp add: exampleLock_def AssetToTimeLock_def TimeLockToAsset_def)
  have ok: "lockAccepted ?x exampleLock" "lockFunds ?x exampleLock db" by (simp_all add: lock_eval c) (simp_all add: exampleLock_def c)
  show ?thesis
    using time_lock_exact [OF db(2), of "\<lparr>Func = 3, Data = []\<rparr>" ?x exampleLock] db(1) c ok
    by (auto simp: funcOfCode_3 q exampleContext_simps) (auto simp: exampleLock_def lock_eval only_def)
qed



text \<open>C32. \<open>TimeLockToAsset\<close> compares the start of the time lock with the clock of the node, not with the time of
  the block. When that clock is ahead, a time lock that starts after the block is turned into the
  asset: between the time of the block and the start, sender and receiver together can dispose of
  \<open>v\<close> more than before.\<close>

theorem time_lock_early_asset:
  assumes "ledger_ok db" "funcOfCode (Func p) = TimeLockFunc" "X_timestamp x \<noteq> 0" "q = lockParam x p"
    "TL_Type q = TimeLockToAsset" "TL_Value q = Some v" "0 < v" "X_timestamp x < TL_StartTime q" "TL_StartTime q \<le> X_now x"
    "\<forall>w. TL_StartTime q \<le> w \<longrightarrow> v \<le> locked db (X_from x) (TL_AssetID q) w"
    "X_timestamp x \<le> u" "u < TL_StartTime q"
  shows "\<exists>db'. handleFsnCall x p db = Some (None, db') \<and>
    (\<Sum>a \<in> {X_from x, TL_To q}. worth db' a (TL_AssetID q) u) = (\<Sum>a \<in> {X_from x, TL_To q}. worth db a (TL_AssetID q) u) + v"
proof -
  obtain r db' where r: "handleFsnCall x p db = Some (r, db')" "r = None \<longleftrightarrow> lockAccepted x q \<and> lockFunds x q db"
    "r = None \<Longrightarrow> moves (X_timestamp x) db (lockCoins x q) (lockLocked x q) db'"
    using TimeLock_call [OF assms(1-3)] assms(4) by metis
  have e: "TL_EndTime q = TimeLockForever" using assms(4,5) by (simp add: lockParam_def Let_def split: if_splits)
  have "lockAccepted x q" using assms(5-9) e by (simp add: lockAccepted_def TimeLock_Check_def notPositive_def not_less)
  moreover have "lockFunds x q db"
    using assms(5,6,10) ledger_locked [OF assms(1)] by (auto simp: lockFunds_def lockSpan_def span_def)
  ultimately have "r = None" using r(2) by simp
  note m = r(3) [OF this]
  have "worth db' b (TL_AssetID q) u = worth db b (TL_AssetID q) u + (if b = TL_To q then v else 0)" for b
    using moves_worth [OF m assms(11)] assms(5,6,12) by (auto simp: lockCoins_def lockLocked_def lockSpan_def span_def only_def)
  then show ?thesis using r(1) \<open>r = None\<close> by (cases "X_from x = TL_To q") auto
qed

definition earlyLock :: TimeLockParam where
  "earlyLock = \<lparr>TL_Type = TimeLockToAsset, TL_AssetID = 5, TL_To = 2, TL_StartTime = 150, TL_EndTime = 0, TL_Value = Some 30\<rparr>"

theorem time_lock_early_asset_witness:
  "\<exists>db db'. AddTimeLockBalance False (New hashEnv Map.empty 0 emptyTicketSlice) 1 5 (oneItem 150 TimeLockForever 30) 100 = Some db \<and>
    handleFsnCall (exampleContext exampleSend earlyLock exampleTicket) \<lparr>Func = 3, Data = []\<rparr> db = Some (None, db') \<and>
    worth db 1 5 120 + worth db 2 5 120 = 0 \<and> worth db' 1 5 120 + worth db' 2 5 120 = 30"
proof -
  let ?x = "exampleContext exampleSend earlyLock exampleTicket" and ?db = "New hashEnv Map.empty 0 emptyTicketSlice"
  have "runs True (AddTimeLockBalance False ?db 1 5 (oneItem 150 TimeLockForever 30) 100)
    (\<lambda>db. moves 100 ?db (\<lambda>a k. 0) (\<lambda>b j u. only 1 5 (span 150 TimeLockForever 30 u) b j) db)"
    by (rule AddOne_runs [OF ledger_New]) auto
  then obtain db where db: "AddTimeLockBalance False ?db 1 5 (oneItem 150 TimeLockForever 30) 100 = Some db"
    "moves 100 ?db (\<lambda>a k. 0) (\<lambda>b j u. only 1 5 (span 150 TimeLockForever 30 u) b j) db" by (auto simp: runs_returns)
  have q: "lockParam ?x \<lparr>Func = 3, Data = []\<rparr> = earlyLock\<lparr>TL_EndTime := TimeLockForever\<rparr>"
    by (simp add: lockParam_def exampleContext_simps) (simp add: earlyLock_def)
  have l: "30 \<le> locked db 1 5 w" if "150 \<le> w" for w
    using db(2) that order_trans [of 100 150 w] by (simp add: moves_def coins_New)
  have w: "worth db a 5 120 = 0" for a using db(2) by (simp add: moves_def coins_New worth_def only_def span_def)
  show ?thesis
    using time_lock_early_asset [OF moves_ledger [OF db(2)], of "\<lparr>Func = 3, Data = []\<rparr>" ?x "earlyLock\<lparr>TL_EndTime := TimeLockForever\<rparr>" 30 120] db(1) l w
    by (auto simp: funcOfCode_3 q exampleContext_simps) (auto simp: earlyLock_def)
qed

lemma runs_pair: "runs True m (\<lambda>(r, db'). Q r db') \<longleftrightarrow> (\<exists>r db'. m = Some (r, db') \<and> Q r db')"
  by (auto simp: runs_returns)

subsection \<open>Tickets and supplies\<close>

text \<open>C12. Buying a ticket never panics. With a pool loaded, the call succeeds exactly when the identifier is
  new, the lifetime is accepted and the sender can pay the price, out of a time lock over the lifetime
  or else out of the balance. Then the pool gains exactly the ticket, owned by the sender, and what the
  sender can dispose of is reduced by the price within the lifetime and nowhere else; otherwise the
  pool and all funds are as before.\<close>

theorem ticket_purchase:
  assumes "ledger_ok db" "funcOfCode (Func p) = BuyTicketFunc" "X_timestamp x \<noteq> 0" "tickets db \<noteq> []" "tickets_ok (tickets db)"
    "b = decBuyTicket (X_params x) (Data p)" "y = boughtTicket x p db" "v = TicketPrice (X_height x)"
    "s = max (BT_Start b) (X_timestamp x)" "e = BT_End b"
  shows "\<exists>r db'. handleFsnCall x p db = Some (r, db') \<and> ledger_ok db' \<and>
    (r = None \<longleftrightarrow> ticket_map (tickets db) (ID (T_Body y)) = None \<and> BuyTicket_Check b 0 0 = None \<and> s \<le> e \<and>
      ((\<forall>u. s \<le> u \<and> u \<le> e \<longrightarrow> v \<le> locked db (X_from x) SystemAssetID u) \<or> v \<le> coins db (X_from x) SystemAssetID)) \<and>
    ticket_map (tickets db') = (if r = None then (ticket_map (tickets db))(ID (T_Body y) \<mapsto> y) else ticket_map (tickets db)) \<and>
    (\<forall>a k u. X_timestamp x \<le> u \<longrightarrow> worth db' a k u = worth db a k u -
      (if r = None \<and> a = X_from x \<and> k = SystemAssetID \<and> s \<le> u \<and> u \<le> e then v else 0))"
proof -
  define C where "C \<longleftrightarrow> ticket_map (tickets db) (ID (T_Body y)) = None \<and> BuyTicket_Check b 0 0 = None \<and> s \<le> e \<and>
      ((\<forall>u. s \<le> u \<and> u \<le> e \<longrightarrow> v \<le> locked db (X_from x) SystemAssetID u) \<or> v \<le> coins db (X_from x) SystemAssetID)"
  have "runs True (handleBuyTicket x p db) (\<lambda>(r, db'). if C
      then r = None \<and> ledger_ok db' \<and> tickets_ok (tickets db') \<and> ticket_map (tickets db') = (ticket_map (tickets db))(ID (T_Body y) \<mapsto> y) \<and>
        (\<forall>a k u. X_timestamp x \<le> u \<longrightarrow> worth db' a k u = worth db a k u - only (X_from x) SystemAssetID (span s e v u) a k)
      else r \<noteq> None \<and> still db db' \<and> tickets db' = tickets db)"
    unfolding C_def assms(6-10) by (rule handleBuyTicket_runs [OF assms(1,3-5)])
  then obtain r db' where r: "handleFsnCall x p db = Some (r, db')"
    "if C then r = None \<and> ledger_ok db' \<and> tickets_ok (tickets db') \<and> ticket_map (tickets db') = (ticket_map (tickets db))(ID (T_Body y) \<mapsto> y) \<and>
        (\<forall>a k u. X_timestamp x \<le> u \<longrightarrow> worth db' a k u = worth db a k u - only (X_from x) SystemAssetID (span s e v u) a k)
      else r \<noteq> None \<and> still db db' \<and> tickets db' = tickets db"
    unfolding runs_pair using assms(2) by (auto simp: handleFsnCall_def)
  show ?thesis
    unfolding C_def [symmetric]
    by (rule exI [of _ r], rule exI [of _ db'], cases C)
      (use r in \<open>auto simp: only_def span_def still_def worth_def\<close>)
qed

definition constEnv :: Env where "constEnv = hashEnv\<lparr>Keccak256Hash := \<lambda>_. 9\<rparr>"

theorem ticket_purchase_witness:
  "\<exists>db db'. AddBalance ((New constEnv Map.empty 0 emptyTicketSlice)\<lparr>tickets := examplePool\<rparr>) 1 SystemAssetID (6000 * 10 ^ 18) = Some db \<and>
    handleFsnCall (exampleContext exampleSend exampleLock exampleTicket) \<lparr>Func = 4, Data = []\<rparr> db = Some (None, db') \<and>
    map_option T_Owner (ticket_map (tickets db') 9) = Some 1 \<and> worth db' 1 SystemAssetID 200 = 1000 * 10 ^ 18"
proof -
  let ?n = "(New constEnv Map.empty 0 emptyTicketSlice)\<lparr>tickets := examplePool\<rparr>"
  let ?x = "exampleContext exampleSend exampleLock exampleTicket" and ?p = "\<lparr>Func = 4, Data = []\<rparr> :: FSNCallParam"
  have n: "ledger_ok ?n" by (simp add: ledger_New)
  obtain db where db: "AddBalance ?n 1 SystemAssetID (6000 * 10 ^ 18) = Some db"
    "moves 0 ?n (only 1 SystemAssetID (6000 * 10 ^ 18)) (\<lambda>a k u. 0) db"
    using funded [OF n, of "6000 * 10 ^ 18" 1 SystemAssetID 0] by auto
  have t: "tickets db = examplePool" using withObject_tickets db(1) by (fastforce simp: AddBalance_def)
  have env: "env db = constEnv" using db(2) by (simp add: moves_def)
  have c: "coins db 1 SystemAssetID = 6000 * 10 ^ 18" "locked db 1 SystemAssetID 200 = 0" using db(2) by (simp_all add: moves_def coins_New)
  have pool: "examplePool \<noteq> []" "tickets_ok examplePool" "ticket_map examplePool 9 = None" by (simp add: examplePool_def) code_simp+
  have i: "ID (T_Body (boughtTicket ?x ?p db)) = 9" "T_Owner (boughtTicket ?x ?p db) = 1"
    by (simp_all add: boughtTicket_def env constEnv_def exampleContext_simps Let_def)
  have f: "funcOfCode 4 = BuyTicketFunc" by (simp add: funcOfCode_def)
  have chk: "BuyTicket_Check exampleTicket 0 0 = None" by (simp add: BuyTicket_Check_def exampleTicket_def)
  have lt: "BT_Start exampleTicket = 100" "BT_End exampleTicket = 2592100" by (simp_all add: exampleTicket_def)
  have enough: "TicketPrice 5 \<le> coins db 1 SystemAssetID" "TicketPrice 5 = 5000 * 10 ^ 18" by (simp_all add: c TicketPrice_def)
  from ticket_purchase [OF moves_ledger [OF db(2)], of ?p ?x exampleTicket, OF _ _ _ _ _ refl refl refl refl]
  obtain r db' where r: "handleFsnCall ?x ?p db = Some (r, db')" "r = None"
    "ticket_map (tickets db') = (ticket_map (tickets db))(9 \<mapsto> boughtTicket ?x ?p db)"
    "\<forall>a k u. 100 \<le> u \<longrightarrow> worth db' a k u = worth db a k u - (if a = 1 \<and> k = SystemAssetID \<and> 100 \<le> u \<and> u \<le> 2592100 then TicketPrice 5 else 0)"
    using pool chk i(1) enough(1) by (auto simp: f t exampleContext_simps lt)
  have "worth db' 1 SystemAssetID 200 = 1000 * 10 ^ 18"
    using r(4) [rule_format, of 200 1 SystemAssetID] c enough(2) by (simp add: worth_def)
  then show ?thesis using db(1) r(1-3) i(2) by auto
qed

lemma handleBuyTicket_ledger:
  assumes "ledger_ok db" "X_timestamp x \<noteq> 0"
  shows "runs t (handleBuyTicket x p db) (\<lambda>(r, db'). ledger_ok db')"
proof -
  let ?b = "decBuyTicket (X_params x) (Data p)" and ?v = "TicketPrice (X_height x)"
  let ?s = "max (BT_Start ?b) (X_timestamp x)"
  obtain ex db0 where ex: "IsTicketExist (X_codecs x) db (Keccak256Hash (env db) (address_bytes (X_from x) @ hash_bytes (X_getHash x (of_int (X_height x) - 1)))) = (ex, db0)"
    by fastforce
  have l: "ledger_ok db0" using still_ledger [OF IsTicketExist_still [OF assms(1) ex]] .
  have v: "0 < ?v" by (simp add: TicketPrice_def)
  have add: "ledger_ok db2" if "StateDB_AddTicket c db1 y = (r, db2)" "ledger_ok db1" for c db1 y r db2
    using still_ledger [OF AddTicket_still [OF that(2,1)]] .
  have pay: "runs t (buyTicket_pay x (oneItem ?s (BT_End ?b) ?v) ?v db0) (\<lambda>(paid, db'). ledger_ok db')" if "?s \<le> BT_End ?b"
    by (rule runs_mono [OF pay_worth [OF l assms(2) _ that v]]) auto
  show ?thesis
    unfolding handleBuyTicket_def Let_def ex prod.case MaxUint64_max
    using l addLog_still [OF l, unfolded still_def]
    apply (simp add: fail_simps split: option.split)
    apply (intro impI)
    apply (subgoal_tac "?s \<le> BT_End ?b")
     prefer 2 apply (simp add: oneItem_valid)
    apply (rule runs_mono [OF pay], assumption)
    by (auto simp: fail_simps addLog_still [unfolded still_def] split: prod.splits option.splits dest: add)
qed

text \<open>C15. A call that sends an asset, locks or unlocks one, or buys a ticket returns, whatever its parameters
  are, in a block with a time stamp; so does a call with a code that has no handler. No balance or time
  lock becomes invalid.\<close>

theorem transfer_calls_return:
  assumes "ledger_ok db" "X_timestamp x \<noteq> 0"
    "funcOfCode (Func p) \<in> {SendAssetFunc, TimeLockFunc, BuyTicketFunc, OldAssetValueChangeFunc, EmptyFunc} \<union> range OtherFunc"
  shows "\<exists>r db'. handleFsnCall x p db = Some (r, db') \<and> ledger_ok db'"
proof -
  have "runs True (handleSendAsset x p db) (\<lambda>(r, db'). ledger_ok db')"
    by (rule runs_mono [OF SendAsset_runs [OF assms(1), where ts = 0]]) (auto simp: moves_def still_def split: if_splits)
  moreover have "runs True (handleTimeLock x p db) (\<lambda>(r, db'). ledger_ok db')"
    by (rule runs_mono [OF handleTimeLock_runs [OF assms(1,2)]]) (auto simp: moves_def still_def split: if_splits)
  ultimately show ?thesis
    using handleBuyTicket_ledger [OF assms(1,2), of True p] assms(1,3) unfolding runs_pair
    by (auto simp: handleFsnCall_def)
qed

theorem transfer_calls_return_witness:
  "\<exists>r db'. handleFsnCall (exampleContext exampleSend exampleLock exampleTicket) \<lparr>Func = 4, Data = []\<rparr>
    (New hashEnv Map.empty 0 emptyTicketSlice) = Some (r, db') \<and> ledger_ok db'"
  using transfer_calls_return [OF ledger_New, of "exampleContext exampleSend exampleLock exampleTicket" "\<lparr>Func = 4, Data = []\<rparr>"]
  by (simp add: exampleContext_simps funcOfCode_def)


definition supplyCodecs :: Codecs where
  "supplyCodecs = exampleCodecs\<lparr>assetRLP := pairCodec \<lparr>P_Deleted = False, P_Value = exampleAsset 0\<rparr>
     \<lparr>P_Deleted = False, P_Value = (exampleAsset 0)\<lparr>A_Total := 140\<rparr>\<rparr>\<rparr>"

lemma pairCodec_encode: "EncodeToBytes (pairCodec v w) v = Some [1]" "v \<noteq> w \<Longrightarrow> EncodeToBytes (pairCodec v w) w = Some [2]"
  by (auto simp: pairCodec_def)

lemma issuedAsset:
  obtains db where "GenAsset supplyCodecs (New hashEnv Map.empty 0 emptyTicketSlice) (exampleAsset 0) = Some (None, db)" "ledger_ok db"
    "record_at (assetRLP supplyCodecs) AssetKeyAddress db 7 = Inr (exampleAsset 0)" "readable db AssetKeyAddress (hash_bytes 7)" "coins db = (\<lambda>a k. 0)"
    "env db = hashEnv" "\<And>A. A \<noteq> AssetKeyAddress \<Longrightarrow> a_storage (acc db A) = (\<lambda>_. 0)" "\<And>a. a_notation (acc db a) = 0"
proof -
  let ?db = "New hashEnv Map.empty 0 emptyTicketSlice" and ?c = supplyCodecs
  have c: "codec_ok (assetRLP ?c)" "EncodeToBytes (assetRLP ?c) \<lparr>P_Deleted = False, P_Value = exampleAsset 0\<rparr> = Some [1]"
    by (simp_all add: supplyCodecs_def pairCodec_ok pairCodec_encode)
  have i: "A_ID (exampleAsset 0) = 7" by (simp add: exampleAsset_def)
  obtain db where db: "GenAsset ?c ?db (exampleAsset 0) = Some (None, db)"
    using add_record_becomes [OF db_ok_New New_record(2), where rlp = "assetRLP ?c" and r = "exampleAsset 0"] c i
    by (fastforce simp: record_changes New_record)
  have f: "struct_fits (env ?db) (hash_bytes 7) [1]" by (simp add: hashEnv_keys)
  have "record_at (assetRLP ?c) AssetKeyAddress db 7 = Inr (exampleAsset 0)" "readable db AssetKeyAddress (hash_bytes 7)"
    and b: "becomes ?db (put_struct (env ?db) AssetKeyAddress (hash_bytes 7) [1] (acc ?db)) db"
    using added_record [OF db_ok_New db [unfolded record_changes i] c f] by simp_all
  moreover have "still ?db db" using keeps_still [OF ledger_New record_keeps(4) [OF db_ok_New db]] .
  moreover have "a_storage (acc db A) = (\<lambda>_. 0)" if "A \<noteq> AssetKeyAddress" for A
    using that by (simp add: becomes_acc [OF b] put_struct_def storage_New)
  moreover have "a_notation (acc db a) = 0" for a by (simp add: becomes_acc [OF b] put_struct_def acc_New)
  ultimately show thesis using that [OF db] by (simp add: still_def coins_New fun_eq_iff)
qed


end
