(* ===== verification/Fsn_Swaps.thy ===== *)
theory Fsn_Swaps
  imports Fsn_Transfers
begin

text \<open>
  Swaps and multi-swaps: what making, recalling and taking an offer does to what the accounts can
  dispose of, leg by leg, and that every special call keeps the ledger well formed.
\<close>

subsection \<open>Legs of swaps\<close>

text \<open>A step that changes by \<open>f\<close> what the accounts can dispose of from time \<open>ts\<close> on.\<close>

definition pays :: "uint64 \<Rightarrow> StateDB \<Rightarrow> (Address \<Rightarrow> Hash \<Rightarrow> uint64 \<Rightarrow> int) \<Rightarrow> StateDB \<Rightarrow> bool" where
  "pays ts db f db' \<longleftrightarrow> ledger_ok db' \<and> env db' = env db \<and> (\<forall>a k u. ts \<le> u \<longrightarrow> worth db' a k u = worth db a k u + f a k u)"

lemma moves_pays: "moves ts db f g db' \<Longrightarrow> pays ts db (\<lambda>a k u. f a k + g a k u) db'"
  by (simp add: moves_def pays_def worth_def)

lemma still_pays: "still db db' \<Longrightarrow> pays ts db (\<lambda>a k u. 0) db'"
  by (simp add: still_def pays_def worth_def)

lemma pays_trans: "pays ts db f db1 \<Longrightarrow> pays ts db1 g db2 \<Longrightarrow> pays ts db (\<lambda>a k u. f a k u + g a k u) db2"
  by (simp add: pays_def)

lemma pays_still: "pays ts db f db1 \<Longrightarrow> still db1 db2 \<Longrightarrow> pays ts db f db2"
  using pays_trans [of ts db f db1 "\<lambda>a k u. 0" db2] still_pays [of db1 db2 ts] by simp

lemma still_pays_trans: "still db db1 \<Longrightarrow> pays ts db1 f db2 \<Longrightarrow> pays ts db f db2"
  using pays_trans [of ts db "\<lambda>a k u. 0" db1 f db2] still_pays [of db db1 ts] by simp

lemma pays_ledger: "pays ts db f db' \<Longrightarrow> ledger_ok db'"
  by (simp add: pays_def)

lemma pays_cong: "pays ts db f db' \<Longrightarrow> (\<And>a k u. ts \<le> u \<Longrightarrow> f a k u = g a k u) \<Longrightarrow> pays ts db g db'"
  by (simp add: pays_def)

text \<open>What a leg is worth at a time: \<open>total'\<close> always, or within the interval.\<close>

definition legAmount :: "uint64 \<Rightarrow> uint64 \<Rightarrow> int \<Rightarrow> uint64 \<Rightarrow> int" where
  "legAmount start ende total' u = (if useAsset start ende then total' else span start ende total' u)"

lemma legAmount_mult: "legAmount start ende (v * n) u = legAmount start ende v u * n"
  by (simp add: legAmount_def span_def)

definition legWorth :: "Leg \<Rightarrow> uint64 \<Rightarrow> int" where
  "legWorth g u = (case leg_need g of None \<Rightarrow> leg_total g | Some need \<Rightarrow> (case Items need of [item] \<Rightarrow> item_amount item u | _ \<Rightarrow> 0))"

definition leg_good :: "CallContext \<Rightarrow> Leg \<Rightarrow> bool" where
  "leg_good x g \<longleftrightarrow> 0 < leg_total g \<and> (case leg_need g of None \<Rightarrow> True | Some need \<Rightarrow> \<exists>s e. X_timestamp x \<le> s \<and> need = oneItem s e (leg_total g))"

lemma newLeg_good: "0 < total' \<Longrightarrow> leg_good x (newLeg x k start ende total')"
  by (auto simp: leg_good_def newLeg_def MaxUint64_max) (metis max.cobounded2)

lemma newLeg_worth:
  "0 \<le> total' \<Longrightarrow> X_timestamp x \<le> u \<Longrightarrow> legWorth (newLeg x k start ende total') u = legAmount start ende total' u"
  by (auto simp: legWorth_def newLeg_def legAmount_def MaxUint64_max span_def)

lemma newLeg_asset [simp]: "leg_asset (newLeg x k start ende total') = k" "leg_total (newLeg x k start ende total') = total'"
  by (simp_all add: newLeg_def)

lemma creditLeg_runs:
  assumes "ledger_ok db" "leg_good x g"
    "\<And>db'. pays (X_timestamp x) db (\<lambda>a k u. only addr (leg_asset g) (legWorth g u) a k) db' \<Longrightarrow> Q db'"
  shows "runs t (creditLeg x addr g db) Q"
proof (cases "leg_need g")
  case None
  show ?thesis
    unfolding creditLeg_def None option.case
    by (rule AddBalance_runs [OF assms(1), where ts = "X_timestamp x"])
      (use assms(2) ledger_bal(2) [OF assms(1), of addr "leg_asset g"] assms(3) moves_pays None in \<open>fastforce simp: leg_good_def legWorth_def\<close>)+
next
  case (Some need)
  then obtain s e where n: "X_timestamp x \<le> s" "need = oneItem s e (leg_total g)" "0 < leg_total g" using assms(2) by (auto simp: leg_good_def)
  show ?thesis
  proof (cases "s \<le> e")
    case True
    then have "IsValid need = None" using n by (simp add: oneItem_valid)
    then show ?thesis
      unfolding creditLeg_def Some option.case n(2)
      by (simp, intro AddOne_runs [OF assms(1)])
        (use True n assms(3) Some in \<open>auto simp: legWorth_def dest!: moves_pays\<close>)
  next
    case False
    then have "legWorth g u = 0" for u using Some n by (auto simp: legWorth_def span_def)
    moreover have "IsValid need \<noteq> None" using False n by (simp add: oneItem_valid)
    ultimately show ?thesis using assms(1) assms(3) [of db] Some by (auto simp: creditLeg_def pays_def)
  qed
qed

lemma deductLeg_runs:
  assumes "ledger_ok db" "leg_good x g" "legValid g" "X_timestamp x \<noteq> 0"
    "\<And>err db'. pays (X_timestamp x) db (\<lambda>a k u. 0) db' \<Longrightarrow> Q (Some err, db')"
    "\<And>db'. pays (X_timestamp x) db (\<lambda>a k u. - only (X_from x) (leg_asset g) (legWorth g u) a k) db' \<Longrightarrow> Q (None, db')"
  shows "runs t (deductLeg x g db) Q"
proof (cases "leg_need g")
  case None
  show ?thesis
    unfolding deductLeg_def None option.case runs_simps
    apply (rule balanceBelow_runs [OF assms(1)], unfold prod.case, intro runs_if)
     apply (simp add: assms(5) still_pays)
    apply simp
    apply (rule SubBalance_runs [OF still_ledger, where ts = "X_timestamp x"], assumption)
     apply (simp add: still_def)
    apply (rule assms(6))
    using None by (auto simp: pays_def worth_def ledger_simps legWorth_def only_def)
next
  case (Some need)
  then obtain s e where n: "X_timestamp x \<le> s" "need = oneItem s e (leg_total g)" "0 < leg_total g" using assms(2) by (auto simp: leg_good_def)
  have se: "s \<le> e" using assms(3) Some n by (simp add: legValid_def oneItem_valid)
  have s0: "s \<noteq> 0" using assms(4) n(1) by (metis antisym word_zero_le)
  show ?thesis
    unfolding deductLeg_def Some option.case runs_simps n(2)
    apply (rule fundLock_runs [OF assms(1) n(1) assms(4) se n(3)])
     apply (auto simp: split: prod.split intro!: assms(5) still_pays)[1]
    apply simp
    apply (rule SubOne_runs [OF moves_ledger se n(3) s0, where ts = "X_timestamp x"], assumption)
     apply simp
    apply (rule assms(6))
    using Some n by (auto simp: pays_def worth_def ledger_simps legWorth_def only_def)
qed

lemma payOut_creditLeg: "payOut x addr k start ende total' db = creditLeg x addr (newLeg x k start ende total') db"
  by (simp add: payOut_def creditLeg_def newLeg_def Let_def)

subsection \<open>Swaps\<close>

definition swap_sound :: "Swap \<Rightarrow> bool" where
  "swap_sound s \<longleftrightarrow> 0 < S_MinFromAmount s \<and> 0 < S_MinToAmount s \<and> 0 < S_SwapSize s"

lemma payOut_runs:
  assumes "ledger_ok db" "0 < total'"
    "\<And>db'. pays (X_timestamp x) db (\<lambda>a k u. only addr i (legAmount start ende total' u) a k) db' \<Longrightarrow> Q db'"
  shows "runs t (payOut x addr i start ende total' db) Q"
  unfolding payOut_creditLeg
  by (rule creditLeg_runs [OF assms(1) newLeg_good [OF assms(2)]])
    (use assms(2) newLeg_worth [of total' x _ i start ende] in \<open>auto intro!: assms(3) elim!: pays_cong\<close>)

lemma handleRecallSwap_runs:
  fixes x p db defines "q \<equiv> decRecallSwap (X_params x) (Data p)"
  assumes "ledger_ok db" "record_at (swapRLP (X_codecs x)) SwapKeyAddress db (RS_SwapID q) = Inr s" "swap_sound s"
  shows "runs False (handleRecallSwap x p db) (\<lambda>(r, db'). pays (X_timestamp x) db (\<lambda>a k u.
    if r = None \<and> S_FromAssetID s \<noteq> OwnerUSANAssetID
    then only (X_from x) (S_FromAssetID s) (legAmount (S_FromStartTime s) (S_FromEndTime s) (S_MinFromAmount s * S_SwapSize s) u) a k else 0) db' \<and>
    (r = None \<longrightarrow> S_Owner s = X_from x))"
proof -
  have tot: "0 < S_MinFromAmount s * S_SwapSize s" using assms(4) by (simp add: swap_sound_def)
  show ?thesis
    unfolding handleRecallSwap_def Let_def q_def [symmetric] runs_simps
    apply (rule get_runs(2) [OF assms(2)], unfold prod.case assms(3) sum.case, intro runs_if)
     apply (simp add: fail_simps pays_def worth_def ledger_simps)
    apply (simp split del: if_split)
    apply (rule change_runs(5) [OF still_ledger], assumption, unfold prod.case)
    subgoal for db1 r db2
      apply (cases r; simp add: fail_simps split del: if_split)
       apply (intro runs_if)
        apply (rule payOut_runs [OF still_ledger tot], assumption)
      by (auto simp: fail_simps pays_def worth_def ledger_simps)
    done
qed

text \<open>The sender can pay a leg.\<close>

definition ready :: "CallContext \<Rightarrow> Leg \<Rightarrow> StateDB \<Rightarrow> bool" where
  "ready x g db \<longleftrightarrow> (case leg_need g of None \<Rightarrow> leg_total g \<le> coins db (X_from x) (leg_asset g)
     | Some need \<Rightarrow> (\<forall>item \<in> set (Items need). \<forall>u. StartTime item \<le> u \<and> u \<le> EndTime item \<longrightarrow> Value item \<le> locked db (X_from x) (leg_asset g) u))"

lemma ready_still: "ready x g db \<Longrightarrow> still db db' \<Longrightarrow> ready x g db'"
  by (simp add: ready_def still_def split: option.splits)

lemma takeLeg_runs:
  assumes "ledger_ok db" "leg_good x g" "legValid g" "X_timestamp x \<noteq> 0" "ready x g db"
    "\<And>db'. pays (X_timestamp x) db (\<lambda>a k u. - only (X_from x) (leg_asset g) (legWorth g u) a k) db' \<Longrightarrow> same_storage db db' \<Longrightarrow> Q db'"
  shows "runs t (case leg_need g of None \<Rightarrow> SubBalance db (X_from x) (leg_asset g) (leg_total g)
    | Some need \<Rightarrow> SubTimeLockBalance (X_debug x) db (X_from x) (leg_asset g) need (X_timestamp x)) Q"
proof (cases "leg_need g")
  case None
  show ?thesis
    unfolding None option.case
    apply (rule SubBalance_runs [OF assms(1), where ts = "X_timestamp x"])
     apply (use assms(5) None in \<open>simp add: ready_def\<close>)
    apply (rule assms(6))
    using None by (auto simp: pays_def worth_def ledger_simps legWorth_def only_def)
next
  case (Some need)
  then obtain s e where n: "X_timestamp x \<le> s" "need = oneItem s e (leg_total g)" "0 < leg_total g" using assms(2) by (auto simp: leg_good_def)
  have se: "s \<le> e" using assms(3) Some n by (simp add: legValid_def oneItem_valid)
  have s0: "s \<noteq> 0" using assms(4) n(1) by (metis antisym word_zero_le)
  show ?thesis
    unfolding Some option.case n(2)
    apply (rule SubOne_runs [OF assms(1) se n(3) s0, where ts = "X_timestamp x"])
     apply (use assms(5) Some n in \<open>simp add: ready_def\<close>)
    apply (rule assms(6))
    using Some n by (auto simp: pays_def worth_def ledger_simps legWorth_def only_def)
qed

lemma fundLeg_runs:
  assumes "ledger_ok db" "leg_good x g" "legValid g" "X_timestamp x \<noteq> 0"
    "\<And>err db'. still db db' \<Longrightarrow> Q (Some err, db')"
    "\<And>db'. pays (X_timestamp x) db (\<lambda>a k u. 0) db' \<Longrightarrow> ready x g db' \<Longrightarrow> Q (None, db')"
  shows "runs t (case leg_need g of
      None \<Rightarrow> do { (below, db) \<leftarrow> balanceBelow db (leg_asset g) (X_from x) (leg_total g);
        Some (if below then Some (LF_Error NotEnoughFromAsset, NotEnoughFromAsset) else None, db) }
    | Some need \<Rightarrow> fundLock x legacy msg msg' (leg_asset g) (leg_total g) need db) Q"
proof (cases "leg_need g")
  case None
  show ?thesis
    unfolding None option.case runs_simps
    apply (rule balanceBelow_runs [OF assms(1)])
    using assms(5,6) None by (auto simp: still_pays ready_def still_def not_less)
next
  case (Some need)
  then obtain s e where n: "X_timestamp x \<le> s" "need = oneItem s e (leg_total g)" "0 < leg_total g" using assms(2) by (auto simp: leg_good_def)
  have se: "s \<le> e" using assms(3) Some n by (simp add: legValid_def oneItem_valid)
  show ?thesis
    unfolding Some option.case n(2)
    apply (rule fundLock_runs [OF assms(1) n(1) assms(4) se n(3)])
     apply (erule assms(5))
    apply (rule assms(6))
    using Some n by (auto simp: pays_def worth_def ledger_simps ready_def only_def)
qed

lemma MakeSwap_fund_leg: "MakeSwap_fund x f k v need db = (case need of
      None \<Rightarrow> do { (below, db) \<leftarrow> balanceBelow db k (X_from x) v;
        Some (if below then Some (LF_Error NotEnoughFromAsset, NotEnoughFromAsset) else None, db) }
    | Some need \<Rightarrow> fundLock x (f = MakeSwapFunc) ''not enough time lock or asset balance'' ''not enough time lock or asset balance'' k v need db)"
  by (simp add: MakeSwap_fund_def)

lemma MakeSwap_terms_leg:
  fixes x
  assumes "MS_MinFromAmount m = Some v" "MS_SwapSize m = Some n" "MS_FromAssetID m \<noteq> OwnerUSANAssetID"
  defines "g \<equiv> newLeg x (MS_FromAssetID m) (MS_FromStartTime m) (MS_FromEndTime m) (v * n)"
  shows "MakeSwap_terms x m i = Some (if legValid g then Inr (m, leg_need g = None, v * n, leg_need g)
    else Inl (E_timeLock (the (IsValid (the (leg_need g))))))"
  using assms by (auto simp: MakeSwap_terms_def bigMul_def newLeg_def legValid_def Let_def split: option.split)

lemmas leaf_simps = pays_def worth_def ledger_simps fail_simps

lemma MakeSwap_tail:
  assumes "ledger_ok db" "leg_good x g" "legValid g" "X_timestamp x \<noteq> 0"
  shows "runs False (do {
      (e, db) \<leftarrow> MakeSwap_fund x f (leg_asset g) (leg_total g) (leg_need g) db;
      (case e of
         Some (txt, e) \<Rightarrow> failWith x db MakeSwapFunc base txt e
       | None \<Rightarrow> do {
           (e, db) \<leftarrow> AddSwap c db swap;
           (case e of
             Some e \<Rightarrow> failWith x db MakeSwapFunc base (LF_String ''System error can't add swap'') (E_state e)
           | None \<Rightarrow> do {
               db \<leftarrow> (case leg_need g of
                   None \<Rightarrow> SubBalance db (X_from x) (leg_asset g) (leg_total g)
                 | Some needValue \<Rightarrow> SubTimeLockBalance (X_debug x) db (X_from x) (leg_asset g) needValue (X_timestamp x));
               Some (None, addLog x db MakeSwapFunc base [(''SwapID'', LF_Hash (S_ID swap))]) }) }) })
    (\<lambda>(r, db'). pays (X_timestamp x) db (\<lambda>a k u. if r = None then - only (X_from x) (leg_asset g) (legWorth g u) a k else 0) db' \<and>
      (r = None \<longrightarrow> fileable (swapRLP c) (env db) (S_ID swap) swap \<longrightarrow> record_at (swapRLP c) SwapKeyAddress db' (S_ID swap) = Inr swap))"
  unfolding MakeSwap_fund_leg runs_simps
  apply (rule fundLeg_runs [OF assms])
   apply (simp add: leaf_simps split: prod.split)
  apply (simp split del: if_split)
  apply (unfold record_changes, rule add_runs [OF pays_ledger], assumption, unfold prod.case)
  subgoal for db1 r db2
    apply (cases r; simp add: fail_simps)
     apply (rule takeLeg_runs [OF still_ledger assms(2-4) ready_still], assumption, assumption, assumption)
     apply (simp add: leaf_simps addLog_record same_storage_record)
    by (simp add: leaf_simps)
  done

lemma handleMakeSwap_runs:
  fixes x p db defines "m \<equiv> decMakeSwap (X_params x) (Data p)"
  assumes "ledger_ok db" "X_timestamp x \<noteq> 0"
  shows "runs False (handleMakeSwap x f p db) (\<lambda>(r, db'). pays (X_timestamp x) db (\<lambda>a k u.
    if r = None \<and> MS_FromAssetID m \<noteq> OwnerUSANAssetID
    then - only (X_from x) (MS_FromAssetID m) (legAmount (MS_FromStartTime m) (MS_FromEndTime m) (the (MS_MinFromAmount m) * the (MS_SwapSize m)) u) a k else 0) db' \<and>
    (r = None \<and> MS_FromAssetID m \<noteq> OwnerUSANAssetID \<longrightarrow> MakeSwap_Check m (X_timestamp x) = None \<and>
      (let s = MakeSwap_swap x m (fst (GetNotation db (X_from x))) in
        fileable (swapRLP (X_codecs x)) (env db) (X_txHash x) s \<longrightarrow> record_at (swapRLP (X_codecs x)) SwapKeyAddress db' (X_txHash x) = Inr s)))"
proof -
  obtain n db0 where n: "GetNotation db (X_from x) = (n, db0)" by fastforce
  have s0: "still db db0" using GetNotation_still(1) [OF assms(2), of "X_from x"] n by simp
  note [simp] = s0 [unfolded still_def]
  have id [simp]: "S_ID (MakeSwap_swap x m n) = X_txHash x" by (simp add: MakeSwap_swap_def)
  show ?thesis
    unfolding handleMakeSwap_def Let_def m_def [symmetric] n prod.case runs_simps
    apply (rule get_runs(2) [OF still_ledger [OF s0]], unfold prod.case)
    subgoal for db1
      apply (cases "record_at (swapRLP (X_codecs x)) SwapKeyAddress db0 (X_txHash x)"; simp only: sum.case)
       prefer 2 apply (simp add: leaf_simps)
      apply (cases "MakeSwap_Check m (X_timestamp x)"; simp only: option.case)
       prefer 2 apply (simp add: leaf_simps)
      apply (intro runs_if)
       apply (simp add: leaf_simps)
      apply (simp only: runs_simps)
      apply (rule get_runs(1) [OF still_ledger], assumption, unfold prod.case)
      subgoal for y db2
        apply (cases "record_at (assetRLP (X_codecs x)) AssetKeyAddress db1 (MS_ToAssetID m)"; simp only: sum.case)
         apply (simp add: leaf_simps)
        apply (cases "MS_FromAssetID m = OwnerUSANAssetID")
        subgoal
          apply (cases "n = 0"; simp add: MakeSwap_terms_def bigMul_def Let_def)
           apply (simp add: leaf_simps)
          apply (rule change_runs(3) [OF still_ledger], assumption)
          by (auto simp: leaf_simps split: option.split)
        subgoal
          using MakeSwap_Check_ok [of m "X_timestamp x"]
          apply (clarsimp simp: notPositive_iff leg_ok_def split del: if_split)
          apply (subst MakeSwap_terms_leg, assumption, assumption, assumption)
          subgoal for i j k
            apply (cases "legValid (newLeg x (MS_FromAssetID m) (MS_FromStartTime m) (MS_FromEndTime m) (i * k))")
             prefer 2 apply (simp add: leaf_simps)
            apply (simp only: runs_simps(1) if_True sum.case prod.case if_False)
            apply (rule runs_mono [OF MakeSwap_tail [where g = "newLeg x (MS_FromAssetID m) (MS_FromStartTime m) (MS_FromEndTime m) (i * k)",
                    unfolded newLeg_asset, OF still_ledger newLeg_good _ assms(3)]], assumption)
              apply simp
             apply assumption
            by (auto simp: pays_def ledger_simps worth_def newLeg_worth n)
          done
        done
      done
    done
qed

text \<open>The \<open>to\<close> leg of a swap passes from the taker to the owner.\<close>

lemma exchange_runs:
  assumes "ledger_ok db" "X_timestamp x \<noteq> 0" "0 < v" "g = newLeg x i start ende v" "legValid g \<Longrightarrow> ready x g db"
    "\<And>db'. pays (X_timestamp x) db (\<lambda>a k u. only owner i (legAmount start ende v u) a k - only (X_from x) i (legAmount start ende v u) a k) db' \<Longrightarrow> Q db'"
  shows "runs t (if useAsset start ende then do { db \<leftarrow> AddBalance db owner i v; SubBalance db (X_from x) i v }
    else if IsValid (oneItem (MaxUint64 start (X_timestamp x)) ende v) = None then do {
      db \<leftarrow> AddTimeLockBalance (X_debug x) db owner i (oneItem (MaxUint64 start (X_timestamp x)) ende v) (X_timestamp x);
      SubTimeLockBalance (X_debug x) db (X_from x) i (oneItem (MaxUint64 start (X_timestamp x)) ende v) (X_timestamp x) }
    else Some db) Q"
proof (intro runs_if)
  note g [simp] = legValid_def newLeg_def ready_def assms(4) MaxUint64_max
  assume u: "useAsset start ende"
  show "runs t (do { db \<leftarrow> AddBalance db owner i v; SubBalance db (X_from x) i v }) Q"
    apply simp
    apply (rule AddBalance_runs [OF assms(1), where ts = "X_timestamp x"])
     apply (use ledger_bal(2) [OF assms(1), of owner i] assms(3) in simp)
    apply (rule SubBalance_runs [OF moves_ledger, where ts = "X_timestamp x"], assumption)
     apply (use assms(3,5) u in \<open>auto simp: moves_def only_def\<close>)[1]
    apply (rule assms(6))
    using u by (auto simp: leaf_simps legAmount_def only_def)
next
  note g [simp] = legValid_def newLeg_def ready_def assms(4) MaxUint64_max
  let ?s = "max start (X_timestamp x)"
  assume u: "\<not> useAsset start ende" and v: "IsValid (oneItem (MaxUint64 start (X_timestamp x)) ende v) = None"
  then have se: "?s \<le> ende" by (simp add: oneItem_valid)
  have s0: "?s \<noteq> 0" using assms(2) by (metis max.cobounded2 antisym word_zero_le)
  show "runs t (do { db \<leftarrow> AddTimeLockBalance (X_debug x) db owner i (oneItem (MaxUint64 start (X_timestamp x)) ende v) (X_timestamp x);
      SubTimeLockBalance (X_debug x) db (X_from x) i (oneItem (MaxUint64 start (X_timestamp x)) ende v) (X_timestamp x) }) Q"
    apply simp
    apply (rule AddOne_runs [OF assms(1) se assms(3)])
    apply (rule SubOne_runs [OF moves_ledger se assms(3) s0, where ts = "X_timestamp x"], assumption)
     apply (use assms(3,5) u v in \<open>auto simp: moves_def only_def span_def\<close>)[1]
    apply (rule assms(6))
    using u by (auto simp: leaf_simps legAmount_def only_def span_def)
next
  assume u: "\<not> useAsset start ende" and v: "\<not> IsValid (oneItem (MaxUint64 start (X_timestamp x)) ende v) = None"
  then have "ende < max start (X_timestamp x)" using assms(3) by (auto simp: oneItem_valid MaxUint64_max not_le less_max_iff_disj)
  then have "legAmount start ende v u = 0" if "X_timestamp x \<le> u" for u using u that by (auto simp: legAmount_def span_def less_max_iff_disj)
  then show "runs t (Some db) Q" using assms(1) by (simp add: assms(6) pays_def)
qed

lemma TakeSwap_fund_runs:
  fixes x s v
  defines "g \<equiv> newLeg x (S_ToAssetID s) (S_ToStartTime s) (S_ToEndTime s) v"
  assumes "ledger_ok db" "X_timestamp x \<noteq> 0" "0 < v"
    "\<And>err db'. still db db' \<Longrightarrow> Q (Some err, db')"
    "\<And>db'. pays (X_timestamp x) db (\<lambda>a k u. 0) db' \<Longrightarrow> (legValid g \<Longrightarrow> ready x g db') \<Longrightarrow> Q (None, db')"
  shows "runs False (TakeSwap_fund x f s v (oneItem (MaxUint64 (S_ToStartTime s) (X_timestamp x)) (S_ToEndTime s) v) db) Q"
proof (cases "legValid g")
  case True
  note r = fundLeg_runs [OF assms(2) newLeg_good [OF assms(4)] True [unfolded g_def] assms(3), where Q = Q and t = False, unfolded newLeg_asset]
  from True show ?thesis
    unfolding TakeSwap_fund_def
    using r [where legacy = "f = TakeSwapFunc" and msg = "''not enough time lock balance''" and msg' = "''not enough time lock balance''"] assms(5,6)
    by (auto simp: g_def newLeg_def legValid_def split: if_splits)
next
  case False
  then have "\<not> useAsset (S_ToStartTime s) (S_ToEndTime s)" "IsValid (oneItem (MaxUint64 (S_ToStartTime s) (X_timestamp x)) (S_ToEndTime s) v) \<noteq> None"
    by (auto simp: g_def newLeg_def legValid_def split: if_splits)
  moreover obtain l db' where "GetTimeLockBalance db (S_ToAssetID s) (X_from x) = Some (l, db')" "becomes db (acc db) db'"
    using GetTimeLockBalance_becomes [OF ledger_db_ok [OF assms(2)]] by blast
  ultimately show ?thesis
    using assms(6) [of db'] False keeps_still [OF assms(2) becomes_same_keeps] still_pays by (auto simp: TakeSwap_fund_def)
qed

lemma settle_runs:
  assumes "ledger_ok db" "\<And>r db'. still db db' \<Longrightarrow> Q (r, db')"
  shows "runs False (if b then RemoveSwap c db i else UpdateSwap c db s) Q"
    "runs False (if b then RemoveMultiSwap c db i else UpdateMultiSwap c db m) Q"
  using change_runs(5) [OF assms(1), of Q c i] change_runs(4) [OF assms(1), of Q c s] change_runs(8) [OF assms(1), of Q c i]
    change_runs(7) [OF assms(1), of Q c m] assms(2) by auto

lemma deliver_runs:
  assumes "ledger_ok db" "0 < v" "usan \<Longrightarrow> (\<And>r db'. still db db' \<Longrightarrow> Q (r, db'))"
    "\<not> usan \<Longrightarrow> (\<And>db'. pays (X_timestamp x) db (\<lambda>a k u. only addr i (legAmount start ende v u) a k) db' \<Longrightarrow> Q (None, db'))"
  shows "runs False (if usan then TransferNotation c db n owner to
    else do { db \<leftarrow> payOut x addr i start ende v db; Some (None, db) }) Q"
  using change_runs(10) [OF assms(1), of Q c n owner to] payOut_runs [OF assms(1,2), of x addr i start ende "\<lambda>db. Q (None, db)"] assms(3,4) by auto

lemma TakeSwap_Check_size:
  "TakeSwap_Check q s ts = None \<Longrightarrow> \<exists>n. TS_Size q = Some n \<and> 0 < n \<and> n \<le> S_SwapSize s"
  by (auto simp: TakeSwap_Check_def notPositive_def split: if_splits option.splits)

lemma handleTakeSwap_runs:
  fixes x p db defines "q \<equiv> decTakeSwap (X_params x) (Data p)"
  assumes "ledger_ok db" "X_timestamp x \<noteq> 0"
    "\<And>s. record_at (swapRLP (X_codecs x)) SwapKeyAddress db (TS_SwapID q) = Inr s \<Longrightarrow> swap_sound s"
  shows "runs False (handleTakeSwap x f p db) (\<lambda>(r, db'). ledger_ok db' \<and>
    (\<forall>s n. record_at (swapRLP (X_codecs x)) SwapKeyAddress db (TS_SwapID q) = Inr s \<longrightarrow> TS_Size q = Some n \<longrightarrow> r = None \<longrightarrow>
      0 < n \<and> n \<le> S_SwapSize s \<and> pays (X_timestamp x) db (\<lambda>a k u.
        only (S_Owner s) (S_ToAssetID s) (legAmount (S_ToStartTime s) (S_ToEndTime s) (S_MinToAmount s * n) u) a k -
        only (X_from x) (S_ToAssetID s) (legAmount (S_ToStartTime s) (S_ToEndTime s) (S_MinToAmount s * n) u) a k +
        (if S_FromAssetID s = OwnerUSANAssetID then 0 else
          only (X_from x) (S_FromAssetID s) (legAmount (S_FromStartTime s) (S_FromEndTime s) (S_MinFromAmount s * n) u) a k)) db'))"
proof -
  note [simp] = fail_simps
  show ?thesis
    unfolding handleTakeSwap_def Let_def q_def [symmetric] runs_simps
    apply (rule get_runs(2) [OF assms(2)], unfold prod.case)
    subgoal for db1
      apply (cases "record_at (swapRLP (X_codecs x)) SwapKeyAddress db (TS_SwapID q)"; simp only: sum.case)
       apply (simp add: leaf_simps)
      subgoal for s
        apply (cases "TakeSwap_Check q s (X_timestamp x)"; simp only: option.case)
         prefer 2 apply (simp add: leaf_simps)
        apply (frule TakeSwap_Check_size, elim exE conjE)
        subgoal for n
          apply (cases "if S_FromAssetID s = OwnerUSANAssetID then GetNotation db1 (S_Owner s) else (0, db1)")
          subgoal for w db2
            apply (subgoal_tac "still db1 db2")
             prefer 2 using GetNotation_still(1) [of db1 "S_Owner s"] still_ledger [of db db1] still_refl [of db1] apply (auto split: if_splits)[1]
            apply (simp only: runs_simps prod.case)
            apply (intro runs_if)
             apply (simp add: leaf_simps)
            apply (simp only: runs_simps)
            apply (rule TakeSwap_fund_runs [OF still_ledger assms(3)], assumption)
            using assms(4) [of s] apply (simp add: swap_sound_def)
             apply (auto simp: leaf_simps split: prod.split)[1]
            apply (simp only: runs_simps prod.case option.case)
            apply (rule settle_runs(1) [OF pays_ledger], assumption)
            subgoal for db3 r db4
              apply (cases r; simp only: prod.case option.case)
               prefer 2 apply (simp add: leaf_simps)
              apply (simp only: runs_simps prod.case option.case)
              apply (rule exchange_runs [OF still_ledger assms(3) _ refl], assumption)
              using assms(4) [of s] apply (simp add: swap_sound_def)
               apply (erule ready_still [rotated], blast)
              apply (rule deliver_runs [OF pays_ledger], assumption)
              using assms(4) [of s] apply (simp add: swap_sound_def)
               apply (auto simp: leaf_simps split: option.split)
              done
            done
          done
        done
      done
    done
qed

subsection \<open>Multi-swaps\<close>

definition legsWorth :: "Address \<Rightarrow> Leg list \<Rightarrow> Address \<Rightarrow> Hash \<Rightarrow> uint64 \<Rightarrow> int" where
  "legsWorth addr gs a k u = (\<Sum>g\<leftarrow>gs. only addr (leg_asset g) (legWorth g u) a k)"

lemma legsWorth_simps [simp]:
  "legsWorth addr [] a k u = 0" "legsWorth addr (g # gs) a k u = only addr (leg_asset g) (legWorth g u) a k + legsWorth addr gs a k u"
  by (simp_all add: legsWorth_def)

lemma goIndex_runs: "(i < length xs \<Longrightarrow> Q (xs ! i)) \<Longrightarrow> runs False (goIndex xs i) Q"
  by (simp add: goIndex_def runs_def)

lemma creditLegs_runs:
  "ledger_ok db \<Longrightarrow> \<forall>g \<in> set gs. leg_good x g \<Longrightarrow> (\<And>db'. pays (X_timestamp x) db (legsWorth addr gs) db' \<Longrightarrow> Q db') \<Longrightarrow>
    runs t (creditLegs x addr gs db) Q"
proof (induction gs arbitrary: db Q)
  case (Cons g gs)
  have g: "leg_good x g" "\<forall>g \<in> set gs. leg_good x g" using Cons.prems by auto
  show ?case
    unfolding creditLegs.simps runs_simps
    apply (rule creditLeg_runs [OF Cons.prems(1) g(1)])
    apply (rule Cons.IH [OF pays_ledger g(2)], assumption)
    by (rule Cons.prems(3)) (auto simp: pays_def)
qed (simp add: pays_def)

lemma invalid_worth:
  assumes "leg_good x g" "\<not> legValid g"
  shows "legWorth g u = 0"
proof -
  obtain need where n: "leg_need g = Some need" "IsValid need \<noteq> None"
    using assms(2) by (cases "leg_need g") (simp_all add: legValid_def)
  then obtain s e where "need = oneItem s e (leg_total g)" "0 < leg_total g" using assms(1) by (auto simp: leg_good_def)
  with n have "\<not> s \<le> e" "Items need = [\<lparr>StartTime = s, EndTime = e, Value = leg_total g\<rparr>]"
    using oneItem_valid [of s e "leg_total g"] by simp_all
  then show ?thesis using n(1) by (auto simp: legWorth_def span_def)
qed

lemma TakeMulti_deduct_runs:
  assumes "X_timestamp x \<noteq> 0"
  shows "ledger_ok db \<Longrightarrow> \<forall>g \<in> set gs. leg_good x g \<Longrightarrow> (\<And>e db'. ledger_ok db' \<Longrightarrow> Q (Some e, db')) \<Longrightarrow>
    (\<And>db'. pays (X_timestamp x) db (\<lambda>a k u. - legsWorth (X_from x) gs a k u) db' \<Longrightarrow> Q (None, db')) \<Longrightarrow>
    runs t (TakeMulti_deduct x gs db) Q"
proof (induction gs arbitrary: db Q)
  case (Cons g gs)
  have g: "leg_good x g" "\<forall>g \<in> set gs. leg_good x g" using Cons.prems by auto
  show ?case
  proof (cases "legValid g")
    case True
    then have "TakeMulti_deduct x (g # gs) db = do {
       (e, db) \<leftarrow> deductLeg x g db;
       (case e of Some e \<Rightarrow> Some (Some e, db) | None \<Rightarrow> TakeMulti_deduct x gs db) }" by simp
    then show ?thesis
      apply (simp only: runs_simps)
      apply (rule deductLeg_runs [OF Cons.prems(1) g(1) True assms])
       apply (simp add: Cons.prems(3) pays_ledger)
      apply (simp only: prod.case option.case)
      apply (rule Cons.IH [OF pays_ledger g(2)], assumption, erule Cons.prems(3))
      by (rule Cons.prems(4)) (auto simp: pays_def)
  next
    case False
    have "runs t (TakeMulti_deduct x gs db) Q"
      by (rule Cons.IH [OF Cons.prems(1) g(2)], erule Cons.prems(3), rule Cons.prems(4))
        (auto simp: pays_def invalid_worth [OF g(1) False])
    then show ?thesis using False by simp
  qed
qed (simp add: pays_def)

lemma MakeMulti_deduct_take: "\<forall>g \<in> set gs. legValid g \<Longrightarrow> MakeMulti_deduct x gs db = TakeMulti_deduct x gs db"
  by (induction gs arbitrary: db) (auto intro!: Option.bind_cong split: option.split)

text \<open>The legs that the handlers compute.\<close>

definition fromLegs :: "CallContext \<Rightarrow> MultiSwap \<Rightarrow> int \<Rightarrow> nat list \<Rightarrow> Leg list" where
  "fromLegs x s n is = map (\<lambda>i. newLeg x (M_FromAssetID s ! i) (M_FromStartTime s ! i) (M_FromEndTime s ! i) (M_MinFromAmount s ! i * n)) is"

definition toLegs :: "CallContext \<Rightarrow> MultiSwap \<Rightarrow> int \<Rightarrow> nat list \<Rightarrow> Leg list" where
  "toLegs x s n is = map (\<lambda>i. newLeg x (M_ToAssetID s ! i) (M_ToStartTime s ! i) (M_ToEndTime s ! i) (M_MinToAmount s ! i * n)) is"

definition makeLegs :: "CallContext \<Rightarrow> MakeMultiSwapParam \<Rightarrow> nat list \<Rightarrow> Leg list" where
  "makeLegs x m is = map (\<lambda>i. newLeg x (MM_FromAssetID m ! i) (MM_FromStartTime m ! i) (MM_FromEndTime m ! i)
     (the (MM_MinFromAmount m ! i) * the (MM_SwapSize m))) is"

lemma TakeMulti_from_legs: "TakeMulti_from x s n is = Some gs \<Longrightarrow> gs = fromLegs x s n is \<and> (\<forall>i \<in> set is. i < length (M_MinFromAmount s))"
  by (induction "is" arbitrary: gs) (auto simp: fromLegs_def goIndex_def bind_eq_Some_conv split: if_splits)

lemma snapshotAsset_still:
  assumes "ledger_ok db" "snapshotAsset x k db bals locks = Some (db', bals', locks')"
  shows "still db db'"
proof (cases "bals k = None")
  case True
  obtain b db1 where 1: "GetBalance db k (X_from x) = Some (b, db1)" "becomes db (acc db) db1"
    using GetBalance_becomes [OF ledger_db_ok [OF assms(1)]] by blast
  then have s1: "still db db1" using keeps_still [OF assms(1) becomes_same_keeps] by blast
  obtain l db2 where 2: "GetTimeLockBalance db1 k (X_from x) = Some (l, db2)" "becomes db1 (acc db1) db2"
    using GetTimeLockBalance_becomes [OF becomes_ok [OF 1(2)]] by blast
  then have "still db1 db2" using keeps_still [OF still_ledger [OF s1] becomes_same_keeps] by blast
  moreover have "db' = db2" using assms(2) True 1(1) 2(1) by (auto simp: snapshotAsset_def bind_eq_Some_conv)
  ultimately show ?thesis using still_trans [OF s1] by simp
next
  case False
  then show ?thesis using assms still_refl by (auto simp: snapshotAsset_def)
qed

lemma TakeMulti_to_legs:
  "ledger_ok db \<Longrightarrow> TakeMulti_to x s n is db bals locks = Some (gs, bals', locks', db') \<Longrightarrow>
    still db db' \<and> gs = toLegs x s n is \<and> (\<forall>i \<in> set is. i < length (M_MinToAmount s))"
proof (induction "is" arbitrary: db bals locks gs)
  case (Cons i js)
  from Cons.prems(2) obtain k db1 b1 l1 gs' where 1: "snapshotAsset x k db bals locks = Some (db1, b1, l1)"
    "TakeMulti_to x s n js db1 b1 l1 = Some (gs', bals', locks', db')" "k = M_ToAssetID s ! i" "i < length (M_MinToAmount s)"
    "gs = newLeg x k (M_ToStartTime s ! i) (M_ToEndTime s ! i) (M_MinToAmount s ! i * n) # gs'"
    by (auto simp: bind_eq_Some_conv goIndex_def Let_def split: if_splits)
  have "still db db1" by (rule snapshotAsset_still [OF Cons.prems(1) 1(1)])
  with Cons.IH [OF still_ledger 1(2)] 1(3-5) show ?case by (auto simp: toLegs_def intro: still_trans)
qed (simp add: toLegs_def still_refl)

lemma MakeMulti_toAssets_still:
  "ledger_ok db \<Longrightarrow> MakeMulti_toAssets c ks db = Some (e, db') \<Longrightarrow> still db db'"
proof (induction ks arbitrary: db)
  case (Cons k ks)
  show ?case
  proof (cases "k = OwnerUSANAssetID")
    case False
    then obtain r db1 where 1: "GetAsset c db k = Some (r, db1)" "(case r of Inl _ \<Rightarrow> Some (Some ToAssetNotFound, db1) | Inr _ \<Rightarrow> MakeMulti_toAssets c ks db1) = Some (e, db')"
      using Cons.prems(2) by (auto simp: bind_eq_Some_conv)
    have s: "still db db1" using get_runs(1) [OF Cons.prems(1), of "\<lambda>(r, db'). still db db'" c k] 1(1) by (simp add: runs_partial)
    then show ?thesis using 1(2) Cons.IH [OF still_ledger [OF s]] still_trans [OF s] by (auto split: sum.splits)
  qed (use Cons.prems still_refl in auto)
qed (simp add: still_refl)

lemma MakeMulti_legs_still:
  "ledger_ok db \<Longrightarrow> MakeMulti_legs x m is db bals locks = Some (r, db') \<Longrightarrow> still db db' \<and>
    (\<forall>gs b l. r = Inr (gs, b, l) \<longrightarrow> gs = makeLegs x m is \<and> (\<forall>g \<in> set gs. legValid g))"
proof (induction "is" arbitrary: db bals locks r)
  case (Cons i js)
  obtain k where k: "goIndex (MM_FromAssetID m) i = Some k" using Cons.prems(2) by (auto simp: bind_eq_Some_conv)
  then have k': "k = MM_FromAssetID m ! i" by (auto simp: goIndex_def split: if_splits)
  show ?case
  proof (cases "k = OwnerUSANAssetID")
    case False
    then obtain db1 b1 l1 amount total' start ende where 1: "snapshotAsset x k db bals locks = Some (db1, b1, l1)"
      "goIndex (MM_MinFromAmount m) i = Some amount" "bigMul amount (MM_SwapSize m) = Some total'"
      "goIndex (MM_FromStartTime m) i = Some start" "goIndex (MM_FromEndTime m) i = Some ende"
      "(case (case leg_need (newLeg x k start ende total') of None \<Rightarrow> None | Some need \<Rightarrow> IsValid need) of
         Some e \<Rightarrow> Some (Inl (E_timeLock e), db1)
       | None \<Rightarrow> do { (r, db) \<leftarrow> MakeMulti_legs x m js db1 b1 l1; Some (map_sum id (\<lambda>(legs, bl). (newLeg x k start ende total' # legs, bl)) r, db) }) = Some (r, db')"
      using Cons.prems(2) k by (auto simp: bind_eq_Some_conv Let_def)
    have g: "newLeg x k start ende total' # makeLegs x m js = makeLegs x m (i # js)"
      using 1(2-5) k' by (auto simp: makeLegs_def goIndex_def bigMul_def bind_eq_Some_conv split: if_splits)
    have s: "still db db1" by (rule snapshotAsset_still [OF Cons.prems(1) 1(1)])
    show ?thesis
    proof (cases "legValid (newLeg x k start ende total')")
      case True
      then obtain r' where r': "MakeMulti_legs x m js db1 b1 l1 = Some (r', db')"
        "r = map_sum id (\<lambda>(legs, bl). (newLeg x k start ende total' # legs, bl)) r'"
        using 1(6) by (auto simp: legValid_def bind_eq_Some_conv split: option.splits)
      note IH = Cons.IH [OF still_ledger [OF s] r'(1)]
      have "gs = makeLegs x m (i # js) \<and> (\<forall>g \<in> set gs. legValid g)" if "r = Inr (gs, b, l)" for gs b l
        using that IH True r'(2) g by (cases r') auto
      then show ?thesis using IH still_trans [OF s] by blast
    next
      case False
      then show ?thesis using 1(6) s by (auto simp: legValid_def split: option.splits)
    qed
  qed (use Cons.prems k still_refl in auto)
qed (simp add: makeLegs_def still_refl)

definition multi_sound :: "MultiSwap \<Rightarrow> bool" where
  "multi_sound s \<longleftrightarrow> (\<forall>v \<in> set (M_MinFromAmount s). 0 < v) \<and> (\<forall>v \<in> set (M_MinToAmount s). 0 < v) \<and> 0 < M_SwapSize s"

lemma multi_legs_good:
  assumes "multi_sound s" "0 < n"
  shows "\<forall>i \<in> set is. i < length (M_MinFromAmount s) \<Longrightarrow> \<forall>g \<in> set (fromLegs x s n is). leg_good x g"
    "\<forall>i \<in> set is. i < length (M_MinToAmount s) \<Longrightarrow> \<forall>g \<in> set (toLegs x s n is). leg_good x g"
  using assms by (auto simp: fromLegs_def toLegs_def multi_sound_def intro!: newLeg_good)

lemma RecallMulti_loop_runs:
  assumes "multi_sound s"
  shows "ledger_ok db \<Longrightarrow> (\<And>db'. pays (X_timestamp x) db (legsWorth (X_from x) (fromLegs x s (M_SwapSize s) is)) db' \<Longrightarrow> Q db') \<Longrightarrow>
    runs False (RecallMulti_loop x s is db) Q"
proof (induction "is" arbitrary: db Q)
  case (Cons i js)
  have *: "runs False (creditLeg x (X_from x) (newLeg x k start ende (v * M_SwapSize s)) db) (\<lambda>db. runs False (RecallMulti_loop x s js db) Q)"
    if "v \<in> set (M_MinFromAmount s)" "newLeg x k start ende (v * M_SwapSize s) # fromLegs x s (M_SwapSize s) js = fromLegs x s (M_SwapSize s) (i # js)"
    for v k start ende
  proof (rule creditLeg_runs [OF Cons.prems(1)])
    show "leg_good x (newLeg x k start ende (v * M_SwapSize s))" using assms that(1) by (auto simp: multi_sound_def intro: newLeg_good)
    fix db' assume p: "pays (X_timestamp x) db (\<lambda>a j u. only (X_from x) (leg_asset (newLeg x k start ende (v * M_SwapSize s)))
      (legWorth (newLeg x k start ende (v * M_SwapSize s)) u) a j) db'"
    show "runs False (RecallMulti_loop x s js db') Q"
      by (rule Cons.IH [OF pays_ledger [OF p]], rule Cons.prems(2))
        (use p in \<open>auto simp: pays_def that(2) [symmetric]\<close>)
  qed
  show ?case
    unfolding RecallMulti_loop.simps runs_simps payOut_creditLeg
    by (rule goIndex_runs)+ (rule *, auto simp: fromLegs_def)
qed (simp add: fromLegs_def pays_def)

lemma partial_runs: "(\<And>r db'. m = Some (r, db') \<Longrightarrow> Q (r, db')) \<Longrightarrow> runs False m Q"
  by (auto simp: runs_partial)

lemma partial_runs': "(\<And>r. m = Some r \<Longrightarrow> Q r) \<Longrightarrow> runs False m Q"
  by (simp add: runs_partial)

lemma partial_runs4: "(\<And>a b c d. m = Some (a, b, c, d) \<Longrightarrow> Q (a, b, c, d)) \<Longrightarrow> runs False m Q"
  by (auto simp: runs_partial)

lemma handleRecallMultiSwap_runs:
  fixes x p db defines "q \<equiv> decRecallSwap (X_params x) (Data p)"
  assumes "ledger_ok db" "\<And>s. record_at (multiSwapRLP (X_codecs x)) MultiSwapKeyAddress db (RS_SwapID q) = Inr s \<Longrightarrow> multi_sound s"
  shows "runs False (handleRecallMultiSwap x p db) (\<lambda>(r, db'). ledger_ok db' \<and>
    (\<forall>s. record_at (multiSwapRLP (X_codecs x)) MultiSwapKeyAddress db (RS_SwapID q) = Inr s \<longrightarrow> r = None \<longrightarrow> M_Owner s = X_from x \<and>
      pays (X_timestamp x) db (legsWorth (X_from x) (fromLegs x s (M_SwapSize s) [0..<length (M_FromAssetID s)])) db'))"
  unfolding handleRecallMultiSwap_def Let_def q_def [symmetric] runs_simps
  apply (rule get_runs(3) [OF assms(2)], unfold prod.case)
  subgoal for db1
    apply (cases "record_at (multiSwapRLP (X_codecs x)) MultiSwapKeyAddress db (RS_SwapID q)"; simp only: sum.case)
     apply (simp add: leaf_simps)
    apply (intro runs_if)
     apply (simp add: leaf_simps)
    apply (simp only: runs_simps)
    apply (rule change_runs(8) [OF still_ledger], assumption)
    subgoal for s r db2
      apply (cases r; simp only: prod.case option.case runs_simps)
       prefer 2 apply (simp add: leaf_simps)
      apply (rule RecallMulti_loop_runs [OF assms(3) still_ledger], assumption, assumption)
      by (auto simp: leaf_simps)
    done
  done

lemma handleMakeMultiSwap_runs:
  fixes x p db defines "m \<equiv> decMakeMultiSwap (X_params x) (Data p)"
  assumes "ledger_ok db" "X_timestamp x \<noteq> 0"
  shows "runs False (handleMakeMultiSwap x p db) (\<lambda>(r, db'). ledger_ok db' \<and> (r = None \<longrightarrow>
    pays (X_timestamp x) db (\<lambda>a k u. - legsWorth (X_from x) (makeLegs x m [0..<length (MM_FromAssetID m)]) a k u) db'))"
proof -
  obtain n db0 where n: "GetNotation db (X_from x) = (n, db0)" by fastforce
  have s0: "still db db0" using GetNotation_still(1) [OF assms(2), of "X_from x"] n by simp
  note [simp] = s0 [unfolded still_def]
  have good: "\<forall>g \<in> set (makeLegs x m [0..<length (MM_FromAssetID m)]). leg_good x g" if "MakeMultiSwap_Check m (X_timestamp x) = None"
    using that unfolding MakeMultiSwap_Check_ok by (fastforce simp: makeLegs_def sameLengths_def notPositive_iff leg_ok_def intro!: newLeg_good)
  show ?thesis
    unfolding handleMakeMultiSwap_def Let_def m_def [symmetric] n prod.case runs_simps
    apply (rule get_runs(2) [OF still_ledger [OF s0]], unfold prod.case)
    subgoal for db1
      apply (cases "record_at (swapRLP (X_codecs x)) SwapKeyAddress db0 (X_txHash x)"; simp only: sum.case)
       prefer 2 apply (simp add: leaf_simps)
      apply (cases "MakeMultiSwap_Check m (X_timestamp x)"; simp only: option.case)
       prefer 2 apply (simp add: leaf_simps)
      apply (simp only: runs_simps)
      apply (rule partial_runs)
      subgoal for y e db2
        apply (frule MakeMulti_toAssets_still [OF still_ledger, rotated], assumption)
        apply (cases e; simp only: prod.case option.case runs_simps)
         prefer 2 apply (simp add: leaf_simps)
        apply (rule partial_runs)
        subgoal for r db3
          apply (frule MakeMulti_legs_still [OF still_ledger, rotated], assumption, erule conjE)
          apply (cases r; simp only: prod.case sum.case)
           apply (simp add: leaf_simps)
          subgoal for t
            apply (cases t; simp only: prod.case runs_simps)
            subgoal for gs b l
              apply (rule partial_runs')
              subgoal for e
                apply (cases e; simp only: option.case runs_simps)
                 prefer 2 apply (simp add: leaf_simps)
                apply (subst MakeMulti_deduct_take, blast)
                apply (rule TakeMulti_deduct_runs [OF assms(3) still_ledger], assumption)
                  apply (use good in blast)
                 apply (simp add: leaf_simps)
                apply (simp only: prod.case option.case runs_simps)
                apply (rule change_runs(6) [OF pays_ledger], assumption)
                by (auto simp: leaf_simps split: option.split)
              done
            done
          done
        done
      done
    done
qed

definition takenWorth :: "CallContext \<Rightarrow> MultiSwap \<Rightarrow> int \<Rightarrow> Address \<Rightarrow> Hash \<Rightarrow> uint64 \<Rightarrow> int" where
  "takenWorth x s n a k u = (let to = toLegs x s n [0..<length (M_ToAssetID s)] in
     legsWorth (M_Owner s) to a k u - legsWorth (X_from x) to a k u +
     legsWorth (X_from x) (fromLegs x s n [0..<length (M_FromAssetID s)]) a k u)"

lemma TakeMulti_Check_size:
  "TakeMultiSwap_Check q s ts = None \<Longrightarrow> \<exists>n. TS_Size q = Some n \<and> 0 < n \<and> n \<le> M_SwapSize s"
  by (auto simp: TakeMultiSwap_Check_def notPositive_def split: if_splits option.splits)

lemma handleTakeMultiSwap_runs:
  fixes x p db defines "q \<equiv> decTakeSwap (X_params x) (Data p)"
  assumes "ledger_ok db" "X_timestamp x \<noteq> 0"
    "\<And>s. record_at (multiSwapRLP (X_codecs x)) MultiSwapKeyAddress db (TS_SwapID q) = Inr s \<Longrightarrow> multi_sound s"
  shows "runs False (handleTakeMultiSwap x p db) (\<lambda>(r, db'). ledger_ok db' \<and>
    (\<forall>s n. record_at (multiSwapRLP (X_codecs x)) MultiSwapKeyAddress db (TS_SwapID q) = Inr s \<longrightarrow> TS_Size q = Some n \<longrightarrow> r = None \<longrightarrow>
      0 < n \<and> n \<le> M_SwapSize s \<and> pays (X_timestamp x) db (takenWorth x s n) db'))"
  unfolding handleTakeMultiSwap_def Let_def q_def [symmetric] runs_simps
  apply (rule get_runs(3) [OF assms(2)], unfold prod.case)
  subgoal for db1
    apply (cases "record_at (multiSwapRLP (X_codecs x)) MultiSwapKeyAddress db (TS_SwapID q)"; simp only: sum.case)
     apply (simp add: leaf_simps)
    subgoal for s
      apply (cases "TakeMultiSwap_Check q s (X_timestamp x)"; simp only: option.case)
       prefer 2 apply (simp add: leaf_simps)
      apply (frule TakeMulti_Check_size, elim exE conjE)
      subgoal for n
        apply (simp only: runs_simps)
        apply (rule partial_runs')
        subgoal for gs
          apply (drule TakeMulti_from_legs, erule conjE)
          apply (rule partial_runs4)
          subgoal for hs b l db2
            apply (drule TakeMulti_to_legs [OF still_ledger, rotated], assumption, elim conjE)
            apply (simp only: prod.case runs_simps)
            apply (rule partial_runs')
            subgoal for e
              apply (cases e; simp only: option.case runs_simps)
               prefer 2 apply (simp add: leaf_simps)
              apply (rule TakeMulti_deduct_runs [OF assms(3) still_ledger multi_legs_good(2)], assumption, erule assms(4), assumption, assumption)
               apply (simp add: leaf_simps)
              apply (simp only: prod.case option.case runs_simps)
              apply (rule settle_runs(2) [OF pays_ledger], assumption)
              subgoal for db3 r db4
                apply (cases r; simp only: prod.case option.case runs_simps)
                 prefer 2 apply (simp add: leaf_simps)
                apply (rule creditLegs_runs [OF still_ledger multi_legs_good(2)], assumption, erule assms(4), assumption, assumption)
                apply (rule creditLegs_runs [OF pays_ledger multi_legs_good(1)], assumption, erule assms(4), assumption, assumption)
                by (auto simp: leaf_simps takenWorth_def Let_def)
              done
            done
          done
        done
      done
    done
  done

section \<open>Properties\<close>

text \<open>The swaps on file have positive amounts and sizes, as the checks of the calls that make them ensure.\<close>

definition swaps_sound :: "Codecs \<Rightarrow> StateDB \<Rightarrow> bool" where
  "swaps_sound c db \<longleftrightarrow> (\<forall>i s. record_at (swapRLP c) SwapKeyAddress db i = Inr s \<longrightarrow> swap_sound s) \<and>
     (\<forall>i m. record_at (multiSwapRLP c) MultiSwapKeyAddress db i = Inr m \<longrightarrow> multi_sound m)"

lemma handleRecallSwap_ledger:
  assumes "ledger_ok db" "swaps_sound (X_codecs x) db"
  shows "runs False (handleRecallSwap x p db) (\<lambda>(r, db'). ledger_ok db')"
proof (cases "record_at (swapRLP (X_codecs x)) SwapKeyAddress db (RS_SwapID (decRecallSwap (X_params x) (Data p)))")
  case (Inl e)
  show ?thesis
    unfolding handleRecallSwap_def Let_def runs_simps
    by (rule get_runs(2) [OF assms(1)]) (simp add: Inl leaf_simps)
next
  case (Inr s)
  then have "swap_sound s" using assms(2) by (auto simp: swaps_sound_def)
  from handleRecallSwap_runs [OF assms(1) Inr this] show ?thesis by (rule runs_mono) (auto simp: pays_def)
qed

text \<open>C2. The type of the ledger: whatever special call is made, in a block with a time stamp and with sound swaps
  on file, afterwards every account has in every asset a balance that is neither nil nor negative and
  a time lock whose items are valid, disjoint and in order. This holds on every outcome, errors
  included.\<close>

theorem fsn_call_keeps_ledger:
  assumes "ledger_ok db" "X_timestamp x \<noteq> 0" "swaps_sound (X_codecs x) db" "handleFsnCall x p db = Some (r, db')"
  shows "(\<forall>a k. \<exists>b \<ge> 0. a_balance (acc db' a) k = Some b) \<and> (\<forall>a k. \<exists>l. a_lock (acc db' a) k = Some l \<and> IsValid l = None)"
proof -
  let ?Q = "\<lambda>(r, db'). ledger_ok db' :: bool"
  note sound = assms(3) [unfolded swaps_sound_def]
  have "runs False (handleGenNotation x p db) ?Q" by (rule runs_mono [OF handleGenNotation_runs [OF assms(1)]]) (auto simp: still_def)
  moreover have "runs False (handleGenAsset x p db) ?Q" by (rule runs_mono [OF handleGenAsset_runs [OF assms(1), where ts = 0]]) (auto simp: moves_def)
  moreover have "runs False (handleSendAsset x p db) ?Q"
    by (rule runs_mono [OF SendAsset_runs [OF assms(1), where ts = 0]]) (auto simp: moves_def still_def split: if_splits)
  moreover have "runs False (handleTimeLock x p db) ?Q"
    by (rule runs_mono [OF handleTimeLock_runs [OF assms(1,2)]]) (auto simp: moves_def still_def split: if_splits)
  moreover have "runs False (handleBuyTicket x p db) ?Q" by (rule handleBuyTicket_ledger [OF assms(1,2)])
  moreover have "runs False (handleAssetValueChange x p db) ?Q" by (rule runs_mono [OF handleAssetValueChange_runs [OF assms(1), where ts = 0]]) auto
  moreover have "runs False (handleMakeSwap x f p db) ?Q" for f by (rule runs_mono [OF handleMakeSwap_runs [OF assms(1,2)]]) (auto simp: pays_def)
  moreover have "runs False (handleRecallSwap x p db) ?Q" by (rule handleRecallSwap_ledger [OF assms(1,3)])
  moreover have "runs False (handleTakeSwap x f p db) ?Q" for f
    by (rule runs_mono [OF handleTakeSwap_runs [OF assms(1,2)]]) (use sound in auto)
  moreover have "runs False (handleRecallMultiSwap x p db) ?Q" by (rule runs_mono [OF handleRecallMultiSwap_runs [OF assms(1)]]) (use sound in auto)
  moreover have "runs False (handleMakeMultiSwap x p db) ?Q" by (rule runs_mono [OF handleMakeMultiSwap_runs [OF assms(1,2)]]) auto
  moreover have "runs False (handleTakeMultiSwap x p db) ?Q"
    by (rule runs_mono [OF handleTakeMultiSwap_runs [OF assms(1,2)]]) (use sound in auto)
  ultimately have "ledger_ok db'"
    using assms(1,4) unfolding runs_partial handleFsnCall_def by (cases "funcOfCode (Func p)") auto
  then show ?thesis by (auto simp: ledger_ok_def bal_def lck_def IsValid_iff)
qed

lemma New_swaps_sound: "swaps_sound c (New hashEnv Map.empty h cache)"
  by (simp add: swaps_sound_def New_record)

theorem fsn_call_keeps_ledger_witness:
  "\<exists>r db'. handleFsnCall (exampleContext exampleSend exampleLock exampleTicket) \<lparr>Func = 7, Data = []\<rparr>
      (New hashEnv Map.empty 0 emptyTicketSlice) = Some (r, db') \<and> (\<exists>b \<ge> 0. a_balance (acc db' 1) 5 = Some b)"
proof -
  let ?db = "New hashEnv Map.empty 0 emptyTicketSlice" and ?x = "exampleContext exampleSend exampleLock exampleTicket"
  let ?p = "\<lparr>Func = 7, Data = []\<rparr> :: FSNCallParam"
  obtain db1 where "GetSwap exampleCodecs ?db 7 = Some (Inl RecordNotFound, db1)"
    using read_record_iff(2) [OF db_ok_New New_record(2), of "swapRLP exampleCodecs"] by (fastforce simp: record_ops New_record)
  moreover have "decRecallSwap (X_params ?x) [] = \<lparr>RS_SwapID = 7\<rparr>" by (simp add: exampleContext_def)
  ultimately obtain r db' where h: "handleFsnCall ?x ?p ?db = Some (r, db')"
    by (simp add: handleFsnCall_def funcOfCode_def handleRecallSwap_def exampleContext_simps fail_simps)
  with fsn_call_keeps_ledger [OF ledger_New _ New_swaps_sound h] show ?thesis by (simp add: exampleContext_simps)
qed

text \<open>C11. An offer that is made and then recalled costs nothing. Making the swap takes from its owner exactly the
  \<open>from\<close> leg, that is the amount always or within the interval of the leg, files the swap, and changes
  nothing else. Recalling it, in the same or a later block, gives the leg back, so that from the time
  of that block on every account can dispose of exactly what it could before. The encoding is any one
  that can be read back.\<close>

theorem swap_make_recall:
  assumes "ledger_ok db" "X_timestamp x \<noteq> 0" "funcOfCode (Func p) \<in> {MakeSwapFunc, MakeSwapFuncExt}"
    "m = decMakeSwap (X_params x) (Data p)" "MS_FromAssetID m \<noteq> OwnerUSANAssetID" "handleFsnCall x p db = Some (None, db1)"
    "s = MakeSwap_swap x m (fst (GetNotation db (X_from x)))" "fileable (swapRLP (X_codecs x)) (env db) (X_txHash x) s"
    "funcOfCode (Func p') = RecallSwapFunc" "X_from y = X_from x" "X_codecs y = X_codecs x" "X_timestamp x \<le> X_timestamp y"
    "RS_SwapID (decRecallSwap (X_params y) (Data p')) = X_txHash x" "handleFsnCall y p' db1 = Some (None, db2)"
  shows "(\<forall>u \<ge> X_timestamp x. worth db1 a k u = worth db a k u - (if a = X_from x \<and> k = MS_FromAssetID m then
      legAmount (MS_FromStartTime m) (MS_FromEndTime m) (the (MS_MinFromAmount m) * the (MS_SwapSize m)) u else 0)) \<and>
    (\<forall>u \<ge> X_timestamp y. worth db2 a k u = worth db a k u)"
proof -
  have "\<exists>f. handleMakeSwap x f p db = Some (None, db1)" using assms(3,6) by (auto simp: handleFsnCall_def)
  then obtain f where f: "handleMakeSwap x f p db = Some (None, db1)" by blast
  have make: "pays (X_timestamp x) db (\<lambda>a k u. - only (X_from x) (MS_FromAssetID m) (legAmount (MS_FromStartTime m) (MS_FromEndTime m)
        (the (MS_MinFromAmount m) * the (MS_SwapSize m)) u) a k) db1"
    and chk: "MakeSwap_Check m (X_timestamp x) = None"
    and rec: "record_at (swapRLP (X_codecs x)) SwapKeyAddress db1 (X_txHash x) = Inr s"
    using handleMakeSwap_runs [OF assms(1,2), of f p] f assms(4,5,7,8) unfolding runs_partial by (auto simp: Let_def)
  obtain v n where v: "MS_MinFromAmount m = Some v" "0 < v" "MS_SwapSize m = Some n" "0 < n" "\<not> notPositive (MS_MinToAmount m)"
    using chk by (auto simp: MakeSwap_Check_ok leg_ok_def notPositive_iff)
  then have s: "swap_sound s" "S_FromAssetID s = MS_FromAssetID m" "S_FromStartTime s = MS_FromStartTime m" "S_FromEndTime s = MS_FromEndTime m"
    "S_MinFromAmount s = v" "S_SwapSize s = n"
    using assms(7) by (auto simp: swap_sound_def MakeSwap_swap_def bigOr0_def notPositive_iff)
  have r: "handleRecallSwap y p' db1 = Some (None, db2)" using assms(9,14) by (simp add: handleFsnCall_def)
  have "record_at (swapRLP (X_codecs y)) SwapKeyAddress db1 (RS_SwapID (decRecallSwap (X_params y) (Data p'))) = Inr s"
    using rec assms(11,13) by simp
  from handleRecallSwap_runs [OF pays_ledger [OF make] this s(1)] r
  have "pays (X_timestamp y) db1 (\<lambda>a k u. only (X_from x) (MS_FromAssetID m) (legAmount (MS_FromStartTime m) (MS_FromEndTime m) (v * n) u) a k) db2"
    using s assms(5,10) by (simp add: runs_partial)
  then show ?thesis using make v assms(12) order_trans [OF assms(12)] by (auto simp: pays_def only_def)
qed

text \<open>C8. Taking a swap is an exchange: when it succeeds, the size lies within the offer, the taker gives exactly
  the \<open>to\<close> leg of that size to the owner and receives exactly the \<open>from\<close> leg of that size, and no other
  account changes. For a swap of a notation only the \<open>to\<close> leg moves.\<close>

theorem swap_take_exchanges:
  assumes "ledger_ok db" "X_timestamp x \<noteq> 0" "funcOfCode (Func p) \<in> {TakeSwapFunc, TakeSwapFuncExt}"
    "q = decTakeSwap (X_params x) (Data p)" "record_at (swapRLP (X_codecs x)) SwapKeyAddress db (TS_SwapID q) = Inr s" "swap_sound s"
    "TS_Size q = Some n" "handleFsnCall x p db = Some (None, db')" "X_timestamp x \<le> u"
    "to = legAmount (S_ToStartTime s) (S_ToEndTime s) (S_MinToAmount s * n) u"
    "from = (if S_FromAssetID s = OwnerUSANAssetID then 0 else legAmount (S_FromStartTime s) (S_FromEndTime s) (S_MinFromAmount s * n) u)"
  shows "0 < n \<and> n \<le> S_SwapSize s \<and> worth db' a k u = worth db a k u +
    (if a = S_Owner s \<and> k = S_ToAssetID s then to else 0) - (if a = X_from x \<and> k = S_ToAssetID s then to else 0) +
    (if a = X_from x \<and> k = S_FromAssetID s then from else 0)"
proof -
  have "\<exists>f. handleTakeSwap x f p db = Some (None, db')" using assms(3,8) by (auto simp: handleFsnCall_def)
  then obtain f where f: "handleTakeSwap x f p db = Some (None, db')" by blast
  have sound: "record_at (swapRLP (X_codecs x)) SwapKeyAddress db (TS_SwapID (decTakeSwap (X_params x) (Data p))) = Inr s' \<Longrightarrow> swap_sound s'" for s'
    using assms(4-6) by simp
  have t: "0 < n \<and> n \<le> S_SwapSize s \<and> pays (X_timestamp x) db (\<lambda>a k u.
      only (S_Owner s) (S_ToAssetID s) (legAmount (S_ToStartTime s) (S_ToEndTime s) (S_MinToAmount s * n) u) a k -
      only (X_from x) (S_ToAssetID s) (legAmount (S_ToStartTime s) (S_ToEndTime s) (S_MinToAmount s * n) u) a k +
      (if S_FromAssetID s = OwnerUSANAssetID then 0 else
        only (X_from x) (S_FromAssetID s) (legAmount (S_FromStartTime s) (S_FromEndTime s) (S_MinFromAmount s * n) u) a k)) db'"
    using handleTakeSwap_runs [OF assms(1,2) sound, of p f] f assms(4,5,7) by (simp add: runs_partial)
  then have "worth db' a k u = worth db a k u + only (S_Owner s) (S_ToAssetID s) to a k - only (X_from x) (S_ToAssetID s) to a k +
      only (X_from x) (S_FromAssetID s) from a k"
    using assms(9-11) by (simp add: pays_def)
  then show ?thesis using t by (simp add: only_def)
qed

text \<open>Steps on a concrete state, for the examples.\<close>

lemma fund_step:
  assumes "ledger_ok db" "0 \<le> v"
  obtains db' where "AddBalance db a k v = Some db'" "ledger_ok db'" "same_storage db db'" "env db' = env db"
    "\<And>b j. coins db' b j = coins db b j + only a k v b j" "\<And>b. a_notation (acc db' b) = a_notation (acc db b)"
proof -
  obtain db' where b: "AddBalance db a k v = Some db'" "becomes db ((acc db)(a := add_to k v (acc db a))) db'"
    using AddBalance_becomes [OF ledger_db_ok [OF assms(1)], of v a k] ledger_bal(1) [OF assms(1), of a k] by (auto simp: bal_def)
  have "0 \<le> coins db a k + v" using ledger_bal(2) [OF assms(1), of a k] assms(2) by simp
  from balance_moves [OF assms(1) b(2) this, of 0] that [OF b(1)] becomes_storage(1) [OF b(2)] becomes_acc [OF b(2)]
  show thesis by (simp add: moves_def add_to_def)
qed

lemma draw_step:
  assumes "ledger_ok db" "v \<le> coins db a k"
  obtains db' where "SubBalance db a k v = Some db'" "ledger_ok db'" "same_storage db db'" "env db' = env db"
    "\<And>b j. coins db' b j = coins db b j - only a k v b j"
proof -
  have "runs True (SubBalance db a k v) (\<lambda>d. ledger_ok d \<and> same_storage db d \<and> env d = env db \<and> (\<forall>b j. coins d b j = coins db b j - only a k v b j))"
    by (rule SubBalance_runs [OF assms, of 0]) (auto simp: moves_def only_def)
  with that show thesis by (auto simp: runs_returns)
qed

lemma below_step:
  assumes "ledger_ok db" "v \<le> coins db a k"
  obtains db' where "balanceBelow db k a v = Some (False, db')" "ledger_ok db'" "coins db' = coins db" "acc db' = acc db" "env db' = env db"
proof -
  obtain db' where db': "GetBalance db k a = Some (Some (coins db a k), db')" "becomes db (acc db) db'"
    using GetBalance_becomes [OF ledger_db_ok [OF assms(1)], of k a] ledger_bal(1) [OF assms(1), of a k] by (auto simp: bal_def)
  from keeps_still [OF assms(1) becomes_same_keeps [OF db'(2)]] show thesis
    using that [of db'] db' assms(2) becomes_acc by (auto simp: balanceBelow_def still_def)
qed

lemma get_step:
  assumes "ledger_ok db" "readable db A (hash_bytes i)"
  obtains db' where "read_record rlp A db i = Some (record_at rlp A db i, db')" "ledger_ok db'" "coins db' = coins db" "acc db' = acc db" "env db' = env db"
proof -
  obtain db' where "read_record rlp A db i = Some (record_at rlp A db i, db')" "becomes db (acc db) db'"
    using read_record_iff(2) [OF ledger_db_ok [OF assms(1)] assms(2)] by blast
  with keeps_still [OF assms(1) becomes_same_keeps] that show thesis by (auto simp: still_def becomes_acc)
qed

lemma remove_step:
  assumes "ledger_ok db" "readable db A (hash_bytes i)" "record_at rlp A db i = Inr r" "EncodeToBytes rlp \<lparr>P_Deleted = True, P_Value = r\<rparr> = Some d"
  obtains db' where "remove_record rlp A i db = Some (None, db')" "ledger_ok db'" "coins db' = coins db"
proof -
  obtain db' where db': "remove_record rlp A i db = Some (None, db')"
    using remove_record_becomes [OF ledger_db_ok [OF assms(1)] assms(2,3)] assms(4) by auto
  from keeps_still [OF assms(1) remove_record_keeps [OF ledger_db_ok [OF assms(1)] db']] that [OF db'] show thesis by (simp add: still_def)
qed

lemma same_readable: "same_storage db db' \<Longrightarrow> env db' = env db \<Longrightarrow> readable db' A = readable db A"
  "acc db' = acc db \<Longrightarrow> env db' = env db \<Longrightarrow> readable db' A = readable db A"
  "acc db' = acc db \<Longrightarrow> env db' = env db \<Longrightarrow> record_at rlp A db' = record_at rlp A db"
  by (rule ext; simp add: same_storage_def readable_def record_at_def)+

lemma add_step:
  assumes "ledger_ok db" "readable db A (hash_bytes i)" "isl (record_at rlp A db i)" "EncodeToBytes rlp \<lparr>P_Deleted = False, P_Value = r\<rparr> = Some d"
    "codec_ok rlp" "struct_fits (env db) (hash_bytes i) d"
  obtains db' where "add_record rlp A i r db = Some (None, db')" "ledger_ok db'" "coins db' = coins db" "env db' = env db"
    "record_at rlp A db' i = Inr r" "readable db' A (hash_bytes i)"
proof -
  note ok = ledger_db_ok [OF assms(1)]
  obtain db' where db': "add_record rlp A i r db = Some (None, db')"
    using add_record_becomes [OF ok assms(2), of rlp r] assms(3,4) by auto
  from keeps_still [OF assms(1) add_record_keeps [OF ok db']] added_record [OF ok db' assms(5,4,6)] that [OF db'] show thesis
    by (simp add: still_def)
qed

lemma swap_eval:
  "useAsset 0 TimeLockForever" "TimeLockForever \<noteq> 0" "\<not> TimeLockForever \<le> 100" "(100::uint64) < TimeLockForever"
  by (simp_all add: useAsset_def TimeLockNow_def TimeLockForever_def)

theorem swap_take_exchanges_witness:
  "\<exists>db1 db db'. AddSwap exampleCodecs (New hashEnv Map.empty 0 emptyTicketSlice) exampleSwap = Some (None, db1) \<and>
    AddBalance db1 2 6 100 = Some db \<and>
    handleFsnCall ((exampleContext exampleSend exampleLock exampleTicket)\<lparr>X_from := 2\<rparr>) \<lparr>Func = 8, Data = []\<rparr> db = Some (None, db') \<and>
    worth db' 1 6 200 = worth db 1 6 200 + 40 \<and> worth db' 2 6 200 = worth db 2 6 200 - 40 \<and> worth db' 2 5 200 = worth db 2 5 200 + 30"
proof -
  let ?n = "New hashEnv Map.empty 0 emptyTicketSlice" and ?c = exampleCodecs and ?e = "exampleContext exampleSend exampleLock exampleTicket"
  let ?x = "?e\<lparr>X_from := 2\<rparr>" and ?p = "\<lparr>Func = 8, Data = []\<rparr> :: FSNCallParam" and ?rlp = "swapRLP exampleCodecs" and ?A = SwapKeyAddress
  have c: "codec_ok ?rlp" "EncodeToBytes ?rlp \<lparr>P_Deleted = False, P_Value = exampleSwap\<rparr> = Some [1]"
    "EncodeToBytes ?rlp \<lparr>P_Deleted = True, P_Value = exampleSwap\<rparr> = Some [2]"
    by (simp_all add: exampleCodecs_def pairCodec_ok) (simp_all add: pairCodec_def)
  have f: "struct_fits (env ?n) (hash_bytes 7) [1]" by (simp add: hashEnv_keys)
  have i: "S_ID exampleSwap = 7" by (simp add: exampleSwap_def)
  obtain db1 where 1: "AddSwap ?c ?n exampleSwap = Some (None, db1)" "ledger_ok db1" "coins db1 = coins ?n" "record_at ?rlp ?A db1 7 = Inr exampleSwap"
    "readable db1 ?A (hash_bytes 7)"
    using add_step [OF ledger_New New_record(2) _ c(2,1) f] by (auto simp: record_changes i New_record)
  obtain db where 0: "AddBalance db1 2 6 100 = Some db" "ledger_ok db" "same_storage db1 db" "env db = env db1"
    "\<And>b j. coins db b j = coins db1 b j + only 2 6 100 b j" by (rule fund_step [OF 1(2), of 100 2 6]) (simp, rule that)
  have r: "record_at ?rlp ?A db 7 = Inr exampleSwap" "readable db ?A (hash_bytes 7)"
    using 1(4,5) by (simp_all add: same_storage_record [OF 0(3,4)] same_readable(1) [OF 0(3,4)])
  obtain d1 where 2: "GetSwap ?c db 7 = Some (Inr exampleSwap, d1)" "ledger_ok d1" "coins d1 = coins db" "acc d1 = acc db" "env d1 = env db"
    using get_step [OF 0(2) r(2), of ?rlp] r(1) by (auto simp: record_ops)
  have e: "40 \<le> coins d1 2 6" using 0(5) 1(3) 2(3) by (simp add: coins_New)
  obtain d2 where 3: "balanceBelow d1 6 2 40 = Some (False, d2)" "ledger_ok d2" "coins d2 = coins d1" "acc d2 = acc d1" "env d2 = env d1"
    by (rule below_step [OF 2(2) e])
  obtain d3 where 4: "RemoveSwap ?c d2 7 = Some (None, d3)" "ledger_ok d3" "coins d3 = coins d2"
    using remove_step [OF 3(2), of ?A 7 ?rlp exampleSwap "[2]"] r c(3) 2(4,5) 3(4,5)
    by (auto simp: record_changes same_readable(2,3) [of d2 db])
  obtain d4 where 5: "AddBalance d3 1 6 40 = Some d4" "ledger_ok d4" "\<And>b j. coins d4 b j = coins d3 b j + only 1 6 40 b j"
    by (rule fund_step [OF 4(2), of 40 1 6]) (simp, rule that)
  have "40 \<le> coins d4 2 6" using e 3(3) 4(3) 5(3) by simp
  then obtain d5 where 6: "SubBalance d4 2 6 40 = Some d5" "ledger_ok d5" using draw_step [OF 5(2)] by blast
  obtain d6 where 7: "AddBalance d5 2 5 30 = Some d6" by (rule fund_step [OF 6(2), of 30 2 5]) (simp, rule that)
  have q: "decTakeSwap (X_params ?e) d = \<lparr>TS_SwapID = 7, TS_Size = Some 10\<rparr>" for d by (simp add: exampleContext_def)
  have fn: "funcOfCode 8 = TakeSwapFunc" by (simp add: funcOfCode_def)
  have sw: "S_FromAssetID exampleSwap = 5" "S_ToAssetID exampleSwap = 6" "S_FromStartTime exampleSwap = 0" "S_FromEndTime exampleSwap = TimeLockForever"
    "S_ToStartTime exampleSwap = 0" "S_ToEndTime exampleSwap = TimeLockForever" "S_MinFromAmount exampleSwap = 3" "S_MinToAmount exampleSwap = 4"
    "S_SwapSize exampleSwap = 10" "S_Owner exampleSwap = 1" "swap_sound exampleSwap" by (simp_all add: exampleSwap_def swap_sound_def)
  have chk: "TakeSwap_Check \<lparr>TS_SwapID = 7, TS_Size = Some 10\<rparr> exampleSwap 100 = None"
    by (simp add: TakeSwap_Check_def notPositive_def sw swap_eval)
  have nu: "(5::Hash) \<noteq> OwnerUSANAssetID" by (simp add: OwnerUSANAssetID_def)
  have h: "handleFsnCall ?x ?p db = Some (None, addLog ?x d6 TakeSwapFunc (LB_TakeSwap \<lparr>TS_SwapID = 7, TS_Size = Some 10\<rparr>)
      [(''SwapID'', LF_Hash 7), (''Deleted'', LF_String ''true'')])"
    by (simp add: handleFsnCall_def fn handleTakeSwap_def Let_def q exampleContext_simps 2(1) chk sw nu TakeSwap_fund_def swap_eval 3(1) 4(1) 5(1) 6(1) payOut_def 7 i)
  show ?thesis
    using swap_take_exchanges [OF 0(2) _ _ refl _ sw(11) _ h, of 10 200 _ _ 1 6] swap_take_exchanges [OF 0(2) _ _ refl _ sw(11) _ h, of 10 200 _ _ 2 6]
      swap_take_exchanges [OF 0(2) _ _ refl _ sw(11) _ h, of 10 200 _ _ 2 5] 1(1) 0(1) h
    by (simp add: fn q exampleContext_simps r(1) sw nu legAmount_def swap_eval)
qed

definition offerParam :: MakeSwapParam where
  "offerParam = decMakeSwap (X_params (exampleContext exampleSend exampleLock exampleTicket)) []"

definition offerSwap :: Swap where
  "offerSwap = MakeSwap_swap (exampleContext exampleSend exampleLock exampleTicket) offerParam 0"

definition offerCodecs :: Codecs where
  "offerCodecs = supplyCodecs\<lparr>swapRLP := pairCodec \<lparr>P_Deleted = False, P_Value = offerSwap\<rparr> \<lparr>P_Deleted = True, P_Value = offerSwap\<rparr>\<rparr>"

lemma offer_codec:
  "codec_ok (swapRLP offerCodecs)" "EncodeToBytes (swapRLP offerCodecs) \<lparr>P_Deleted = False, P_Value = offerSwap\<rparr> = Some [1]"
  "EncodeToBytes (swapRLP offerCodecs) \<lparr>P_Deleted = True, P_Value = offerSwap\<rparr> = Some [2]" "assetRLP offerCodecs = assetRLP supplyCodecs"
  by (simp_all add: offerCodecs_def pairCodec_ok) (simp_all add: pairCodec_def)

lemma offer_param:
  "decMakeSwap (X_params (exampleContext exampleSend exampleLock exampleTicket)) d = offerParam"
  "decRecallSwap (X_params (exampleContext exampleSend exampleLock exampleTicket)) d = \<lparr>RS_SwapID = 7\<rparr>"
  "MS_FromAssetID offerParam = 5" "MS_FromStartTime offerParam = 0" "MS_FromEndTime offerParam = TimeLockForever"
  "MS_MinFromAmount offerParam = Some 3" "MS_SwapSize offerParam = Some 10" "MS_ToAssetID offerParam = 7"
  by (simp_all add: offerParam_def exampleContext_def)

lemma offer_check: "MakeSwap_Check offerParam 100 = None"
  by (simp add: MakeSwap_Check_def offer_param notPositive_def bigMul_def swap_eval) (simp add: offerParam_def exampleContext_def swap_eval)

lemma offer_swap:
  "S_ID offerSwap = 7" "S_Owner offerSwap = 1" "S_FromAssetID offerSwap = 5" "S_FromStartTime offerSwap = 0" "S_FromEndTime offerSwap = TimeLockForever"
  "S_MinFromAmount offerSwap = 3" "S_SwapSize offerSwap = 10"
  by (simp_all add: offerSwap_def MakeSwap_swap_def exampleContext_simps offer_param bigOr0_def)

lemma not_usan: "(5::Hash) \<noteq> OwnerUSANAssetID" "(7::Hash) \<noteq> OwnerUSANAssetID"
  by (simp_all add: OwnerUSANAssetID_def)

lemma swap_codes: "funcOfCode 6 = MakeSwapFunc" "funcOfCode 7 = RecallSwapFunc" "funcOfCode 8 = TakeSwapFunc" "funcOfCode 15 = TakeMultiSwapFunc"
  by (simp_all add: funcOfCode_def)

lemmas offer_eval = offer_param offer_check not_usan swap_codes

lemma offerMade:
  defines "x \<equiv> (exampleContext exampleSend exampleLock exampleTicket)\<lparr>X_codecs := offerCodecs\<rparr>"
  obtains db0 db db1 where "GenAsset supplyCodecs (New hashEnv Map.empty 0 emptyTicketSlice) (exampleAsset 0) = Some (None, db0)"
    "AddBalance db0 1 5 100 = Some db" "ledger_ok db" "env db = hashEnv" "fst (GetNotation db 1) = 0"
    "handleFsnCall x \<lparr>Func = 6, Data = []\<rparr> db = Some (None, db1)" "ledger_ok db1"
    "record_at (swapRLP offerCodecs) SwapKeyAddress db1 7 = Inr offerSwap" "readable db1 SwapKeyAddress (hash_bytes 7)"
proof -
  let ?e = "exampleContext exampleSend exampleLock exampleTicket" and ?c = offerCodecs and ?rlp = "swapRLP offerCodecs" and ?A = SwapKeyAddress
  let ?x = "?e\<lparr>X_codecs := ?c\<rparr>" and ?p = "\<lparr>Func = 6, Data = []\<rparr> :: FSNCallParam"
  note c = offer_codec
  obtain db0 where 0: "GenAsset supplyCodecs (New hashEnv Map.empty 0 emptyTicketSlice) (exampleAsset 0) = Some (None, db0)" "ledger_ok db0"
    "record_at (assetRLP supplyCodecs) AssetKeyAddress db0 7 = Inr (exampleAsset 0)" "readable db0 AssetKeyAddress (hash_bytes 7)" "coins db0 = (\<lambda>a k. 0)"
    "env db0 = hashEnv" "\<And>A. A \<noteq> AssetKeyAddress \<Longrightarrow> a_storage (acc db0 A) = (\<lambda>_. 0)" "\<And>a. a_notation (acc db0 a) = 0"
    by (rule issuedAsset) (rule that)
  obtain db where 1: "AddBalance db0 1 5 100 = Some db" "ledger_ok db" "same_storage db0 db" "env db = env db0"
    "\<And>b j. coins db b j = coins db0 b j + only 1 5 100 b j" "\<And>b. a_notation (acc db b) = a_notation (acc db0 b)"
    by (rule fund_step [OF 0(2), of 100 1 5]) (simp, rule that)
  have ne: "?A \<noteq> AssetKeyAddress" by (simp add: SwapKeyAddress_def AssetKeyAddress_def)
  have st: "record_at ?rlp ?A db i = Inl RecordNotFound" "readable db ?A key" for i key
    using 0(6,7) 1(3,4) ne by (simp_all add: record_at_def readable_def same_storage_def record_of_def)
  have as: "record_at (assetRLP ?c) AssetKeyAddress db 7 = Inr (exampleAsset 0)" "readable db AssetKeyAddress (hash_bytes 7)"
    using 0(3,4) by (simp_all add: c(4) same_storage_record [OF 1(3,4)] same_readable(1) [OF 1(3,4)])
  obtain d0 where n: "GetNotation db 1 = (0, d0)" "becomes db (acc db) d0"
    using GetNotation_becomes [OF ledger_db_ok [OF 1(2)], of 1] 0(8) 1(6) by auto
  have n': "ledger_ok d0" "coins d0 = coins db" "acc d0 = acc db" "env d0 = env db"
    using keeps_still [OF 1(2) becomes_same_keeps [OF n(2)]] becomes_acc [OF n(2)] by (simp_all add: still_def)
  obtain d1 where 2: "GetSwap ?c d0 7 = Some (Inl RecordNotFound, d1)" "ledger_ok d1" "coins d1 = coins d0" "acc d1 = acc d0" "env d1 = env d0"
    using get_step [OF n'(1), of ?A 7 ?rlp] st by (auto simp: record_ops same_readable(2,3) [OF n'(3,4)])
  obtain d2 where 3: "GetAsset ?c d1 7 = Some (Inr (exampleAsset 0), d2)" "ledger_ok d2" "coins d2 = coins d1" "acc d2 = acc d1" "env d2 = env d1"
    using get_step [OF 2(2), of AssetKeyAddress 7 "assetRLP ?c"] as n'(3,4) 2(4,5) by (auto simp: record_ops same_readable(2,3) [of d1 db])
  have e: "30 \<le> coins d2 1 5" using 0(5) 1(5) n'(2) 2(3) 3(3) by simp
  obtain d3 where 4: "balanceBelow d2 5 1 30 = Some (False, d3)" "ledger_ok d3" "coins d3 = coins d2" "acc d3 = acc d2" "env d3 = env d2"
    by (rule below_step [OF 3(2) e])
  have d3: "acc d3 = acc db" "env d3 = env db" using n' 2 3 4 by simp_all
  note i = offer_swap(1)
  have fit: "struct_fits (env db) (hash_bytes 7) [b]" for b using 0(6) 1(4) by (simp add: hashEnv_keys)
  obtain d4 where 5: "AddSwap ?c d3 offerSwap = Some (None, d4)" "ledger_ok d4" "coins d4 = coins d3" "env d4 = env d3"
    "record_at ?rlp ?A d4 7 = Inr offerSwap" "readable d4 ?A (hash_bytes 7)"
    using add_step [OF 4(2), of ?A 7 ?rlp offerSwap "[1]"] st c fit by (auto simp: record_changes i same_readable(2,3) [OF d3] d3(2))
  obtain d5 where 6: "SubBalance d4 1 5 30 = Some d5" "ledger_ok d5" "same_storage d4 d5" "env d5 = env d4"
    using SubBalance_runs [OF 5(2), of 30 1 5 0 "\<lambda>d. ledger_ok d \<and> same_storage d4 d \<and> env d = env d4" True] e 4(3) 5(3)
    by (auto simp: runs_returns moves_def)
  have sw: "MakeSwap_swap ?x offerParam 0 = offerSwap" by (simp add: offerSwap_def MakeSwap_swap_def)
  obtain db1 where h: "handleFsnCall ?x ?p db = Some (None, db1)" and db1: "db1 = addLog ?x d5 MakeSwapFunc (LB_MakeSwap offerParam) [(''SwapID'', LF_Hash 7)]"
    by (simp add: handleFsnCall_def offer_eval handleMakeSwap_def exampleContext_simps n(1) 2(1) 3(1) MakeSwap_terms_def bigMul_def swap_eval Let_def
        MakeSwap_fund_def 4(1) sw 5(1) 6(1) i)
  have "ledger_ok db1" using still_ledger [OF addLog_still [OF 6(2)]] db1 by simp
  moreover have "record_at ?rlp ?A db1 7 = Inr offerSwap" "readable db1 ?A (hash_bytes 7)"
    using 5(5,6) by (simp_all add: db1 addLog_record same_storage_record [OF 6(3,4)] same_readable(2) [OF addLog_acc] same_readable(1) [OF 6(3,4)])
  ultimately show thesis using that [OF 0(1) 1(1,2)] 0(6) 1(4) n(1) h unfolding x_def by simp
qed

lemma fileable_offer: "fileable (swapRLP offerCodecs) hashEnv 7 offerSwap"
  unfolding fileable_def by (auto simp: offer_codec) (auto simp: offerCodecs_def pairCodec_def hashEnv_keys split: if_splits)

theorem swap_make_recall_witness:
  "\<exists>db0 db db1 db2. GenAsset supplyCodecs (New hashEnv Map.empty 0 emptyTicketSlice) (exampleAsset 0) = Some (None, db0) \<and>
    AddBalance db0 1 5 100 = Some db \<and>
    handleFsnCall ((exampleContext exampleSend exampleLock exampleTicket)\<lparr>X_codecs := offerCodecs\<rparr>) \<lparr>Func = 6, Data = []\<rparr> db = Some (None, db1) \<and>
    handleFsnCall ((exampleContext exampleSend exampleLock exampleTicket)\<lparr>X_codecs := offerCodecs\<rparr>) \<lparr>Func = 7, Data = []\<rparr> db1 = Some (None, db2) \<and>
    worth db1 1 5 200 = worth db 1 5 200 - 30 \<and> worth db2 1 5 200 = worth db 1 5 200"
proof -
  let ?e = "exampleContext exampleSend exampleLock exampleTicket" and ?c = offerCodecs and ?rlp = "swapRLP offerCodecs" and ?A = SwapKeyAddress
  let ?x = "?e\<lparr>X_codecs := ?c\<rparr>" and ?p' = "\<lparr>Func = 7, Data = []\<rparr> :: FSNCallParam"
  obtain db0 db db1 where 0: "GenAsset supplyCodecs (New hashEnv Map.empty 0 emptyTicketSlice) (exampleAsset 0) = Some (None, db0)"
    "AddBalance db0 1 5 100 = Some db" "ledger_ok db" "env db = hashEnv" "fst (GetNotation db 1) = 0"
    "handleFsnCall ?x \<lparr>Func = 6, Data = []\<rparr> db = Some (None, db1)" "ledger_ok db1"
    "record_at ?rlp ?A db1 7 = Inr offerSwap" "readable db1 ?A (hash_bytes 7)" by (rule offerMade)
  obtain g1 where 1: "GetSwap ?c db1 7 = Some (Inr offerSwap, g1)" "ledger_ok g1" "acc g1 = acc db1" "env g1 = env db1"
    using get_step [OF 0(7,9), of ?rlp] 0(8) by (auto simp: record_ops)
  obtain g2 where 2: "RemoveSwap ?c g1 7 = Some (None, g2)" "ledger_ok g2"
    using remove_step [OF 1(2), of ?A 7 ?rlp offerSwap "[2]"] 0(8,9) by (auto simp: record_changes same_readable(2,3) [OF 1(3,4)] offer_codec)
  obtain g3 where 3: "AddBalance g2 1 5 30 = Some g3" by (rule fund_step [OF 2(2), of 30 1 5]) (simp, rule that)
  obtain db2 where h: "handleFsnCall ?x ?p' db1 = Some (None, db2)"
    by (simp add: handleFsnCall_def offer_eval handleRecallSwap_def exampleContext_simps Let_def 1(1) offer_swap 2(1) payOut_def swap_eval 3)
  have s: "offerSwap = MakeSwap_swap ?x offerParam (fst (GetNotation db (X_from ?x)))"
    using 0(5) by (simp add: exampleContext_simps offerSwap_def MakeSwap_swap_def)
  from swap_make_recall [OF 0(3) _ _ refl _ 0(6) _ _ _ _ _ _ _ h, of offerSwap 1 5] s
  show ?thesis using 0(1,2,6) h
    by (auto simp: offer_eval exampleContext_simps 0(4) fileable_offer legAmount_def swap_eval)
qed

lemma legsWorth_sum:
  assumes "\<And>i. i < n \<Longrightarrow> 0 \<le> v i" "X_timestamp x \<le> u"
  shows "legsWorth addr (map (\<lambda>i. newLeg x (k i) (s i) (e i) (v i)) [0..<n]) a j u = (\<Sum>i<n. only addr (k i) (legAmount (s i) (e i) (v i) u) a j)"
  unfolding legsWorth_def map_map comp_def
  using assms by (subst interv_sum_list_conv_sum_set_nat) (auto simp: newLeg_worth atLeast0LessThan intro!: sum.cong)

lemma read_multi:
  "ledger_ok db \<Longrightarrow> GetMultiSwap c db i = Some (r, db') \<Longrightarrow> r = record_at (multiSwapRLP c) MultiSwapKeyAddress db i"
  using read_record_iff(1) [OF ledger_db_ok, of db "multiSwapRLP c" MultiSwapKeyAddress i r db'] by (simp add: record_ops)

lemma TakeMulti_bounds:
  assumes "handleTakeMultiSwap x p db = Some (None, db')" "ledger_ok db" "q = decTakeSwap (X_params x) (Data p)"
    "record_at (multiSwapRLP (X_codecs x)) MultiSwapKeyAddress db (TS_SwapID q) = Inr s" "TS_Size q = Some n"
  shows "length (M_FromAssetID s) \<le> length (M_MinFromAmount s) \<and> length (M_ToAssetID s) \<le> length (M_MinToAmount s)"
proof -
  obtain r db1 where g: "GetMultiSwap (X_codecs x) db (TS_SwapID q) = Some (r, db1)"
    using assms(1,3) by (auto simp: handleTakeMultiSwap_def bind_eq_Some_conv Let_def)
  with assms(4) read_multi [OF assms(2) g] have g: "GetMultiSwap (X_codecs x) db (TS_SwapID q) = Some (Inr s, db1)" by simp
  have l: "ledger_ok db1" by (rule still_ledger [OF keeps_still [OF assms(2) record_keeps(3) [OF ledger_db_ok [OF assms(2)] g]]])
  have c: "TakeMultiSwap_Check q s (X_timestamp x) = None"
  proof (rule ccontr)
    assume "TakeMultiSwap_Check q s (X_timestamp x) \<noteq> None"
    then obtain e where "TakeMultiSwap_Check q s (X_timestamp x) = Some e" by blast
    with assms(1) g show False by (simp add: handleTakeMultiSwap_def assms(3) [symmetric] Let_def fail_simps)
  qed
  from assms(1,5) g c obtain fs ts b l' db2 where
    "TakeMulti_from x s n [0..<length (M_FromAssetID s)] = Some fs"
    "TakeMulti_to x s n [0..<length (M_ToAssetID s)] db1 Map.empty Map.empty = Some (ts, b, l', db2)"
    by (auto simp: handleTakeMultiSwap_def assms(3) [symmetric] Let_def bind_eq_Some_conv)
  with TakeMulti_from_legs TakeMulti_to_legs [OF l] have
    "\<forall>i \<in> set [0..<length (M_FromAssetID s)]. i < length (M_MinFromAmount s)"
    "\<forall>i \<in> set [0..<length (M_ToAssetID s)]. i < length (M_MinToAmount s)" by blast+
  then show ?thesis by (auto simp: not_le [symmetric])
qed

text \<open>C7. Taking a multi-swap exchanges its legs one by one: when it succeeds, the size lies within the offer, the
  owner receives and the taker gives every \<open>to\<close> leg of that size, the taker receives every \<open>from\<close> leg,
  and nothing else changes, also when several legs are in the same asset.\<close>

theorem multi_swap_take_exchanges:
  assumes "ledger_ok db" "X_timestamp x \<noteq> 0" "funcOfCode (Func p) = TakeMultiSwapFunc" "q = decTakeSwap (X_params x) (Data p)"
    "record_at (multiSwapRLP (X_codecs x)) MultiSwapKeyAddress db (TS_SwapID q) = Inr s" "multi_sound s"
    "TS_Size q = Some n" "handleFsnCall x p db = Some (None, db')" "X_timestamp x \<le> u"
    "\<And>i. to i = legAmount (M_ToStartTime s ! i) (M_ToEndTime s ! i) (M_MinToAmount s ! i * n) u"
    "\<And>i. from i = legAmount (M_FromStartTime s ! i) (M_FromEndTime s ! i) (M_MinFromAmount s ! i * n) u"
  shows "0 < n \<and> n \<le> M_SwapSize s \<and> worth db' a k u = worth db a k u +
    (\<Sum>i<length (M_ToAssetID s). if k = M_ToAssetID s ! i then (if a = M_Owner s then to i else 0) - (if a = X_from x then to i else 0) else 0) +
    (\<Sum>i<length (M_FromAssetID s). if k = M_FromAssetID s ! i \<and> a = X_from x then from i else 0)"
proof -
  have h: "handleTakeMultiSwap x p db = Some (None, db')" using assms(3,8) by (simp add: handleFsnCall_def)
  note len = TakeMulti_bounds [OF h assms(1,4,5,7)]
  have t: "0 < n \<and> n \<le> M_SwapSize s \<and> pays (X_timestamp x) db (takenWorth x s n) db'"
    using handleTakeMultiSwap_runs [OF assms(1,2), of p] h assms(4-7) by (simp add: runs_partial)
  have pos: "0 \<le> M_MinToAmount s ! i * n" if "i < length (M_ToAssetID s)" for i
    using that len assms(6) t by (auto simp: multi_sound_def intro!: mult_nonneg_nonneg less_imp_le [OF bspec [OF _ nth_mem]])
  have pos': "0 \<le> M_MinFromAmount s ! i * n" if "i < length (M_FromAssetID s)" for i
    using that len assms(6) t by (auto simp: multi_sound_def intro!: mult_nonneg_nonneg less_imp_le [OF bspec [OF _ nth_mem]])
  have "worth db' a k u = worth db a k u + takenWorth x s n a k u" using t assms(9) by (simp add: pays_def)
  moreover have "takenWorth x s n a k u = (\<Sum>i<length (M_ToAssetID s). only (M_Owner s) (M_ToAssetID s ! i) (to i) a k) -
      (\<Sum>i<length (M_ToAssetID s). only (X_from x) (M_ToAssetID s ! i) (to i) a k) +
      (\<Sum>i<length (M_FromAssetID s). only (X_from x) (M_FromAssetID s ! i) (from i) a k)"
    unfolding takenWorth_def toLegs_def fromLegs_def Let_def assms(10,11) by (simp only: legsWorth_sum [OF pos assms(9)] legsWorth_sum [OF pos' assms(9)])
  moreover have "\<dots> = (\<Sum>i<length (M_ToAssetID s). if k = M_ToAssetID s ! i then (if a = M_Owner s then to i else 0) - (if a = X_from x then to i else 0) else 0) +
      (\<Sum>i<length (M_FromAssetID s). if k = M_FromAssetID s ! i \<and> a = X_from x then from i else 0)"
    unfolding sum_subtractf [symmetric] by (intro arg_cong2 [of _ _ _ _ "(+)"] sum.cong refl) (auto simp: only_def)
  ultimately show ?thesis using t by simp
qed

lemma TakeMulti_to_panics:
  assumes "j \<in> set is" "length (M_FromAssetID s) \<le> j" "\<not> useAsset (M_ToStartTime s ! j) (M_ToEndTime s ! j)"
  shows "TakeMulti_to x s n is db bals locks = None"
  using assms(1)
proof (induction "is" arbitrary: db bals locks)
  case (Cons i js)
  show ?case
  proof (rule ccontr)
    assume "TakeMulti_to x s n (i # js) db bals locks \<noteq> None"
    then obtain k db1 b1 l1 r where 1: "snapshotAsset x k db bals locks = Some (db1, b1, l1)" "TakeMulti_to x s n js db1 b1 l1 = Some r"
      "\<not> (leg_need (newLeg x k (M_ToStartTime s ! i) (M_ToEndTime s ! i) (M_MinToAmount s ! i * n)) \<noteq> None \<and> length (M_FromAssetID s) \<le> i)"
      by (auto simp: bind_eq_Some_conv goIndex_def Let_def split: if_splits)
    then show False using Cons assms(2,3) by (auto simp: newLeg_def)
  qed
qed simp

text \<open>C31. A multi-swap that asks for more legs than it offers can panic the node that executes it: the slice for the
  time locks of the \<open>to\<close> legs has as many elements as there are \<open>from\<close> legs, so taking the swap panics
  whenever some \<open>to\<close> leg with a larger index is time-locked, whoever takes it and whatever they hold.\<close>

theorem multi_swap_take_panics:
  assumes "ledger_ok db" "funcOfCode (Func p) = TakeMultiSwapFunc" "q = decTakeSwap (X_params x) (Data p)"
    "record_at (multiSwapRLP (X_codecs x)) MultiSwapKeyAddress db (TS_SwapID q) = Inr s" "TakeMultiSwap_Check q s (X_timestamp x) = None"
    "length (M_FromAssetID s) \<le> j" "j < length (M_ToAssetID s)" "\<not> useAsset (M_ToStartTime s ! j) (M_ToEndTime s ! j)"
  shows "handleFsnCall x p db = None"
proof -
  have g: "GetMultiSwap (X_codecs x) db (TS_SwapID q) = Some (r, db1) \<Longrightarrow> r = Inr s" for r db1
    using read_multi [OF assms(1)] assms(4) by simp
  have to: "TakeMulti_to x s n [0..<length (M_ToAssetID s)] db1 Map.empty Map.empty = None" for n db1
    by (rule TakeMulti_to_panics [OF _ assms(6,8)]) (use assms(7) in simp)
  have "handleTakeMultiSwap x p db = None"
    using g assms(5) by (cases "GetMultiSwap (X_codecs x) db (TS_SwapID q)")
      (auto simp: handleTakeMultiSwap_def assms(3) [symmetric] to bind_eq_None_conv split: option.splits)
  then show ?thesis using assms(2) by (simp add: handleFsnCall_def)
qed

definition basket :: "uint64 \<Rightarrow> MultiSwap" where
  "basket ende = \<lparr>M_ID = 7, M_Owner = 1, M_FromAssetID = [5], M_FromStartTime = [0], M_FromEndTime = [TimeLockForever], M_MinFromAmount = [3],
     M_ToAssetID = [6, 6], M_ToStartTime = [0, 0], M_ToEndTime = [TimeLockForever, ende], M_MinToAmount = [4, 5], M_SwapSize = 10,
     M_Targes = [], M_Time = 0, M_Description = [], M_Notation = 0\<rparr>"

definition basketCodecs :: "uint64 \<Rightarrow> Codecs" where
  "basketCodecs ende = exampleCodecs\<lparr>multiSwapRLP := pairCodec \<lparr>P_Deleted = False, P_Value = basket ende\<rparr> \<lparr>P_Deleted = True, P_Value = basket ende\<rparr>\<rparr>"

definition basketContext :: "uint64 \<Rightarrow> CallContext" where
  "basketContext ende = (exampleContext exampleSend exampleLock exampleTicket)\<lparr>X_from := 2, X_codecs := basketCodecs ende\<rparr>"

lemma basket_codec:
  "codec_ok (multiSwapRLP (basketCodecs e))" "EncodeToBytes (multiSwapRLP (basketCodecs e)) \<lparr>P_Deleted = False, P_Value = basket e\<rparr> = Some [1]"
  "EncodeToBytes (multiSwapRLP (basketCodecs e)) \<lparr>P_Deleted = True, P_Value = basket e\<rparr> = Some [2]"
  by (simp_all add: basketCodecs_def pairCodec_ok) (simp_all add: pairCodec_def)

lemma basket_simps:
  "M_ID (basket e) = 7" "M_Owner (basket e) = 1" "M_FromAssetID (basket e) = [5]" "M_FromStartTime (basket e) = [0]" "M_FromEndTime (basket e) = [TimeLockForever]"
  "M_MinFromAmount (basket e) = [3]" "M_ToAssetID (basket e) = [6, 6]" "M_ToStartTime (basket e) = [0, 0]" "M_ToEndTime (basket e) = [TimeLockForever, e]"
  "M_MinToAmount (basket e) = [4, 5]" "M_SwapSize (basket e) = 10" "multi_sound (basket e)"
  "X_from (basketContext e) = 2" "X_codecs (basketContext e) = basketCodecs e" "X_timestamp (basketContext e) = 100"
  "decTakeSwap (X_params (basketContext e)) d = \<lparr>TS_SwapID = 7, TS_Size = Some 10\<rparr>" "funcOfCode 15 = TakeMultiSwapFunc"
  by (simp_all add: basket_def multi_sound_def basketContext_def exampleContext_def funcOfCode_def)

lemma basket_check: "100 < e \<Longrightarrow> TakeMultiSwap_Check \<lparr>TS_SwapID = 7, TS_Size = Some 10\<rparr> (basket e) 100 = None"
  by (simp add: TakeMultiSwap_Check_def notPositive_def basket_simps swap_eval)

lemma basketFiled:
  obtains db where "AddMultiSwap (basketCodecs e) (New hashEnv Map.empty 0 emptyTicketSlice) (basket e) = Some (None, db)" "ledger_ok db"
    "coins db = coins (New hashEnv Map.empty 0 emptyTicketSlice)" "record_at (multiSwapRLP (basketCodecs e)) MultiSwapKeyAddress db 7 = Inr (basket e)"
    "readable db MultiSwapKeyAddress (hash_bytes 7)"
proof -
  have f: "struct_fits (env (New hashEnv Map.empty 0 emptyTicketSlice)) (hash_bytes 7) [1]" by (simp add: hashEnv_keys)
  show thesis using add_step [OF ledger_New New_record(2) _ basket_codec(2,1) f] that by (auto simp: record_changes basket_simps New_record)
qed

theorem multi_swap_take_panics_witness:
  "\<exists>db. AddMultiSwap (basketCodecs 1000) (New hashEnv Map.empty 0 emptyTicketSlice) (basket 1000) = Some (None, db) \<and>
    handleFsnCall (basketContext 1000) \<lparr>Func = 15, Data = []\<rparr> db = None"
proof -
  obtain db where db: "AddMultiSwap (basketCodecs 1000) (New hashEnv Map.empty 0 emptyTicketSlice) (basket 1000) = Some (None, db)" "ledger_ok db"
    "record_at (multiSwapRLP (basketCodecs 1000)) MultiSwapKeyAddress db 7 = Inr (basket 1000)" by (rule basketFiled)
  have "\<not> useAsset 0 1000" by (simp add: useAsset_def TimeLockForever_def)
  with multi_swap_take_panics [OF db(2) _ refl, of "\<lparr>Func = 15, Data = []\<rparr>" "basketContext 1000" "basket 1000" 1] db(1,3)
  show ?thesis by (simp add: basket_simps basket_check)
qed

lemma TimeLock_read_step:
  assumes "ledger_ok db"
  obtains l db' where "GetTimeLockBalance db k a = Some (Some l, db')" "ledger_ok db'" "coins db' = coins db" "acc db' = acc db" "env db' = env db"
proof -
  obtain db' where db': "GetTimeLockBalance db k a = Some (a_lock (acc db a) k, db')" "becomes db (acc db) db'"
    using GetTimeLockBalance_becomes [OF ledger_db_ok [OF assms], of k a] by auto
  have "\<exists>l. a_lock (acc db a) k = Some l" using assms unfolding ledger_ok_def lck_def by meson
  then obtain l where "a_lock (acc db a) k = Some l" by blast
  with keeps_still [OF assms becomes_same_keeps [OF db'(2)]] show thesis
    using that [of l db'] db' becomes_acc by (auto simp: still_def)
qed

lemma GetBalance_step:
  assumes "ledger_ok db"
  obtains db' where "GetBalance db k a = Some (Some (coins db a k), db')" "ledger_ok db'" "coins db' = coins db" "acc db' = acc db" "env db' = env db"
proof -
  obtain db' where db': "GetBalance db k a = Some (Some (coins db a k), db')" "becomes db (acc db) db'"
    using GetBalance_becomes [OF ledger_db_ok [OF assms(1)], of k a] ledger_bal(1) [OF assms(1), of a k] by (auto simp: bal_def)
  from keeps_still [OF assms(1) becomes_same_keeps [OF db'(2)]] show thesis
    using that [of db'] db' becomes_acc by (auto simp: still_def)
qed

theorem multi_swap_take_exchanges_witness:
  "\<exists>db1 db db'. AddMultiSwap (basketCodecs TimeLockForever) (New hashEnv Map.empty 0 emptyTicketSlice) (basket TimeLockForever) = Some (None, db1) \<and>
    AddBalance db1 2 6 100 = Some db \<and>
    handleFsnCall (basketContext TimeLockForever) \<lparr>Func = 15, Data = []\<rparr> db = Some (None, db') \<and>
    worth db' 1 6 200 = worth db 1 6 200 + 90 \<and> worth db' 2 6 200 = worth db 2 6 200 - 90 \<and> worth db' 2 5 200 = worth db 2 5 200 + 30"
proof -
  let ?n = "New hashEnv Map.empty 0 emptyTicketSlice" and ?c = "basketCodecs TimeLockForever" and ?x = "basketContext TimeLockForever"
  let ?p = "\<lparr>Func = 15, Data = []\<rparr> :: FSNCallParam" and ?rlp = "multiSwapRLP (basketCodecs TimeLockForever)" and ?A = MultiSwapKeyAddress
  obtain db1 where 1: "AddMultiSwap ?c ?n (basket TimeLockForever) = Some (None, db1)" "ledger_ok db1" "coins db1 = coins ?n"
    "record_at ?rlp ?A db1 7 = Inr (basket TimeLockForever)" "readable db1 ?A (hash_bytes 7)" by (rule basketFiled)
  obtain db where 0: "AddBalance db1 2 6 100 = Some db" "ledger_ok db" "same_storage db1 db" "env db = env db1"
    "\<And>b j. coins db b j = coins db1 b j + only 2 6 100 b j" by (rule fund_step [OF 1(2), of 100 2 6]) (simp, rule that)
  have r: "record_at ?rlp ?A db 7 = Inr (basket TimeLockForever)" "readable db ?A (hash_bytes 7)"
    using 1(4,5) by (simp_all add: same_storage_record [OF 0(3,4)] same_readable(1) [OF 0(3,4)])
  have c: "coins db 2 6 = 100" using 0(5) 1(3) by (simp add: coins_New)
  obtain d1 where 2: "GetMultiSwap ?c db 7 = Some (Inr (basket TimeLockForever), d1)" "ledger_ok d1" "coins d1 = coins db" "acc d1 = acc db" "env d1 = env db"
    using get_step [OF 0(2) r(2), of ?rlp] r(1) by (auto simp: record_ops)
  obtain d2 where 3: "GetBalance d1 6 2 = Some (Some (coins d1 2 6), d2)" "ledger_ok d2" "coins d2 = coins d1" "acc d2 = acc d1" "env d2 = env d1"
    by (rule GetBalance_step [OF 2(2)])
  obtain l d3 where 4: "GetTimeLockBalance d2 6 2 = Some (Some l, d3)" "ledger_ok d3" "coins d3 = coins d2" "acc d3 = acc d2" "env d3 = env d2"
    by (rule TimeLock_read_step [OF 3(2)])
  have e: "40 \<le> coins d3 2 6" using c 2 3 4 by simp
  obtain d4 where 5: "balanceBelow d3 6 2 40 = Some (False, d4)" "ledger_ok d4" "coins d4 = coins d3" "acc d4 = acc d3" "env d4 = env d3"
    by (rule below_step [OF 4(2) e])
  have "40 \<le> coins d4 2 6" using e 5 by simp
  then obtain d5 where 6: "SubBalance d4 2 6 40 = Some d5" "ledger_ok d5" "same_storage d4 d5" "env d5 = env d4"
    "\<And>b j. coins d5 b j = coins d4 b j - only 2 6 40 b j" by (rule draw_step [OF 5(2)]) (rule that)
  have e: "50 \<le> coins d5 2 6" using c 2 3 4 5 6 by simp
  obtain d6 where 7: "balanceBelow d5 6 2 50 = Some (False, d6)" "ledger_ok d6" "coins d6 = coins d5" "acc d6 = acc d5" "env d6 = env d5"
    by (rule below_step [OF 6(2) e])
  have "50 \<le> coins d6 2 6" using e 7 by simp
  then obtain d7 where 8: "SubBalance d6 2 6 50 = Some d7" "ledger_ok d7" "same_storage d6 d7" "env d7 = env d6"
    "\<And>b j. coins d7 b j = coins d6 b j - only 2 6 50 b j" by (rule draw_step [OF 7(2)]) (rule that)
  have a: "acc d4 = acc db" "env d4 = env db" "acc d6 = acc d5" "env d6 = env d5" using 2 3 4 5 7 by simp_all
  have r': "record_at ?rlp ?A d7 7 = Inr (basket TimeLockForever)" "readable d7 ?A (hash_bytes 7)"
    using r by (simp_all add: same_storage_record [OF 8(3,4)] same_readable(1) [OF 8(3,4)] same_readable(2,3) [OF a(3,4)]
        same_storage_record [OF 6(3,4)] same_readable(1) [OF 6(3,4)] same_readable(2,3) [OF a(1,2)])
  obtain d8 where 9: "RemoveMultiSwap ?c d7 7 = Some (None, d8)" "ledger_ok d8"
    using remove_step [OF 8(2) r'(2,1) basket_codec(3)] by (auto simp: record_changes)
  obtain d9 where 10: "AddBalance d8 1 6 40 = Some d9" "ledger_ok d9" by (rule fund_step [OF 9(2), of 40 1 6]) (simp, rule that)
  obtain d10 where 11: "AddBalance d9 1 6 50 = Some d10" "ledger_ok d10" by (rule fund_step [OF 10(2), of 50 1 6]) (simp, rule that)
  obtain d11 where 12: "AddBalance d10 2 5 30 = Some d11" by (rule fund_step [OF 11(2), of 30 2 5]) (simp, rule that)
  have u: "[0..<Suc 0] = [0]" "[0..<Suc (Suc 0)] = [0, 1]" by (simp_all add: upt_rec)
  obtain db' where h: "handleFsnCall ?x ?p db = Some (None, db')"
    by (simp add: handleFsnCall_def handleTakeMultiSwap_def Let_def basket_simps 2(1) basket_check swap_eval u goIndex_def newLeg_def snapshotAsset_def 3(1) 4(1)
        c 2(3) deductLeg_def legValid_def 5(1) 6(1) 7(1) 8(1) 9(1) creditLeg_def 10(1) 11(1) 12)
  have m: "X_timestamp ?x \<noteq> 0" "funcOfCode (Func ?p) = TakeMultiSwapFunc" "X_timestamp ?x \<le> 200"
    "record_at (multiSwapRLP (X_codecs ?x)) MultiSwapKeyAddress db (TS_SwapID (decTakeSwap (X_params ?x) (Data ?p))) = Inr (basket TimeLockForever)"
    "TS_Size (decTakeSwap (X_params ?x) (Data ?p)) = Some 10" by (simp_all add: basket_simps r(1))
  have w: "worth db' a k 200 = worth db a k 200 + (if k = 6 then (if a = 1 then 90 else 0) - (if a = 2 then 90 else 0) else 0) +
      (if k = 5 \<and> a = 2 then 30 else 0)" for a k
    using multi_swap_take_exchanges [OF 0(2) m(1,2) refl m(4) basket_simps(12) m(5) h m(3) refl refl, of a k]
    apply (simp only: basket_simps)
    apply (simp add: legAmount_def swap_eval lessThan_Suc split del: if_split cong: if_cong)
    by (cases "k = 6"; cases "a = 1") simp_all
  show ?thesis using w [of 1 6] w [of 2 6] w [of 2 5] 1(1) 0(1) h by auto
qed

end
