(* ===== verification/Rlp_Codec.thy ===== *)
theory Rlp_Codec
  imports Byte_Codec
begin

text \<open>
  The RLP serialization of \<open>rlp/encode.go\<close>, \<open>rlp/decode.go\<close> and \<open>rlp/raw.go\<close>. The Go types and values that
  the package inspects by reflection are the datatypes \<open>rtype\<close> and \<open>rvalue\<close>; \<open>writer\<close> and \<open>decoder\<close> are the
  functions that \<open>makeWriter\<close> and \<open>makeDecoder\<close> build for a type, over the output buffer \<open>encbuf\<close> and the
  input \<open>Stream\<close>. A run-time panic of the encoder is \<open>None\<close>; a decoder is \<open>None\<close> when it does not return.
\<close>

section \<open>Types and values\<close>

datatype rtype =
    UintT nat
  | BoolT
  | BigIntT
  | StringT
  | BytesT
  | ByteArrayT nat
  | SliceT rtype
  | ArrayT nat rtype
  | StructT "rtype list"
  | PtrT rtype
  | NilPtrT rtype
  | RawT

text \<open>A pointer to a \<open>big.Int\<close> is \<open>BigV\<close>, with \<open>None\<close> for nil; \<open>NilPtrT\<close> is a pointer field with the tag \<open>nil\<close>.\<close>

datatype rvalue =
    UintV uint64
  | BoolV bool
  | BigV "int option"
  | BytesV bytes
  | ListV "rvalue list"
  | PtrV "rvalue option"

datatype rlp_error =
    EOL | ErrExpectedString | ErrExpectedList | ErrCanonInt | ErrCanonSize | ErrElemTooLarge | ErrValueTooLarge
  | ErrMoreThanOneValue | errNotInList | errNotAtEOL | errUintOverflow | io_EOF | ErrUnexpectedEOF
  | decodeError string | ErrNegative | ErrBoolValue uint64

text \<open>Reading a value as one of another kind panics.\<close>

definition val_Uint :: "rvalue \<Rightarrow> uint64 option" where
  "val_Uint v = (case v of UintV i \<Rightarrow> Some i | _ \<Rightarrow> None)"

definition val_Bool :: "rvalue \<Rightarrow> bool option" where
  "val_Bool v = (case v of BoolV b \<Rightarrow> Some b | _ \<Rightarrow> None)"

definition val_BigInt :: "rvalue \<Rightarrow> int option option" where
  "val_BigInt v = (case v of BigV p \<Rightarrow> Some p | _ \<Rightarrow> None)"

definition val_Bytes :: "rvalue \<Rightarrow> bytes option" where
  "val_Bytes v = (case v of BytesV b \<Rightarrow> Some b | _ \<Rightarrow> None)"

definition val_List :: "rvalue \<Rightarrow> rvalue list option" where
  "val_List v = (case v of ListV vs \<Rightarrow> Some vs | _ \<Rightarrow> None)"

definition val_Ptr :: "rvalue \<Rightarrow> rvalue option option" where
  "val_Ptr v = (case v of PtrV p \<Rightarrow> Some p | _ \<Rightarrow> None)"

lemmas val_defs = val_Uint_def val_Bool_def val_BigInt_def val_Bytes_def val_List_def val_Ptr_def

text \<open>The zero value of a type, which a fresh variable has.\<close>

fun zeroValue :: "rtype \<Rightarrow> rvalue" where
  "zeroValue (UintT b) = UintV 0"
| "zeroValue BoolT = BoolV False"
| "zeroValue BigIntT = BigV None"
| "zeroValue StringT = BytesV []"
| "zeroValue BytesT = BytesV []"
| "zeroValue (ByteArrayT n) = BytesV (replicate n 0)"
| "zeroValue (SliceT t) = ListV []"
| "zeroValue (ArrayT n t) = ListV (replicate n (zeroValue t))"
| "zeroValue (StructT ts) = ListV (map zeroValue ts)"
| "zeroValue (PtrT t) = PtrV None"
| "zeroValue (NilPtrT t) = PtrV None"
| "zeroValue RawT = BytesV []"

section \<open>The encoder\<close>

subsection \<open>Sizes and headers\<close>

definition byteAt :: "uint64 \<Rightarrow> nat \<Rightarrow> uint8" where
  "byteAt i k = ucast (drop_bit k i)"

definition putint :: "uint64 \<Rightarrow> bytes" where
  "putint i =
    (if i < 0x100 then [byteAt i 0]
     else if i < 0x10000 then [byteAt i 8, byteAt i 0]
     else if i < 0x1000000 then [byteAt i 16, byteAt i 8, byteAt i 0]
     else if i < 0x100000000 then [byteAt i 24, byteAt i 16, byteAt i 8, byteAt i 0]
     else if i < 0x10000000000 then [byteAt i 32, byteAt i 24, byteAt i 16, byteAt i 8, byteAt i 0]
     else if i < 0x1000000000000 then [byteAt i 40, byteAt i 32, byteAt i 24, byteAt i 16, byteAt i 8, byteAt i 0]
     else if i < 0x100000000000000 then [byteAt i 48, byteAt i 40, byteAt i 32, byteAt i 24, byteAt i 16, byteAt i 8, byteAt i 0]
     else [byteAt i 56, byteAt i 48, byteAt i 40, byteAt i 32, byteAt i 24, byteAt i 16, byteAt i 8, byteAt i 0])"

lemma drop_byte_less: "drop_bit 8 i \<noteq> (0 :: uint64) \<Longrightarrow> unat (drop_bit 8 i) < unat i"
proof -
  assume "drop_bit 8 i \<noteq> 0"
  then have "i \<noteq> 0" by auto
  then have "0 < unat i" by (simp add: unat_gt_0)
  then show ?thesis by (simp add: drop_bit_eq_div unat_div)
qed

function intsize :: "uint64 \<Rightarrow> nat" where
  "intsize i = (if drop_bit 8 i = 0 then 1 else Suc (intsize (drop_bit 8 i)))"
  by auto
termination by (relation "measure unat") (auto intro: drop_byte_less)

declare intsize.simps [simp del]

definition headsize :: "uint64 \<Rightarrow> nat" where
  "headsize size' = (if size' < 56 then 1 else 1 + intsize size')"

definition puthead :: "uint8 \<Rightarrow> uint8 \<Rightarrow> uint64 \<Rightarrow> bytes" where
  "puthead smalltag largetag size' =
    (if size' < 56 then [smalltag + ucast size']
     else let sizebytes = putint size' in (largetag + of_nat (length sizebytes)) # sizebytes)"

definition ListSize :: "uint64 \<Rightarrow> uint64" where
  "ListSize contentSize = of_nat (headsize contentSize) + contentSize"

subsection \<open>The output buffer\<close>

text \<open>
  The strings of the output in \<open>eb_str\<close>, and for every list its header: where it goes in the strings, and
  the size of its content. \<open>listEnd\<close> completes the header that \<open>list\<close> has put at index \<open>i\<close>.
\<close>

record listhead =
  lh_offset :: nat
  lh_size :: nat

record encbuf =
  eb_str :: bytes
  eb_lheads :: "listhead list"
  eb_lhsize :: nat

definition encbuf_reset :: encbuf where
  "encbuf_reset = \<lparr>eb_str = [], eb_lheads = [], eb_lhsize = 0\<rparr>"

definition encbuf_size :: "encbuf \<Rightarrow> nat" where
  "encbuf_size w = length (eb_str w) + eb_lhsize w"

definition encbuf_Write :: "bytes \<Rightarrow> encbuf \<Rightarrow> encbuf" where
  "encbuf_Write b w = w\<lparr>eb_str := eb_str w @ b\<rparr>"

definition listhead_encode :: "listhead \<Rightarrow> bytes" where
  "listhead_encode head = puthead 0xC0 0xF7 (of_nat (lh_size head))"

definition encodeStringHeader :: "nat \<Rightarrow> encbuf \<Rightarrow> encbuf" where
  "encodeStringHeader size' w =
    (if size' < 56 then encbuf_Write [0x80 + of_nat size'] w
     else let sizebytes = putint (of_nat size') in encbuf_Write ((0xB7 + of_nat (length sizebytes)) # sizebytes) w)"

definition encodeString :: "bytes \<Rightarrow> encbuf \<Rightarrow> encbuf" where
  "encodeString b w =
    (if length b = 1 \<and> b ! 0 \<le> 0x7F then encbuf_Write [b ! 0] w
     else encbuf_Write b (encodeStringHeader (length b) w))"

definition encbuf_list :: "encbuf \<Rightarrow> nat \<times> encbuf" where
  "encbuf_list w = (length (eb_lheads w), w\<lparr>eb_lheads := eb_lheads w @ [\<lparr>lh_offset = length (eb_str w), lh_size = eb_lhsize w\<rparr>]\<rparr>)"

definition encbuf_listEnd :: "nat \<Rightarrow> encbuf \<Rightarrow> encbuf" where
  "encbuf_listEnd i w = (let lh = eb_lheads w ! i; n = encbuf_size w - lh_offset lh - lh_size lh in
     w\<lparr>eb_lheads := (eb_lheads w)[i := lh\<lparr>lh_size := n\<rparr>],
       eb_lhsize := (if n < 56 then eb_lhsize w + 1 else eb_lhsize w + (1 + intsize (of_nat n)))\<rparr>)"

fun toBytes_loop :: "bytes \<Rightarrow> nat \<Rightarrow> listhead list \<Rightarrow> bytes" where
  "toBytes_loop str strpos [] = drop strpos str"
| "toBytes_loop str strpos (head # heads) =
    take (lh_offset head - strpos) (drop strpos str) @ listhead_encode head @ toBytes_loop str (max strpos (lh_offset head)) heads"

text \<open>A slice cannot have \<open>2 ^ 63\<close> elements: allocating it panics.\<close>

definition encbuf_toBytes :: "encbuf \<Rightarrow> bytes option" where
  "encbuf_toBytes w = (if encbuf_size w < 2 ^ 63 then Some (toBytes_loop (eb_str w) 0 (eb_lheads w)) else None)"

subsection \<open>Writers\<close>

definition writeUint :: "uint64 \<Rightarrow> encbuf \<Rightarrow> encbuf" where
  "writeUint i w =
    (if i = 0 then encbuf_Write [0x80] w
     else if i < 128 then encbuf_Write [ucast i] w
     else let s = putint i in encbuf_Write ((0x80 + of_nat (length s)) # s) w)"

definition writeBool :: "bool \<Rightarrow> encbuf \<Rightarrow> encbuf" where
  "writeBool b w = encbuf_Write [if b then 0x01 else 0x80] w"

definition writeBigInt :: "int \<Rightarrow> encbuf \<Rightarrow> rlp_error option \<times> encbuf" where
  "writeBigInt i w =
    (if i < 0 then (Some ErrNegative, w)
     else if i = 0 then (None, encbuf_Write [0x80] w)
     else (None, encodeString (big_bytes (nat i)) w))"

definition writeBigIntPtr :: "int option \<Rightarrow> encbuf \<Rightarrow> rlp_error option \<times> encbuf" where
  "writeBigIntPtr ptr w = (case ptr of None \<Rightarrow> (None, encbuf_Write [0x80] w) | Some i \<Rightarrow> writeBigInt i w)"

definition writeString :: "bytes \<Rightarrow> encbuf \<Rightarrow> encbuf" where
  "writeString s w =
    (if length s = 1 \<and> s ! 0 \<le> 0x7f then encbuf_Write [s ! 0] w
     else encbuf_Write s (encodeStringHeader (length s) w))"

text \<open>What \<open>makePtrWriter\<close> writes for a nil pointer.\<close>

definition writeNil :: "rtype \<Rightarrow> encbuf \<Rightarrow> encbuf" where
  "writeNil t w = (case t of ByteArrayT n \<Rightarrow> encbuf_Write [0x80] w | _ \<Rightarrow> (let (i, w) = encbuf_list w in encbuf_listEnd i w))"

definition encodesNilAsZero :: "rtype \<Rightarrow> bool" where
  "encodesNilAsZero t = (case t of ByteArrayT n \<Rightarrow> False | StructT ts \<Rightarrow> False | ArrayT n t \<Rightarrow> False | _ \<Rightarrow> True)"

text \<open>
  The writer of a type. \<open>writeElems\<close> writes the elements of a slice or array, \<open>writeFields\<close> the fields of a
  struct; the header of a slice is completed on an error too, that of a struct is not.
\<close>

fun writer :: "rtype \<Rightarrow> rvalue \<Rightarrow> encbuf \<Rightarrow> (rlp_error option \<times> encbuf) option"
  and writeElems :: "rtype \<Rightarrow> rvalue list \<Rightarrow> encbuf \<Rightarrow> (rlp_error option \<times> encbuf) option"
  and writeFields :: "rtype list \<Rightarrow> rvalue list \<Rightarrow> encbuf \<Rightarrow> (rlp_error option \<times> encbuf) option" where
  "writer (UintT b) v w = do { i \<leftarrow> val_Uint v; Some (None, writeUint i w) }"
| "writer BoolT v w = do { b \<leftarrow> val_Bool v; Some (None, writeBool b w) }"
| "writer BigIntT v w = do { p \<leftarrow> val_BigInt v; Some (writeBigIntPtr p w) }"
| "writer StringT v w = do { s \<leftarrow> val_Bytes v; Some (None, writeString s w) }"
| "writer BytesT v w = do { b \<leftarrow> val_Bytes v; Some (None, encodeString b w) }"
| "writer (ByteArrayT n) v w = do { b \<leftarrow> val_Bytes v; Some (None, encodeString b w) }"
| "writer RawT v w = do { b \<leftarrow> val_Bytes v; Some (None, encbuf_Write b w) }"
| "writer (SliceT t) v w = do {
     vs \<leftarrow> val_List v;
     let (i, w) = encbuf_list w;
     (e, w) \<leftarrow> writeElems t vs w;
     Some (e, encbuf_listEnd i w) }"
| "writer (ArrayT n t) v w = do {
     vs \<leftarrow> val_List v;
     let (i, w) = encbuf_list w;
     (e, w) \<leftarrow> writeElems t vs w;
     Some (e, encbuf_listEnd i w) }"
| "writer (StructT ts) v w = do {
     vs \<leftarrow> val_List v;
     let (i, w) = encbuf_list w;
     (e, w) \<leftarrow> writeFields ts vs w;
     Some (e, if e = None then encbuf_listEnd i w else w) }"
| "writer (PtrT t) v w = do {
     p \<leftarrow> val_Ptr v;
     (case p of
       Some v \<Rightarrow> writer t v w
     | None \<Rightarrow> if encodesNilAsZero t then writer t (zeroValue t) w else Some (None, writeNil t w)) }"
| "writer (NilPtrT t) v w = do {
     p \<leftarrow> val_Ptr v;
     (case p of
       Some v \<Rightarrow> writer t v w
     | None \<Rightarrow> if encodesNilAsZero t then writer t (zeroValue t) w else Some (None, writeNil t w)) }"
| "writeElems t [] w = Some (None, w)"
| "writeElems t (v # vs) w = do {
     (e, w) \<leftarrow> writer t v w;
     if e = None then writeElems t vs w else Some (e, w) }"
| "writeFields [] vs w = (if vs = [] then Some (None, w) else None)"
| "writeFields (t # ts) vs w = (case vs of
       [] \<Rightarrow> None
     | v # vs \<Rightarrow> do {
         (e, w) \<leftarrow> writer t v w;
         if e = None then writeFields ts vs w else Some (e, w) })"

definition rlp_EncodeToBytes :: "rtype \<Rightarrow> rvalue \<Rightarrow> (rlp_error + bytes) option" where
  "rlp_EncodeToBytes t v = do {
     (e, w) \<leftarrow> writer t v encbuf_reset;
     (case e of
       Some e \<Rightarrow> Some (Inl e)
     | None \<Rightarrow> do { b \<leftarrow> encbuf_toBytes w; Some (Inr b) }) }"

section \<open>The decoder\<close>

subsection \<open>The input stream\<close>

datatype Kind = KByte | KString | KList

record listpos =
  lp_pos :: uint64
  lp_size :: uint64

text \<open>
  The input not yet read (\<open>r\<close>), the limit, the kind, size and value of the value ahead, if its header has
  been read (\<open>kind\<close> is -1, here \<open>None\<close>, otherwise), the error of that, and the enclosing lists, the
  innermost first.
\<close>

record Stream =
  s_r :: bytes
  s_remaining :: uint64
  s_limited :: bool
  s_kind :: "Kind option"
  s_size :: uint64
  s_byteval :: uint8
  s_kinderr :: "rlp_error option"
  s_stack :: "listpos list"

text \<open>\<open>NewStream\<close> on a byte slice: the limit is its length.\<close>

definition NewStream :: "bytes \<Rightarrow> Stream" where
  "NewStream b = \<lparr>s_r = b, s_remaining = of_nat (length b), s_limited = True, s_kind = None, s_size = 0, s_byteval = 0,
     s_kinderr = None, s_stack = []\<rparr>"

definition willRead :: "uint64 \<Rightarrow> Stream \<Rightarrow> rlp_error option \<times> Stream" where
  "willRead n s = (let s = s\<lparr>s_kind := None\<rparr> in
     if s_stack s \<noteq> [] \<and> n > lp_size (hd (s_stack s)) - lp_pos (hd (s_stack s)) then (Some ErrElemTooLarge, s)
     else let s = (case s_stack s of [] \<Rightarrow> s | tos # st \<Rightarrow> s\<lparr>s_stack := tos\<lparr>lp_pos := lp_pos tos + n\<rparr> # st\<rparr>) in
       if s_limited s then
         if n > s_remaining s then (Some ErrValueTooLarge, s)
         else (None, s\<lparr>s_remaining := s_remaining s - n\<rparr>)
       else (None, s))"

definition readByte :: "Stream \<Rightarrow> rlp_error option \<times> uint8 \<times> Stream" where
  "readByte s = (let (e, s) = willRead 1 s in
     if e \<noteq> None then (e, 0, s)
     else case s_r s of [] \<Rightarrow> (Some ErrUnexpectedEOF, 0, s) | b # bs \<Rightarrow> (None, b, s\<lparr>s_r := bs\<rparr>))"

text \<open>The bytes read are those the buffer then starts with.\<close>

definition readFull :: "nat \<Rightarrow> Stream \<Rightarrow> rlp_error option \<times> bytes \<times> Stream" where
  "readFull n s = (let (e, s) = willRead (of_nat n) s in
     if e \<noteq> None then (e, [], s)
     else (if n \<le> length (s_r s) then None else Some ErrUnexpectedEOF, take n (s_r s), s\<lparr>s_r := drop n (s_r s)\<rparr>))"

definition readUint :: "uint8 \<Rightarrow> Stream \<Rightarrow> rlp_error option \<times> uint64 \<times> Stream" where
  "readUint size' s =
    (if size' = 0 then (None, 0, s\<lparr>s_kind := None\<rparr>)
     else if size' = 1 then (let (e, b, s) = readByte s in (e, ucast b, s))
     else let (e, b, s) = readFull (unat size') s in
       if e \<noteq> None then (e, 0, s)
       else if hd b = 0 then (Some ErrCanonSize, 0, s)
       else (None, of_nat (from_be b), s))"

definition Stream_readKind :: "Stream \<Rightarrow> Kind \<times> uint64 \<times> rlp_error option \<times> Stream" where
  "Stream_readKind s = (let (e, b, s) = readByte s in
     if e \<noteq> None then
       (KByte, 0, if s_stack s = [] \<and> (e = Some ErrUnexpectedEOF \<or> e = Some ErrValueTooLarge) then Some io_EOF else e, s)
     else let s = s\<lparr>s_byteval := 0\<rparr> in
       if b < 0x80 then (KByte, 0, None, s\<lparr>s_byteval := b\<rparr>)
       else if b < 0xB8 then (KString, ucast (b - 0x80), None, s)
       else if b < 0xC0 then
         (let (e, n, s) = readUint (b - 0xB7) s in (KString, n, if e = None \<and> n < 56 then Some ErrCanonSize else e, s))
       else if b < 0xF8 then (KList, ucast (b - 0xC0), None, s)
       else (let (e, n, s) = readUint (b - 0xF7) s in (KList, n, if e = None \<and> n < 56 then Some ErrCanonSize else e, s)))"

definition Stream_Kind :: "Stream \<Rightarrow> Kind \<times> uint64 \<times> rlp_error option \<times> Stream" where
  "Stream_Kind s = (case s_kind s of
      Some k \<Rightarrow> (k, s_size s, s_kinderr s, s)
    | None \<Rightarrow> (let s = s\<lparr>s_kinderr := None\<rparr>; tos = s_stack s in
        if tos \<noteq> [] \<and> lp_pos (hd tos) = lp_size (hd tos) then (KByte, 0, Some EOL, s)
        else let (k, n, e, s) = Stream_readKind s; tos = s_stack s;
            e = (if e \<noteq> None then e
                 else if tos = [] then (if s_limited s \<and> n > s_remaining s then Some ErrValueTooLarge else None)
                 else if n > lp_size (hd tos) - lp_pos (hd tos) then Some ErrElemTooLarge else None)
          in (k, n, e, s\<lparr>s_kind := Some k, s_size := n, s_kinderr := e\<rparr>)))"

definition Stream_Bytes :: "Stream \<Rightarrow> rlp_error option \<times> bytes \<times> Stream" where
  "Stream_Bytes s = (let (kind, size', e, s) = Stream_Kind s in
     if e \<noteq> None then (e, [], s)
     else case kind of
       KByte \<Rightarrow> (None, [s_byteval s], s\<lparr>s_kind := None\<rparr>)
     | KString \<Rightarrow> (let (e, b, s) = readFull (unat size') s in
         if e \<noteq> None then (e, [], s)
         else if size' = 1 \<and> b ! 0 < 128 then (Some ErrCanonSize, [], s)
         else (None, b, s))
     | KList \<Rightarrow> (Some ErrExpectedString, [], s))"

definition Stream_Raw :: "Stream \<Rightarrow> rlp_error option \<times> bytes \<times> Stream" where
  "Stream_Raw s = (let (kind, size', e, s) = Stream_Kind s in
     if e \<noteq> None then (e, [], s)
     else if kind = KByte then (None, [s_byteval s], s\<lparr>s_kind := None\<rparr>)
     else let (e, b, s) = readFull (unat size') s in
       if e \<noteq> None then (e, [], s)
       else (None, (if kind = KString then puthead 0x80 0xB7 size' else puthead 0xC0 0xF7 size') @ b, s))"

definition Stream_uint :: "nat \<Rightarrow> Stream \<Rightarrow> rlp_error option \<times> uint64 \<times> Stream" where
  "Stream_uint maxbits s = (let (kind, size', e, s) = Stream_Kind s in
     if e \<noteq> None then (e, 0, s)
     else case kind of
       KByte \<Rightarrow> if s_byteval s = 0 then (Some ErrCanonInt, 0, s) else (None, ucast (s_byteval s), s\<lparr>s_kind := None\<rparr>)
     | KString \<Rightarrow>
         if size' > of_nat (maxbits div 8) then (Some errUintOverflow, 0, s)
         else (let (e, v, s) = readUint (ucast size') s in
           if e = Some ErrCanonSize then (Some ErrCanonInt, 0, s)
           else if e \<noteq> None then (e, 0, s)
           else if size' > 0 \<and> v < 128 then (Some ErrCanonSize, 0, s)
           else (None, v, s))
     | KList \<Rightarrow> (Some ErrExpectedString, 0, s))"

definition Stream_Bool :: "Stream \<Rightarrow> rlp_error option \<times> bool \<times> Stream" where
  "Stream_Bool s = (let (e, num, s) = Stream_uint 8 s in
     if e \<noteq> None then (e, False, s)
     else if num = 0 then (None, False, s)
     else if num = 1 then (None, True, s)
     else (Some (ErrBoolValue num), False, s))"

definition Stream_List :: "Stream \<Rightarrow> rlp_error option \<times> uint64 \<times> Stream" where
  "Stream_List s = (let (kind, size', e, s) = Stream_Kind s in
     if e \<noteq> None then (e, 0, s)
     else if kind \<noteq> KList then (Some ErrExpectedList, 0, s)
     else (None, size', s\<lparr>s_stack := \<lparr>lp_pos = 0, lp_size = size'\<rparr> # s_stack s, s_kind := None, s_size := 0\<rparr>))"

definition Stream_ListEnd :: "Stream \<Rightarrow> rlp_error option \<times> Stream" where
  "Stream_ListEnd s = (case s_stack s of
      [] \<Rightarrow> (Some errNotInList, s)
    | tos # st \<Rightarrow>
        if lp_pos tos \<noteq> lp_size tos then (Some errNotAtEOL, s)
        else (None, s\<lparr>s_stack := (case st of [] \<Rightarrow> [] | p # ps \<Rightarrow> p\<lparr>lp_pos := lp_pos p + lp_size tos\<rparr> # ps), s_kind := None, s_size := 0\<rparr>))"

subsection \<open>Decoders\<close>

text \<open>The errors of the stream that become a \<open>decodeError\<close> with the type; its context is left out.\<close>

definition wrapStreamError :: "rlp_error option \<Rightarrow> rlp_error option" where
  "wrapStreamError err =
    (if err = Some ErrCanonInt then Some (decodeError ''non-canonical integer (leading zero bytes)'')
     else if err = Some ErrCanonSize then Some (decodeError ''non-canonical size information'')
     else if err = Some ErrExpectedList then Some (decodeError ''expected input list'')
     else if err = Some ErrExpectedString then Some (decodeError ''expected input string or byte'')
     else if err = Some errUintOverflow then Some (decodeError ''input string too long'')
     else if err = Some errNotAtEOL then Some (decodeError ''input list has too many elements'')
     else err)"

text \<open>A decoder is given the value of the variable it decodes into and returns the one it leaves there.\<close>

type_synonym decoded = "(rlp_error option \<times> rvalue \<times> Stream) option"

definition decodeUint :: "nat \<Rightarrow> rvalue \<Rightarrow> Stream \<Rightarrow> decoded" where
  "decodeUint bits v s = (let (e, num, s) = Stream_uint bits s in
     Some (if e \<noteq> None then (wrapStreamError e, v, s) else (None, UintV num, s)))"

definition decodeBool :: "rvalue \<Rightarrow> Stream \<Rightarrow> decoded" where
  "decodeBool v s = (let (e, b, s) = Stream_Bool s in
     Some (if e \<noteq> None then (wrapStreamError e, v, s) else (None, BoolV b, s)))"

definition decodeString :: "rvalue \<Rightarrow> Stream \<Rightarrow> decoded" where
  "decodeString v s = (let (e, b, s) = Stream_Bytes s in
     Some (if e \<noteq> None then (wrapStreamError e, v, s) else (None, BytesV b, s)))"

definition decodeByteSlice :: "rvalue \<Rightarrow> Stream \<Rightarrow> decoded" where
  "decodeByteSlice v s = (let (e, b, s) = Stream_Bytes s in
     Some (if e \<noteq> None then (wrapStreamError e, v, s) else (None, BytesV b, s)))"

definition decodeRawValue :: "rvalue \<Rightarrow> Stream \<Rightarrow> decoded" where
  "decodeRawValue v s = (let (e, b, s) = Stream_Raw s in
     Some (if e \<noteq> None then (e, v, s) else (None, BytesV b, s)))"

definition decodeBigInt :: "rvalue \<Rightarrow> Stream \<Rightarrow> decoded" where
  "decodeBigInt v s = (let (e, b, s) = Stream_Bytes s in
     if e \<noteq> None then Some (wrapStreamError e, v, s)
     else if b \<noteq> [] \<and> hd b = 0 then
       Some (wrapStreamError (Some ErrCanonInt), if v = BigV None then BigV (Some 0) else v, s)
     else Some (None, BigV (Some (int (from_be b))), s))"

definition decodeByteArray :: "nat \<Rightarrow> rvalue \<Rightarrow> Stream \<Rightarrow> decoded" where
  "decodeByteArray vlen v s = (let (kind, size', e, s) = Stream_Kind s in
     if e \<noteq> None then Some (e, v, s)
     else case kind of
       KByte \<Rightarrow>
         if vlen = 0 then Some (Some (decodeError ''input string too long''), v, s)
         else if vlen > 1 then Some (Some (decodeError ''input string too short''), v, s)
         else (let (_, bv, s) = Stream_uint 64 s in Some (None, BytesV [ucast bv], s))
     | KString \<Rightarrow>
         if of_nat vlen < size' then Some (Some (decodeError ''input string too long''), v, s)
         else if of_nat vlen > size' then Some (Some (decodeError ''input string too short''), v, s)
         else do {
           old \<leftarrow> val_Bytes v;
           let (e, b, s) = readFull vlen s;
           let v = BytesV (b @ drop (length b) old);
           Some (if e \<noteq> None then e
                 else if size' = 1 \<and> b ! 0 < 128 then wrapStreamError (Some ErrCanonSize) else None, v, s) }
     | KList \<Rightarrow> Some (wrapStreamError (Some ErrExpectedString), v, s))"

text \<open>
  \<open>decodeSliceElems\<close> decodes elements until the end of the list; it does not return if the element decoder
  goes on succeeding without reading anything. Elements are appended as zero values.
\<close>

partial_function (option) decodeSliceElems ::
  "(rvalue \<Rightarrow> Stream \<Rightarrow> decoded) \<Rightarrow> rvalue \<Rightarrow> nat \<Rightarrow> rvalue list \<Rightarrow> Stream \<Rightarrow> (rlp_error option \<times> rvalue list \<times> Stream) option" where
  "decodeSliceElems elemdec zero i vals s = do {
     let vals = (if i < length vals then vals else vals @ [zero]);
     (e, v, s) \<leftarrow> elemdec (vals ! i) s;
     let vals = vals[i := v];
     if e = Some EOL then Some (None, take i vals, s)
     else if e \<noteq> None then Some (e, vals, s)
     else decodeSliceElems elemdec zero (Suc i) vals s }"

definition decodeListSlice :: "(rvalue \<Rightarrow> Stream \<Rightarrow> decoded) \<Rightarrow> rvalue \<Rightarrow> rvalue \<Rightarrow> Stream \<Rightarrow> decoded" where
  "decodeListSlice elemdec zero v s = (let (e, size', s) = Stream_List s in
     if e \<noteq> None then Some (wrapStreamError e, v, s)
     else if size' = 0 then (let (e, s) = Stream_ListEnd s in Some (e, ListV [], s))
     else do {
       vs \<leftarrow> val_List v;
       (e, vs, s) \<leftarrow> decodeSliceElems elemdec zero 0 vs s;
       if e \<noteq> None then Some (e, ListV vs, s)
       else (let (e, s) = Stream_ListEnd s in Some (e, ListV vs, s)) })"

fun decodeArrayElems :: "(rvalue \<Rightarrow> Stream \<Rightarrow> decoded) \<Rightarrow> rvalue list \<Rightarrow> Stream \<Rightarrow> (rlp_error option \<times> rvalue list \<times> Stream) option" where
  "decodeArrayElems elemdec [] s = Some (None, [], s)"
| "decodeArrayElems elemdec (v # vs) s = do {
     (e, v, s) \<leftarrow> elemdec v s;
     if e = Some EOL then Some (Some (decodeError ''input list has too few elements''), v # vs, s)
     else if e \<noteq> None then Some (e, v # vs, s)
     else do { (e, vs, s) \<leftarrow> decodeArrayElems elemdec vs s; Some (e, v # vs, s) } }"

definition decodeListArray :: "(rvalue \<Rightarrow> Stream \<Rightarrow> decoded) \<Rightarrow> rvalue \<Rightarrow> Stream \<Rightarrow> decoded" where
  "decodeListArray elemdec v s = (let (e, _, s) = Stream_List s in
     if e \<noteq> None then Some (wrapStreamError e, v, s)
     else do {
       vs \<leftarrow> val_List v;
       (e, vs, s) \<leftarrow> decodeArrayElems elemdec vs s;
       if e \<noteq> None then Some (e, ListV vs, s)
       else (let (e, s) = Stream_ListEnd s in Some (wrapStreamError e, ListV vs, s)) })"

fun decoder :: "rtype \<Rightarrow> rvalue \<Rightarrow> Stream \<Rightarrow> decoded"
  and decodeFields :: "rtype list \<Rightarrow> rvalue list \<Rightarrow> Stream \<Rightarrow> (rlp_error option \<times> rvalue list \<times> Stream) option" where
  "decoder (UintT b) v s = decodeUint b v s"
| "decoder BoolT v s = decodeBool v s"
| "decoder BigIntT v s = decodeBigInt v s"
| "decoder StringT v s = decodeString v s"
| "decoder BytesT v s = decodeByteSlice v s"
| "decoder (ByteArrayT n) v s = decodeByteArray n v s"
| "decoder RawT v s = decodeRawValue v s"
| "decoder (SliceT t) v s = decodeListSlice (decoder t) (zeroValue t) v s"
| "decoder (ArrayT n t) v s = decodeListArray (decoder t) v s"
| "decoder (StructT ts) v s = (let (e, _, s) = Stream_List s in
     if e \<noteq> None then Some (wrapStreamError e, v, s)
     else do {
       vs \<leftarrow> val_List v;
       (e, vs, s) \<leftarrow> decodeFields ts vs s;
       if e \<noteq> None then Some (e, ListV vs, s)
       else (let (e, s) = Stream_ListEnd s in Some (wrapStreamError e, ListV vs, s)) })"
| "decoder (PtrT t) v s = do {
     p \<leftarrow> val_Ptr v;
     (e, v', s) \<leftarrow> decoder t (case p of None \<Rightarrow> zeroValue t | Some v \<Rightarrow> v) s;
     Some (e, if e = None \<or> p \<noteq> None then PtrV (Some v') else v, s) }"
| "decoder (NilPtrT t) v s = (let (kind, size', e, s) = Stream_Kind s in
     if e \<noteq> None \<or> size' = 0 \<and> kind \<noteq> KByte then Some (e, PtrV None, s\<lparr>s_kind := None\<rparr>)
     else do {
       p \<leftarrow> val_Ptr v;
       (e, v', s) \<leftarrow> decoder t (case p of None \<Rightarrow> zeroValue t | Some v \<Rightarrow> v) s;
       Some (e, if e = None \<or> p \<noteq> None then PtrV (Some v') else v, s) })"
| "decodeFields [] vs s = Some (None, vs, s)"
| "decodeFields (t # ts) vs s = (case vs of
       [] \<Rightarrow> None
     | v # vs \<Rightarrow> do {
         (e, v, s) \<leftarrow> decoder t v s;
         if e = Some EOL then Some (Some (decodeError ''too few elements''), v # vs, s)
         else if e \<noteq> None then Some (e, v # vs, s)
         else do { (e, vs, s) \<leftarrow> decodeFields ts vs s; Some (e, v # vs, s) } })"

definition rlp_DecodeBytes :: "rtype \<Rightarrow> bytes \<Rightarrow> rvalue \<Rightarrow> (rlp_error option \<times> rvalue) option" where
  "rlp_DecodeBytes t b v = do {
     (e, v, s) \<leftarrow> decoder t v (NewStream b);
     Some (if e \<noteq> None then e else if s_r s \<noteq> [] then Some ErrMoreThanOneValue else None, v) }"

section \<open>Splitting encoded values\<close>

definition readSize :: "bytes \<Rightarrow> uint8 \<Rightarrow> rlp_error + uint64" where
  "readSize b slen =
    (if unat slen > length b then Inl ErrUnexpectedEOF
     else let s = of_nat (from_be (take (unat slen) b)) in
       if s < 56 \<or> hd b = 0 then Inl ErrCanonSize else Inr s)"

definition rlp_readKind :: "bytes \<Rightarrow> rlp_error + Kind \<times> uint64 \<times> uint64" where
  "rlp_readKind buf = (case buf of
      [] \<Rightarrow> Inl ErrUnexpectedEOF
    | b # bs \<Rightarrow> (let
        large = (\<lambda>k base. case readSize bs (b - base) of Inl e \<Rightarrow> Inl e | Inr n \<Rightarrow> Inr (k, ucast (b - base) + 1, n));
        r = (if b < 0x80 then Inr (KByte, 0, 1)
             else if b < 0xB8 then
               if b - 0x80 = 1 \<and> bs \<noteq> [] \<and> hd bs < 128 then Inl ErrCanonSize else Inr (KString, 1, ucast (b - 0x80))
             else if b < 0xC0 then large KString 0xB7
             else if b < 0xF8 then Inr (KList, 1, ucast (b - 0xC0))
             else large KList 0xF7)
      in case r of
        Inl e \<Rightarrow> Inl e
      | Inr (k, tagsize, contentsize) \<Rightarrow>
          if contentsize > of_nat (length buf) - tagsize then Inl ErrValueTooLarge else Inr (k, tagsize, contentsize)))"

text \<open>The sizes add up to at most the length of the slice, so that their sum does not wrap around.\<close>

definition rlp_Split :: "bytes \<Rightarrow> rlp_error + Kind \<times> bytes \<times> bytes" where
  "rlp_Split b = (case rlp_readKind b of
      Inl e \<Rightarrow> Inl e
    | Inr (k, ts, cs) \<Rightarrow> Inr (k, take (unat cs) (drop (unat ts) b), drop (unat ts + unat cs) b))"

definition SplitString :: "bytes \<Rightarrow> rlp_error + bytes \<times> bytes" where
  "SplitString b = (case rlp_Split b of
      Inl e \<Rightarrow> Inl e
    | Inr (k, content, rest) \<Rightarrow> if k = KList then Inl ErrExpectedString else Inr (content, rest))"

definition SplitList :: "bytes \<Rightarrow> rlp_error + bytes \<times> bytes" where
  "SplitList b = (case rlp_Split b of
      Inl e \<Rightarrow> Inl e
    | Inr (k, content, rest) \<Rightarrow> if k \<noteq> KList then Inl ErrExpectedList else Inr (content, rest))"

text \<open>Every value is at least one byte long, so that counting the values of a string ends.\<close>

lemma byte_bound: "unat (x :: uint8) < 256"
  using unsigned_less [of x] by simp

lemma unat_ucast_byte [simp]: "unat (ucast (x :: uint8) :: uint64) = unat x"
  using byte_bound [of x] by (simp add: unsigned_ucast_eq take_bit_nat_def)

lemma unat_ucast_inc: "unat (ucast (x :: uint8) + 1 :: uint64) = unat x + 1"
  using byte_bound [of x] by (simp add: unat_word_ariths)

lemma readKind_progress: "rlp_readKind b = Inr (k, ts, cs) \<Longrightarrow> 0 < unat ts + unat cs"
  by (auto simp: rlp_readKind_def Let_def unat_ucast_inc split: list.splits if_splits sum.splits)

function CountValues :: "bytes \<Rightarrow> rlp_error + nat" where
  "CountValues b = (if b = [] then Inr 0
     else case rlp_readKind b of
       Inl e \<Rightarrow> Inl e
     | Inr (k, ts, cs) \<Rightarrow> (case CountValues (drop (unat ts + unat cs) b) of Inl e \<Rightarrow> Inl e | Inr n \<Rightarrow> Inr (Suc n)))"
  by auto
termination by (relation "measure length") (auto dest: readKind_progress)

end
