(* ===== verification/Rlp_Writing.thy ===== *)
theory Rlp_Writing
  imports Rlp_Codec
begin

text \<open>
  What the RLP encoder writes: \<open>enc\<close> gives the bytes of a value by recursion on its type, as the format
  prescribes them, and the output buffer with its postponed list headers is shown to render exactly these.
\<close>

section \<open>What the encoder writes\<close>

subsection \<open>Sizes\<close>

lemma byteAt_digit: "byteAt i (8 * k) = of_nat (unat i div 256 ^ k)"
proof -
  have "(2::nat) ^ (8 * k) = 256 ^ k" by (simp add: power_mult)
  then have "unat (drop_bit (8 * k) i) = unat i div 256 ^ k"
    by (subst unat_drop_bit_eq) (simp add: drop_bit_eq_div)
  then show ?thesis unfolding byteAt_def by (metis of_nat_unat)
qed

lemma putint_to_be: "putint i = to_be (length (putint i)) (unat i)"
proof -
  have b: "byteAt i 0 = of_nat (unat i)" "byteAt i 8 = of_nat (unat i div 256)" "byteAt i 16 = of_nat (unat i div 65536)"
    "byteAt i 24 = of_nat (unat i div 16777216)" "byteAt i 32 = of_nat (unat i div 4294967296)" "byteAt i 40 = of_nat (unat i div 1099511627776)"
    "byteAt i 48 = of_nat (unat i div 281474976710656)" "byteAt i 56 = of_nat (unat i div 72057594037927936)"
    using byteAt_digit [of i 0] byteAt_digit [of i 1] byteAt_digit [of i 2] byteAt_digit [of i 3] byteAt_digit [of i 4]
      byteAt_digit [of i 5] byteAt_digit [of i 6] byteAt_digit [of i 7] by simp_all
  show ?thesis unfolding putint_def b by (simp add: div_mult2_eq [symmetric])
qed

lemma putint_bounds:
  "unat i < 256 ^ length (putint i)" "i \<noteq> 0 \<Longrightarrow> 256 ^ (length (putint i) - 1) \<le> unat i" "0 < length (putint i)" "length (putint i) \<le> 8"
  using unsigned_less [of i] by (auto simp: putint_def word_less_nat_alt word_le_nat_alt unat_gt_0 Suc_le_eq)

lemma bytes_unique:
  assumes "n < 256 ^ a" "256 ^ (a - 1) \<le> n" "n < 256 ^ b" "256 ^ (b - 1) \<le> (n :: nat)" "0 < a" "0 < b"
  shows "a = b"
proof -
  have *: "\<not> c < d" if "n < 256 ^ c" "256 ^ (d - 1) \<le> n" for c d :: nat
  proof
    assume "c < d"
    then have "(256 :: nat) ^ c \<le> 256 ^ (d - 1)" by (intro power_increasing) auto
    with that show False by simp
  qed
  show ?thesis using * [OF assms(1,4)] * [OF assms(3,2)] by simp
qed

lemma intsize_bounds: "unat i < 256 ^ intsize i \<and> 0 < intsize i \<and> (i \<noteq> 0 \<longrightarrow> 256 ^ (intsize i - 1) \<le> unat i)"
proof (induction i rule: intsize.induct)
  case (1 i)
  have d: "unat (drop_bit 8 i) = unat i div 256" by (simp add: drop_bit_eq_div unat_div)
  show ?case
  proof (cases "drop_bit 8 i = 0")
    case True
    then have "unat i div 256 = 0" using d by simp
    moreover have "intsize i = 1" using True by (subst intsize.simps) simp
    ultimately show ?thesis by (auto simp: unat_gt_0 Suc_le_eq)
  next
    case False
    then have s: "intsize i = Suc (intsize (drop_bit 8 i))" by (subst intsize.simps) simp
    note IH = 1 [OF False, unfolded d]
    have "unat i < 256 ^ intsize i" using IH by (simp add: s) (simp add: div_less_iff_less_mult)
    moreover have "256 ^ intsize (drop_bit 8 i) \<le> unat i"
    proof -
      obtain k where k: "intsize (drop_bit 8 i) = Suc k" using IH by (cases "intsize (drop_bit 8 i)") auto
      then show ?thesis using IH False by (simp add: less_eq_div_iff_mult_less_eq mult.commute)
    qed
    ultimately show ?thesis by (simp add: s)
  qed
qed

lemma intsize_putint: "i \<noteq> 0 \<Longrightarrow> intsize i = length (putint i)"
  using bytes_unique [of "unat i" "intsize i" "length (putint i)"] intsize_bounds [of i] putint_bounds [of i] by auto

lemma puthead_length [simp]: "length (puthead small large n) = headsize n"
  using intsize_putint [of n] by (cases "n = 0") (auto simp: puthead_def headsize_def Let_def)

lemma headsize_pos [simp]: "0 < headsize n"
  by (simp add: headsize_def)

subsection \<open>The encoding of a value\<close>

definition str_bytes :: "bytes \<Rightarrow> bytes" where
  "str_bytes b = (if length b = 1 \<and> b ! 0 \<le> 0x7F then b else puthead 0x80 0xB7 (of_nat (length b)) @ b)"

definition list_bytes :: "bytes \<Rightarrow> bytes" where
  "list_bytes c = puthead 0xC0 0xF7 (of_nat (length c)) @ c"

definition uint_bytes :: "uint64 \<Rightarrow> bytes" where
  "uint_bytes i = str_bytes (if i = 0 then [] else putint i)"

fun nil_bytes :: "rtype \<Rightarrow> bytes" where
  "nil_bytes (ByteArrayT n) = str_bytes []"
| "nil_bytes t = list_bytes []"

fun enc :: "rtype \<Rightarrow> rvalue \<Rightarrow> bytes"
  and encs :: "rtype \<Rightarrow> rvalue list \<Rightarrow> bytes"
  and enc_fields :: "rtype list \<Rightarrow> rvalue list \<Rightarrow> bytes" where
  "enc (UintT b) v = uint_bytes (the (val_Uint v))"
| "enc BoolT v = uint_bytes (if the (val_Bool v) then 1 else 0)"
| "enc BigIntT v = (case the (val_BigInt v) of None \<Rightarrow> str_bytes [] | Some i \<Rightarrow> str_bytes (big_bytes (nat i)))"
| "enc StringT v = str_bytes (the (val_Bytes v))"
| "enc BytesT v = str_bytes (the (val_Bytes v))"
| "enc (ByteArrayT n) v = str_bytes (the (val_Bytes v))"
| "enc RawT v = the (val_Bytes v)"
| "enc (SliceT t) v = list_bytes (encs t (the (val_List v)))"
| "enc (ArrayT n t) v = list_bytes (encs t (the (val_List v)))"
| "enc (StructT ts) v = list_bytes (enc_fields ts (the (val_List v)))"
| "enc (PtrT t) v = (case the (val_Ptr v) of Some v \<Rightarrow> enc t v
     | None \<Rightarrow> if encodesNilAsZero t then enc t (zeroValue t) else nil_bytes t)"
| "enc (NilPtrT t) v = (case the (val_Ptr v) of Some v \<Rightarrow> enc t v
     | None \<Rightarrow> if encodesNilAsZero t then enc t (zeroValue t) else nil_bytes t)"
| "encs t [] = []"
| "encs t (v # vs) = enc t v @ encs t vs"
| "enc_fields [] vs = []"
| "enc_fields (t # ts) vs = enc t (hd vs) @ enc_fields ts (tl vs)"

subsection \<open>Rendering the buffer\<close>

fun weave :: "nat \<Rightarrow> bytes \<Rightarrow> listhead list \<Rightarrow> bytes" where
  "weave p s [] = s"
| "weave p s (h # hs) = take (lh_offset h - p) s @ listhead_encode h @ weave (lh_offset h) (drop (lh_offset h - p) s) hs"

fun heads_ok :: "nat \<Rightarrow> nat \<Rightarrow> listhead list \<Rightarrow> bool" where
  "heads_ok lo hi [] \<longleftrightarrow> lo \<le> hi"
| "heads_ok lo hi (h # hs) \<longleftrightarrow> lo \<le> lh_offset h \<and> heads_ok (lh_offset h) hi hs"

lemma heads_ok_le: "heads_ok lo hi hs \<Longrightarrow> lo \<le> hi"
  by (induction lo hi hs rule: heads_ok.induct) auto

lemma heads_ok_append: "heads_ok lo mid hs \<Longrightarrow> heads_ok mid hi gs \<Longrightarrow> heads_ok lo hi (hs @ gs)"
proof (induction lo mid hs rule: heads_ok.induct)
  case (1 lo mid)
  then show ?case by (cases gs) auto
qed auto

lemma weave_later: "heads_ok (p + length s) hi gs \<Longrightarrow> weave p (s @ s') gs = s @ weave (p + length s) s' gs"
  by (cases gs) auto

lemma weave_append:
  "heads_ok p (p + length s) hs \<Longrightarrow> heads_ok (p + length s) hi gs \<Longrightarrow>
    weave p (s @ s') (hs @ gs) = weave p s hs @ weave (p + length s) s' gs"
proof (induction hs arbitrary: p s)
  case (Cons h hs)
  have le: "p \<le> lh_offset h" "lh_offset h \<le> p + length s" using Cons.prems(1) heads_ok_le by auto
  have e: "lh_offset h + length (drop (lh_offset h - p) s) = p + length s" using le by simp
  have "weave (lh_offset h) (drop (lh_offset h - p) s @ s') (hs @ gs) =
      weave (lh_offset h) (drop (lh_offset h - p) s) hs @ weave (p + length s) s' gs"
    using Cons.IH [of "lh_offset h" "drop (lh_offset h - p) s"] Cons.prems unfolding e by simp
  then show ?case using le by simp
qed (simp add: weave_later)

lemma toBytes_weave: "heads_ok p (length str) hs \<Longrightarrow> toBytes_loop str p hs = weave p (drop p str) hs"
  by (induction hs arbitrary: p) (auto simp: max_absorb2)

definition emits :: "encbuf \<Rightarrow> bytes \<Rightarrow> encbuf \<Rightarrow> bool" where
  "emits w b w' \<longleftrightarrow> (\<exists>s hs. eb_str w' = eb_str w @ s \<and> eb_lheads w' = eb_lheads w @ hs \<and>
     eb_lhsize w' + length s = eb_lhsize w + length b \<and>
     heads_ok (length (eb_str w)) (length (eb_str w) + length s) hs \<and> weave (length (eb_str w)) s hs = b)"

lemma emits_refl: "emits w [] w"
  by (auto simp: emits_def)

lemma emits_trans:
  assumes "emits w b w1" "emits w1 c w2"
  shows "emits w (b @ c) w2"
proof -
  obtain s hs where 1: "eb_str w1 = eb_str w @ s" "eb_lheads w1 = eb_lheads w @ hs" "eb_lhsize w1 + length s = eb_lhsize w + length b"
    "heads_ok (length (eb_str w)) (length (eb_str w) + length s) hs" "weave (length (eb_str w)) s hs = b"
    using assms(1) by (auto simp: emits_def)
  obtain s' hs' where 2: "eb_str w2 = eb_str w1 @ s'" "eb_lheads w2 = eb_lheads w1 @ hs'" "eb_lhsize w2 + length s' = eb_lhsize w1 + length c"
    "heads_ok (length (eb_str w1)) (length (eb_str w1) + length s') hs'" "weave (length (eb_str w1)) s' hs' = c"
    using assms(2) by (auto simp: emits_def)
  have "weave (length (eb_str w)) (s @ s') (hs @ hs') = b @ c"
    using weave_append [OF 1(4)] 2(4,5) 1(1,5) by simp
  moreover have "heads_ok (length (eb_str w)) (length (eb_str w) + length (s @ s')) (hs @ hs')"
    using heads_ok_append [OF 1(4)] 2(4) 1(1) by (simp add: add.assoc)
  ultimately show ?thesis unfolding emits_def
    using 1(1-3) 2(1-3) by (intro exI [of _ "s @ s'"] exI [of _ "hs @ hs'"]) simp
qed

lemma emits_Write: "emits w b (encbuf_Write b w)"
  by (auto simp: emits_def encbuf_Write_def)

lemma emits_size: "emits w b w' \<Longrightarrow> encbuf_size w' = encbuf_size w + length b"
  by (auto simp: emits_def encbuf_size_def)

text \<open>Between \<open>list\<close> and \<open>listEnd\<close> the content of the list is written.\<close>

lemma emits_list:
  assumes "encbuf_list w = (i, w1)" "emits w1 c w2" "length c < 2 ^ 64"
  shows "emits w (list_bytes c) (encbuf_listEnd i w2)"
proof -
  let ?h = "\<lparr>lh_offset = length (eb_str w), lh_size = eb_lhsize w\<rparr>" and ?p = "length (eb_str w)"
  have 1: "i = length (eb_lheads w)" "eb_str w1 = eb_str w" "eb_lheads w1 = eb_lheads w @ [?h]" "eb_lhsize w1 = eb_lhsize w"
    using assms(1) by (auto simp: encbuf_list_def)
  obtain s hs where 2: "eb_str w2 = eb_str w @ s" "eb_lheads w2 = eb_lheads w @ ?h # hs" "eb_lhsize w2 + length s = eb_lhsize w + length c"
    "heads_ok ?p (?p + length s) hs" "weave ?p s hs = c"
    using assms(2) 1 by (auto simp: emits_def)
  have n: "encbuf_size w2 - ?p - eb_lhsize w = length c" using 2(1,3) by (simp add: encbuf_size_def)
  have u: "unat (of_nat (length c) :: uint64) = length c" using assms(3) by (simp add: unat_of_nat)
  have hd: "length (puthead 0xC0 0xF7 (of_nat (length c))) = (if length c < 56 then 1 else 1 + intsize (of_nat (length c)))"
    using u by (simp add: headsize_def word_less_nat_alt)
  let ?w = "encbuf_listEnd i w2" and ?h' = "\<lparr>lh_offset = ?p, lh_size = length c\<rparr>"
  have w: "eb_str ?w = eb_str w @ s" "eb_lheads ?w = eb_lheads w @ ?h' # hs"
    "eb_lhsize ?w = eb_lhsize w2 + length (puthead 0xC0 0xF7 (of_nat (length c)))"
    using 2(1,2) 1(1) n hd by (simp_all add: encbuf_listEnd_def Let_def)
  show ?thesis unfolding emits_def
    using 2(3-5) w by (intro exI [of _ s] exI [of _ "?h' # hs"]) (simp add: list_bytes_def listhead_encode_def)
qed

lemma emits_toBytes:
  assumes "emits encbuf_reset b w" "encbuf_toBytes w = Some d"
  shows "d = b \<and> length b < 2 ^ 63"
  using assms emits_size [OF assms(1)]
  by (auto simp: emits_def encbuf_reset_def encbuf_toBytes_def toBytes_weave encbuf_size_def split: if_splits)

lemma uint64_of_nat: "n < 2 ^ 64 \<Longrightarrow> unat (of_nat n :: uint64) = n"
  by (simp add: unat_of_nat)

lemma unat_ucast_low: "unat (ucast (i :: uint64) :: uint8) = unat i mod 256"
  by (simp add: unsigned_ucast_eq take_bit_nat_def)

lemma ucast_of_nat_byte: "n < 2 ^ 64 \<Longrightarrow> (ucast (of_nat n :: uint64) :: uint8) = of_nat n"
  by (simp add: word_unat_eq_iff unat_ucast_low uint64_of_nat)

lemma encodeString_emits:
  assumes "encbuf_size (encodeString b w) < 2 ^ 63 \<or> length b < 2 ^ 63"
  shows "emits w (str_bytes b) (encodeString b w)"
proof -
  have b: "length b < 2 ^ 64" using assms by (auto simp: encodeString_def encbuf_size_def encbuf_Write_def split: if_splits)
  note n = uint64_of_nat [OF b]
  have h: "encodeStringHeader (length b) w = encbuf_Write (puthead 0x80 0xB7 (of_nat (length b))) w"
    using n ucast_of_nat_byte [OF b] by (auto simp: encodeStringHeader_def puthead_def word_less_nat_alt Let_def)
  have one: "[b ! 0] = b" if "length b = 1" using that by (cases b) auto
  show ?thesis
    unfolding encodeString_def str_bytes_def h
    using emits_Write [of w b] emits_trans [OF emits_Write emits_Write, of w "puthead 0x80 0xB7 (of_nat (length b))" b] one by auto
qed

lemma writeString_encode: "writeString s w = encodeString s w"
  by (simp add: writeString_def encodeString_def)

lemma putint_one: "i < 128 \<Longrightarrow> putint i = [ucast i]"
  by (simp add: putint_def byteAt_def word_less_nat_alt)

lemma str_bytes_Nil: "str_bytes [] = [0x80]"
  by (simp add: str_bytes_def puthead_def)

lemma putint_high:
  assumes "128 \<le> i"
  shows "\<not> (length (putint i) = 1 \<and> putint i ! 0 \<le> 0x7F)"
proof
  assume a: "length (putint i) = 1 \<and> putint i ! 0 \<le> 0x7F"
  then have "unat i < 256" using putint_bounds(1) [of i] by simp
  moreover have "putint i = [of_nat (unat i)]" using putint_to_be [of i] a by simp
  ultimately have "unat (putint i ! 0) = unat i" by (simp add: unat_ucast_low)
  then show False using a assms by (simp add: word_le_nat_alt)
qed

lemma ucast_word_7F: "i < 128 \<Longrightarrow> (ucast (i :: uint64) :: uint8) \<le> 0x7F"
  by (simp add: word_less_nat_alt word_le_nat_alt unsigned_ucast_eq take_bit_nat_def)

lemma writeUint_emits: "emits w (uint_bytes i) (writeUint i w)"
proof -
  have "writeUint i w = encbuf_Write (uint_bytes i) w"
  proof (cases "i < 128")
    case True
    then show ?thesis using putint_one [OF True] ucast_word_7F [OF True]
      by (cases "i = 0") (simp_all add: writeUint_def uint_bytes_def str_bytes_def puthead_def)
  next
    case False
    have "length (putint i) \<le> 8" by (rule putint_bounds)
    then have "puthead 0x80 0xB7 (of_nat (length (putint i))) = [0x80 + of_nat (length (putint i))]"
      by (simp add: puthead_def word_less_nat_alt uint64_of_nat ucast_of_nat_byte)
    then show ?thesis using False putint_high [of i] by (auto simp: writeUint_def uint_bytes_def str_bytes_def Let_def not_less)
  qed
  then show ?thesis using emits_Write by simp
qed

lemma writeBool_emits: "emits w (uint_bytes (if b then 1 else 0)) (writeBool b w)"
  using writeUint_emits [of w "if b then 1 else 0"] by (cases b) (simp_all add: writeUint_def writeBool_def)

lemma str_bytes_length: "length b \<le> length (str_bytes b)"
  by (simp add: str_bytes_def)

lemma writeBigIntPtr_emits:
  assumes "writeBigIntPtr p w = (None, w')" "encbuf_size w' < 2 ^ 63 \<or> length (enc BigIntT (BigV p)) < 2 ^ 63"
  shows "emits w (enc BigIntT (BigV p)) w'"
  using assms encodeString_emits [of "big_bytes (nat (the p))" w] emits_Write [of w "[0x80]"] str_bytes_length [of "big_bytes (nat (the p))"]
  by (auto simp: writeBigIntPtr_def writeBigInt_def val_defs str_bytes_Nil big_bytes.simps [of 0] split: option.splits if_splits)

lemma list_size: "encbuf_list w = (i, w1) \<Longrightarrow> encbuf_size w1 = encbuf_size w"
  by (auto simp: encbuf_list_def encbuf_size_def)

lemma listEnd_size: "encbuf_size w \<le> encbuf_size (encbuf_listEnd i w)"
  by (simp add: encbuf_listEnd_def encbuf_size_def Let_def)

lemma Write_size: "encbuf_size w \<le> encbuf_size (encbuf_Write b w)"
  by (simp add: encbuf_Write_def encbuf_size_def)

lemma encodeString_size: "encbuf_size w \<le> encbuf_size (encodeString b w)"
  by (auto simp: encodeString_def encodeStringHeader_def Let_def intro: order_trans [OF Write_size Write_size] Write_size)

text \<open>A writing step: the buffer grows, and without an error it grows by \<open>b\<close>.\<close>

definition writes :: "encbuf \<Rightarrow> bytes \<Rightarrow> rlp_error option \<Rightarrow> encbuf \<Rightarrow> bool" where
  "writes w b e w' \<longleftrightarrow> encbuf_size w \<le> encbuf_size w' \<and> (e = None \<longrightarrow> encbuf_size w' < 2 ^ 63 \<or> length b < 2 ^ 63 \<longrightarrow> emits w b w')"

lemma writes_emits: "emits w b w' \<Longrightarrow> writes w b e w'"
  by (auto simp: writes_def emits_size)

lemma writes_String: "writes w (str_bytes b) e (encodeString b w)"
  using str_bytes_length [of b] by (auto simp: writes_def encodeString_size intro!: encodeString_emits)

lemma writes_trans: "writes w b None w1 \<Longrightarrow> writes w1 c e w2 \<Longrightarrow> writes w (b @ c) e w2"
  by (auto simp: writes_def intro: emits_trans)

lemma writes_error: "writes w b (Some e) w' \<Longrightarrow> writes w c (Some e) w'"
  by (simp add: writes_def)

lemma writes_list:
  assumes "encbuf_list w = (i, w1)" "writes w1 c e w2"
  shows "writes w (list_bytes c) e (encbuf_listEnd i w2)"
  using assms list_size [OF assms(1)] listEnd_size [of w2 i] emits_list [OF assms(1), of c w2] emits_size [of w1 c w2]
  by (auto simp: writes_def list_bytes_def)

lemma writes_nil: "\<not> encodesNilAsZero t \<Longrightarrow> writes w (nil_bytes t) e (writeNil t w)"
  using writes_list [of w _ _ "[]" e, OF _ writes_emits [OF emits_refl]] writes_emits [OF emits_Write]
  by (cases t) (auto simp: writeNil_def str_bytes_Nil encodesNilAsZero_def split: prod.splits)

lemma writer_writes:
  "writer t v w = Some (e, w') \<Longrightarrow> writes w (enc t v) e w'"
  "writeElems t vs w = Some (e, w') \<Longrightarrow> writes w (encs t vs) e w'"
  "writeFields ts vs w = Some (e, w') \<Longrightarrow> writes w (enc_fields ts vs) e w'"
proof (induction t v w and t vs w and ts vs w arbitrary: e w' and e w' and e w' rule: writer_writeElems_writeFields.induct)
  case (1 b v w)
  then show ?case using writes_emits [OF writeUint_emits] by (auto simp: bind_eq_Some_conv)
next
  case (2 v w)
  then show ?case using writes_emits [OF writeBool_emits [of w "the (val_Bool v)"], of e] by (auto simp: bind_eq_Some_conv simp del: if_split)
next
  case (3 v w)
  then obtain p where p: "val_BigInt v = Some p" "writeBigIntPtr p w = (e, w')" by (auto simp: bind_eq_Some_conv)
  have "v = BigV p" using p(1) by (auto simp: val_defs split: rvalue.splits)
  moreover have "encbuf_size w \<le> encbuf_size w'"
    using p(2) by (auto simp: writeBigIntPtr_def writeBigInt_def intro: Write_size encodeString_size split: option.splits if_splits)
  ultimately show ?case using writeBigIntPtr_emits [of p w w'] p(2) unfolding writes_def by blast
next
  case (8 t v w)
  obtain vs i w1 w2 where 1: "val_List v = Some vs" "encbuf_list w = (i, w1)" "writeElems t vs w1 = Some (e, w2)" "w' = encbuf_listEnd i w2"
    using 8(2) by (cases "encbuf_list w") (auto simp: bind_eq_Some_conv)
  show ?case using writes_list [OF 1(2) 8(1) [OF 1(1) refl 1(2) [symmetric] 1(3)]] 1(1,4) by simp
next
  case (9 n t v w)
  obtain vs i w1 w2 where 1: "val_List v = Some vs" "encbuf_list w = (i, w1)" "writeElems t vs w1 = Some (e, w2)" "w' = encbuf_listEnd i w2"
    using 9(2) by (cases "encbuf_list w") (auto simp: bind_eq_Some_conv)
  show ?case using writes_list [OF 1(2) 9(1) [OF 1(1) refl 1(2) [symmetric] 1(3)]] 1(1,4) by simp
next
  case (10 ts v w)
  obtain vs i w1 e1 w2 where 1: "val_List v = Some vs" "encbuf_list w = (i, w1)" "writeFields ts vs w1 = Some (e, w2)"
    "w' = (if e = None then encbuf_listEnd i w2 else w2)"
    using 10(2) by (cases "encbuf_list w") (auto simp: bind_eq_Some_conv split: if_splits)
  have "writes w1 (enc_fields ts vs) e w2" using 10(1) [OF 1(1) refl 1(2) [symmetric] 1(3)] .
  then show ?case using writes_list [OF 1(2)] 1(1,4) list_size [OF 1(2)] by (cases e) (auto simp: writes_def)
next
  case (11 t v w)
  then show ?case using writes_nil by (auto simp: bind_eq_Some_conv split: option.splits if_splits)
next
  case (12 t v w)
  then show ?case using writes_nil by (auto simp: bind_eq_Some_conv split: option.splits if_splits)
next
  case (14 t v vs w)
  obtain e1 w1 where 1: "writer t v w = Some (e1, w1)" "(if e1 = None then writeElems t vs w1 else Some (e1, w1)) = Some (e, w')"
    using 14(3) by (auto simp: bind_eq_Some_conv)
  show ?case using 14(1) [OF 1(1)] 14(2) [OF 1(1) refl] 1(2) writes_trans [of w "enc t v" w1] writes_error
    by (cases e1) auto
next
  case (16 t ts vs w)
  obtain v vs' where vs: "vs = v # vs'" using 16(3) by (cases vs) auto
  obtain e1 w1 where 1: "writer t v w = Some (e1, w1)" "(if e1 = None then writeFields ts vs' w1 else Some (e1, w1)) = Some (e, w')"
    using 16(3) vs by (auto simp: bind_eq_Some_conv)
  show ?case using 16(1) [OF vs 1(1)] 16(2) [OF vs 1(1) refl] 1(2) writes_trans [of w "enc t v" w1] writes_error vs
    by (cases e1) auto
qed (auto simp: bind_eq_Some_conv writeString_encode writes_String writes_emits emits_refl emits_Write split: if_splits)

lemma encoded_bytes:
  assumes "rlp_EncodeToBytes t v = Some (Inr b)"
  shows "b = enc t v \<and> length b < 2 ^ 63"
proof -
  obtain w where w: "writer t v encbuf_reset = Some (None, w)" "encbuf_toBytes w = Some b"
    using assms by (auto simp: rlp_EncodeToBytes_def bind_eq_Some_conv split: option.splits)
  have "encbuf_size w < 2 ^ 63" using w(2) by (simp add: encbuf_toBytes_def split: if_splits)
  then have "emits encbuf_reset (enc t v) w" using writer_writes(1) [OF w(1)] by (simp add: writes_def)
  from emits_toBytes [OF this w(2)] show ?thesis by simp
qed

end
