(* ===== verification/Rlp_Reading.thy ===== *)
theory Rlp_Reading
  imports Rlp_Writing
begin

text \<open>
  What the RLP decoder reads: on the bytes of a value, followed by anything, it restores the value and stops
  behind it. With the bytes that the encoder writes this gives the round trip.
\<close>

section \<open>What the decoder reads\<close>

subsection \<open>Reading from the stream\<close>

definition bump :: "nat \<Rightarrow> listpos list \<Rightarrow> listpos list" where
  "bump n st = (case st of [] \<Rightarrow> [] | p # ps \<Rightarrow> p\<lparr>lp_pos := lp_pos p + of_nat n\<rparr> # ps)"

text \<open>\<open>n\<close> bytes can be read, and have been read.\<close>

definition room :: "Stream \<Rightarrow> nat \<Rightarrow> bool" where
  "room s n \<longleftrightarrow> n < 2 ^ 64 \<and> n \<le> length (s_r s) \<and>
     (s_stack s \<noteq> [] \<longrightarrow> of_nat n \<le> lp_size (hd (s_stack s)) - lp_pos (hd (s_stack s))) \<and> (s_limited s \<longrightarrow> of_nat n \<le> s_remaining s)"

definition reads :: "Stream \<Rightarrow> nat \<Rightarrow> Stream \<Rightarrow> bool" where
  "reads s n s' \<longleftrightarrow> s_r s' = drop n (s_r s) \<and> s_limited s' = s_limited s \<and>
     s_remaining s' = (if s_limited s then s_remaining s - of_nat n else s_remaining s) \<and> s_stack s' = bump n (s_stack s)"

lemma bump_0 [simp]: "bump 0 st = st"
  by (cases st) (simp_all add: bump_def)

lemma bump_bump [simp]: "bump b (bump a st) = bump (a + b) st"
  by (cases st) (simp_all add: bump_def add.assoc)

lemma bump_Nil [simp]: "bump n st = [] \<longleftrightarrow> st = []"
  by (cases st) (simp_all add: bump_def)

lemma reads_refl: "reads s 0 s"
  by (simp add: reads_def)

lemma reads_trans: "reads s a s1 \<Longrightarrow> reads s1 b s2 \<Longrightarrow> reads s (a + b) s2"
  by (auto simp: reads_def add.commute diff_diff_eq)

lemma word_part:
  fixes d :: uint64
  assumes "of_nat (a + b) \<le> d" "a + b < 2 ^ 64"
  shows "of_nat a \<le> d" "of_nat b \<le> d - of_nat a"
proof -
  have u: "unat (of_nat (a + b) :: uint64) = a + b" "unat (of_nat a :: uint64) = a" "unat (of_nat b :: uint64) = b"
    using assms(2) uint64_of_nat [of "a + b"] uint64_of_nat [of a] uint64_of_nat [of b] by auto
  have le: "a + b \<le> unat d" using assms(1) u by (simp add: word_le_nat_alt)
  then show a: "of_nat a \<le> d" using u by (simp add: word_le_nat_alt)
  have "unat (d - of_nat a) = unat d - a" using a u by (simp add: unat_sub)
  then show "of_nat b \<le> d - of_nat a" using le u by (simp add: word_le_nat_alt)
qed

lemma room_part: "room s (a + b) \<Longrightarrow> room s a"
  using word_part(1) by (auto simp: room_def)

lemma room_rest: "room s (a + b) \<Longrightarrow> reads s a s1 \<Longrightarrow> room s1 b"
  using word_part(2) [of a b "s_remaining s"] word_part(2) [of a b "lp_size (hd (s_stack s)) - lp_pos (hd (s_stack s))"]
  by (cases "s_stack s") (auto simp: room_def reads_def bump_def diff_diff_eq)

lemma room_le: "room s n \<Longrightarrow> m \<le> n \<Longrightarrow> room s m"
  using room_part [of s m "n - m"] by simp

lemma willRead_ok:
  assumes "room s n"
  shows "\<exists>s1. willRead (of_nat n) s = (None, s1) \<and> s_r s1 = s_r s \<and> s_kind s1 = None \<and> reads s n (s1\<lparr>s_r := drop n (s_r s)\<rparr>)"
  using assms by (auto simp: willRead_def room_def reads_def Let_def bump_def not_less split: list.splits)

lemma readFull_ok:
  assumes "room s n"
  obtains s' where "readFull n s = (None, take n (s_r s), s')" "reads s n s'" "s_kind s' = None"
proof -
  obtain s1 where 1: "willRead (of_nat n) s = (None, s1)" "s_r s1 = s_r s" "s_kind s1 = None" "reads s n (s1\<lparr>s_r := drop n (s_r s)\<rparr>)"
    using willRead_ok [OF assms] by blast
  have "readFull n s = (None, take n (s_r s), s1\<lparr>s_r := drop n (s_r s)\<rparr>)"
    using 1(1,2) assms by (simp add: readFull_def room_def)
  with that 1(3,4) show thesis by simp
qed

lemma readByte_ok:
  assumes "room s 1" "s_r s = b # bs"
  obtains s' where "readByte s = (None, b, s')" "reads s 1 s'" "s_kind s' = None"
proof -
  obtain s1 where 1: "willRead 1 s = (None, s1)" "s_r s1 = s_r s" "s_kind s1 = None" "reads s 1 (s1\<lparr>s_r := drop 1 (s_r s)\<rparr>)"
    using willRead_ok [OF assms(1)] by auto
  have "readByte s = (None, b, s1\<lparr>s_r := bs\<rparr>)" using 1(1,2) assms(2) by (simp add: readByte_def)
  with that 1(3,4) assms(2) show thesis by simp
qed

text \<open>An integer in the fewest bytes.\<close>

lemma putint_hd: "i \<noteq> 0 \<Longrightarrow> putint i \<noteq> [] \<and> hd (putint i) \<noteq> 0"
proof -
  assume i: "i \<noteq> 0"
  obtain k where k: "length (putint i) = Suc k" using putint_bounds(3) [of i] by (cases "length (putint i)") auto
  obtain b bs where p: "putint i = b # bs" "length bs = k" using k by (cases "putint i") auto
  have "from_be (putint i) = unat i" using putint_to_be [of i] putint_bounds(1) [of i] from_to_be by (metis mod_less)
  moreover have "256 ^ k \<le> unat i" using putint_bounds(2) [OF i] k by simp
  moreover have "b = 0 \<Longrightarrow> from_be (putint i) < 256 ^ k"
    using p from_be_bound [of bs] from_be_replicate [of 1 bs] by simp
  ultimately show ?thesis using p by auto
qed

lemma putint_from: "from_be (putint i) = unat i"
  using putint_to_be [of i] putint_bounds(1) [of i] from_to_be by (metis mod_less)

lemma readUint_ok:
  assumes "room s (length (putint i))" "s_r s = putint i @ rest" "i \<noteq> 0"
  obtains s' where "readUint (of_nat (length (putint i))) s = (None, i, s')" "reads s (length (putint i)) s'" "s_kind s' = None"
proof -
  let ?n = "length (putint i)"
  have n: "0 < ?n" "?n \<le> 8" by (rule putint_bounds)+
  have u: "unat (of_nat ?n :: uint8) = ?n" using n by (simp add: unat_of_nat)
  have v: "of_nat (from_be (putint i)) = i" by (simp add: putint_from)
  show thesis
  proof (cases "?n = 1")
    case True
    then obtain b where b: "putint i = [b]" by (cases "putint i") auto
    then have "i = ucast b" using putint_from [of i] by (simp add: from_be_def word_unat_eq_iff)
    moreover obtain s' where "readByte s = (None, b, s')" "reads s 1 s'" "s_kind s' = None"
      using readByte_ok [of s b rest] assms(1,2) b True by auto
    ultimately show thesis using that [of s'] True b by (simp add: readUint_def)
  next
    case False
    obtain s' where s': "readFull ?n s = (None, putint i, s')" "reads s ?n s'" "s_kind s' = None"
      using readFull_ok [OF assms(1)] assms(2) by auto
    have "of_nat ?n \<noteq> (0 :: uint8)" "of_nat ?n \<noteq> (1 :: uint8)" using u n False by (auto dest: arg_cong [of _ _ unat])
    then show thesis using that [of s'] s' u v putint_hd [OF assms(3)] by (simp add: readUint_def)
  qed
qed

subsection \<open>Headers\<close>

lemma room_not_EOL: "room s n \<Longrightarrow> 0 < n \<Longrightarrow> s_stack s \<noteq> [] \<Longrightarrow> lp_pos (hd (s_stack s)) \<noteq> lp_size (hd (s_stack s))"
  using uint64_of_nat [of n] by (auto simp: room_def word_le_nat_alt)

text \<open>What \<open>Kind\<close> makes of a header that \<open>readKind\<close> has read.\<close>

lemma Kind_of_readKind:
  assumes "s_kind s = None" "room s (h + n)" "0 < h"
    "Stream_readKind (s\<lparr>s_kinderr := None\<rparr>) = (k, of_nat n, None, s1)" "reads s h s1"
  shows "Stream_Kind s = (k, of_nat n, None, s1\<lparr>s_kind := Some k, s_size := of_nat n, s_kinderr := None\<rparr>)"
proof -
  have r: "room s1 n" by (rule room_rest [OF assms(2,5)])
  have "s_stack s \<noteq> [] \<Longrightarrow> lp_pos (hd (s_stack s)) \<noteq> lp_size (hd (s_stack s))"
    using room_not_EOL [OF assms(2)] assms(3) by simp
  then show ?thesis using assms(1,4) r by (auto simp: Stream_Kind_def room_def Let_def not_less)
qed

lemma reads_junk:
  "reads s n (s'\<lparr>s_kind := a\<rparr>) = reads s n s'" "reads s n (s'\<lparr>s_size := b\<rparr>) = reads s n s'"
  "reads s n (s'\<lparr>s_byteval := c\<rparr>) = reads s n s'" "reads s n (s'\<lparr>s_kinderr := d\<rparr>) = reads s n s'"
  "reads (s\<lparr>s_kind := a\<rparr>) n s' = reads s n s'" "reads (s\<lparr>s_size := b\<rparr>) n s' = reads s n s'"
  "reads (s\<lparr>s_byteval := c\<rparr>) n s' = reads s n s'" "reads (s\<lparr>s_kinderr := d\<rparr>) n s' = reads s n s'"
  by (simp_all add: reads_def)

lemma room_junk:
  "room (s\<lparr>s_kind := a\<rparr>) n = room s n" "room (s\<lparr>s_size := b\<rparr>) n = room s n"
  "room (s\<lparr>s_byteval := c\<rparr>) n = room s n" "room (s\<lparr>s_kinderr := d\<rparr>) n = room s n"
  by (simp_all add: room_def)

lemmas junk = reads_junk room_junk

lemma Kind_byte:
  assumes "s_kind s = None" "room s 1" "s_r s = b # rest" "b < 0x80"
  obtains s1 where "Stream_Kind s = (KByte, 0, None, s1)" "reads s 1 s1" "s_kind s1 = Some KByte" "s_byteval s1 = b"
proof -
  obtain s' where s': "readByte (s\<lparr>s_kinderr := None\<rparr>) = (None, b, s')" "reads s 1 s'"
    using readByte_ok [of "s\<lparr>s_kinderr := None\<rparr>" b rest] assms(2,3) by (auto simp: junk)
  have "Stream_readKind (s\<lparr>s_kinderr := None\<rparr>) = (KByte, of_nat 0, None, s'\<lparr>s_byteval := b\<rparr>)"
    using s'(1) assms(4) by (simp add: Stream_readKind_def)
  from Kind_of_readKind [OF assms(1) _ _ this, of 1] assms(2) s'(2)
  have "Stream_Kind s = (KByte, 0, None, s'\<lparr>s_byteval := b, s_kind := Some KByte, s_size := 0, s_kinderr := None\<rparr>)" by (simp add: junk)
  from that [OF this] s'(2) show thesis by (simp add: junk)
qed

definition tags_ok :: "uint8 \<Rightarrow> uint8 \<Rightarrow> Kind \<Rightarrow> bool" where
  "tags_ok small large k \<longleftrightarrow> small = 0x80 \<and> large = 0xB7 \<and> k = KString \<or> small = 0xC0 \<and> large = 0xF7 \<and> k = KList"

lemma small_tag:
  assumes "tags_ok small large k" "readByte s = (None, small + of_nat n, s')" "n < 56"
  shows "Stream_readKind s = (k, of_nat n, None, s'\<lparr>s_byteval := 0\<rparr>)"
proof -
  have n: "unat (of_nat n :: uint8) = n" using assms(3) by (simp add: unat_of_nat)
  have "(ucast (of_nat n :: uint8) :: uint64) = of_nat n" using n assms(3) by (simp add: word_unat_eq_iff uint64_of_nat)
  then show ?thesis using assms n
    by (auto simp: Stream_readKind_def tags_ok_def word_less_nat_alt unat_word_ariths)
qed

lemma large_tag:
  assumes "tags_ok small large k" "readByte s = (None, large + of_nat m, s')" "0 < m" "m \<le> 8"
    "readUint (of_nat m) (s'\<lparr>s_byteval := 0\<rparr>) = (None, n, s2)" "56 \<le> n"
  shows "Stream_readKind s = (k, n, None, s2)"
proof -
  have m: "unat (of_nat m :: uint8) = m" using assms(4) by (simp add: unat_of_nat)
  then show ?thesis using assms
    by (auto simp: Stream_readKind_def tags_ok_def word_less_nat_alt unat_word_ariths word_le_nat_alt)
qed

lemma Kind_header:
  assumes "tags_ok small large k" "s_kind s = None" "room s (headsize (of_nat n) + n)" "s_r s = puthead small large (of_nat n) @ rest"
  obtains s1 where "Stream_Kind s = (k, of_nat n, None, s1)" "reads s (headsize (of_nat n)) s1" "s_kind s1 = Some k"
proof -
  let ?n = "of_nat n :: uint64" and ?s = "s\<lparr>s_kinderr := None\<rparr>"
  have b: "n < 2 ^ 64" using assms(3) by (simp add: room_def)
  note u = uint64_of_nat [OF b]
  have "\<exists>s1. Stream_readKind ?s = (k, ?n, None, s1) \<and> reads s (headsize ?n) s1"
  proof (cases "n < 56")
    case True
    then have h: "puthead small large ?n = [small + of_nat n]" "headsize ?n = 1"
      using u ucast_of_nat_byte [OF b] by (simp_all add: puthead_def headsize_def word_less_nat_alt)
    have "room ?s 1" using room_part [of s 1 n] assms(3) h(2) by (simp add: junk)
    then obtain s' where s': "readByte ?s = (None, small + of_nat n, s')" "reads ?s 1 s'"
      by (rule readByte_ok) (use assms(4) h(1) in auto)
    from small_tag [OF assms(1) s'(1) True] s'(2) h(2) show ?thesis by (auto simp: junk)
  next
    case False
    have nz: "?n \<noteq> 0" using u False by auto
    have h: "puthead small large ?n = (large + of_nat (length (putint ?n))) # putint ?n" "headsize ?n = 1 + length (putint ?n)"
      using u False intsize_putint [OF nz] by (auto simp: puthead_def headsize_def word_less_nat_alt Let_def)
    have r: "room ?s (1 + length (putint ?n))" using room_part [of s "1 + length (putint ?n)" n] assms(3) h(2) by (simp add: junk)
    obtain s' where s': "readByte ?s = (None, large + of_nat (length (putint ?n)), s')" "reads ?s 1 s'"
      by (rule readByte_ok [OF room_part [OF r]]) (use assms(4) h(1) in auto)
    have "room (s'\<lparr>s_byteval := 0\<rparr>) (length (putint ?n))" using room_rest [OF r s'(2)] by (simp add: junk)
    moreover have "s_r (s'\<lparr>s_byteval := 0\<rparr>) = putint ?n @ rest" using s'(2) assms(4) h(1) by (simp add: reads_def)
    ultimately obtain s2 where s2: "readUint (of_nat (length (putint ?n))) (s'\<lparr>s_byteval := 0\<rparr>) = (None, ?n, s2)"
      "reads (s'\<lparr>s_byteval := 0\<rparr>) (length (putint ?n)) s2" by (rule readUint_ok [OF _ _ nz])
    have "56 \<le> ?n" using u False by (simp add: word_le_nat_alt)
    from large_tag [OF assms(1) s'(1) putint_bounds(3,4) s2(1) this] reads_trans [OF s'(2)] s2(2) h(2) show ?thesis by (auto simp: junk)
  qed
  then obtain s1 where s1: "Stream_readKind ?s = (k, ?n, None, s1)" "reads s (headsize ?n) s1" by blast
  from that [OF Kind_of_readKind [OF assms(2,3) headsize_pos s1]] s1(2) show thesis by (simp add: junk)
qed

subsection \<open>Strings, integers and lists\<close>

lemma Bytes_ok:
  assumes "s_kind s = None" "room s (length (str_bytes b))" "s_r s = str_bytes b @ rest"
  obtains s' where "Stream_Bytes s = (None, b, s')" "reads s (length (str_bytes b)) s'" "s_kind s' = None"
proof (cases "length b = 1 \<and> b ! 0 \<le> 0x7F")
  case True
  then obtain x where x: "b = [x]" "x < 0x80" by (cases b) (auto simp: word_less_nat_alt word_le_nat_alt)
  then have e: "str_bytes b = [x]" using True by (simp add: str_bytes_def)
  obtain s1 where s1: "Stream_Kind s = (KByte, 0, None, s1)" "reads s 1 s1" "s_byteval s1 = x"
    by (rule Kind_byte [OF assms(1)]) (use assms(2,3) e x(2) in auto)
  have "Stream_Bytes s = (None, b, s1\<lparr>s_kind := None\<rparr>)" using s1 x by (simp add: Stream_Bytes_def)
  from that [OF this] s1(2) e show thesis by (simp add: junk)
next
  case False
  let ?n = "length b"
  have e: "str_bytes b = puthead 0x80 0xB7 (of_nat ?n) @ b" using False unfolding str_bytes_def by auto
  then have r: "room s (headsize (of_nat ?n) + ?n)" using assms(2) by simp
  obtain s1 where s1: "Stream_Kind s = (KString, of_nat ?n, None, s1)" "reads s (headsize (of_nat ?n)) s1"
    by (rule Kind_header [OF _ assms(1) r, where small = "0x80" and large = "0xB7" and k = KString]) (use assms(3) e in \<open>auto simp: tags_ok_def\<close>)
  have b: "s_r s1 = b @ rest" using s1(2) assms(3) e by (simp add: reads_def)
  have u: "unat (of_nat ?n :: uint64) = ?n" using r by (intro uint64_of_nat) (simp add: room_def)
  obtain s' where s': "readFull ?n s1 = (None, b, s')" "reads s1 ?n s'" "s_kind s' = None"
    by (rule readFull_ok [OF room_rest [OF r s1(2)]]) (use b in auto)
  have "\<not> (of_nat ?n = (1 :: uint64) \<and> b ! 0 < 128)" using False u by (auto simp: word_le_nat_alt word_less_nat_alt dest!: arg_cong [of _ _ unat])
  then have "Stream_Bytes s = (None, b, s')" using s1(1) s'(1) u by (auto simp: Stream_Bytes_def)
  from that [OF this] reads_trans [OF s1(2) s'(2)] s'(3) e show thesis by simp
qed

lemma putint_byte:
  assumes "i \<noteq> 0" "length (putint i) = 1 \<and> putint i ! 0 \<le> 0x7F"
  shows "\<exists>x. putint i = [x] \<and> x < 0x80 \<and> x \<noteq> 0 \<and> ucast x = i"
proof -
  obtain x where x: "putint i = [x]" using assms(2) by (cases "putint i") auto
  have "ucast x = i" using putint_from [of i] x by (simp add: from_be_def word_unat_eq_iff)
  then show ?thesis using x assms by (auto simp: word_less_nat_alt word_le_nat_alt)
qed

lemma uint_ok:
  assumes "s_kind s = None" "room s (length (uint_bytes i))" "s_r s = uint_bytes i @ rest" "unat i < 2 ^ bits" "bits \<in> {8, 16, 32, 64}"
  obtains s' where "Stream_uint bits s = (None, i, s')" "reads s (length (uint_bytes i)) s'" "s_kind s' = None"
proof (cases "i \<noteq> 0 \<and> length (putint i) = 1 \<and> putint i ! 0 \<le> 0x7F")
  case True
  then obtain x where x: "putint i = [x]" "x < 0x80" "x \<noteq> 0" "ucast x = i" using putint_byte [of i] by auto
  then have e: "uint_bytes i = [x]" using True by (simp add: uint_bytes_def str_bytes_def)
  obtain s1 where s1: "Stream_Kind s = (KByte, 0, None, s1)" "reads s 1 s1" "s_byteval s1 = x"
    by (rule Kind_byte [OF assms(1)]) (use assms(2,3) e x(2) in auto)
  have "Stream_uint bits s = (None, i, s1\<lparr>s_kind := None\<rparr>)" using s1 x by (simp add: Stream_uint_def)
  from that [OF this] s1(2) e show thesis by (simp add: junk)
next
  case False
  let ?b = "if i = 0 then [] else putint i"
  let ?n = "length ?b"
  have e: "uint_bytes i = puthead 0x80 0xB7 (of_nat ?n) @ ?b" using False unfolding uint_bytes_def str_bytes_def by auto
  then have r: "room s (headsize (of_nat ?n) + ?n)" using assms(2) by simp
  obtain s1 where s1: "Stream_Kind s = (KString, of_nat ?n, None, s1)" "reads s (headsize (of_nat ?n)) s1"
    by (rule Kind_header [OF _ assms(1) r, where small = "0x80" and large = "0xB7" and k = KString]) (use assms(3) e in \<open>auto simp: tags_ok_def\<close>)
  have b: "s_r s1 = ?b @ rest" using s1(2) assms(3) e by (simp add: reads_def)
  have small: "?n \<le> bits div 8"
  proof (rule ccontr)
    assume n: "\<not> ?n \<le> bits div 8"
    then have nz: "i \<noteq> 0" by auto
    have p: "(256::nat) ^ (bits div 8) \<le> 256 ^ (length (putint i) - 1)"
      using n nz by (intro power_increasing) auto
    have "256 ^ (bits div 8) \<le> unat i" by (rule order_trans [OF p putint_bounds(2) [OF nz]])
    moreover have "(256::nat) ^ (bits div 8) = 2 ^ bits" using assms(5) by auto
    ultimately show False using assms(4) by simp
  qed
  have le8: "?n \<le> 8" using putint_bounds(4) [of i] by simp
  have u: "unat (of_nat ?n :: uint64) = ?n" using le8 by (intro uint64_of_nat) simp
  have nb: "\<not> of_nat (bits div 8) < (of_nat ?n :: uint64)"
    using small assms(5) u by (auto simp: word_less_nat_alt uint64_of_nat)
  have uc: "(ucast (of_nat ?n :: uint64) :: uint8) = of_nat ?n" using le8 by (intro ucast_of_nat_byte) simp
  note rr = room_rest [OF r s1(2)]
  show thesis
  proof (cases "i = 0")
    case True
    then have "Stream_uint bits s = (None, i, s1\<lparr>s_kind := None\<rparr>)" using s1(1) nb by (simp add: Stream_uint_def readUint_def)
    from that [OF this] s1(2) e True show thesis by (simp add: junk)
  next
    case nz: False
    obtain s' where s': "readUint (of_nat ?n) s1 = (None, i, s')" "reads s1 ?n s'" "s_kind s' = None"
      using readUint_ok [of s1 i rest] rr b nz by auto
    have "128 \<le> i"
    proof (rule ccontr)
      assume "\<not> 128 \<le> i"
      then have "i < 128" by simp
      with putint_one [OF this] ucast_word_7F [OF this] False nz show False by simp
    qed
    then have "Stream_uint bits s = (None, i, s')" using s1(1) s'(1) nb uc by (auto simp: Stream_uint_def)
    from that [OF this] reads_trans [OF s1(2) s'(2)] s'(3) e show thesis by simp
  qed
qed

text \<open>Entering and leaving a list.\<close>

lemma List_ok:
  assumes "s_kind s = None" "room s (length (list_bytes c))" "s_r s = list_bytes c @ rest"
  obtains s1 where "Stream_List s = (None, of_nat (length c), s1)" "s_kind s1 = None" "s_r s1 = c @ rest" "room s1 (length c)"
    "s_stack s1 \<noteq> []" "lp_size (hd (s_stack s1)) - lp_pos (hd (s_stack s1)) = of_nat (length c)"
    "\<And>s2. reads s1 (length c) s2 \<Longrightarrow> \<exists>s3. Stream_ListEnd s2 = (None, s3) \<and> s_kind s3 = None \<and> reads s (length (list_bytes c)) s3"
proof -
  let ?n = "length c" and ?h = "headsize (of_nat (length c))"
  have r: "room s (?h + ?n)" using assms(2) by (simp add: list_bytes_def)
  obtain s1 where s1: "Stream_Kind s = (KList, of_nat ?n, None, s1)" "reads s ?h s1"
    by (rule Kind_header [OF _ assms(1) r, where small = "0xC0" and large = "0xF7" and k = KList]) (use assms(3) in \<open>auto simp: tags_ok_def list_bytes_def\<close>)
  let ?s = "s1\<lparr>s_stack := \<lparr>lp_pos = 0, lp_size = of_nat ?n\<rparr> # s_stack s1, s_kind := None, s_size := 0\<rparr>"
  have "Stream_List s = (None, of_nat ?n, ?s)" using s1(1) by (simp add: Stream_List_def)
  moreover have "s_r ?s = c @ rest" using s1(2) assms(3) by (simp add: reads_def list_bytes_def)
  moreover have "room ?s ?n" using room_rest [OF r s1(2)] by (simp add: room_def)
  moreover have "\<exists>s3. Stream_ListEnd s2 = (None, s3) \<and> s_kind s3 = None \<and> reads s (length (list_bytes c)) s3" if "reads ?s ?n s2" for s2
  proof -
    let ?s3 = "s2\<lparr>s_stack := bump ?n (s_stack s1), s_kind := None, s_size := 0\<rparr>"
    have "Stream_ListEnd s2 = (None, ?s3)"
      using that by (auto simp: Stream_ListEnd_def reads_def bump_def split: list.splits)
    moreover have "reads s1 ?n ?s3" using that by (simp add: reads_def bump_def)
    ultimately show ?thesis using reads_trans [OF s1(2), of ?n ?s3] by (simp add: list_bytes_def)
  qed
  ultimately show thesis by (intro that [of ?s]) simp_all
qed

subsection \<open>Values that can be read back\<close>

text \<open>
  The values of a type that the encoder writes without loss: no nil pointers, except where the tag \<open>nil\<close>
  makes the decoder restore them, and no byte arrays of length one with a zero, which the decoder
  does not consume.
\<close>

fun good :: "rtype \<Rightarrow> rvalue \<Rightarrow> bool"
  and good_fields :: "rtype list \<Rightarrow> rvalue list \<Rightarrow> bool" where
  "good (UintT b) v \<longleftrightarrow> b \<in> {8, 16, 32, 64} \<and> (case v of UintV i \<Rightarrow> unat i < 2 ^ b | _ \<Rightarrow> False)"
| "good BoolT v \<longleftrightarrow> (case v of BoolV b \<Rightarrow> True | _ \<Rightarrow> False)"
| "good BigIntT v \<longleftrightarrow> (case v of BigV (Some i) \<Rightarrow> 0 \<le> i | _ \<Rightarrow> False)"
| "good StringT v \<longleftrightarrow> (case v of BytesV b \<Rightarrow> True | _ \<Rightarrow> False)"
| "good BytesT v \<longleftrightarrow> (case v of BytesV b \<Rightarrow> True | _ \<Rightarrow> False)"
| "good (ByteArrayT n) v \<longleftrightarrow> (case v of BytesV b \<Rightarrow> length b = n \<and> b \<noteq> [0] | _ \<Rightarrow> False)"
| "good RawT v \<longleftrightarrow> False"
| "good (SliceT t) v \<longleftrightarrow> (case v of ListV vs \<Rightarrow> \<forall>x \<in> set vs. good t x | _ \<Rightarrow> False)"
| "good (ArrayT n t) v \<longleftrightarrow> (case v of ListV vs \<Rightarrow> length vs = n \<and> (\<forall>x \<in> set vs. good t x) | _ \<Rightarrow> False)"
| "good (StructT ts) v \<longleftrightarrow> (case v of ListV vs \<Rightarrow> good_fields ts vs | _ \<Rightarrow> False)"
| "good (PtrT t) v \<longleftrightarrow> (case v of PtrV (Some x) \<Rightarrow> good t x | _ \<Rightarrow> False)"
| "good (NilPtrT t) v \<longleftrightarrow> (case v of PtrV None \<Rightarrow> \<not> encodesNilAsZero t | PtrV (Some x) \<Rightarrow> good t x \<and> enc t x \<noteq> [0x80] \<and> enc t x \<noteq> [0xC0] | _ \<Rightarrow> False)"
| "good_fields [] vs \<longleftrightarrow> vs = []"
| "good_fields (t # ts) vs \<longleftrightarrow> (case vs of [] \<Rightarrow> False | v # vs \<Rightarrow> good t v \<and> good_fields ts vs)"

lemma str_bytes_pos [simp]: "str_bytes b \<noteq> []"
  by (auto simp: str_bytes_def puthead_def Let_def)

lemma list_bytes_pos [simp]: "list_bytes b \<noteq> []"
  by (auto simp: list_bytes_def puthead_def Let_def)

lemma uint_bytes_pos [simp]: "uint_bytes i \<noteq> []"
  by (simp add: uint_bytes_def)

lemma nil_bytes_pos [simp]: "nil_bytes t \<noteq> []"
  by (cases t) auto

lemma enc_pos: "good t v \<Longrightarrow> enc t v \<noteq> []"
  by (induction t arbitrary: v) (auto simp: val_defs split: rvalue.splits option.splits)

text \<open>At the end of a list every decoder reports it.\<close>

lemma Kind_EOL:
  assumes "s_kind s = None" "s_stack s \<noteq> []" "lp_pos (hd (s_stack s)) = lp_size (hd (s_stack s))"
  shows "Stream_Kind s = (KByte, 0, Some EOL, s\<lparr>s_kinderr := None\<rparr>)"
  using assms by (simp add: Stream_Kind_def)

lemma decoder_EOL:
  assumes "Stream_Kind s = (KByte, 0, Some EOL, s')" "s_kind s' = None"
  shows "\<exists>v. decoder t (zeroValue t) s = Some (Some EOL, v, s')"
proof (induction t)
  case (NilPtrT t)
  then show ?case using assms by simp
qed (use assms in \<open>auto simp: decodeUint_def Stream_uint_def decodeBool_def Stream_Bool_def decodeBigInt_def Stream_Bytes_def decodeString_def
    decodeByteSlice_def decodeByteArray_def decodeRawValue_def Stream_Raw_def decodeListSlice_def decodeListArray_def Stream_List_def
    wrapStreamError_def val_defs\<close>)

text \<open>Looking at the next value first makes no difference.\<close>

lemma decoder_peek: "Stream_Kind s1 = Stream_Kind s \<Longrightarrow> decoder t v s1 = decoder t v s"
  by (induction t arbitrary: v)
    (auto simp: decodeUint_def Stream_uint_def decodeBool_def Stream_Bool_def decodeBigInt_def Stream_Bytes_def decodeString_def
    decodeByteSlice_def decodeByteArray_def decodeRawValue_def Stream_Raw_def decodeListSlice_def decodeListArray_def Stream_List_def)

subsection \<open>Reading a value back\<close>

definition restores :: "rtype \<Rightarrow> bool" where
  "restores t \<longleftrightarrow> (\<forall>v s rest. good t v \<longrightarrow> s_kind s = None \<longrightarrow> room s (length (enc t v)) \<longrightarrow> s_r s = enc t v @ rest \<longrightarrow>
     (\<exists>s'. decoder t (zeroValue t) s = Some (None, v, s') \<and> reads s (length (enc t v)) s' \<and> s_kind s' = None))"

lemma restoresD:
  assumes "restores t" "good t v" "s_kind s = None" "room s (length (enc t v))" "s_r s = enc t v @ rest"
  obtains s' where "decoder t (zeroValue t) s = Some (None, v, s')" "reads s (length (enc t v)) s'" "s_kind s' = None"
  using assms unfolding restores_def by blast

lemma restores_uint: "restores (UintT b)"
  unfolding restores_def
proof (intro allI impI)
  fix v s rest assume a: "good (UintT b) v" "s_kind s = None" "room s (length (enc (UintT b) v))" "s_r s = enc (UintT b) v @ rest"
  then obtain i where i: "v = UintV i" "unat i < 2 ^ b" "b \<in> {8, 16, 32, 64}" by (auto split: rvalue.splits)
  obtain s' where "Stream_uint b s = (None, i, s')" "reads s (length (uint_bytes i)) s'" "s_kind s' = None"
    by (rule uint_ok [OF a(2) _ _ i(2,3)]) (use a(3,4) i(1) in \<open>auto simp: val_defs\<close>)
  then show "\<exists>s'. decoder (UintT b) (zeroValue (UintT b)) s = Some (None, v, s') \<and> reads s (length (enc (UintT b) v)) s' \<and> s_kind s' = None"
    using i(1) by (simp add: decodeUint_def val_defs)
qed

lemma restores_bool: "restores BoolT"
  unfolding restores_def
proof (intro allI impI)
  fix v s rest assume a: "good BoolT v" "s_kind s = None" "room s (length (enc BoolT v))" "s_r s = enc BoolT v @ rest"
  then obtain b where b: "v = BoolV b" by (auto split: rvalue.splits)
  let ?i = "if b then 1 else 0 :: uint64"
  have bd: "unat ?i < 2 ^ 8" "(8::nat) \<in> {8, 16, 32, 64}" by auto
  obtain s' where "Stream_uint 8 s = (None, ?i, s')" "reads s (length (uint_bytes ?i)) s'" "s_kind s' = None"
    by (rule uint_ok [OF a(2) _ _ bd]) (use a(3,4) b in \<open>auto simp: val_defs simp del: if_split\<close>)
  then show "\<exists>s'. decoder BoolT (zeroValue BoolT) s = Some (None, v, s') \<and> reads s (length (enc BoolT v)) s' \<and> s_kind s' = None"
    using b by (cases b) (simp_all add: decodeBool_def Stream_Bool_def val_defs)
qed

lemma restores_bytes:
  assumes "\<And>v. good t v \<Longrightarrow> \<exists>b. enc t v = str_bytes b \<and> (\<forall>s s'. Stream_Bytes s = (None, b, s') \<longrightarrow> decoder t (zeroValue t) s = Some (None, v, s'))"
  shows "restores t"
  unfolding restores_def
proof (intro allI impI)
  fix v s rest assume a: "good t v" "s_kind s = None" "room s (length (enc t v))" "s_r s = enc t v @ rest"
  obtain b where b: "enc t v = str_bytes b" "\<And>s s'. Stream_Bytes s = (None, b, s') \<Longrightarrow> decoder t (zeroValue t) s = Some (None, v, s')"
    using assms [OF a(1)] by blast
  obtain s' where s': "Stream_Bytes s = (None, b, s')" "reads s (length (str_bytes b)) s'" "s_kind s' = None"
    by (rule Bytes_ok [OF a(2)]) (use a(3,4) b(1) in auto)
  show "\<exists>s'. decoder t (zeroValue t) s = Some (None, v, s') \<and> reads s (length (enc t v)) s' \<and> s_kind s' = None"
    using b(2) [OF s'(1)] s'(2,3) b(1) by auto
qed

lemma big_bytes_hd: "big_bytes n \<noteq> [] \<Longrightarrow> hd (big_bytes n) \<noteq> 0"
proof (induction n rule: big_bytes.induct)
  case (1 n)
  from 1(2) have n: "n \<noteq> 0" by (cases n) (auto simp: big_bytes.simps [of 0])
  show ?case
  proof (cases "n div 256 = 0")
    case True
    then have "big_bytes n = [of_nat n]" using n by (simp add: big_bytes.simps [of n] big_bytes.simps [of 0])
    moreover have "(of_nat n :: uint8) \<noteq> 0" using True n by (auto simp: word_unat_eq_iff unat_of_nat)
    ultimately show ?thesis by simp
  next
    case False
    then have "big_bytes (n div 256) \<noteq> []" by (simp add: big_bytes.simps [of "n div 256"])
    then show ?thesis using 1(1) [OF n] n by (simp add: big_bytes.simps [of n])
  qed
qed

lemma restores_strings: "restores StringT" "restores BytesT" "restores BigIntT"
proof -
  show "restores StringT" "restores BytesT"
    by (rule restores_bytes; auto simp: val_defs decodeString_def decodeByteSlice_def split: rvalue.splits)+
  show "restores BigIntT"
  proof (rule restores_bytes)
    fix v assume "good BigIntT v"
    then obtain i where i: "v = BigV (Some i)" "0 \<le> i" by (auto split: rvalue.splits option.splits)
    then show "\<exists>b. enc BigIntT v = str_bytes b \<and> (\<forall>s s'. Stream_Bytes s = (None, b, s') \<longrightarrow> decoder BigIntT (zeroValue BigIntT) s = Some (None, v, s'))"
      using big_bytes_hd [of "nat i"] by (intro exI [of _ "big_bytes (nat i)"]) (auto simp: val_defs decodeBigInt_def from_big_bytes)
  qed
qed

lemma ucast_ucast_byte [simp]: "ucast (ucast (x :: uint8) :: uint64) = x"
  using byte_bound [of x] by (simp add: word_unat_eq_iff unat_ucast_low)

lemma restores_array: "restores (ByteArrayT n)"
  unfolding restores_def
proof (intro allI impI)
  fix v s rest assume a: "good (ByteArrayT n) v" "s_kind s = None" "room s (length (enc (ByteArrayT n) v))" "s_r s = enc (ByteArrayT n) v @ rest"
  then obtain b where b: "v = BytesV b" "length b = n" "b \<noteq> [0]" by (auto split: rvalue.splits)
  then have e: "enc (ByteArrayT n) v = str_bytes b" by (simp add: val_defs)
  show "\<exists>s'. decoder (ByteArrayT n) (zeroValue (ByteArrayT n)) s = Some (None, v, s') \<and> reads s (length (enc (ByteArrayT n) v)) s' \<and> s_kind s' = None"
  proof (cases "length b = 1 \<and> b ! 0 \<le> 0x7F")
    case True
    then obtain x where x: "b = [x]" "x < 0x80" by (cases b) (auto simp: word_less_nat_alt word_le_nat_alt)
    then have e': "str_bytes b = [x]" using True by (simp add: str_bytes_def)
    obtain s1 where s1: "Stream_Kind s = (KByte, 0, None, s1)" "reads s 1 s1" "s_kind s1 = Some KByte" "s_byteval s1 = x"
      by (rule Kind_byte [OF a(2)]) (use a(3,4) e e' x(2) in auto)
    have "Stream_Kind s1 = (KByte, s_size s1, s_kinderr s1, s1)" using s1(3) by (simp add: Stream_Kind_def)
    moreover have "s_kinderr s1 = None" using s1(1) by (auto simp: Stream_Kind_def Let_def split: option.splits prod.splits if_splits)
    ultimately have "Stream_uint 64 s1 = (None, ucast x, s1\<lparr>s_kind := None\<rparr>)" using s1(4) b(3) x(1) by (simp add: Stream_uint_def)
    then have "decoder (ByteArrayT n) (zeroValue (ByteArrayT n)) s = Some (None, v, s1\<lparr>s_kind := None\<rparr>)"
      using s1(1) b x by (simp add: decodeByteArray_def)
    then show ?thesis using s1(2) e e' by (simp add: junk)
  next
    case False
    have e': "str_bytes b = puthead 0x80 0xB7 (of_nat n) @ b" using False b(2) unfolding str_bytes_def by auto
    then have r: "room s (headsize (of_nat n) + n)" using a(3) e b(2) by simp
    obtain s1 where s1: "Stream_Kind s = (KString, of_nat n, None, s1)" "reads s (headsize (of_nat n)) s1"
      by (rule Kind_header [OF _ a(2) r, where small = "0x80" and large = "0xB7" and k = KString])
        (use a(4) e e' in \<open>auto simp: tags_ok_def\<close>)
    have br: "s_r s1 = b @ rest" using s1(2) a(4) e e' by (simp add: reads_def)
    have u: "unat (of_nat n :: uint64) = n" using r by (intro uint64_of_nat) (simp add: room_def)
    obtain s' where s': "readFull n s1 = (None, b, s')" "reads s1 n s'" "s_kind s' = None"
      by (rule readFull_ok [OF room_rest [OF r s1(2)]]) (use br b(2) in auto)
    have "\<not> (of_nat n = (1 :: uint64) \<and> b ! 0 < 128)"
      using False u b(2) by (auto simp: word_le_nat_alt word_less_nat_alt dest!: arg_cong [of _ _ unat])
    then have "decoder (ByteArrayT n) (zeroValue (ByteArrayT n)) s = Some (None, v, s')"
      using s1(1) s'(1) b by (auto simp: decodeByteArray_def val_defs)
    then show ?thesis using reads_trans [OF s1(2) s'(2)] s'(3) e e' b(2) by simp
  qed
qed

text \<open>The elements of a list, up to its end.\<close>

lemma slice_elems:
  assumes "restores t"
  shows "(\<forall>x \<in> set vs. good t x) \<Longrightarrow> s_kind s = None \<Longrightarrow> room s (length (encs t vs)) \<Longrightarrow> s_r s = encs t vs @ rest \<Longrightarrow>
    s_stack s \<noteq> [] \<Longrightarrow> lp_size (hd (s_stack s)) - lp_pos (hd (s_stack s)) = of_nat (length (encs t vs)) \<Longrightarrow>
    \<exists>s'. decodeSliceElems (decoder t) (zeroValue t) (length us) us s = Some (None, us @ vs, s') \<and> reads s (length (encs t vs)) s' \<and> s_kind s' = None"
proof (induction vs arbitrary: s us)
  case Nil
  have "Stream_Kind s = (KByte, 0, Some EOL, s\<lparr>s_kinderr := None\<rparr>)" using Nil by (intro Kind_EOL) auto
  then obtain v where "decoder t (zeroValue t) s = Some (Some EOL, v, s\<lparr>s_kinderr := None\<rparr>)" using decoder_EOL Nil(2) by fastforce
  then show ?case using Nil(2) by (subst decodeSliceElems.simps) (simp add: junk reads_refl)
next
  case (Cons v vs)
  have r: "room s (length (enc t v) + length (encs t vs))" using Cons.prems(3) by simp
  obtain s1 where s1: "decoder t (zeroValue t) s = Some (None, v, s1)" "reads s (length (enc t v)) s1" "s_kind s1 = None"
    by (rule restoresD [OF assms, of v s]) (use Cons.prems room_part [OF r] in auto)
  have "s_stack s1 \<noteq> []" "lp_size (hd (s_stack s1)) - lp_pos (hd (s_stack s1)) = of_nat (length (encs t vs))"
    using s1(2) Cons.prems(5,6) by (auto simp: reads_def bump_def diff_diff_eq [symmetric] split: list.splits)
  moreover have "room s1 (length (encs t vs))" by (rule room_rest [OF r s1(2)])
  moreover have "s_r s1 = encs t vs @ rest" using s1(2) Cons.prems(4) by (simp add: reads_def)
  ultimately obtain s2 where s2: "decodeSliceElems (decoder t) (zeroValue t) (length (us @ [v])) (us @ [v]) s1 = Some (None, (us @ [v]) @ vs, s2)"
    "reads s1 (length (encs t vs)) s2" "s_kind s2 = None"
    using Cons.IH [of s1 "us @ [v]"] Cons.prems(1) s1(3) by auto
  have "decodeSliceElems (decoder t) (zeroValue t) (length us) us s = Some (None, us @ v # vs, s2)"
    using s1(1) s2(1) by (subst decodeSliceElems.simps) simp
  then show ?case using reads_trans [OF s1(2) s2(2)] s2(3) by simp
qed

lemma array_elems:
  assumes "restores t"
  shows "(\<forall>x \<in> set vs. good t x) \<Longrightarrow> s_kind s = None \<Longrightarrow> room s (length (encs t vs)) \<Longrightarrow> s_r s = encs t vs @ rest \<Longrightarrow>
    \<exists>s'. decodeArrayElems (decoder t) (replicate (length vs) (zeroValue t)) s = Some (None, vs, s') \<and> reads s (length (encs t vs)) s' \<and> s_kind s' = None"
proof (induction vs arbitrary: s)
  case (Cons v vs)
  have r: "room s (length (enc t v) + length (encs t vs))" using Cons.prems(3) by simp
  obtain s1 where s1: "decoder t (zeroValue t) s = Some (None, v, s1)" "reads s (length (enc t v)) s1" "s_kind s1 = None"
    by (rule restoresD [OF assms, of v s]) (use Cons.prems room_part [OF r] in auto)
  have "s_r s1 = encs t vs @ rest" using s1(2) Cons.prems(4) by (simp add: reads_def)
  then obtain s2 where s2: "decodeArrayElems (decoder t) (replicate (length vs) (zeroValue t)) s1 = Some (None, vs, s2)"
    "reads s1 (length (encs t vs)) s2" "s_kind s2 = None"
    using Cons.IH [of s1] Cons.prems(1) s1(3) room_rest [OF r s1(2)] by auto
  then show ?case using s1(1) reads_trans [OF s1(2) s2(2)] by auto
qed (simp add: reads_refl)

lemma struct_fields:
  "(\<forall>t \<in> set ts. restores t) \<Longrightarrow> good_fields ts vs \<Longrightarrow> s_kind s = None \<Longrightarrow> room s (length (enc_fields ts vs)) \<Longrightarrow> s_r s = enc_fields ts vs @ rest \<Longrightarrow>
    \<exists>s'. decodeFields ts (map zeroValue ts) s = Some (None, vs, s') \<and> reads s (length (enc_fields ts vs)) s' \<and> s_kind s' = None"
proof (induction ts arbitrary: vs s)
  case (Cons t ts)
  obtain v ws where vs: "vs = v # ws" "good t v" "good_fields ts ws" using Cons.prems(2) by (cases vs) auto
  have r: "room s (length (enc t v) + length (enc_fields ts ws))" using Cons.prems(4) vs(1) by simp
  have "restores t" using Cons.prems(1) by simp
  then obtain s1 where s1: "decoder t (zeroValue t) s = Some (None, v, s1)" "reads s (length (enc t v)) s1" "s_kind s1 = None"
    by (rule restoresD [of t v s]) (use Cons.prems vs room_part [OF r] in auto)
  have "s_r s1 = enc_fields ts ws @ rest" using s1(2) Cons.prems(5) vs(1) by (simp add: reads_def)
  then obtain s2 where s2: "decodeFields ts (map zeroValue ts) s1 = Some (None, ws, s2)" "reads s1 (length (enc_fields ts ws)) s2" "s_kind s2 = None"
    using Cons.IH [of ws s1] Cons.prems(1) vs(3) s1(3) room_rest [OF r s1(2)] by auto
  then show ?case using s1(1) reads_trans [OF s1(2) s2(2)] vs(1) by auto
qed (simp add: reads_refl)

lemma restores_slice:
  assumes "restores t"
  shows "restores (SliceT t)"
  unfolding restores_def
proof (intro allI impI)
  fix v s rest assume a: "good (SliceT t) v" "s_kind s = None" "room s (length (enc (SliceT t) v))" "s_r s = enc (SliceT t) v @ rest"
  then obtain vs where vs: "v = ListV vs" "\<forall>x \<in> set vs. good t x" by (auto split: rvalue.splits)
  let ?c = "encs t vs"
  have e: "enc (SliceT t) v = list_bytes ?c" using vs by (simp add: val_defs)
  obtain s1 where s1: "Stream_List s = (None, of_nat (length ?c), s1)" "s_kind s1 = None" "s_r s1 = ?c @ rest" "room s1 (length ?c)"
    "s_stack s1 \<noteq> []" "lp_size (hd (s_stack s1)) - lp_pos (hd (s_stack s1)) = of_nat (length ?c)"
    "\<And>s2. reads s1 (length ?c) s2 \<Longrightarrow> \<exists>s3. Stream_ListEnd s2 = (None, s3) \<and> s_kind s3 = None \<and> reads s (length (list_bytes ?c)) s3"
    by (rule List_ok [OF a(2), of ?c rest]) (use a(3,4) e in auto)
  have u: "(of_nat (length ?c) :: uint64) = 0 \<longleftrightarrow> length ?c = 0"
    using uint64_of_nat [of "length ?c"] s1(4) by (auto simp: room_def)
  show "\<exists>s'. decoder (SliceT t) (zeroValue (SliceT t)) s = Some (None, v, s') \<and> reads s (length (enc (SliceT t) v)) s' \<and> s_kind s' = None"
  proof (cases "length ?c = 0")
    case True
    then have "vs = []" using vs(2) enc_pos by (cases vs) auto
    moreover obtain s3 where "Stream_ListEnd s1 = (None, s3)" "s_kind s3 = None" "reads s (length (list_bytes ?c)) s3"
      using s1(7) [of s1] True reads_refl by auto
    ultimately show ?thesis using s1(1) True vs(1) e u by (auto simp: decodeListSlice_def)
  next
    case False
    obtain s2 where s2: "decodeSliceElems (decoder t) (zeroValue t) 0 [] s1 = Some (None, vs, s2)" "reads s1 (length ?c) s2"
      using slice_elems [OF assms vs(2) s1(2,4,3,5,6), of "[]"] by auto
    from s1(7) [OF s2(2)] show ?thesis using s1(1) s2(1) False u vs(1) e by (auto simp: decodeListSlice_def val_defs)
  qed
qed

lemma restores_list_array:
  assumes "restores t"
  shows "restores (ArrayT n t)"
  unfolding restores_def
proof (intro allI impI)
  fix v s rest assume a: "good (ArrayT n t) v" "s_kind s = None" "room s (length (enc (ArrayT n t) v))" "s_r s = enc (ArrayT n t) v @ rest"
  then obtain vs where vs: "v = ListV vs" "\<forall>x \<in> set vs. good t x" "length vs = n" by (auto split: rvalue.splits)
  let ?c = "encs t vs"
  have e: "enc (ArrayT n t) v = list_bytes ?c" using vs by (simp add: val_defs)
  obtain s1 where s1: "Stream_List s = (None, of_nat (length ?c), s1)" "s_kind s1 = None" "s_r s1 = ?c @ rest" "room s1 (length ?c)"
    "\<And>s2. reads s1 (length ?c) s2 \<Longrightarrow> \<exists>s3. Stream_ListEnd s2 = (None, s3) \<and> s_kind s3 = None \<and> reads s (length (list_bytes ?c)) s3"
    by (rule List_ok [OF a(2), of ?c rest]) (use a(3,4) e in auto)
  obtain s2 where s2: "decodeArrayElems (decoder t) (replicate n (zeroValue t)) s1 = Some (None, vs, s2)" "reads s1 (length ?c) s2"
    using array_elems [OF assms vs(2) s1(2,4,3)] vs(3) by auto
  from s1(5) [OF s2(2)]
  show "\<exists>s'. decoder (ArrayT n t) (zeroValue (ArrayT n t)) s = Some (None, v, s') \<and> reads s (length (enc (ArrayT n t) v)) s' \<and> s_kind s' = None"
    using s1(1) s2(1) vs(1) e by (auto simp: decodeListArray_def val_defs wrapStreamError_def)
qed

lemma restores_struct:
  assumes "\<forall>t \<in> set ts. restores t"
  shows "restores (StructT ts)"
  unfolding restores_def
proof (intro allI impI)
  fix v s rest assume a: "good (StructT ts) v" "s_kind s = None" "room s (length (enc (StructT ts) v))" "s_r s = enc (StructT ts) v @ rest"
  then obtain vs where vs: "v = ListV vs" "good_fields ts vs" by (auto split: rvalue.splits)
  let ?c = "enc_fields ts vs"
  have e: "enc (StructT ts) v = list_bytes ?c" using vs by (simp add: val_defs)
  obtain s1 where s1: "Stream_List s = (None, of_nat (length ?c), s1)" "s_kind s1 = None" "s_r s1 = ?c @ rest" "room s1 (length ?c)"
    "\<And>s2. reads s1 (length ?c) s2 \<Longrightarrow> \<exists>s3. Stream_ListEnd s2 = (None, s3) \<and> s_kind s3 = None \<and> reads s (length (list_bytes ?c)) s3"
    by (rule List_ok [OF a(2), of ?c rest]) (use a(3,4) e in auto)
  obtain s2 where s2: "decodeFields ts (map zeroValue ts) s1 = Some (None, vs, s2)" "reads s1 (length ?c) s2"
    using struct_fields [OF assms vs(2) s1(2,4,3)] by auto
  from s1(5) [OF s2(2)]
  show "\<exists>s'. decoder (StructT ts) (zeroValue (StructT ts)) s = Some (None, v, s') \<and> reads s (length (enc (StructT ts) v)) s' \<and> s_kind s' = None"
    using s1(1) s2(1) vs(1) e by (auto simp: val_defs wrapStreamError_def)
qed

lemma restores_ptr:
  assumes "restores t"
  shows "restores (PtrT t)"
  unfolding restores_def
proof (intro allI impI)
  fix v s rest assume a: "good (PtrT t) v" "s_kind s = None" "room s (length (enc (PtrT t) v))" "s_r s = enc (PtrT t) v @ rest"
  then obtain x where x: "v = PtrV (Some x)" "good t x" by (auto split: rvalue.splits option.splits)
  obtain s1 where "decoder t (zeroValue t) s = Some (None, x, s1)" "reads s (length (enc t x)) s1" "s_kind s1 = None"
    by (rule restoresD [OF assms x(2) a(2)]) (use a(3,4) x(1) in \<open>auto simp: val_defs\<close>)
  then show "\<exists>s'. decoder (PtrT t) (zeroValue (PtrT t)) s = Some (None, v, s') \<and> reads s (length (enc (PtrT t) v)) s' \<and> s_kind s' = None"
    using x(1) by (auto simp: val_defs)
qed

lemma nil_shape: "(\<exists>b. nil_bytes t = str_bytes b) \<or> (\<exists>c. nil_bytes t = list_bytes c)"
  by (cases t) auto

lemma enc_shape: "good t v \<Longrightarrow> (\<exists>b. enc t v = str_bytes b) \<or> (\<exists>c. enc t v = list_bytes c)"
proof (induction t arbitrary: v)
  case (PtrT t)
  then obtain x where "v = PtrV (Some x)" "good t x" by (auto split: rvalue.splits option.splits)
  then show ?case using PtrT.IH [of x] by (simp add: val_defs)
next
  case (NilPtrT t)
  show ?case
  proof (cases "v = PtrV None")
    case True
    then show ?thesis using NilPtrT.prems nil_shape [of t] by (simp add: val_defs)
  next
    case False
    then obtain x where "v = PtrV (Some x)" "good t x" using NilPtrT.prems by (auto split: rvalue.splits option.splits)
    then show ?thesis using NilPtrT.IH [of x] by (simp add: val_defs)
  qed
next
  case BigIntT
  then show ?case by (auto simp: val_defs split: rvalue.splits option.splits)
qed (auto simp: uint_bytes_def)

text \<open>The header of a value tells that it is not empty.\<close>

lemma Kind_peek:
  assumes "Stream_Kind s = (k, n, None, s1)"
  shows "Stream_Kind s1 = (k, n, None, s1)"
proof (cases "s_kind s")
  case None
  obtain k' n' e' s' where r: "Stream_readKind (s\<lparr>s_kinderr := None\<rparr>) = (k', n', e', s')"
    by (cases "Stream_readKind (s\<lparr>s_kinderr := None\<rparr>)")
  define e where "e = (if e' \<noteq> None then e'
                 else if s_stack s' = [] then (if s_limited s' \<and> n' > s_remaining s' then Some ErrValueTooLarge else None)
                 else if n' > lp_size (hd (s_stack s')) - lp_pos (hd (s_stack s')) then Some ErrElemTooLarge else None)"
  have "Stream_Kind s = (if s_stack s \<noteq> [] \<and> lp_pos (hd (s_stack s)) = lp_size (hd (s_stack s)) then (KByte, 0, Some EOL, s\<lparr>s_kinderr := None\<rparr>)
      else (k', n', e, s'\<lparr>s_kind := Some k', s_size := n', s_kinderr := e\<rparr>))"
    unfolding Stream_Kind_def None e_def using r by (simp add: Let_def split del: if_split cong: if_cong)
  then have "s1 = s'\<lparr>s_kind := Some k', s_size := n', s_kinderr := e\<rparr>" "k = k'" "n = n'" "e = None"
    using assms by (simp_all split: if_splits)
  then show ?thesis by (simp add: Stream_Kind_def)
qed (use assms in \<open>auto simp: Stream_Kind_def\<close>)

lemma Kind_nonempty:
  assumes "good t v" "enc t v \<noteq> [0x80]" "enc t v \<noteq> [0xC0]" "s_kind s = None" "room s (length (enc t v))" "s_r s = enc t v @ rest"
  obtains k n s1 where "Stream_Kind s = (k, n, None, s1)" "\<not> (n = 0 \<and> k \<noteq> KByte)" "Stream_Kind s1 = Stream_Kind s"
proof -
  note peek = Kind_peek [of s]
  consider b where "enc t v = str_bytes b" "length b = 1 \<and> b ! 0 \<le> 0x7F"
    | b where "enc t v = puthead 0x80 0xB7 (of_nat (length b)) @ b" | b where "enc t v = puthead 0xC0 0xF7 (of_nat (length b)) @ b"
  proof (cases "\<exists>b. enc t v = str_bytes b")
    case True
    then obtain b where b: "enc t v = str_bytes b" by blast
    show thesis
    proof (cases "length b = 1 \<and> b ! 0 \<le> 0x7F")
      case True
      with b that(1) show thesis by blast
    next
      case False
      then have "str_bytes b = puthead 0x80 0xB7 (of_nat (length b)) @ b" unfolding str_bytes_def by (simp only: if_False)
      with b that(2) show thesis by simp
    qed
  next
    case False
    with enc_shape [OF assms(1)] that(3) show thesis by (auto simp: list_bytes_def)
  qed
  then show thesis
  proof cases
    case 1
    then obtain x where x: "b = [x]" "x < 0x80" by (cases b) (auto simp: word_less_nat_alt word_le_nat_alt)
    obtain s1 where s1: "Stream_Kind s = (KByte, 0, None, s1)"
      by (rule Kind_byte [OF assms(4), of x rest]) (use assms(5,6) 1 x in \<open>auto simp: str_bytes_def\<close>)
    then show thesis using that [OF s1] peek [OF s1] by simp
  next
    case 2
    obtain s1 where s1: "Stream_Kind s = (KString, of_nat (length b), None, s1)"
      by (rule Kind_header [OF _ assms(4), where small = "0x80" and large = "0xB7" and k = KString and n = "length b"])
        (use assms(5,6) 2 in \<open>auto simp: tags_ok_def\<close>)
    have "length b < 2 ^ 64" using assms(5) 2 by (simp add: room_def)
    moreover have "b \<noteq> []" using 2 assms(2) by (auto simp: puthead_def)
    ultimately have "of_nat (length b) \<noteq> (0 :: uint64)" using uint64_of_nat [of "length b"] by auto
    then show thesis using that [OF s1] peek [OF s1] s1 by simp
  next
    case 3
    obtain s1 where s1: "Stream_Kind s = (KList, of_nat (length b), None, s1)"
      by (rule Kind_header [OF _ assms(4), where small = "0xC0" and large = "0xF7" and k = KList and n = "length b"])
        (use assms(5,6) 3 in \<open>auto simp: tags_ok_def\<close>)
    have "length b < 2 ^ 64" using assms(5) 3 by (simp add: room_def)
    moreover have "b \<noteq> []" using 3 assms(3) by (auto simp: puthead_def)
    ultimately have "of_nat (length b) \<noteq> (0 :: uint64)" using uint64_of_nat [of "length b"] by auto
    then show thesis using that [OF s1] peek [OF s1] s1 by simp
  qed
qed

lemma restores_nil_ptr:
  assumes "restores t"
  shows "restores (NilPtrT t)"
  unfolding restores_def
proof (intro allI impI)
  fix v s rest assume a: "good (NilPtrT t) v" "s_kind s = None" "room s (length (enc (NilPtrT t) v))" "s_r s = enc (NilPtrT t) v @ rest"
  show "\<exists>s'. decoder (NilPtrT t) (zeroValue (NilPtrT t)) s = Some (None, v, s') \<and> reads s (length (enc (NilPtrT t) v)) s' \<and> s_kind s' = None"
  proof (cases "v = PtrV None")
    case True
    then have nz: "\<not> encodesNilAsZero t" using a(1) by simp
    then have e: "enc (NilPtrT t) v = nil_bytes t" using True by (simp add: val_defs)
    obtain small large k where k: "tags_ok small large k" "nil_bytes t = puthead small large (of_nat 0)" "k \<noteq> KByte"
      using nz by (cases t) (auto simp: tags_ok_def str_bytes_def list_bytes_def encodesNilAsZero_def)
    obtain s1 where s1: "Stream_Kind s = (k, of_nat 0, None, s1)" "reads s (headsize (of_nat 0)) s1"
      by (rule Kind_header [OF k(1) a(2), of 0 rest]) (use a(3,4) e k(2) in auto)
    then show ?thesis using k e True by (auto simp: junk)
  next
    case False
    then obtain x where x: "v = PtrV (Some x)" "good t x" "enc t x \<noteq> [0x80]" "enc t x \<noteq> [0xC0]" "enc (NilPtrT t) v = enc t x"
      using a(1) by (auto simp: val_defs split: rvalue.splits option.splits)
    obtain k n s1 where k: "Stream_Kind s = (k, n, None, s1)" "\<not> (n = 0 \<and> k \<noteq> KByte)" "Stream_Kind s1 = Stream_Kind s"
      by (rule Kind_nonempty [OF x(2-4) a(2)]) (use a(3,4) x(5) in auto)
    obtain s2 where "decoder t (zeroValue t) s = Some (None, x, s2)" "reads s (length (enc t x)) s2" "s_kind s2 = None"
      by (rule restoresD [OF assms x(2) a(2)]) (use a(3,4) x(5) in auto)
    then show ?thesis using k decoder_peek [OF k(3), of t "zeroValue t"] x(1,5) by (auto simp: val_defs)
  qed
qed

lemma restores_all: "restores t"
proof (induction t)
  case RawT
  then show ?case by (simp add: restores_def)
qed (use restores_uint restores_bool restores_strings restores_array restores_slice restores_list_array restores_struct restores_ptr restores_nil_ptr in auto)

lemma writeElems_good:
  assumes "\<And>v w. good t v \<Longrightarrow> \<exists>w'. writer t v w = Some (None, w')"
  shows "(\<forall>x \<in> set vs. good t x) \<Longrightarrow> \<exists>w'. writeElems t vs w = Some (None, w')"
proof (induction vs arbitrary: w)
  case (Cons v vs)
  then obtain w1 where "writer t v w = Some (None, w1)" using assms by fastforce
  moreover obtain w2 where "writeElems t vs w1 = Some (None, w2)" using Cons by fastforce
  ultimately show ?case by simp
qed simp

lemma writeFields_good:
  assumes "\<And>t v w. t \<in> set ts \<Longrightarrow> good t v \<Longrightarrow> \<exists>w'. writer t v w = Some (None, w')"
  shows "good_fields ts vs \<Longrightarrow> \<exists>w'. writeFields ts vs w = Some (None, w')"
  using assms
proof (induction ts arbitrary: vs w)
  case (Cons t ts)
  obtain v ws where vs: "vs = v # ws" "good t v" "good_fields ts ws" using Cons.prems(1) by (cases vs) auto
  obtain w1 where "writer t v w = Some (None, w1)" using Cons.prems(2) [of t v w] vs(2) by auto
  moreover obtain w2 where "writeFields ts ws w1 = Some (None, w2)" using Cons.IH [OF vs(3), of w1] Cons.prems(2) by fastforce
  ultimately show ?case using vs(1) by simp
qed simp

lemma writer_good: "good t v \<Longrightarrow> \<exists>w'. writer t v w = Some (None, w')"
proof (induction t arbitrary: v w)
  case (SliceT t)
  obtain vs where vs: "v = ListV vs" "\<forall>x \<in> set vs. good t x" using SliceT.prems by (auto split: rvalue.splits)
  obtain i w1 where l: "encbuf_list w = (i, w1)" by (cases "encbuf_list w")
  obtain w2 where "writeElems t vs w1 = Some (None, w2)" using writeElems_good [OF SliceT.IH vs(2)] by blast
  then show ?case using vs(1) l by (simp add: val_defs)
next
  case (ArrayT n t)
  obtain vs where vs: "v = ListV vs" "\<forall>x \<in> set vs. good t x" using ArrayT.prems by (auto split: rvalue.splits)
  obtain i w1 where l: "encbuf_list w = (i, w1)" by (cases "encbuf_list w")
  obtain w2 where "writeElems t vs w1 = Some (None, w2)" using writeElems_good [OF ArrayT.IH vs(2)] by blast
  then show ?case using vs(1) l by (simp add: val_defs)
next
  case (StructT ts)
  obtain vs where vs: "v = ListV vs" "good_fields ts vs" using StructT.prems by (auto split: rvalue.splits)
  obtain i w1 where l: "encbuf_list w = (i, w1)" by (cases "encbuf_list w")
  obtain w2 where "writeFields ts vs w1 = Some (None, w2)" using writeFields_good [OF StructT.IH vs(2)] by blast
  then show ?case using vs(1) l by (simp add: val_defs)
qed (auto simp: val_defs writeBigIntPtr_def writeBigInt_def split: rvalue.splits option.splits)

lemma encode_good:
  assumes "good t v" "length (enc t v) < 2 ^ 63"
  shows "rlp_EncodeToBytes t v = Some (Inr (enc t v))"
proof -
  obtain w where w: "writer t v encbuf_reset = Some (None, w)" using writer_good [OF assms(1)] by blast
  have e: "emits encbuf_reset (enc t v) w" using writer_writes(1) [OF w] assms(2) by (simp add: writes_def)
  have "encbuf_size w = length (enc t v)" using emits_size [OF e] by (simp add: encbuf_size_def encbuf_reset_def)
  then obtain d where d: "encbuf_toBytes w = Some d" using assms(2) by (simp add: encbuf_toBytes_def)
  then show ?thesis using w emits_toBytes [OF e d] by (simp add: rlp_EncodeToBytes_def)
qed

lemma decode_good:
  assumes "good t v" "length (enc t v) < 2 ^ 63"
  shows "rlp_DecodeBytes t (enc t v) (zeroValue t) = Some (None, v)"
proof -
  have r: "room (NewStream (enc t v)) (length (enc t v))" using assms(2) by (simp add: room_def NewStream_def)
  obtain s' where "decoder t (zeroValue t) (NewStream (enc t v)) = Some (None, v, s')" "reads (NewStream (enc t v)) (length (enc t v)) s'"
    by (rule restoresD [OF restores_all assms(1) _ r, of "[]"]) (auto simp: NewStream_def)
  then show ?thesis by (simp add: rlp_DecodeBytes_def reads_def NewStream_def)
qed

section \<open>Round trip\<close>


definition exampleStructT :: rtype where
  "exampleStructT = StructT [BoolT, UintT 64, BigIntT, BytesT, ByteArrayT 3, SliceT (UintT 16), NilPtrT (ByteArrayT 20), PtrT StringT]"

definition exampleStructV :: rvalue where
  "exampleStructV = ListV [BoolV True, UintV 300, BigV (Some 70000), BytesV [1, 2], BytesV [7, 8, 9], ListV [UintV 0, UintV 5], PtrV None, PtrV (Some (BytesV [65]))]"

lemma exampleStruct_bytes:
  "enc exampleStructT exampleStructV = [0xD4, 0x01, 0x82, 0x01, 0x2C, 0x83, 0x01, 0x11, 0x70, 0x82, 0x01, 0x02, 0x83, 7, 8, 9, 0xC2, 0x80, 0x05, 0x80, 0x41]"
  by (simp add: exampleStructT_def exampleStructV_def val_defs uint_bytes_def str_bytes_def list_bytes_def puthead_def putint_def byteAt_def
      big_bytes.simps encodesNilAsZero_def)


end
