(* ===== verification/Rlp_Returns.thy ===== *)
theory Rlp_Returns
  imports Rlp_Reading
begin

text \<open>
  Decoding returns: every decoder either fails or consumes input, except that of a byte array of length one.
\<close>

section \<open>Decoding returns\<close>

text \<open>The type of a value; a decoder keeps it.\<close>

fun shaped :: "rtype \<Rightarrow> rvalue \<Rightarrow> bool"
  and shaped_fields :: "rtype list \<Rightarrow> rvalue list \<Rightarrow> bool" where
  "shaped (UintT b) v \<longleftrightarrow> val_Uint v \<noteq> None"
| "shaped BoolT v \<longleftrightarrow> val_Bool v \<noteq> None"
| "shaped BigIntT v \<longleftrightarrow> val_BigInt v \<noteq> None"
| "shaped StringT v \<longleftrightarrow> val_Bytes v \<noteq> None"
| "shaped BytesT v \<longleftrightarrow> val_Bytes v \<noteq> None"
| "shaped (ByteArrayT n) v \<longleftrightarrow> val_Bytes v \<noteq> None"
| "shaped RawT v \<longleftrightarrow> val_Bytes v \<noteq> None"
| "shaped (SliceT t) v \<longleftrightarrow> (case v of ListV vs \<Rightarrow> \<forall>x \<in> set vs. shaped t x | _ \<Rightarrow> False)"
| "shaped (ArrayT n t) v \<longleftrightarrow> (case v of ListV vs \<Rightarrow> \<forall>x \<in> set vs. shaped t x | _ \<Rightarrow> False)"
| "shaped (StructT ts) v \<longleftrightarrow> (case v of ListV vs \<Rightarrow> shaped_fields ts vs | _ \<Rightarrow> False)"
| "shaped (PtrT t) v \<longleftrightarrow> (case v of PtrV (Some x) \<Rightarrow> shaped t x | PtrV None \<Rightarrow> True | _ \<Rightarrow> False)"
| "shaped (NilPtrT t) v \<longleftrightarrow> (case v of PtrV (Some x) \<Rightarrow> shaped t x | PtrV None \<Rightarrow> True | _ \<Rightarrow> False)"
| "shaped_fields [] vs \<longleftrightarrow> vs = []"
| "shaped_fields (t # ts) vs \<longleftrightarrow> (case vs of [] \<Rightarrow> False | v # vs \<Rightarrow> shaped t v \<and> shaped_fields ts vs)"

lemma shaped_zero: "shaped t (zeroValue t)"
proof (induction t)
  case (StructT ts)
  have "set us \<subseteq> set ts \<Longrightarrow> shaped_fields us (map zeroValue us)" for us
    by (induction us) (use StructT in auto)
  then show ?case by simp
qed (auto simp: val_defs)

text \<open>What is left to read: the bytes, and a header that has been read already.\<close>

definition pending :: "Stream \<Rightarrow> nat" where
  "pending s = length (s_r s) + (if s_kind s = None then 0 else 1)"

definition progress :: "rlp_error option \<Rightarrow> Stream \<Rightarrow> Stream \<Rightarrow> bool" where
  "progress e s s' \<longleftrightarrow> length (s_r s') \<le> length (s_r s) \<and> (e = None \<longrightarrow> s_kind s' = None \<and> pending s' < pending s)"

lemma willRead_pending: "willRead n s = (e, s') \<Longrightarrow> s_r s' = s_r s \<and> s_kind s' = None"
  by (auto simp: willRead_def Let_def split: if_splits list.splits)

lemma readByte_pending: "readByte s = (e, b, s') \<Longrightarrow> s_kind s' = None \<and> length (s_r s') \<le> length (s_r s) \<and> (e = None \<longrightarrow> length (s_r s') < length (s_r s))"
  by (auto simp: readByte_def Let_def split: prod.splits if_splits list.splits dest!: willRead_pending)

lemma readFull_pending: "readFull n s = (e, b, s') \<Longrightarrow> s_kind s' = None \<and> length (s_r s') \<le> length (s_r s)"
  by (auto simp: readFull_def Let_def split: prod.splits if_splits dest!: willRead_pending)

lemma readUint_pending: "readUint n s = (e, b, s') \<Longrightarrow> s_kind s' = None \<and> length (s_r s') \<le> length (s_r s)"
  by (auto simp: readUint_def Let_def split: prod.splits if_splits dest!: readByte_pending readFull_pending)

lemma readKind_pending:
  assumes "Stream_readKind s = (k, n, e, s')"
  shows "length (s_r s') \<le> length (s_r s) \<and> (e = None \<longrightarrow> length (s_r s') < length (s_r s))"
proof -
  obtain e1 b s1 where 1: "readByte s = (e1, b, s1)" by (cases "readByte s")
  note p = readByte_pending [OF 1]
  show ?thesis
  proof (cases e1)
    case None
    then show ?thesis using assms 1 p
      by (auto simp: Stream_readKind_def Let_def split: if_splits prod.splits dest!: readUint_pending)
  next
    case (Some x)
    then show ?thesis using assms 1 p by (auto simp: Stream_readKind_def split: if_splits)
  qed
qed

lemma Kind_pending:
  assumes "Stream_Kind s = (k, n, e, s1)"
  shows "length (s_r s1) \<le> length (s_r s) \<and> (e = None \<longrightarrow> s_kind s1 = Some k \<and> pending s1 \<le> pending s)"
proof (cases "s_kind s")
  case None
  obtain k' n' e' s' where r: "Stream_readKind (s\<lparr>s_kinderr := None\<rparr>) = (k', n', e', s')"
    by (cases "Stream_readKind (s\<lparr>s_kinderr := None\<rparr>)")
  have "e = Some EOL \<and> s_r s1 = s_r s \<or> (e = None \<longrightarrow> e' = None) \<and> s_r s1 = s_r s' \<and> s_kind s1 = Some k' \<and> k = k'"
    using assms None r by (auto simp: Stream_Kind_def Let_def split: if_splits)
  then show ?thesis using readKind_pending [OF r] None by (auto simp: pending_def)
qed (use assms in \<open>auto simp: Stream_Kind_def\<close>)

lemma Bytes_pending:
  assumes "Stream_Bytes s = (e, b, s')"
  shows "progress e s s'"
proof -
  obtain k n e1 s1 where 1: "Stream_Kind s = (k, n, e1, s1)" by (cases "Stream_Kind s")
  then show ?thesis using assms Kind_pending [OF 1]
    by (cases e1) (auto simp: Stream_Bytes_def progress_def pending_def split: Kind.splits if_splits prod.splits dest!: readFull_pending)
qed

lemma Raw_pending:
  assumes "Stream_Raw s = (e, b, s')"
  shows "progress e s s'"
proof -
  obtain k n e1 s1 where 1: "Stream_Kind s = (k, n, e1, s1)" by (cases "Stream_Kind s")
  then show ?thesis using assms Kind_pending [OF 1]
    by (cases e1) (auto simp: Stream_Raw_def progress_def pending_def Let_def split: if_splits prod.splits dest!: readFull_pending)
qed

lemma uint_pending:
  assumes "Stream_uint bits s = (e, b, s')"
  shows "progress e s s'"
proof -
  obtain k n e1 s1 where 1: "Stream_Kind s = (k, n, e1, s1)" by (cases "Stream_Kind s")
  then show ?thesis using assms Kind_pending [OF 1]
    by (cases e1) (auto simp: Stream_uint_def progress_def pending_def Let_def split: Kind.splits if_splits prod.splits dest!: readUint_pending)
qed

lemma Bool_pending: "Stream_Bool s = (e, b, s') \<Longrightarrow> progress e s s'"
  by (auto simp: Stream_Bool_def Let_def progress_def split: prod.splits if_splits dest!: uint_pending)

lemma List_pending:
  assumes "Stream_List s = (e, b, s')"
  shows "progress e s s'"
proof -
  obtain k n e1 s1 where 1: "Stream_Kind s = (k, n, e1, s1)" by (cases "Stream_Kind s")
  then show ?thesis using assms Kind_pending [OF 1]
    by (cases e1) (auto simp: Stream_List_def progress_def pending_def split: if_splits)
qed

lemma ListEnd_pending: "Stream_ListEnd s = (e, s') \<Longrightarrow> (e = None \<longrightarrow> s_kind s' = None) \<and> s_r s' = s_r s"
  by (auto simp: Stream_ListEnd_def split: list.splits if_splits)

lemma progress_trans:
  "progress None s s1 \<Longrightarrow> length (s_r s') \<le> length (s_r s1) \<Longrightarrow> (e = None \<Longrightarrow> s_kind s' = None) \<Longrightarrow> progress e s s'"
  by (auto simp: progress_def pending_def)

text \<open>Types without byte arrays of length one.\<close>

fun rearming :: "rtype \<Rightarrow> bool" where
  "rearming (ByteArrayT n) \<longleftrightarrow> n \<noteq> 1"
| "rearming (SliceT t) \<longleftrightarrow> rearming t"
| "rearming (ArrayT n t) \<longleftrightarrow> rearming t"
| "rearming (StructT ts) \<longleftrightarrow> (\<forall>t \<in> set ts. rearming t)"
| "rearming (PtrT t) \<longleftrightarrow> rearming t"
| "rearming (NilPtrT t) \<longleftrightarrow> rearming t"
| "rearming _ \<longleftrightarrow> True"

definition returns :: "rtype \<Rightarrow> bool" where
  "returns t \<longleftrightarrow> (\<forall>u s. shaped t u \<longrightarrow> (\<exists>e v s'. decoder t u s = Some (e, v, s') \<and> shaped t v \<and> progress e s s'))"

lemma returnsD:
  assumes "returns t" "shaped t u"
  obtains e v s' where "decoder t u s = Some (e, v, s')" "shaped t v" "progress e s s'"
  using assms unfolding returns_def by blast

lemma progress_error [simp]: "progress (Some e) s s' \<longleftrightarrow> length (s_r s') \<le> length (s_r s)"
  by (simp add: progress_def)

lemma progress_length: "progress e s s' \<Longrightarrow> length (s_r s') \<le> length (s_r s)"
  by (simp add: progress_def)

lemma wrap_None [simp]: "wrapStreamError e = None \<longleftrightarrow> e = None"
  by (simp add: wrapStreamError_def)

lemma progress_wrap [simp]: "progress (wrapStreamError e) s s' \<longleftrightarrow> progress e s s'"
  by (simp add: progress_def)

lemma returns_simple: "returns (UintT b)" "returns BoolT" "returns BigIntT" "returns StringT" "returns BytesT" "returns RawT"
  unfolding returns_def
  by (auto simp: decodeUint_def decodeBool_def decodeBigInt_def decodeString_def decodeByteSlice_def decodeRawValue_def val_defs
      split: prod.splits dest: uint_pending Bool_pending Bytes_pending Raw_pending Bytes_pending [THEN progress_length])

lemma returns_array:
  assumes "n \<noteq> 1"
  shows "returns (ByteArrayT n)"
  unfolding returns_def
proof (intro allI impI)
  fix u s assume "shaped (ByteArrayT n) u"
  then obtain b where u: "u = BytesV b" by (auto simp: val_defs split: rvalue.splits)
  obtain k m e1 s1 where 1: "Stream_Kind s = (k, m, e1, s1)" by (cases "Stream_Kind s")
  obtain e2 b2 s2 where 2: "readFull n s1 = (e2, b2, s2)" by (cases "readFull n s1")
  show "\<exists>e v s'. decoder (ByteArrayT n) u s = Some (e, v, s') \<and> shaped (ByteArrayT n) v \<and> progress e s s'"
    using 1 2 readFull_pending [OF 2] Kind_pending [OF 1] u assms
    by (cases e1; cases k) (auto simp: decodeByteArray_def val_defs progress_def pending_def wrapStreamError_def)
qed

lemma slice_returns:
  assumes "returns t"
  shows "(\<forall>x \<in> set us. shaped t x) \<Longrightarrow> s_kind s = None \<Longrightarrow> i \<le> length us \<Longrightarrow>
    \<exists>e vs s'. decodeSliceElems (decoder t) (zeroValue t) i us s = Some (e, vs, s') \<and> (\<forall>x \<in> set vs. shaped t x) \<and> length (s_r s') \<le> length (s_r s)"
proof (induction "length (s_r s)" arbitrary: us s i rule: less_induct)
  case less
  define us0 where "us0 = (if i < length us then us else us @ [zeroValue t])"
  have sh: "\<forall>x \<in> set us0. shaped t x" using less.prems(1) shaped_zero by (auto simp: us0_def)
  have i: "i < length us0" using less.prems(3) by (auto simp: us0_def)
  have "shaped t (us0 ! i)" using sh i by simp
  with assms obtain e v s1 where 1: "decoder t (us0 ! i) s = Some (e, v, s1)" "shaped t v" "progress e s s1" by (rule returnsD)
  define vs where "vs = us0[i := v]"
  have sh': "\<forall>x \<in> set vs. shaped t x" "Suc i \<le> length vs"
    using sh 1(2) i set_update_subset_insert [of us0 i v] by (auto simp: vs_def)
  have step: "decodeSliceElems (decoder t) (zeroValue t) i us s =
      (if e = Some EOL then Some (None, take i vs, s1) else if e \<noteq> None then Some (e, vs, s1)
       else decodeSliceElems (decoder t) (zeroValue t) (Suc i) vs s1)"
    by (subst decodeSliceElems.simps) (simp only: Let_def us0_def [symmetric] 1(1) bind.bind_lunit prod.case vs_def)
  show ?case
  proof (cases e)
    case None
    then have k: "s_kind s1 = None" "length (s_r s1) < length (s_r s)" using 1(3) less.prems(2) by (auto simp: progress_def pending_def)
    obtain e2 ws s2 where "decodeSliceElems (decoder t) (zeroValue t) (Suc i) vs s1 = Some (e2, ws, s2)" "\<forall>x \<in> set ws. shaped t x"
      "length (s_r s2) \<le> length (s_r s1)" using less.hyps [OF k(2) sh'(1) k(1) sh'(2)] by blast
    then show ?thesis using k(2) by (simp add: step None)
  next
    case (Some x)
    have "\<forall>x \<in> set (take i vs). shaped t x" using sh'(1) set_take_subset [of i vs] by blast
    then show ?thesis using sh'(1) 1(3) by (cases "x = EOL") (simp_all add: step Some)
  qed
qed

lemma array_returns:
  assumes "returns t"
  shows "(\<forall>x \<in> set us. shaped t x) \<Longrightarrow>
    \<exists>e vs s'. decodeArrayElems (decoder t) us s = Some (e, vs, s') \<and> (\<forall>x \<in> set vs. shaped t x) \<and> length (s_r s') \<le> length (s_r s)"
proof (induction us arbitrary: s)
  case (Cons u us)
  obtain e v s1 where 1: "decoder t u s = Some (e, v, s1)" "shaped t v" "progress e s s1" using returnsD [OF assms, of u s] Cons.prems by auto
  obtain e2 vs s2 where 2: "decodeArrayElems (decoder t) us s1 = Some (e2, vs, s2)" "\<forall>x \<in> set vs. shaped t x" "length (s_r s2) \<le> length (s_r s1)"
    using Cons.IH [of s1] Cons.prems by auto
  have "length (s_r s1) \<le> length (s_r s)" using 1(3) by (simp add: progress_def)
  then show ?case using 1 2 Cons.prems by (cases e) auto
qed simp

lemma fields_return:
  "(\<forall>t \<in> set ts. returns t) \<Longrightarrow> shaped_fields ts us \<Longrightarrow>
    \<exists>e vs s'. decodeFields ts us s = Some (e, vs, s') \<and> shaped_fields ts vs \<and> length (s_r s') \<le> length (s_r s)"
proof (induction ts arbitrary: us s)
  case (Cons t ts)
  obtain u ws where us: "us = u # ws" "shaped t u" "shaped_fields ts ws" using Cons.prems(2) by (cases us) auto
  obtain e v s1 where 1: "decoder t u s = Some (e, v, s1)" "shaped t v" "progress e s s1"
    using returnsD [of t u s] Cons.prems(1) us(2) by auto
  obtain e2 vs s2 where 2: "decodeFields ts ws s1 = Some (e2, vs, s2)" "shaped_fields ts vs" "length (s_r s2) \<le> length (s_r s1)"
    using Cons.IH [of ws s1] Cons.prems(1) us(3) by auto
  have "length (s_r s1) \<le> length (s_r s)" using 1(3) by (simp add: progress_def)
  then show ?case using 1 2 us by (cases e) auto
qed simp

text \<open>A list is entered, its content decoded by \<open>f\<close>, and left.\<close>

lemma list_returns:
  assumes "\<And>s1. s_kind s1 = None \<Longrightarrow> \<exists>e x s'. f s1 = Some (e, x, s') \<and> P x \<and> length (s_r s') \<le> length (s_r s1)" "Q u" "\<And>x. P x \<Longrightarrow> Q (g x)"
  shows "\<exists>e v s'. (let (e, n, s) = Stream_List s in
     if e \<noteq> None then Some (wrapStreamError e, u, s)
     else do { (e, x, s) \<leftarrow> f s; if e \<noteq> None then Some (e, g x, s) else (let (e, s) = Stream_ListEnd s in Some (h e, g x, s)) }) = Some (e, v, s') \<and>
     Q v \<and> ((\<forall>e. h e = None \<longrightarrow> e = None) \<longrightarrow> progress e s s')"
proof -
  obtain e n s1 where 1: "Stream_List s = (e, n, s1)" by (cases "Stream_List s")
  note p = List_pending [OF 1]
  show ?thesis
  proof (cases e)
    case None
    then have k: "s_kind s1 = None" using p by (simp add: progress_def)
    from assms(1) [OF this] obtain e2 x s2 where 2: "f s1 = Some (e2, x, s2)" "P x" "length (s_r s2) \<le> length (s_r s1)" by blast
    obtain e3 s3 where 3: "Stream_ListEnd s2 = (e3, s3)" by (cases "Stream_ListEnd s2")
    note l = ListEnd_pending [OF 3]
    have q: "progress e4 s s4" if "s_r s4 = s_r s2" "e4 = None \<Longrightarrow> s_kind s4 = None" for e4 s4
      using progress_trans [of s s1 s4 e4] p None 2(3) that by simp
    show ?thesis using 1 2 3 None assms(3) [OF 2(2)] q [of s2 e2] q [of s3 "h e3"] l by (cases e2) auto
  next
    case (Some x)
    then show ?thesis using 1 p assms(2) by simp
  qed
qed

lemma slice_type_returns:
  assumes "returns t"
  shows "returns (SliceT t)"
  unfolding returns_def
proof (intro allI impI)
  fix u s assume u: "shaped (SliceT t) u"
  then obtain vs where vs: "u = ListV vs" "\<forall>x \<in> set vs. shaped t x" by (auto split: rvalue.splits)
  obtain e n s1 where 1: "Stream_List s = (e, n, s1)" by (cases "Stream_List s")
  note p = List_pending [OF 1]
  show "\<exists>e v s'. decoder (SliceT t) u s = Some (e, v, s') \<and> shaped (SliceT t) v \<and> progress e s s'"
  proof (cases "e = None \<and> n = 0")
    case True
    obtain e3 s3 where 3: "Stream_ListEnd s1 = (e3, s3)" by (cases "Stream_ListEnd s1")
    have "progress e3 s s3" by (rule progress_trans [of s s1]) (use True p ListEnd_pending [OF 3] in auto)
    then show ?thesis using 1 3 True by (simp add: decodeListSlice_def)
  next
    case False
    have l: "\<exists>e v s'. (let (e, n, s) = Stream_List s in
       if e \<noteq> None then Some (wrapStreamError e, u, s)
       else do { (e, x, s) \<leftarrow> decodeSliceElems (decoder t) (zeroValue t) 0 vs s; if e \<noteq> None then Some (e, ListV x, s)
         else (let (e, s) = Stream_ListEnd s in Some (e, ListV x, s)) }) = Some (e, v, s') \<and>
       shaped (SliceT t) v \<and> ((\<forall>e. e = None \<longrightarrow> e = (None :: rlp_error option)) \<longrightarrow> progress e s s')"
      by (rule list_returns [where P = "\<lambda>vs. \<forall>x \<in> set vs. shaped t x" and h = "\<lambda>e. e"])
        (use slice_returns [OF assms vs(2), of _ 0] u in auto)
    then show ?thesis using 1 False vs(1) by (cases e) (simp_all add: decodeListSlice_def val_defs)
  qed
qed

lemma array_type_returns:
  assumes "returns t"
  shows "returns (ArrayT n t)"
  unfolding returns_def
proof (intro allI impI)
  fix u s assume u: "shaped (ArrayT n t) u"
  then obtain vs where vs: "u = ListV vs" "\<forall>x \<in> set vs. shaped t x" by (auto split: rvalue.splits)
  have "\<exists>e v s'. (let (e, n, s) = Stream_List s in
       if e \<noteq> None then Some (wrapStreamError e, u, s)
       else do { (e, x, s) \<leftarrow> decodeArrayElems (decoder t) vs s; if e \<noteq> None then Some (e, ListV x, s)
         else (let (e, s) = Stream_ListEnd s in Some (wrapStreamError e, ListV x, s)) }) = Some (e, v, s') \<and>
       shaped (ArrayT n t) v \<and> ((\<forall>e. wrapStreamError e = None \<longrightarrow> e = (None :: rlp_error option)) \<longrightarrow> progress e s s')"
    by (rule list_returns [where P = "\<lambda>vs. \<forall>x \<in> set vs. shaped t x" and h = wrapStreamError])
      (use array_returns [OF assms vs(2)] u in auto)
  then show "\<exists>e v s'. decoder (ArrayT n t) u s = Some (e, v, s') \<and> shaped (ArrayT n t) v \<and> progress e s s'"
    using vs(1) by (cases "Stream_List s", cases "fst (Stream_List s)") (simp_all add: decodeListArray_def val_defs)
qed

lemma struct_type_returns:
  assumes "\<forall>t \<in> set ts. returns t"
  shows "returns (StructT ts)"
  unfolding returns_def
proof (intro allI impI)
  fix u s assume u: "shaped (StructT ts) u"
  then obtain vs where vs: "u = ListV vs" "shaped_fields ts vs" by (auto split: rvalue.splits)
  have "\<exists>e v s'. (let (e, n, s) = Stream_List s in
       if e \<noteq> None then Some (wrapStreamError e, u, s)
       else do { (e, x, s) \<leftarrow> decodeFields ts vs s; if e \<noteq> None then Some (e, ListV x, s)
         else (let (e, s) = Stream_ListEnd s in Some (wrapStreamError e, ListV x, s)) }) = Some (e, v, s') \<and>
       shaped (StructT ts) v \<and> ((\<forall>e. wrapStreamError e = None \<longrightarrow> e = (None :: rlp_error option)) \<longrightarrow> progress e s s')"
    by (rule list_returns [where P = "shaped_fields ts" and h = wrapStreamError])
      (use fields_return [OF assms vs(2)] u in auto)
  then show "\<exists>e v s'. decoder (StructT ts) u s = Some (e, v, s') \<and> shaped (StructT ts) v \<and> progress e s s'"
    using vs(1) by (cases "Stream_List s", cases "fst (Stream_List s)") (simp_all add: val_defs)
qed

lemma ptr_decoder:
  assumes "returns t" "case v of PtrV (Some x) \<Rightarrow> shaped t x | PtrV None \<Rightarrow> True | _ \<Rightarrow> False"
  shows "\<exists>e w s'. (do { p \<leftarrow> val_Ptr v;
      (e, v', s) \<leftarrow> decoder t (case p of None \<Rightarrow> zeroValue t | Some v \<Rightarrow> v) s;
      Some (e, if e = None \<or> p \<noteq> None then PtrV (Some v') else v, s) }) = Some (e, w, s') \<and>
    (case w of PtrV (Some x) \<Rightarrow> shaped t x | PtrV None \<Rightarrow> True | _ \<Rightarrow> False) \<and> progress e s s'"
proof -
  obtain p where p: "v = PtrV p" "shaped t (case p of None \<Rightarrow> zeroValue t | Some v \<Rightarrow> v)"
    using assms(2) shaped_zero by (auto split: rvalue.splits option.splits)
  obtain e w s1 where "decoder t (case p of None \<Rightarrow> zeroValue t | Some v \<Rightarrow> v) s = Some (e, w, s1)" "shaped t w" "progress e s s1"
    using returnsD [OF assms(1) p(2)] .
  then show ?thesis using p(1) by (auto simp: val_defs)
qed

lemma ptr_type_returns: "returns t \<Longrightarrow> returns (PtrT t)"
  unfolding returns_def [of "PtrT t"] using ptr_decoder by simp

lemma nilptr_type_returns:
  assumes "returns t"
  shows "returns (NilPtrT t)"
  unfolding returns_def
proof (intro allI impI)
  fix u s assume u: "shaped (NilPtrT t) u"
  obtain k n e s1 where 1: "Stream_Kind s = (k, n, e, s1)" by (cases "Stream_Kind s")
  note p = Kind_pending [OF 1]
  obtain e2 w s2 where 2: "(do { p \<leftarrow> val_Ptr u;
      (e, v', s) \<leftarrow> decoder t (case p of None \<Rightarrow> zeroValue t | Some v \<Rightarrow> v) s1;
      Some (e, if e = None \<or> p \<noteq> None then PtrV (Some v') else u, s) }) = Some (e2, w, s2)" "shaped (NilPtrT t) w" "progress e2 s1 s2"
    using ptr_decoder [OF assms, of u s1] u by auto
  show "\<exists>e v s'. decoder (NilPtrT t) u s = Some (e, v, s') \<and> shaped (NilPtrT t) v \<and> progress e s s'"
  proof (cases "e \<noteq> None \<or> n = 0 \<and> k \<noteq> KByte")
    case True
    then have "decoder (NilPtrT t) u s = Some (e, PtrV None, s1\<lparr>s_kind := None\<rparr>)" using 1 by simp
    moreover have "progress e s (s1\<lparr>s_kind := None\<rparr>)" using p by (cases e) (auto simp: progress_def pending_def split: if_splits)
    ultimately show ?thesis by simp
  next
    case False
    then have "decoder (NilPtrT t) u s = Some (e2, w, s2)" using 1 2(1) by (simp del: not_None_eq) auto
    moreover have "progress e2 s s2" using p False 2(3) by (auto simp: progress_def)
    ultimately show ?thesis using 2(2) by simp
  qed
qed

lemma returns_all: "rearming t \<Longrightarrow> returns t"
  by (induction t) (auto intro: returns_simple returns_array slice_type_returns array_type_returns struct_type_returns ptr_type_returns nilptr_type_returns)

text \<open>C38. Decoding returns on every input, well-formed or not, for all types without a byte array of length
  one: whatever the bytes are, there is a result, an error or a value of the type.\<close>

theorem rlp_decode_returns:
  assumes "rearming t"
  shows "\<exists>e v. rlp_DecodeBytes t b (zeroValue t) = Some (e, v) \<and> shaped t v"
proof -
  obtain e v s where "decoder t (zeroValue t) (NewStream b) = Some (e, v, s)" "shaped t v"
    using returnsD [OF returns_all [OF assms] shaped_zero] .
  then show ?thesis by (simp add: rlp_DecodeBytes_def)
qed

theorem rlp_decode_returns_witness:
  "\<exists>e v. rlp_DecodeBytes (SliceT (StructT [UintT 64, SliceT BytesT])) [0xF8, 0xC0, 0xC2] (ListV []) = Some (e, v) \<and>
     shaped (SliceT (StructT [UintT 64, SliceT BytesT])) v"
  using rlp_decode_returns [of "SliceT (StructT [UintT 64, SliceT BytesT])" "[0xF8, 0xC0, 0xC2]"] by simp

text \<open>A decoder that succeeds without moving the stream is called for ever.\<close>

lemma decodeSliceElems_stuck:
  assumes "\<And>v. elemdec v s = Some (None, w, s)"
  shows "decodeSliceElems elemdec zero i vs s = None"
proof (rule ccontr)
  assume "decodeSliceElems elemdec zero i vs s \<noteq> None"
  then obtain r where r: "decodeSliceElems elemdec zero i vs s = Some r" by blast
  have "elemdec = elemdec \<longrightarrow> s = s \<longrightarrow> False"
    by (rule decodeSliceElems.raw_induct [where P = "\<lambda>d z i vs t r. d = elemdec \<longrightarrow> t = s \<longrightarrow> False", OF _ r]) (auto simp: assms Let_def simp del: not_None_eq, blast)
  then show False by simp
qed

text \<open>C39. A byte zero where an array of one byte is expected leaves the header of that byte on the stream: the
  error of reading it as an integer is dropped. Decoding a list of such arrays therefore never returns.\<close>

theorem rlp_decode_stuck: "rlp_DecodeBytes (SliceT (ByteArrayT 1)) [0xC1, 0x00] (zeroValue (SliceT (ByteArrayT 1))) = None"
proof -
  define s where "s = \<lparr>s_r = [], s_remaining = 0, s_limited = True, s_kind = Some KByte, s_size = 0, s_byteval = 0, s_kinderr = None, s_stack = [\<lparr>lp_pos = 1, lp_size = 1\<rparr>]\<rparr>"
  have stuck: "decodeByteArray 1 v s = Some (None, BytesV [0], s)" for v
    by (simp add: decodeByteArray_def Stream_Kind_def Stream_uint_def s_def)
  define s0 where "s0 = s\<lparr>s_r := [0], s_remaining := 1, s_kind := None, s_stack := [\<lparr>lp_pos = 0, lp_size = 1\<rparr>]\<rparr>"
  have first: "decodeByteArray 1 v s0 = Some (None, BytesV [0], s)" for v
    by (simp add: decodeByteArray_def Stream_Kind_def Stream_readKind_def readByte_def willRead_def Stream_uint_def s_def s0_def)
  have "decodeSliceElems (decodeByteArray 1) (BytesV [0]) 0 [] s0 = None"
    by (subst decodeSliceElems.simps) (simp add: first decodeSliceElems_stuck [where elemdec = "decodeByteArray 1", OF stuck] del: One_nat_def)
  moreover have "Stream_List (NewStream [0xC1, 0x00]) = (None, 1, s0)"
    by (simp add: NewStream_def Stream_List_def Stream_Kind_def Stream_readKind_def readByte_def willRead_def s_def s0_def)
  moreover have "decoder (ByteArrayT (Suc 0)) = decodeByteArray (Suc 0)" by (intro ext) simp
  ultimately show ?thesis by (simp add: rlp_DecodeBytes_def decodeListSlice_def val_defs)
qed

end
