(* ===== verification/Rlp_Records.thy ===== *)
theory Rlp_Records
  imports Rlp_Returns Fsn_Call
begin

text \<open>
  The RLP form of the records the state database keeps (\<open>core/state/statedb.go\<close>), of the ticket pool and of
  the parameters of the special calls (\<open>common/types.go\<close>): the type that reflection shows of each struct, and
  the values of its fields. They give the encodings that the state database and the calls are parameters in,
  and the law these rely on: what is encoded is read back.
\<close>

section \<open>Fields\<close>

abbreviation hashT :: rtype where "hashT \<equiv> ByteArrayT 32"
abbreviation addressT :: rtype where "addressT \<equiv> ByteArrayT 20"

definition string_bytes :: "string \<Rightarrow> bytes" where
  "string_bytes s = map (\<lambda>c. of_nat (of_char c)) s"

definition bytes_string :: "bytes \<Rightarrow> string" where
  "bytes_string b = map (\<lambda>x. char_of (unat x)) b"

definition hashV :: "Hash \<Rightarrow> rvalue" where "hashV h = BytesV (hash_bytes h)"
definition addressV :: "Address \<Rightarrow> rvalue" where "addressV a = BytesV (address_bytes a)"
definition stringV :: "string \<Rightarrow> rvalue" where "stringV s = BytesV (string_bytes s)"
definition byteV :: "uint8 \<Rightarrow> rvalue" where "byteV n = UintV (ucast n)"
definition bigV :: "int \<Rightarrow> rvalue" where "bigV n = BigV (Some n)"

definition bytesOf :: "rvalue \<Rightarrow> bytes" where "bytesOf v = (case v of BytesV b \<Rightarrow> b | _ \<Rightarrow> [])"
definition hashOf :: "rvalue \<Rightarrow> Hash" where "hashOf v = BytesToHash (bytesOf v)"
definition addressOf :: "rvalue \<Rightarrow> Address" where "addressOf v = of_nat (from_be (bytesOf v))"
definition stringOf :: "rvalue \<Rightarrow> string" where "stringOf v = bytes_string (bytesOf v)"
definition uintOf :: "rvalue \<Rightarrow> uint64" where "uintOf v = (case v of UintV n \<Rightarrow> n | _ \<Rightarrow> 0)"
definition byteOf :: "rvalue \<Rightarrow> uint8" where "byteOf v = ucast (uintOf v)"
definition boolOf :: "rvalue \<Rightarrow> bool" where "boolOf v = (case v of BoolV b \<Rightarrow> b | _ \<Rightarrow> False)"
definition bigPtrOf :: "rvalue \<Rightarrow> int option" where "bigPtrOf v = (case v of BigV p \<Rightarrow> p | _ \<Rightarrow> None)"
definition listOf :: "rvalue \<Rightarrow> rvalue list" where "listOf v = (case v of ListV vs \<Rightarrow> vs | _ \<Rightarrow> [])"

text \<open>A nil amount that a failed decoding leaves counts as zero where the record holds a number.\<close>

definition bigOf :: "rvalue \<Rightarrow> int" where "bigOf v = (case bigPtrOf v of Some n \<Rightarrow> n | None \<Rightarrow> 0)"

named_theorems rlp_fields

lemma string_bytes_bytes [rlp_fields]: "bytes_string (string_bytes s) = s"
proof -
  have "char_of (unat (of_nat (of_char c) :: uint8)) = c" for c :: char
    by (simp add: unat_of_nat del: of_nat_of_char)
  then show ?thesis by (simp add: bytes_string_def string_bytes_def comp_def)
qed

lemma address_bytes_length [simp]: "length (address_bytes a) = 20"
  by (simp add: address_bytes_def)

lemma address_of_bytes [rlp_fields]: "of_nat (from_be (address_bytes a)) = (a :: Address)"
proof -
  have "unat a < 256 ^ 20" using unsigned_less [of a] by simp
  then show ?thesis by (simp add: address_bytes_def from_to_be)
qed

lemma field_of [rlp_fields]:
  "hashOf (hashV h) = h" "addressOf (addressV a) = a" "stringOf (stringV s) = s" "uintOf (UintV n) = n"
  "byteOf (byteV b) = b" "boolOf (BoolV c) = c" "bigPtrOf (BigV p) = p" "bigOf (bigV i) = i" "listOf (ListV vs) = vs"
  "bytesOf (BytesV x) = x"
  by (simp_all add: hashOf_def hashV_def addressOf_def addressV_def stringOf_def stringV_def uintOf_def byteOf_def byteV_def
      boolOf_def bigPtrOf_def bigOf_def bigV_def listOf_def bytesOf_def rlp_fields ucast_down_ucast_id is_down)

lemma list_of [rlp_fields]:
  "hashOf \<circ> hashV = id" "addressOf \<circ> addressV = id" "uintOf \<circ> UintV = id" "bigOf \<circ> bigV = id" "bigPtrOf \<circ> BigV = id"
  by (simp_all add: fun_eq_iff rlp_fields)

section \<open>Encodings\<close>

text \<open>
  A value of a type, up to the sign of its numbers: writing one succeeds only if it can be read back.
\<close>

fun sized :: "rtype \<Rightarrow> rvalue \<Rightarrow> bool"
  and sized_fields :: "rtype list \<Rightarrow> rvalue list \<Rightarrow> bool" where
  "sized (UintT b) v \<longleftrightarrow> b \<in> {8, 16, 32, 64} \<and> (case v of UintV i \<Rightarrow> unat i < 2 ^ b | _ \<Rightarrow> False)"
| "sized BoolT v \<longleftrightarrow> (case v of BoolV b \<Rightarrow> True | _ \<Rightarrow> False)"
| "sized BigIntT v \<longleftrightarrow> (case v of BigV (Some i) \<Rightarrow> True | _ \<Rightarrow> False)"
| "sized StringT v \<longleftrightarrow> (case v of BytesV b \<Rightarrow> True | _ \<Rightarrow> False)"
| "sized BytesT v \<longleftrightarrow> (case v of BytesV b \<Rightarrow> True | _ \<Rightarrow> False)"
| "sized (ByteArrayT n) v \<longleftrightarrow> (case v of BytesV b \<Rightarrow> length b = n \<and> n \<noteq> 1 | _ \<Rightarrow> False)"
| "sized (SliceT t) v \<longleftrightarrow> (case v of ListV vs \<Rightarrow> \<forall>x \<in> set vs. sized t x | _ \<Rightarrow> False)"
| "sized (StructT ts) v \<longleftrightarrow> (case v of ListV vs \<Rightarrow> sized_fields ts vs | _ \<Rightarrow> False)"
| "sized _ v \<longleftrightarrow> False"
| "sized_fields [] vs \<longleftrightarrow> vs = []"
| "sized_fields (t # ts) vs \<longleftrightarrow> (case vs of [] \<Rightarrow> False | v # vs \<Rightarrow> sized t v \<and> sized_fields ts vs)"

lemma sized_good:
  "sized t v \<Longrightarrow> writer t v w = Some (None, w') \<Longrightarrow> good t v"
  "(\<forall>x \<in> set vs. sized t x) \<Longrightarrow> writeElems t vs w = Some (None, w') \<Longrightarrow> \<forall>x \<in> set vs. good t x"
  "sized_fields ts vs \<Longrightarrow> writeFields ts vs w = Some (None, w') \<Longrightarrow> good_fields ts vs"
proof (induction t v w and t vs w and ts vs w arbitrary: w' and w' and w' rule: writer_writeElems_writeFields.induct)
qed (auto simp: val_defs writeBigIntPtr_def writeBigInt_def bind_eq_Some_conv split: rvalue.splits option.splits if_splits prod.splits list.splits)

lemma decoded_shaped:
  assumes "rearming t"
  obtains e v where "rlp_DecodeBytes t b (zeroValue t) = Some (e, v)" "shaped t v"
proof -
  obtain e v s where "decoder t (zeroValue t) (NewStream b) = Some (e, v, s)" "shaped t v"
    using returnsD [OF returns_all [OF assms] shaped_zero] .
  then show ?thesis using that by (simp add: rlp_DecodeBytes_def)
qed

text \<open>\<open>rlp.EncodeToBytes\<close> and \<open>rlp.DecodeBytes\<close> into a zero value, on a type with its conversions to and from values.\<close>

definition toBytes :: "rtype \<Rightarrow> ('r \<Rightarrow> rvalue) \<Rightarrow> 'r \<Rightarrow> bytes option" where
  "toBytes t val r = (case rlp_EncodeToBytes t (val r) of Some (Inr d) \<Rightarrow> Some d | _ \<Rightarrow> None)"

definition fromBytes :: "rtype \<Rightarrow> (rvalue \<Rightarrow> 'r) \<Rightarrow> bytes \<Rightarrow> bool \<times> 'r" where
  "fromBytes t unval d = (case rlp_DecodeBytes t d (zeroValue t) of
      Some (e, v) \<Rightarrow> (e = None, unval v)
    | None \<Rightarrow> (False, unval (zeroValue t)))"

definition rlpOf :: "rtype \<Rightarrow> ('r \<Rightarrow> rvalue) \<Rightarrow> (rvalue \<Rightarrow> 'r) \<Rightarrow> 'r RLP" where
  "rlpOf t val unval = \<lparr>EncodeToBytes = toBytes t val, DecodeBytes = fromBytes t unval\<rparr>"

text \<open>
  A struct: its type, the conversions, and the values without nil amounts, which are the ones read back. Types
  without byte arrays of length one are always decoded.
\<close>

locale rlp_struct =
  fixes t :: rtype and val :: "'r \<Rightarrow> rvalue" and unval :: "rvalue \<Rightarrow> 'r" and whole :: "'r \<Rightarrow> bool"
  assumes unval_val: "unval (val r) = r"
    and sized_val: "whole r \<Longrightarrow> sized t (val r)"
    and rearming_t: "rearming t"
begin

lemma encoded_good:
  assumes "whole r" "toBytes t val r = Some d"
  shows "good t (val r) \<and> d = enc t (val r) \<and> length d < 2 ^ 63"
proof -
  have e: "rlp_EncodeToBytes t (val r) = Some (Inr d)" using assms(2) by (auto simp: toBytes_def split: option.splits sum.splits)
  then obtain w where w: "writer t (val r) encbuf_reset = Some (None, w)" "encbuf_toBytes w = Some d"
    by (auto simp: rlp_EncodeToBytes_def bind_eq_Some_conv split: option.splits)
  show ?thesis using sized_good(1) [OF sized_val [OF assms(1)] w(1)] encoded_bytes [OF e] by blast
qed

lemma read_back:
  assumes "whole r" "toBytes t val r = Some d"
  shows "d \<noteq> []" "fromBytes t unval d = (True, r)"
proof -
  note g = encoded_good [OF assms]
  show "d \<noteq> []" using g enc_pos [of t "val r"] by simp
  have "rlp_DecodeBytes t d (zeroValue t) = Some (None, val r)" using g decode_good [of t "val r"] by blast
  then show "fromBytes t unval d = (True, r)" by (simp add: fromBytes_def unval_val)
qed

lemma codec: "(\<And>r. whole r) \<Longrightarrow> codec_ok (rlpOf t val unval)"
  using read_back by (auto simp: codec_ok_def rlpOf_def)

lemma decodes: "\<exists>e v. rlp_DecodeBytes t d (zeroValue t) = Some (e, v) \<and> fromBytes t unval d = (e = None, unval v)"
  by (rule decoded_shaped [OF rearming_t, of d]) (auto simp: fromBytes_def)

end

section \<open>The records of the state\<close>

definition notationRecT :: rtype where
  "notationRecT = StructT [BoolT, UintT 64, addressT]"

definition notationRecV :: "notationPersist \<Rightarrow> rvalue" where
  "notationRecV r = ListV [BoolV (NP_Deleted r), UintV (NP_Count r), addressV (NP_Address r)]"

definition notationRecOf :: "rvalue \<Rightarrow> notationPersist" where
  "notationRecOf v = \<lparr>NP_Deleted = boolOf (listOf v ! 0), NP_Count = uintOf (listOf v ! 1), NP_Address = addressOf (listOf v ! 2)\<rparr>"

definition assetT :: rtype where
  "assetT = StructT [hashT, addressT, StringT,
     StringT, UintT 8, BigIntT,
     BoolT, StringT]"

definition assetV :: "Asset \<Rightarrow> rvalue" where
  "assetV r = ListV [hashV (A_ID r), addressV (A_Owner r), stringV (A_Name r),
     stringV (A_Symbol r), byteV (A_Decimals r), bigV (A_Total r),
     BoolV (A_CanChange r), stringV (A_Description r)]"

definition assetOf :: "rvalue \<Rightarrow> Asset" where
  "assetOf v = \<lparr>A_ID = hashOf (listOf v ! 0), A_Owner = addressOf (listOf v ! 1), A_Name = stringOf (listOf v ! 2),
     A_Symbol = stringOf (listOf v ! 3), A_Decimals = byteOf (listOf v ! 4), A_Total = bigOf (listOf v ! 5),
     A_CanChange = boolOf (listOf v ! 6), A_Description = stringOf (listOf v ! 7)\<rparr>"

definition swapT :: rtype where
  "swapT = StructT [hashT, addressT, hashT,
     UintT 64, UintT 64, BigIntT,
     hashT, UintT 64, UintT 64,
     BigIntT, BigIntT, SliceT addressT,
     BigIntT, StringT, UintT 64]"

definition swapV :: "Swap \<Rightarrow> rvalue" where
  "swapV r = ListV [hashV (S_ID r), addressV (S_Owner r), hashV (S_FromAssetID r),
     UintV (S_FromStartTime r), UintV (S_FromEndTime r), bigV (S_MinFromAmount r),
     hashV (S_ToAssetID r), UintV (S_ToStartTime r), UintV (S_ToEndTime r),
     bigV (S_MinToAmount r), bigV (S_SwapSize r), ListV (map addressV (S_Targes r)),
     bigV (S_Time r), stringV (S_Description r), UintV (S_Notation r)]"

definition swapOf :: "rvalue \<Rightarrow> Swap" where
  "swapOf v = \<lparr>S_ID = hashOf (listOf v ! 0), S_Owner = addressOf (listOf v ! 1), S_FromAssetID = hashOf (listOf v ! 2),
     S_FromStartTime = uintOf (listOf v ! 3), S_FromEndTime = uintOf (listOf v ! 4), S_MinFromAmount = bigOf (listOf v ! 5),
     S_ToAssetID = hashOf (listOf v ! 6), S_ToStartTime = uintOf (listOf v ! 7), S_ToEndTime = uintOf (listOf v ! 8),
     S_MinToAmount = bigOf (listOf v ! 9), S_SwapSize = bigOf (listOf v ! 10), S_Targes = map addressOf (listOf (listOf v ! 11)),
     S_Time = bigOf (listOf v ! 12), S_Description = stringOf (listOf v ! 13), S_Notation = uintOf (listOf v ! 14)\<rparr>"

definition multiSwapT :: rtype where
  "multiSwapT = StructT [hashT, addressT, SliceT hashT,
     SliceT (UintT 64), SliceT (UintT 64), SliceT BigIntT,
     SliceT hashT, SliceT (UintT 64), SliceT (UintT 64),
     SliceT BigIntT, BigIntT, SliceT addressT,
     BigIntT, StringT, UintT 64]"

definition multiSwapV :: "MultiSwap \<Rightarrow> rvalue" where
  "multiSwapV r = ListV [hashV (M_ID r), addressV (M_Owner r), ListV (map hashV (M_FromAssetID r)),
     ListV (map UintV (M_FromStartTime r)), ListV (map UintV (M_FromEndTime r)), ListV (map bigV (M_MinFromAmount r)),
     ListV (map hashV (M_ToAssetID r)), ListV (map UintV (M_ToStartTime r)), ListV (map UintV (M_ToEndTime r)),
     ListV (map bigV (M_MinToAmount r)), bigV (M_SwapSize r), ListV (map addressV (M_Targes r)),
     bigV (M_Time r), stringV (M_Description r), UintV (M_Notation r)]"

definition multiSwapOf :: "rvalue \<Rightarrow> MultiSwap" where
  "multiSwapOf v = \<lparr>M_ID = hashOf (listOf v ! 0), M_Owner = addressOf (listOf v ! 1), M_FromAssetID = map hashOf (listOf (listOf v ! 2)),
     M_FromStartTime = map uintOf (listOf (listOf v ! 3)), M_FromEndTime = map uintOf (listOf (listOf v ! 4)), M_MinFromAmount = map bigOf (listOf (listOf v ! 5)),
     M_ToAssetID = map hashOf (listOf (listOf v ! 6)), M_ToStartTime = map uintOf (listOf (listOf v ! 7)), M_ToEndTime = map uintOf (listOf (listOf v ! 8)),
     M_MinToAmount = map bigOf (listOf (listOf v ! 9)), M_SwapSize = bigOf (listOf v ! 10), M_Targes = map addressOf (listOf (listOf v ! 11)),
     M_Time = bigOf (listOf v ! 12), M_Description = stringOf (listOf v ! 13), M_Notation = uintOf (listOf v ! 14)\<rparr>"

text \<open>A record is kept with the mark that says it was deleted.\<close>

definition persistT :: "rtype \<Rightarrow> rtype" where
  "persistT t = StructT [BoolT, t]"

definition persistV :: "('r \<Rightarrow> rvalue) \<Rightarrow> 'r persist \<Rightarrow> rvalue" where
  "persistV val p = ListV [BoolV (P_Deleted p), val (P_Value p)]"

definition persistOf :: "(rvalue \<Rightarrow> 'r) \<Rightarrow> rvalue \<Rightarrow> 'r persist" where
  "persistOf unval v = \<lparr>P_Deleted = boolOf (listOf v ! 0), P_Value = unval (listOf v ! 1)\<rparr>"

section \<open>The ticket pool\<close>

definition ticketBodyT :: rtype where
  "ticketBodyT = StructT [hashT, UintT 64, UintT 64,
     UintT 64]"

definition ticketBodyV :: "TicketBody \<Rightarrow> rvalue" where
  "ticketBodyV r = ListV [hashV (ID r), UintV (TB_Height r), UintV (TB_StartTime r),
     UintV (ExpireTime r)]"

definition ticketBodyOf :: "rvalue \<Rightarrow> TicketBody" where
  "ticketBodyOf v = \<lparr>ID = hashOf (listOf v ! 0), TB_Height = uintOf (listOf v ! 1), TB_StartTime = uintOf (listOf v ! 2),
     ExpireTime = uintOf (listOf v ! 3)\<rparr>"

definition ticketsDataT :: rtype where
  "ticketsDataT = StructT [addressT, SliceT ticketBodyT]"

definition ticketsDataV :: "TicketsData \<Rightarrow> rvalue" where
  "ticketsDataV r = ListV [addressV (D_Owner r), ListV (map ticketBodyV (Tickets r))]"

definition ticketsDataOf :: "rvalue \<Rightarrow> TicketsData" where
  "ticketsDataOf v = \<lparr>D_Owner = addressOf (listOf v ! 0), Tickets = map ticketBodyOf (listOf (listOf v ! 1))\<rparr>"

definition ticketPoolT :: rtype where
  "ticketPoolT = SliceT ticketsDataT"

definition ticketPoolV :: "TicketsData list \<Rightarrow> rvalue" where
  "ticketPoolV ts = ListV (map ticketsDataV ts)"

definition ticketPoolOf :: "rvalue \<Rightarrow> TicketsData list" where
  "ticketPoolOf v = map ticketsDataOf (listOf v)"

section \<open>The parameters of the special calls\<close>

definition fsnCallT :: rtype where
  "fsnCallT = StructT [UintT 8, BytesT]"

definition fsnCallV :: "FSNCallParam \<Rightarrow> rvalue" where
  "fsnCallV r = ListV [byteV (Func r), BytesV (Data r)]"

definition fsnCallOf :: "rvalue \<Rightarrow> FSNCallParam" where
  "fsnCallOf v = \<lparr>Func = byteOf (listOf v ! 0), Data = bytesOf (listOf v ! 1)\<rparr>"

definition genAssetT :: rtype where
  "genAssetT = StructT [StringT, StringT, UintT 8,
     BigIntT, BoolT, StringT]"

definition genAssetV :: "GenAssetParam \<Rightarrow> rvalue" where
  "genAssetV r = ListV [stringV (GA_Name r), stringV (GA_Symbol r), byteV (GA_Decimals r),
     BigV (GA_Total r), BoolV (GA_CanChange r), stringV (GA_Description r)]"

definition genAssetOf :: "rvalue \<Rightarrow> GenAssetParam" where
  "genAssetOf v = \<lparr>GA_Name = stringOf (listOf v ! 0), GA_Symbol = stringOf (listOf v ! 1), GA_Decimals = byteOf (listOf v ! 2),
     GA_Total = bigPtrOf (listOf v ! 3), GA_CanChange = boolOf (listOf v ! 4), GA_Description = stringOf (listOf v ! 5)\<rparr>"

definition buyTicketT :: rtype where
  "buyTicketT = StructT [UintT 64, UintT 64]"

definition buyTicketV :: "BuyTicketParam \<Rightarrow> rvalue" where
  "buyTicketV r = ListV [UintV (BT_Start r), UintV (BT_End r)]"

definition buyTicketOf :: "rvalue \<Rightarrow> BuyTicketParam" where
  "buyTicketOf v = \<lparr>BT_Start = uintOf (listOf v ! 0), BT_End = uintOf (listOf v ! 1)\<rparr>"

definition sendAssetT :: rtype where
  "sendAssetT = StructT [hashT, addressT, BigIntT]"

definition sendAssetV :: "SendAssetParam \<Rightarrow> rvalue" where
  "sendAssetV r = ListV [hashV (SA_AssetID r), addressV (SA_To r), BigV (SA_Value r)]"

definition sendAssetOf :: "rvalue \<Rightarrow> SendAssetParam" where
  "sendAssetOf v = \<lparr>SA_AssetID = hashOf (listOf v ! 0), SA_To = addressOf (listOf v ! 1), SA_Value = bigPtrOf (listOf v ! 2)\<rparr>"

definition assetValueChangeT :: rtype where
  "assetValueChangeT = StructT [hashT, addressT, BigIntT,
     BoolT, StringT]"

definition assetValueChangeV :: "AssetValueChangeExParam \<Rightarrow> rvalue" where
  "assetValueChangeV r = ListV [hashV (AV_AssetID r), addressV (AV_To r), BigV (AV_Value r),
     BoolV (AV_IsInc r), stringV (AV_TransacData r)]"

definition assetValueChangeOf :: "rvalue \<Rightarrow> AssetValueChangeExParam" where
  "assetValueChangeOf v = \<lparr>AV_AssetID = hashOf (listOf v ! 0), AV_To = addressOf (listOf v ! 1), AV_Value = bigPtrOf (listOf v ! 2),
     AV_IsInc = boolOf (listOf v ! 3), AV_TransacData = stringOf (listOf v ! 4)\<rparr>"

definition timeLockT :: rtype where
  "timeLockT = StructT [UintT 64, hashT, addressT,
     UintT 64, UintT 64, BigIntT]"

definition timeLockV :: "TimeLockParam \<Rightarrow> rvalue" where
  "timeLockV r = ListV [UintV (TL_Type r), hashV (TL_AssetID r), addressV (TL_To r),
     UintV (TL_StartTime r), UintV (TL_EndTime r), BigV (TL_Value r)]"

definition timeLockOf :: "rvalue \<Rightarrow> TimeLockParam" where
  "timeLockOf v = \<lparr>TL_Type = uintOf (listOf v ! 0), TL_AssetID = hashOf (listOf v ! 1), TL_To = addressOf (listOf v ! 2),
     TL_StartTime = uintOf (listOf v ! 3), TL_EndTime = uintOf (listOf v ! 4), TL_Value = bigPtrOf (listOf v ! 5)\<rparr>"

definition makeSwapT :: rtype where
  "makeSwapT = StructT [hashT, UintT 64, UintT 64,
     BigIntT, hashT, UintT 64,
     UintT 64, BigIntT, BigIntT,
     SliceT addressT, BigIntT, StringT]"

definition makeSwapV :: "MakeSwapParam \<Rightarrow> rvalue" where
  "makeSwapV r = ListV [hashV (MS_FromAssetID r), UintV (MS_FromStartTime r), UintV (MS_FromEndTime r),
     BigV (MS_MinFromAmount r), hashV (MS_ToAssetID r), UintV (MS_ToStartTime r),
     UintV (MS_ToEndTime r), BigV (MS_MinToAmount r), BigV (MS_SwapSize r),
     ListV (map addressV (MS_Targes r)), bigV (MS_Time r), stringV (MS_Description r)]"

definition makeSwapOf :: "rvalue \<Rightarrow> MakeSwapParam" where
  "makeSwapOf v = \<lparr>MS_FromAssetID = hashOf (listOf v ! 0), MS_FromStartTime = uintOf (listOf v ! 1), MS_FromEndTime = uintOf (listOf v ! 2),
     MS_MinFromAmount = bigPtrOf (listOf v ! 3), MS_ToAssetID = hashOf (listOf v ! 4), MS_ToStartTime = uintOf (listOf v ! 5),
     MS_ToEndTime = uintOf (listOf v ! 6), MS_MinToAmount = bigPtrOf (listOf v ! 7), MS_SwapSize = bigPtrOf (listOf v ! 8),
     MS_Targes = map addressOf (listOf (listOf v ! 9)), MS_Time = bigOf (listOf v ! 10), MS_Description = stringOf (listOf v ! 11)\<rparr>"

definition makeMultiSwapT :: rtype where
  "makeMultiSwapT = StructT [SliceT hashT, SliceT (UintT 64), SliceT (UintT 64),
     SliceT BigIntT, SliceT hashT, SliceT (UintT 64),
     SliceT (UintT 64), SliceT BigIntT, BigIntT,
     SliceT addressT, BigIntT, StringT]"

definition makeMultiSwapV :: "MakeMultiSwapParam \<Rightarrow> rvalue" where
  "makeMultiSwapV r = ListV [ListV (map hashV (MM_FromAssetID r)), ListV (map UintV (MM_FromStartTime r)), ListV (map UintV (MM_FromEndTime r)),
     ListV (map BigV (MM_MinFromAmount r)), ListV (map hashV (MM_ToAssetID r)), ListV (map UintV (MM_ToStartTime r)),
     ListV (map UintV (MM_ToEndTime r)), ListV (map BigV (MM_MinToAmount r)), BigV (MM_SwapSize r),
     ListV (map addressV (MM_Targes r)), bigV (MM_Time r), stringV (MM_Description r)]"

definition makeMultiSwapOf :: "rvalue \<Rightarrow> MakeMultiSwapParam" where
  "makeMultiSwapOf v = \<lparr>MM_FromAssetID = map hashOf (listOf (listOf v ! 0)), MM_FromStartTime = map uintOf (listOf (listOf v ! 1)), MM_FromEndTime = map uintOf (listOf (listOf v ! 2)),
     MM_MinFromAmount = map bigPtrOf (listOf (listOf v ! 3)), MM_ToAssetID = map hashOf (listOf (listOf v ! 4)), MM_ToStartTime = map uintOf (listOf (listOf v ! 5)),
     MM_ToEndTime = map uintOf (listOf (listOf v ! 6)), MM_MinToAmount = map bigPtrOf (listOf (listOf v ! 7)), MM_SwapSize = bigPtrOf (listOf v ! 8),
     MM_Targes = map addressOf (listOf (listOf v ! 9)), MM_Time = bigOf (listOf v ! 10), MM_Description = stringOf (listOf v ! 11)\<rparr>"

definition recallSwapT :: rtype where
  "recallSwapT = StructT [hashT]"

definition recallSwapV :: "RecallSwapParam \<Rightarrow> rvalue" where
  "recallSwapV r = ListV [hashV (RS_SwapID r)]"

definition recallSwapOf :: "rvalue \<Rightarrow> RecallSwapParam" where
  "recallSwapOf v = \<lparr>RS_SwapID = hashOf (listOf v ! 0)\<rparr>"

definition takeSwapT :: rtype where
  "takeSwapT = StructT [hashT, BigIntT]"

definition takeSwapV :: "TakeSwapParam \<Rightarrow> rvalue" where
  "takeSwapV r = ListV [hashV (TS_SwapID r), BigV (TS_Size r)]"

definition takeSwapOf :: "rvalue \<Rightarrow> TakeSwapParam" where
  "takeSwapOf v = \<lparr>TS_SwapID = hashOf (listOf v ! 0), TS_Size = bigPtrOf (listOf v ! 1)\<rparr>"

section \<open>What is encoded is read back\<close>

lemmas rlp_defs =
  notationRecT_def notationRecV_def notationRecOf_def assetT_def assetV_def assetOf_def swapT_def swapV_def swapOf_def
  multiSwapT_def multiSwapV_def multiSwapOf_def persistT_def persistV_def persistOf_def
  ticketBodyT_def ticketBodyV_def ticketBodyOf_def ticketsDataT_def ticketsDataV_def ticketsDataOf_def ticketPoolT_def ticketPoolV_def ticketPoolOf_def
  fsnCallT_def fsnCallV_def fsnCallOf_def genAssetT_def genAssetV_def genAssetOf_def buyTicketT_def buyTicketV_def buyTicketOf_def
  sendAssetT_def sendAssetV_def sendAssetOf_def assetValueChangeT_def assetValueChangeV_def assetValueChangeOf_def
  timeLockT_def timeLockV_def timeLockOf_def makeSwapT_def makeSwapV_def makeSwapOf_def
  makeMultiSwapT_def makeMultiSwapV_def makeMultiSwapOf_def recallSwapT_def recallSwapV_def recallSwapOf_def takeSwapT_def takeSwapV_def takeSwapOf_def

lemma sized_field [rlp_fields]:
  "sized hashT (hashV h)" "sized addressT (addressV a)" "sized StringT (stringV s)" "sized (UintT 64) (UintV n)"
  "sized (UintT 8) (byteV b)" "sized BigIntT (bigV i)" "sized BigIntT (BigV p) \<longleftrightarrow> p \<noteq> None" "sized BoolT (BoolV c)" "sized BytesT (BytesV x)"
  "sized (SliceT t) (ListV vs) \<longleftrightarrow> (\<forall>v \<in> set vs. sized t v)" "sized (StructT ts) (ListV vs) \<longleftrightarrow> sized_fields ts vs"
  using unsigned_less [of n] byte_bound [of b]
  by (simp_all add: hashV_def addressV_def stringV_def byteV_def bigV_def split: option.splits)

declare sized.simps [simp del]

text \<open>The amounts of a parameter are not nil.\<close>

definition fullMakeSwap :: "MakeSwapParam \<Rightarrow> bool" where
  "fullMakeSwap p \<longleftrightarrow> MS_MinFromAmount p \<noteq> None \<and> MS_MinToAmount p \<noteq> None \<and> MS_SwapSize p \<noteq> None"

definition fullMakeMultiSwap :: "MakeMultiSwapParam \<Rightarrow> bool" where
  "fullMakeMultiSwap p \<longleftrightarrow> (\<forall>a \<in> set (MM_MinFromAmount p). a \<noteq> None) \<and> (\<forall>a \<in> set (MM_MinToAmount p). a \<noteq> None) \<and> MM_SwapSize p \<noteq> None"

interpretation notationR: rlp_struct notationRecT notationRecV notationRecOf "\<lambda>_. True"
  by unfold_locales (simp_all add: rlp_defs rlp_fields)

interpretation assetR: rlp_struct assetT assetV assetOf "\<lambda>_. True"
  by unfold_locales (simp_all add: rlp_defs rlp_fields)

interpretation swapR: rlp_struct swapT swapV swapOf "\<lambda>_. True"
  by unfold_locales (simp_all add: rlp_defs rlp_fields)

interpretation multiSwapR: rlp_struct multiSwapT multiSwapV multiSwapOf "\<lambda>_. True"
  by unfold_locales (simp_all add: rlp_defs rlp_fields)

lemma persist_struct:
  assumes "rlp_struct t val unval (\<lambda>_. True)"
  shows "rlp_struct (persistT t) (persistV val) (persistOf unval) (\<lambda>_. True)"
  using assms by (simp add: rlp_struct_def persistT_def persistV_def persistOf_def rlp_fields)

interpretation assetP: rlp_struct "persistT assetT" "persistV assetV" "persistOf assetOf" "\<lambda>_. True"
  by (rule persist_struct) unfold_locales

interpretation swapP: rlp_struct "persistT swapT" "persistV swapV" "persistOf swapOf" "\<lambda>_. True"
  by (rule persist_struct) unfold_locales

interpretation multiSwapP: rlp_struct "persistT multiSwapT" "persistV multiSwapV" "persistOf multiSwapOf" "\<lambda>_. True"
  by (rule persist_struct) unfold_locales

interpretation ticketBodyR: rlp_struct ticketBodyT ticketBodyV ticketBodyOf "\<lambda>_. True"
  by unfold_locales (simp_all add: rlp_defs rlp_fields)

interpretation ticketsDataR: rlp_struct ticketsDataT ticketsDataV ticketsDataOf "\<lambda>_. True"
  using ticketBodyR.sized_val ticketBodyR.rearming_t
  by unfold_locales (simp_all add: ticketsDataT_def ticketsDataV_def ticketsDataOf_def rlp_fields comp_def ticketBodyR.unval_val)

interpretation poolR: rlp_struct ticketPoolT ticketPoolV ticketPoolOf "\<lambda>_. True"
  using ticketsDataR.sized_val ticketsDataR.rearming_t
  by unfold_locales (simp_all add: ticketPoolT_def ticketPoolV_def ticketPoolOf_def rlp_fields comp_def ticketsDataR.unval_val)

interpretation fsnCallR: rlp_struct fsnCallT fsnCallV fsnCallOf "\<lambda>_. True"
  by unfold_locales (simp_all add: rlp_defs rlp_fields)

interpretation genAssetR: rlp_struct genAssetT genAssetV genAssetOf "\<lambda>p. GA_Total p \<noteq> None"
  by unfold_locales (simp_all add: rlp_defs rlp_fields)

interpretation buyTicketR: rlp_struct buyTicketT buyTicketV buyTicketOf "\<lambda>_. True"
  by unfold_locales (simp_all add: rlp_defs rlp_fields)

interpretation sendAssetR: rlp_struct sendAssetT sendAssetV sendAssetOf "\<lambda>p. SA_Value p \<noteq> None"
  by unfold_locales (simp_all add: rlp_defs rlp_fields)

interpretation assetValueChangeR: rlp_struct assetValueChangeT assetValueChangeV assetValueChangeOf "\<lambda>p. AV_Value p \<noteq> None"
  by unfold_locales (simp_all add: rlp_defs rlp_fields)

interpretation timeLockR: rlp_struct timeLockT timeLockV timeLockOf "\<lambda>p. TL_Value p \<noteq> None"
  by unfold_locales (simp_all add: rlp_defs rlp_fields)

interpretation makeSwapR: rlp_struct makeSwapT makeSwapV makeSwapOf fullMakeSwap
  by unfold_locales (simp_all add: rlp_defs rlp_fields fullMakeSwap_def)

interpretation makeMultiSwapR: rlp_struct makeMultiSwapT makeMultiSwapV makeMultiSwapOf fullMakeMultiSwap
  by unfold_locales (simp_all add: rlp_defs rlp_fields fullMakeMultiSwap_def)

interpretation recallSwapR: rlp_struct recallSwapT recallSwapV recallSwapOf "\<lambda>_. True"
  by unfold_locales (simp_all add: rlp_defs rlp_fields)

interpretation takeSwapR: rlp_struct takeSwapT takeSwapV takeSwapOf "\<lambda>p. TS_Size p \<noteq> None"
  by unfold_locales (simp_all add: rlp_defs rlp_fields)

section \<open>The encodings of the state and the calls\<close>

text \<open>The pool is stored compressed: \<open>gzip\<close> and \<open>gunzip\<close> are \<open>compress/gzip\<close>.\<close>

definition calcTicketsStorageData :: "(bytes \<Rightarrow> bytes) \<Rightarrow> TicketsData list \<Rightarrow> bytes option" where
  "calcTicketsStorageData gzip ts = (case toBytes ticketPoolT ticketPoolV ts of None \<Rightarrow> None | Some blob \<Rightarrow> Some (gzip blob))"

definition loadTickets :: "(bytes \<Rightarrow> bytes option) \<Rightarrow> bytes \<Rightarrow> TicketsData list option" where
  "loadTickets gunzip blob = (case gunzip blob of
      None \<Rightarrow> None
    | Some d \<Rightarrow> (case fromBytes ticketPoolT ticketPoolOf d of (ok, ts) \<Rightarrow> if ok then Some ts else None))"

definition rlpCodecs :: "(bytes \<Rightarrow> bytes) \<Rightarrow> (bytes \<Rightarrow> bytes option) \<Rightarrow> Codecs" where
  "rlpCodecs gzip gunzip = \<lparr>notationRLP = rlpOf notationRecT notationRecV notationRecOf,
     assetRLP = rlpOf (persistT assetT) (persistV assetV) (persistOf assetOf),
     swapRLP = rlpOf (persistT swapT) (persistV swapV) (persistOf swapOf),
     multiSwapRLP = rlpOf (persistT multiSwapT) (persistV multiSwapV) (persistOf multiSwapOf),
     ticketsEncode = calcTicketsStorageData gzip, ticketsDecode = loadTickets gunzip\<rparr>"

definition rlpParams :: Params where
  "rlpParams = \<lparr>decFSNCall = (\<lambda>d. snd (fromBytes fsnCallT fsnCallOf d)), decGenAsset = (\<lambda>d. snd (fromBytes genAssetT genAssetOf d)),
     decSendAsset = (\<lambda>d. snd (fromBytes sendAssetT sendAssetOf d)), decTimeLock = (\<lambda>d. snd (fromBytes timeLockT timeLockOf d)),
     decBuyTicket = (\<lambda>d. snd (fromBytes buyTicketT buyTicketOf d)), decAssetValueChange = (\<lambda>d. snd (fromBytes assetValueChangeT assetValueChangeOf d)),
     decMakeSwap = (\<lambda>d. snd (fromBytes makeSwapT makeSwapOf d)), decMakeMultiSwap = (\<lambda>d. snd (fromBytes makeMultiSwapT makeMultiSwapOf d)),
     decRecallSwap = (\<lambda>d. snd (fromBytes recallSwapT recallSwapOf d)), decTakeSwap = (\<lambda>d. snd (fromBytes takeSwapT takeSwapOf d))\<rparr>"

text \<open>C40. With the RLP encoding, the records of notations, assets, swaps and multi-swaps are read back as they were
  written, and so is the ticket pool if decompression undoes compression: what the properties of the state
  database assume of their encodings holds of the code's own.\<close>

theorem state_codecs_read_back:
  assumes "\<And>b. gunzip (gzip b) = Some b" "\<And>b. gzip b \<noteq> []"
  shows "codec_ok (notationRLP (rlpCodecs gzip gunzip)) \<and> codec_ok (assetRLP (rlpCodecs gzip gunzip)) \<and>
    codec_ok (swapRLP (rlpCodecs gzip gunzip)) \<and> codec_ok (multiSwapRLP (rlpCodecs gzip gunzip)) \<and>
    (\<forall>ts d. ticketsEncode (rlpCodecs gzip gunzip) ts = Some d \<longrightarrow> d \<noteq> [] \<and> ticketsDecode (rlpCodecs gzip gunzip) d = Some ts)"
proof -
  have "d \<noteq> [] \<and> loadTickets gunzip d = Some ts" if "calcTicketsStorageData gzip ts = Some d" for ts d
  proof -
    obtain b where b: "toBytes ticketPoolT ticketPoolV ts = Some b" "d = gzip b"
      using \<open>calcTicketsStorageData gzip ts = Some d\<close> by (auto simp: calcTicketsStorageData_def split: option.splits)
    then show ?thesis using assms poolR.read_back(2) [OF _ b(1)] by (simp add: loadTickets_def)
  qed
  then show ?thesis by (simp add: rlpCodecs_def notationR.codec assetP.codec swapP.codec multiSwapP.codec)
qed

lemma toBytes_enc:
  assumes "good t (val r)" "length (enc t (val r)) < 2 ^ 63"
  shows "toBytes t val r = Some (enc t (val r))"
  using encode_good [OF assms] by (simp add: toBytes_def)

text \<open>A compression that marks its output.\<close>

definition exampleZip :: "bytes \<Rightarrow> bytes" where "exampleZip b = 0x1f # b"

definition exampleUnzip :: "bytes \<Rightarrow> bytes option" where
  "exampleUnzip b = (case b of [] \<Rightarrow> None | x # xs \<Rightarrow> if x = 0x1f then Some xs else None)"

theorem state_codecs_read_back_witness:
  "codec_ok (assetRLP (rlpCodecs exampleZip exampleUnzip)) \<and> ticketsEncode (rlpCodecs exampleZip exampleUnzip) [] = Some [0x1f, 0xc0] \<and>
    ticketsDecode (rlpCodecs exampleZip exampleUnzip) [0x1f, 0xc0] = Some []"
proof -
  have "toBytes ticketPoolT ticketPoolV [] = Some [0xc0]"
    using toBytes_enc [of ticketPoolT ticketPoolV "[]"]
    by (simp add: ticketPoolT_def ticketPoolV_def val_defs list_bytes_def puthead_def)
  then have "ticketsEncode (rlpCodecs exampleZip exampleUnzip) [] = Some [0x1f, 0xc0]"
    by (simp add: rlpCodecs_def calcTicketsStorageData_def exampleZip_def)
  then show ?thesis
    using state_codecs_read_back [of exampleUnzip exampleZip] by (simp add: exampleZip_def exampleUnzip_def)
qed

end
