(* ===== verification/Evm_Base.thy ===== *)
theory Evm_Base
  imports Rlp_Codec Account_State Fsn_Types
begin

unbundle bit_operations_syntax

text \<open>
  The tools of the virtual machine (\<open>core/vm\<close>): 256-bit arithmetic on big integers (\<open>common/math\<close>), the stack,
  the memory, gas arithmetic, the analysis of jump destinations and the rules of the chain. Stack and memory
  panic, that is return \<open>None\<close>, where Go does.
\<close>

section \<open>Errors\<close>

datatype vm_error =
    ErrOutOfGas | ErrCodeStoreOutOfGas | ErrDepth | ErrInsufficientBalance | ErrContractAddressCollision
  | errWriteProtection | errReturnDataOutOfBounds | errExecutionReverted | errMaxCodeSizeExceeded | errGasUintOverflow
  | InvalidOpcode uint8 | StackUnderflow nat nat | StackLimitReached nat | InvalidJump uint8 int
  | errBadPairingInput | BadCurvePoint

section \<open>Big integers\<close>

definition tt255 :: int where "tt255 = 2 ^ 255"
definition tt256 :: int where "tt256 = 2 ^ 256"
definition tt256m1 :: int where "tt256m1 = tt256 - 1"

definition U256 :: "int \<Rightarrow> int" where
  "U256 x = x AND tt256m1"

definition S256 :: "int \<Rightarrow> int" where
  "S256 x = (if x < tt255 then x else x - tt256)"

definition BigMax :: "int \<Rightarrow> int \<Rightarrow> int" where
  "BigMax x y = (if x < y then y else x)"

definition BigMin :: "int \<Rightarrow> int \<Rightarrow> int" where
  "BigMin x y = (if x > y then y else x)"

text \<open>\<open>big.Int.BitLen\<close> and \<open>big.Int.Bits\<close>: the words of the absolute value, the least significant first.\<close>

fun bitLen :: "nat \<Rightarrow> nat" where
  "bitLen n = (if n = 0 then 0 else Suc (bitLen (n div 2)))"

declare bitLen.simps [simp del]

definition BitLen :: "int \<Rightarrow> nat" where
  "BitLen x = bitLen (nat \<bar>x\<bar>)"

fun natBits :: "nat \<Rightarrow> uint64 list" where
  "natBits n = (if n = 0 then [] else of_nat n # natBits (n div 2 ^ 64))"

declare natBits.simps [simp del]

definition Bits :: "int \<Rightarrow> uint64 list" where
  "Bits x = natBits (nat \<bar>x\<bar>)"

text \<open>\<open>Exp\<close>: the rounds for the bits of one word, then for all words.\<close>

fun Exp_word :: "nat \<Rightarrow> uint64 \<Rightarrow> int \<times> int \<Rightarrow> int \<times> int" where
  "Exp_word 0 word rb = rb"
| "Exp_word (Suc i) word (result, base) = Exp_word i (drop_bit 1 word)
     (if word AND 1 = 1 then U256 (result * base) else result, U256 (base * base))"

definition Exp :: "int \<Rightarrow> int \<Rightarrow> int" where
  "Exp base exponent = fst (fold (Exp_word 64) (Bits exponent) (1, base))"

definition bigEndianByteAt :: "int \<Rightarrow> nat \<Rightarrow> uint8" where
  "bigEndianByteAt bigint n = (let words = Bits bigint; i = n div 8 in
     if i \<ge> length words then 0 else ucast (drop_bit (8 * (n mod 8)) (words ! i)))"

definition Byte :: "int \<Rightarrow> nat \<Rightarrow> nat \<Rightarrow> uint8" where
  "Byte bigint padlength n = (if n \<ge> padlength then 0 else bigEndianByteAt bigint (padlength - 1 - n))"

text \<open>\<open>ReadBits\<close> fills the buffer from its end; \<open>i\<close> is the position behind the next byte.\<close>

fun ReadBits_word :: "nat \<Rightarrow> uint64 \<Rightarrow> nat \<times> bytes \<Rightarrow> nat \<times> bytes" where
  "ReadBits_word 0 d ib = ib"
| "ReadBits_word (Suc j) d (i, buf) =
    (if i = 0 then (i, buf) else ReadBits_word j (drop_bit 8 d) (i - 1, buf[i - 1 := ucast d]))"

definition ReadBits :: "int \<Rightarrow> bytes \<Rightarrow> bytes" where
  "ReadBits bigint buf = snd (fold (ReadBits_word 8) (Bits bigint) (length buf, buf))"

text \<open>Conversions: \<open>Uint64\<close> and \<open>Int64\<close> take the low bits, \<open>SetBytes\<close> reads big-endian bytes.\<close>

definition Uint64 :: "int \<Rightarrow> uint64" where
  "Uint64 x = of_int x"

definition Int64 :: "int \<Rightarrow> int" where
  "Int64 x = sint (Uint64 x)"

definition SetBytes :: "bytes \<Rightarrow> int" where
  "SetBytes b = int (from_be b)"

definition BigToAddress :: "int \<Rightarrow> Address" where
  "BigToAddress x = of_nat (nat \<bar>x\<bar>)"

definition BigToHash :: "int \<Rightarrow> Hash" where
  "BigToHash x = of_nat (nat \<bar>x\<bar>)"

definition AddressBig :: "Address \<Rightarrow> int" where
  "AddressBig a = uint a"

definition HashBig :: "Hash \<Rightarrow> int" where
  "HashBig h = uint h"

section \<open>Integers and byte slices\<close>

definition SafeAdd :: "uint64 \<Rightarrow> uint64 \<Rightarrow> uint64 \<times> bool" where
  "SafeAdd x y = (x + y, y > - 1 - x)"

definition SafeMul :: "uint64 \<Rightarrow> uint64 \<Rightarrow> uint64 \<times> bool" where
  "SafeMul x y = (if x = 0 \<or> y = 0 then (0, False) else (x * y, y > (- 1) div x))"

definition RightPadBytes :: "bytes \<Rightarrow> int \<Rightarrow> bytes" where
  "RightPadBytes b l = (if l \<le> int (length b) then b else b @ replicate (nat l - length b) 0)"

definition LeftPadBytes :: "bytes \<Rightarrow> int \<Rightarrow> bytes" where
  "LeftPadBytes b l = (if l \<le> int (length b) then b else replicate (nat l - length b) 0 @ b)"

definition calcMemSize :: "int \<Rightarrow> int \<Rightarrow> int" where
  "calcMemSize off l = (if l = 0 then 0 else off + l)"

text \<open>\<open>getData\<close> panics where the end of the slice wraps around to before its start.\<close>

definition getData :: "bytes \<Rightarrow> uint64 \<Rightarrow> uint64 \<Rightarrow> bytes option" where
  "getData b start size' = (let
     n = of_nat (length b);
     start = (if start > n then n else start);
     ende = start + size';
     ende = (if ende > n then n else ende)
   in if start > ende then None
      else Some (RightPadBytes (take (unat (ende - start)) (drop (unat start) b)) (sint size')))"

definition getDataBig :: "bytes \<Rightarrow> int \<Rightarrow> int \<Rightarrow> bytes" where
  "getDataBig b start size' = (let
     dlen = int (length b);
     s = BigMin start dlen;
     e = BigMin (s + size') dlen
   in RightPadBytes (take (nat e - nat s) (drop (nat s) b)) (sint (Uint64 size')))"

definition bigUint64 :: "int \<Rightarrow> uint64 \<times> bool" where
  "bigUint64 v = (Uint64 v, BitLen v > 64)"

definition toWordSize :: "uint64 \<Rightarrow> uint64" where
  "toWordSize size' = (if size' > - 1 - 31 then (- 1) div 32 + 1 else (size' + 31) div 32)"

definition allZero :: "bytes \<Rightarrow> bool" where
  "allZero b \<longleftrightarrow> (\<forall>x \<in> set b. x = 0)"

section \<open>The stack\<close>

text \<open>The top of the stack is the head of the list.\<close>

type_synonym Stack = "int list"

definition pop :: "Stack \<Rightarrow> (int \<times> Stack) option" where
  "pop st = (case st of [] \<Rightarrow> None | x # st \<Rightarrow> Some (x, st))"

definition Back :: "Stack \<Rightarrow> nat \<Rightarrow> int option" where
  "Back st n = (if n < length st then Some (st ! n) else None)"

definition swap :: "nat \<Rightarrow> Stack \<Rightarrow> Stack option" where
  "swap n st = (if n = 0 \<or> n > length st then None else Some (st[n - 1 := st ! 0, 0 := st ! (n - 1)]))"

definition dup :: "nat \<Rightarrow> Stack \<Rightarrow> Stack option" where
  "dup n st = (if n = 0 \<or> n > length st then None else Some (st ! (n - 1) # st))"

definition StackLimit :: nat where "StackLimit = 1024"

definition makeStackFunc :: "nat \<Rightarrow> nat \<Rightarrow> Stack \<Rightarrow> vm_error option" where
  "makeStackFunc pops pushes st =
    (if length st < pops then Some (StackUnderflow (length st) pops)
     else if length st + pushes - pops > StackLimit then Some (StackLimitReached (length st))
     else None)"

definition makeDupStackFunc :: "nat \<Rightarrow> Stack \<Rightarrow> vm_error option" where
  "makeDupStackFunc n = makeStackFunc n (n + 1)"

definition makeSwapStackFunc :: "nat \<Rightarrow> Stack \<Rightarrow> vm_error option" where
  "makeSwapStackFunc n = makeStackFunc n n"

section \<open>The memory\<close>

record Memory =
  store :: bytes
  lastGasCost :: uint64

definition NewMemory :: Memory where
  "NewMemory = \<lparr>store = [], lastGasCost = 0\<rparr>"

definition overwrite :: "nat \<Rightarrow> bytes \<Rightarrow> bytes \<Rightarrow> bytes" where
  "overwrite i new buf = take i buf @ new @ drop (i + length new) buf"

definition Memory_Set :: "uint64 \<Rightarrow> uint64 \<Rightarrow> bytes \<Rightarrow> Memory \<Rightarrow> Memory option" where
  "Memory_Set offset size' val m =
    (if size' > 0 then
       if offset + size' > of_nat (length (store m)) \<or> offset > offset + size' then None
       else Some (m\<lparr>store := overwrite (unat offset) (take (unat size') val) (store m)\<rparr>)
     else Some m)"

definition Memory_Set32 :: "uint64 \<Rightarrow> int \<Rightarrow> Memory \<Rightarrow> Memory option" where
  "Memory_Set32 offset val m =
    (if offset + 32 > of_nat (length (store m)) \<or> offset > offset + 32 then None
     else Some (m\<lparr>store := overwrite (unat offset) (ReadBits val (replicate 32 0)) (store m)\<rparr>))"

definition Memory_Resize :: "uint64 \<Rightarrow> Memory \<Rightarrow> Memory" where
  "Memory_Resize size' m = (if of_nat (length (store m)) < size'
     then m\<lparr>store := store m @ replicate (unat (size' - of_nat (length (store m)))) 0\<rparr> else m)"

text \<open>Reading past the end of the memory panics; \<open>GetPtr\<close> gives the same bytes without copying them.\<close>

definition Memory_Get :: "int \<Rightarrow> int \<Rightarrow> Memory \<Rightarrow> bytes option" where
  "Memory_Get offset size' m =
    (if size' = 0 then Some []
     else if int (length (store m)) > offset then
       if offset < 0 \<or> size' < 0 \<or> offset + size' > int (length (store m)) then None
       else Some (take (nat size') (drop (nat offset) (store m)))
     else Some [])"

section \<open>The rules of the chain\<close>

record ChainConfig =
  HomesteadBlock :: "int option"
  EIP150Block :: "int option"
  EIP155Block :: "int option"
  EIP158Block :: "int option"
  ByzantiumBlock :: "int option"
  ConstantinopleBlock :: "int option"

definition isForked :: "int option \<Rightarrow> int \<Rightarrow> bool" where
  "isForked s head = (case s of None \<Rightarrow> False | Some s \<Rightarrow> s \<le> head)"

definition IsHomestead :: "ChainConfig \<Rightarrow> int \<Rightarrow> bool" where "IsHomestead c num = isForked (HomesteadBlock c) num"
definition IsEIP150 :: "ChainConfig \<Rightarrow> int \<Rightarrow> bool" where "IsEIP150 c num = isForked (EIP150Block c) num"
definition IsEIP158 :: "ChainConfig \<Rightarrow> int \<Rightarrow> bool" where "IsEIP158 c num = isForked (EIP158Block c) num"
definition IsByzantium :: "ChainConfig \<Rightarrow> int \<Rightarrow> bool" where "IsByzantium c num = isForked (ByzantiumBlock c) num"
definition IsConstantinople :: "ChainConfig \<Rightarrow> int \<Rightarrow> bool" where "IsConstantinople c num = isForked (ConstantinopleBlock c) num"

record GasTable =
  gt_ExtcodeSize :: uint64
  gt_ExtcodeCopy :: uint64
  gt_ExtcodeHash :: uint64
  gt_Balance :: uint64
  gt_SLoad :: uint64
  gt_Calls :: uint64
  gt_Suicide :: uint64
  gt_ExpByte :: uint64
  gt_CreateBySuicide :: uint64

definition GasTableHomestead :: GasTable where
  "GasTableHomestead = \<lparr>gt_ExtcodeSize = 20, gt_ExtcodeCopy = 20, gt_ExtcodeHash = 0, gt_Balance = 20, gt_SLoad = 50, gt_Calls = 40,
     gt_Suicide = 0, gt_ExpByte = 10, gt_CreateBySuicide = 0\<rparr>"

definition GasTableEIP150 :: GasTable where
  "GasTableEIP150 = \<lparr>gt_ExtcodeSize = 700, gt_ExtcodeCopy = 700, gt_ExtcodeHash = 0, gt_Balance = 400, gt_SLoad = 200, gt_Calls = 700,
     gt_Suicide = 5000, gt_ExpByte = 10, gt_CreateBySuicide = 25000\<rparr>"

definition GasTableEIP158 :: GasTable where
  "GasTableEIP158 = \<lparr>gt_ExtcodeSize = 700, gt_ExtcodeCopy = 700, gt_ExtcodeHash = 0, gt_Balance = 400, gt_SLoad = 200, gt_Calls = 700,
     gt_Suicide = 5000, gt_ExpByte = 50, gt_CreateBySuicide = 25000\<rparr>"

definition GasTableConstantinople :: GasTable where
  "GasTableConstantinople = \<lparr>gt_ExtcodeSize = 700, gt_ExtcodeCopy = 700, gt_ExtcodeHash = 400, gt_Balance = 400, gt_SLoad = 200, gt_Calls = 700,
     gt_Suicide = 5000, gt_ExpByte = 50, gt_CreateBySuicide = 25000\<rparr>"

definition GasTableOf :: "ChainConfig \<Rightarrow> int \<Rightarrow> GasTable" where
  "GasTableOf c num =
    (if IsConstantinople c num then GasTableConstantinople
     else if IsEIP158 c num then GasTableEIP158
     else if IsEIP150 c num then GasTableEIP150
     else GasTableHomestead)"

definition callGas :: "GasTable \<Rightarrow> uint64 \<Rightarrow> uint64 \<Rightarrow> int \<Rightarrow> vm_error + uint64" where
  "callGas gasTable availableGas base callCost = (let
     availableGas = availableGas - base;
     gas = availableGas - availableGas div 64
   in if gt_CreateBySuicide gasTable > 0 \<and> (BitLen callCost > 64 \<or> gas < Uint64 callCost) then Inr gas
      else if BitLen callCost > 64 then Inl errGasUintOverflow
      else Inr (Uint64 callCost))"

section \<open>Jump destinations\<close>

text \<open>A bit for every byte of the code: set where the byte is an argument of a push instruction.\<close>

type_synonym bitvec = bytes

definition bitvec_set :: "nat \<Rightarrow> bitvec \<Rightarrow> bitvec option" where
  "bitvec_set pos bits = do {
     b \<leftarrow> goIndex bits (pos div 8);
     goUpdate bits (pos div 8) (b OR drop_bit (pos mod 8) 0x80) }"

definition bitvec_set8 :: "nat \<Rightarrow> bitvec \<Rightarrow> bitvec option" where
  "bitvec_set8 pos bits = do {
     b \<leftarrow> goIndex bits (pos div 8);
     bits \<leftarrow> goUpdate bits (pos div 8) (b OR drop_bit (pos mod 8) 0xFF);
     b \<leftarrow> goIndex bits (pos div 8 + 1);
     goUpdate bits (pos div 8 + 1) (b OR NOT (drop_bit (pos mod 8) 0xFF)) }"

definition codeSegment :: "bitvec \<Rightarrow> nat \<Rightarrow> bool option" where
  "codeSegment bits pos = do { b \<leftarrow> goIndex bits (pos div 8); Some (b AND drop_bit (pos mod 8) 0x80 = 0) }"

text \<open>The two inner loops: eight bits at a time, then one by one.\<close>

fun markPush :: "nat \<Rightarrow> nat \<Rightarrow> bitvec \<Rightarrow> bitvec option" where
  "markPush numbits pc bits =
    (if numbits \<ge> 8 then do { bits \<leftarrow> bitvec_set8 pc bits; markPush (numbits - 8) (pc + 8) bits }
     else if numbits > 0 then do { bits \<leftarrow> bitvec_set pc bits; markPush (numbits - 1) (pc + 1) bits }
     else Some bits)"

declare markPush.simps [simp del]

definition pushSize :: "uint8 \<Rightarrow> nat" where
  "pushSize op = (if 0x60 \<le> op \<and> op \<le> 0x7f then unat (op - 0x60) + 1 else 0)"

function codeBitmap_loop :: "bytes \<Rightarrow> nat \<Rightarrow> bitvec \<Rightarrow> bitvec option" where
  "codeBitmap_loop code' pc bits =
    (if pc < length code' then do {
       bits \<leftarrow> markPush (pushSize (code' ! pc)) (pc + 1) bits;
       codeBitmap_loop code' (pc + 1 + pushSize (code' ! pc)) bits }
     else Some bits)"
  by auto
termination by (relation "measure (\<lambda>(c, pc, b). length c - pc)") auto

declare codeBitmap_loop.simps [simp del]

definition codeBitmap :: "bytes \<Rightarrow> bitvec option" where
  "codeBitmap code' = codeBitmap_loop code' 0 (replicate (length code' div 8 + 1 + 4) 0)"

type_synonym destinations = "Hash \<rightharpoonup> bitvec"

definition JUMPDEST_byte :: uint8 where "JUMPDEST_byte = 0x5b"

definition destinations_has :: "destinations \<Rightarrow> Hash \<Rightarrow> bytes \<Rightarrow> int \<Rightarrow> (bool \<times> destinations) option" where
  "destinations_has d codehash code' dest = (let udest = Uint64 dest in
     if BitLen dest \<ge> 63 \<or> udest \<ge> of_nat (length code') then Some (False, d)
     else do {
       (m, d) \<leftarrow> (case d codehash of
           Some m \<Rightarrow> Some (m, d)
         | None \<Rightarrow> do { m \<leftarrow> codeBitmap code'; Some (m, d(codehash \<mapsto> m)) });
       if code' ! unat udest = JUMPDEST_byte then do { s \<leftarrow> codeSegment m (unat udest); Some (s, d) }
       else Some (False, d) })"

section \<open>Contracts and machines\<close>

record Contract =
  ct_CallerAddress :: Address
  ct_self :: Address
  ct_Code :: bytes
  ct_CodeHash :: Hash
  ct_CodeAddr :: "Address option"
  ct_Input :: bytes
  ct_Gas :: uint64
  ct_value :: "int option"

datatype ContractRef = AccountRef Address | ContractOf Contract

definition ref_Address :: "ContractRef \<Rightarrow> Address" where
  "ref_Address r = (case r of AccountRef a \<Rightarrow> a | ContractOf c \<Rightarrow> ct_self c)"

text \<open>
  The state of an execution: the database, the call depth, the fields of the interpreter, and the jump
  destinations found so far, a map that nested contracts share by reference.
\<close>

record EVM =
  e_db :: StateDB
  e_depth :: nat
  e_readOnly :: bool
  e_returnData :: bytes
  e_callGasTemp :: uint64
  e_jumpdests :: destinations

text \<open>\<open>NewContract\<close>; a caller that is an account starts with no jump destinations.\<close>

definition NewContract :: "ContractRef \<Rightarrow> Address \<Rightarrow> int option \<Rightarrow> uint64 \<Rightarrow> EVM \<Rightarrow> Contract \<times> EVM" where
  "NewContract caller object val gas evm =
    (\<lparr>ct_CallerAddress = ref_Address caller, ct_self = object, ct_Code = [], ct_CodeHash = 0, ct_CodeAddr = None, ct_Input = [],
       ct_Gas = gas, ct_value = val\<rparr>,
     case caller of AccountRef _ \<Rightarrow> evm\<lparr>e_jumpdests := Map.empty\<rparr> | ContractOf _ \<Rightarrow> evm)"

text \<open>\<open>AsDelegate\<close> panics unless the caller is a contract.\<close>

definition AsDelegate :: "ContractRef \<Rightarrow> Contract \<Rightarrow> Contract option" where
  "AsDelegate caller c = (case caller of
      AccountRef _ \<Rightarrow> None
    | ContractOf parent \<Rightarrow> Some (c\<lparr>ct_CallerAddress := ct_CallerAddress parent, ct_value := ct_value parent\<rparr>))"

definition GetByte :: "Contract \<Rightarrow> uint64 \<Rightarrow> uint8" where
  "GetByte c n = (if n < of_nat (length (ct_Code c)) then ct_Code c ! unat n else 0)"

definition UseGas :: "uint64 \<Rightarrow> Contract \<Rightarrow> bool \<times> Contract" where
  "UseGas gas c = (if ct_Gas c < gas then (False, c) else (True, c\<lparr>ct_Gas := ct_Gas c - gas\<rparr>))"

definition SetCallCode :: "Address \<Rightarrow> Hash \<Rightarrow> bytes \<Rightarrow> Contract \<Rightarrow> Contract" where
  "SetCallCode addr h c k = k\<lparr>ct_Code := c, ct_CodeHash := h, ct_CodeAddr := Some addr\<rparr>"

text \<open>Cryptography: the functions of other packages that the machine and its native contracts call.\<close>

record Crypto =
  cr_Ecrecover :: "bytes \<Rightarrow> bytes \<Rightarrow> bytes option"
  cr_Sha256 :: "bytes \<Rightarrow> bytes"
  cr_Ripemd160 :: "bytes \<Rightarrow> bytes"
  cr_G1 :: "bytes \<Rightarrow> bytes option"
  cr_G2 :: "bytes \<Rightarrow> bytes option"
  cr_Add :: "bytes \<Rightarrow> bytes \<Rightarrow> bytes"
  cr_ScalarMult :: "bytes \<Rightarrow> int \<Rightarrow> bytes"
  cr_PairingCheck :: "bytes list \<Rightarrow> bytes list \<Rightarrow> bool"

text \<open>What does not change during an execution: the block, the rules and the configuration.\<close>

record VMContext =
  cx_Origin :: Address
  cx_GasPrice :: int
  cx_Coinbase :: Address
  cx_GasLimit :: uint64
  cx_BlockNumber :: int
  cx_Time :: int
  cx_Difficulty :: int
  cx_GetHash :: "uint64 \<Rightarrow> Hash"
  cx_chain :: ChainConfig
  cx_NoRecursion :: bool
  cx_EnablePreimageRecording :: bool
  cx_crypto :: Crypto

abbreviation isHomestead :: "VMContext \<Rightarrow> bool" where "isHomestead x \<equiv> IsHomestead (cx_chain x) (cx_BlockNumber x)"
abbreviation isEIP150 :: "VMContext \<Rightarrow> bool" where "isEIP150 x \<equiv> IsEIP150 (cx_chain x) (cx_BlockNumber x)"
abbreviation isEIP158 :: "VMContext \<Rightarrow> bool" where "isEIP158 x \<equiv> IsEIP158 (cx_chain x) (cx_BlockNumber x)"
abbreviation isByzantium :: "VMContext \<Rightarrow> bool" where "isByzantium x \<equiv> IsByzantium (cx_chain x) (cx_BlockNumber x)"
abbreviation isConstantinople :: "VMContext \<Rightarrow> bool" where "isConstantinople x \<equiv> IsConstantinople (cx_chain x) (cx_BlockNumber x)"
abbreviation gasTable :: "VMContext \<Rightarrow> GasTable" where "gasTable x \<equiv> GasTableOf (cx_chain x) (cx_BlockNumber x)"

text \<open>
  \<open>Interpreter.Run\<close> as the rest of the machine sees it: it runs a contract on an input, read-only or not, and
  returns data or an error, the gas that is left and the new state. The local state of a run is a \<open>Machine\<close>.
\<close>

type_synonym Runner = "Contract \<Rightarrow> bytes \<Rightarrow> bool \<Rightarrow> EVM \<Rightarrow> ((bytes \<times> vm_error option) \<times> uint64 \<times> EVM) option"

record Machine =
  m_pc :: uint64
  m_contract :: Contract
  m_mem :: Memory
  m_stack :: Stack
  m_evm :: EVM

type_synonym executionFunc = "VMContext \<Rightarrow> Runner \<Rightarrow> Machine \<Rightarrow> ((vm_error + bytes) \<times> Machine) option"
type_synonym gasFunc = "VMContext \<Rightarrow> Machine \<Rightarrow> uint64 \<Rightarrow> ((vm_error + uint64) \<times> Machine) option"

end
