(* ===== verification/Evm_Gas.thy ===== *)
theory Evm_Gas
  imports Evm_Base
begin

text \<open>
  The gas that the operations of the virtual machine cost (\<open>core/vm/gas_table.go\<close>) and the memory they need
  (\<open>core/vm/memory_table.go\<close>). A gas function may change the state it is given: the fee paid for memory, the
  refund counter, the gas set aside for a call, and what the database has loaded.
\<close>

section \<open>Constants\<close>

definition GasQuickStep :: uint64 where "GasQuickStep = 2"
definition GasFastestStep :: uint64 where "GasFastestStep = 3"
definition GasFastStep :: uint64 where "GasFastStep = 5"
definition GasMidStep :: uint64 where "GasMidStep = 8"
definition GasSlowStep :: uint64 where "GasSlowStep = 10"
definition GasExtStep :: uint64 where "GasExtStep = 20"
definition MemoryGas :: uint64 where "MemoryGas = 3"
definition QuadCoeffDiv :: uint64 where "QuadCoeffDiv = 512"
definition CopyGas :: uint64 where "CopyGas = 3"
definition LogGas :: uint64 where "LogGas = 375"
definition LogTopicGas :: uint64 where "LogTopicGas = 375"
definition LogDataGas :: uint64 where "LogDataGas = 8"
definition Sha3Gas :: uint64 where "Sha3Gas = 30"
definition Sha3WordGas :: uint64 where "Sha3WordGas = 6"
definition CreateGas :: uint64 where "CreateGas = 32000"
definition Create2Gas :: uint64 where "Create2Gas = 32000"
definition CallValueTransferGas :: uint64 where "CallValueTransferGas = 9000"
definition CallNewAccountGas :: uint64 where "CallNewAccountGas = 25000"
definition CallStipend :: uint64 where "CallStipend = 2300"
definition JumpdestGas :: uint64 where "JumpdestGas = 1"
definition SuicideRefundGas :: uint64 where "SuicideRefundGas = 24000"
definition CreateDataGas :: uint64 where "CreateDataGas = 200"

section \<open>Memory\<close>

definition memoryGasCost :: "Memory \<Rightarrow> uint64 \<Rightarrow> (vm_error + uint64) \<times> Memory" where
  "memoryGasCost mem newMemSize =
    (if newMemSize = 0 then (Inr 0, mem)
     else if newMemSize > 0xffffffffe0 then (Inl errGasUintOverflow, mem)
     else let newMemSizeWords = toWordSize newMemSize; newMemSize = newMemSizeWords * 32 in
       if newMemSize > of_nat (length (store mem)) then let
           square = newMemSizeWords * newMemSizeWords;
           linCoef = newMemSizeWords * MemoryGas;
           quadCoef = square div QuadCoeffDiv;
           newTotalFee = linCoef + quadCoef
         in (Inr (newTotalFee - lastGasCost mem), mem\<lparr>lastGasCost := newTotalFee\<rparr>)
       else (Inr 0, mem))"

definition memGas :: "Machine \<Rightarrow> uint64 \<Rightarrow> (vm_error + uint64) \<times> Machine" where
  "memGas m memorySize = (let (r, mem) = memoryGasCost (m_mem m) memorySize in (r, m\<lparr>m_mem := mem\<rparr>))"

text \<open>\<open>SafeAdd\<close> and \<open>SafeMul\<close> with the error that the callers return on an overflow.\<close>

definition plusGas :: "vm_error + uint64 \<Rightarrow> uint64 \<Rightarrow> vm_error + uint64" where
  "plusGas r n = (case r of
      Inl e \<Rightarrow> Inl e
    | Inr gas \<Rightarrow> (let (gas, overflow) = SafeAdd gas n in if overflow then Inl errGasUintOverflow else Inr gas))"

definition wordGas :: "int \<Rightarrow> uint64 \<Rightarrow> vm_error + uint64" where
  "wordGas size' price = (let (words, overflow) = bigUint64 size' in
     if overflow then Inl errGasUintOverflow
     else let (g, overflow) = SafeMul (toWordSize words) price in if overflow then Inl errGasUintOverflow else Inr g)"

text \<open>The memory, a base price and a price for every word of the operand \<open>n\<close> of the stack.\<close>

definition memWordsGas :: "uint64 \<Rightarrow> uint64 \<Rightarrow> nat \<Rightarrow> Machine \<Rightarrow> uint64 \<Rightarrow> ((vm_error + uint64) \<times> Machine) option" where
  "memWordsGas base price n m memorySize = (let (r, m) = memGas m memorySize in
     case plusGas r base of
       Inl e \<Rightarrow> Some (Inl e, m)
     | Inr gas \<Rightarrow> do {
         size' \<leftarrow> Back (m_stack m) n;
         Some (case wordGas size' price of Inl e \<Rightarrow> Inl e | Inr g \<Rightarrow> plusGas (Inr gas) g, m) })"

section \<open>The gas functions\<close>

definition constGasFunc :: "uint64 \<Rightarrow> gasFunc" where
  "constGasFunc gas x m memorySize = Some (Inr gas, m)"

definition gasCallDataCopy :: gasFunc where
  "gasCallDataCopy x m memorySize = memWordsGas GasFastestStep CopyGas 2 m memorySize"

definition gasReturnDataCopy :: gasFunc where
  "gasReturnDataCopy x m memorySize = memWordsGas GasFastestStep CopyGas 2 m memorySize"

definition gasCodeCopy :: gasFunc where
  "gasCodeCopy x m memorySize = memWordsGas GasFastestStep CopyGas 2 m memorySize"

definition gasExtCodeCopy :: gasFunc where
  "gasExtCodeCopy x m memorySize = memWordsGas (gt_ExtcodeCopy (gasTable x)) CopyGas 3 m memorySize"

definition gasSha3 :: gasFunc where
  "gasSha3 x m memorySize = memWordsGas Sha3Gas Sha3WordGas 1 m memorySize"

definition gasSStore_legacy :: "Hash \<Rightarrow> int \<Rightarrow> StateDB \<Rightarrow> uint64 \<times> StateDB" where
  "gasSStore_legacy current y db =
    (if current = 0 \<and> y \<noteq> 0 then (20000, db)
     else if current \<noteq> 0 \<and> y = 0 then (5000, AddRefund db 15000)
     else (5000, db))"

text \<open>The net metering of EIP-1283; \<open>SubRefund\<close> panics below zero.\<close>

definition gasSStore_net :: "Address \<Rightarrow> Hash \<Rightarrow> Hash \<Rightarrow> Hash \<Rightarrow> StateDB \<Rightarrow> (uint64 \<times> StateDB) option" where
  "gasSStore_net addr key current val db =
    (if current = val then Some (200, db)
     else let (original, db) = GetCommittedState db addr key in
       if original = current then
         if original = 0 then Some (20000, db)
         else Some (5000, if val = 0 then AddRefund db 15000 else db)
       else do {
         db \<leftarrow> (if original \<noteq> 0 then
             if current = 0 then SubRefund db 15000
             else Some (if val = 0 then AddRefund db 15000 else db)
           else Some db);
         Some (200, if original = val then if original = 0 then AddRefund db 19800 else AddRefund db 4800 else db) })"

definition gasSStore :: gasFunc where
  "gasSStore x m memorySize = do {
     y \<leftarrow> Back (m_stack m) 1;
     k \<leftarrow> Back (m_stack m) 0;
     let addr = ct_self (m_contract m);
     let (current, db) = GetState (e_db (m_evm m)) addr (BigToHash k);
     (gas, db) \<leftarrow> (if \<not> isConstantinople x then Some (gasSStore_legacy current y db)
                  else gasSStore_net addr (BigToHash k) current (BigToHash y) db);
     Some (Inr gas, m\<lparr>m_evm := (m_evm m)\<lparr>e_db := db\<rparr>\<rparr>) }"

definition makeGasLog :: "uint64 \<Rightarrow> gasFunc" where
  "makeGasLog n x m memorySize = do {
     size' \<leftarrow> Back (m_stack m) 1;
     let (requestedSize, overflow) = bigUint64 size';
     if overflow then Some (Inl errGasUintOverflow, m)
     else let (r, m) = memGas m memorySize; (g, overflow) = SafeMul requestedSize LogDataGas in
       Some (case plusGas (plusGas r LogGas) (n * LogTopicGas) of
           Inl e \<Rightarrow> Inl e
         | Inr gas \<Rightarrow> if overflow then Inl errGasUintOverflow else plusGas (Inr gas) g, m) }"

definition gasExtCodeHash :: gasFunc where
  "gasExtCodeHash x m memorySize = Some (Inr (gt_ExtcodeHash (gasTable x)), m)"

definition memPlusGas :: "uint64 \<Rightarrow> Machine \<Rightarrow> uint64 \<Rightarrow> ((vm_error + uint64) \<times> Machine) option" where
  "memPlusGas base m memorySize = (let (r, m) = memGas m memorySize in Some (plusGas r base, m))"

definition gasMLoad :: gasFunc where "gasMLoad x m memorySize = memPlusGas GasFastestStep m memorySize"
definition gasMStore8 :: gasFunc where "gasMStore8 x m memorySize = memPlusGas GasFastestStep m memorySize"
definition gasMStore :: gasFunc where "gasMStore x m memorySize = memPlusGas GasFastestStep m memorySize"
definition gasCreate :: gasFunc where "gasCreate x m memorySize = memPlusGas CreateGas m memorySize"
definition gasCreate2 :: gasFunc where "gasCreate2 x m memorySize = memPlusGas Create2Gas m memorySize"

definition gasBalance :: gasFunc where
  "gasBalance x m memorySize = Some (Inr (gt_Balance (gasTable x)), m)"

definition gasExtCodeSize :: gasFunc where
  "gasExtCodeSize x m memorySize = Some (Inr (gt_ExtcodeSize (gasTable x)), m)"

definition gasSLoad :: gasFunc where
  "gasSLoad x m memorySize = Some (Inr (gt_SLoad (gasTable x)), m)"

definition gasExp :: gasFunc where
  "gasExp x m memorySize = do {
     e \<leftarrow> Back (m_stack m) 1;
     let expByteLen = of_nat ((BitLen e + 7) div 8);
     Some (plusGas (Inr (expByteLen * gt_ExpByte (gasTable x))) GasSlowStep, m) }"

text \<open>The end of the gas functions of calls: memory, and the gas that the callee gets, which is set aside.\<close>

definition finishCallGas :: "VMContext \<Rightarrow> vm_error + uint64 \<Rightarrow> Machine \<Rightarrow> ((vm_error + uint64) \<times> Machine) option" where
  "finishCallGas x r m = (case r of
      Inl e \<Rightarrow> Some (Inl e, m)
    | Inr gas \<Rightarrow> do {
        cost \<leftarrow> Back (m_stack m) 0;
        (case callGas (gasTable x) (ct_Gas (m_contract m)) gas cost of
          Inl e \<Rightarrow> Some (Inl e, m\<lparr>m_evm := (m_evm m)\<lparr>e_callGasTemp := 0\<rparr>\<rparr>)
        | Inr temp \<Rightarrow> Some (plusGas (Inr gas) temp, m\<lparr>m_evm := (m_evm m)\<lparr>e_callGasTemp := temp\<rparr>\<rparr>)) })"

definition gasCall :: gasFunc where
  "gasCall x m memorySize = do {
     v \<leftarrow> Back (m_stack m) 2;
     a \<leftarrow> Back (m_stack m) 1;
     let gas = gt_Calls (gasTable x);
     let transfersValue = (v \<noteq> 0);
     let db = e_db (m_evm m);
     let (new, db) = (if isEIP158 x then if transfersValue then Empty db (BigToAddress a) else (False, db)
                      else let (ex, db) = Exist db (BigToAddress a) in (\<not> ex, db));
     let gas = (if new then gas + CallNewAccountGas else gas);
     let gas = (if transfersValue then gas + CallValueTransferGas else gas);
     let (r, m) = memGas (m\<lparr>m_evm := (m_evm m)\<lparr>e_db := db\<rparr>\<rparr>) memorySize;
     finishCallGas x (case r of Inl e \<Rightarrow> Inl e | Inr memoryGas \<Rightarrow> plusGas (Inr gas) memoryGas) m }"

definition gasCallCode :: gasFunc where
  "gasCallCode x m memorySize = do {
     v \<leftarrow> Back (m_stack m) 2;
     let gas = gt_Calls (gasTable x);
     let gas = (if v \<noteq> 0 then gas + CallValueTransferGas else gas);
     let (r, m) = memGas m memorySize;
     finishCallGas x (case r of Inl e \<Rightarrow> Inl e | Inr memoryGas \<Rightarrow> plusGas (Inr gas) memoryGas) m }"

definition gasDelegateCall :: gasFunc where
  "gasDelegateCall x m memorySize = (let (r, m) = memGas m memorySize in finishCallGas x (plusGas r (gt_Calls (gasTable x))) m)"

definition gasStaticCall :: gasFunc where
  "gasStaticCall x m memorySize = (let (r, m) = memGas m memorySize in finishCallGas x (plusGas r (gt_Calls (gasTable x))) m)"

definition gasReturn :: gasFunc where "gasReturn x m memorySize = Some (memGas m memorySize)"
definition gasRevert :: gasFunc where "gasRevert x m memorySize = Some (memGas m memorySize)"

definition gasSuicide_base :: "VMContext \<Rightarrow> Address \<Rightarrow> Address \<Rightarrow> StateDB \<Rightarrow> (uint64 \<times> StateDB) option" where
  "gasSuicide_base x self address db =
    (if \<not> isEIP150 x then Some (0, db)
     else if isEIP158 x then (let (em, db) = Empty db address in
       if em then do {
         (b, db) \<leftarrow> GetBalance db SystemAssetID self;
         b \<leftarrow> b;
         Some (if b \<noteq> 0 then gt_Suicide (gasTable x) + gt_CreateBySuicide (gasTable x) else gt_Suicide (gasTable x), db) }
       else Some (gt_Suicide (gasTable x), db))
     else let (ex, db) = Exist db address in
       Some (if \<not> ex then gt_Suicide (gasTable x) + gt_CreateBySuicide (gasTable x) else gt_Suicide (gasTable x), db))"

definition gasSuicide :: gasFunc where
  "gasSuicide x m memorySize = do {
     a \<leftarrow> Back (m_stack m) 0;
     (gas, db) \<leftarrow> gasSuicide_base x (ct_self (m_contract m)) (BigToAddress a) (e_db (m_evm m));
     let (gone, db) = HasSuicided db (ct_self (m_contract m));
     let db = (if \<not> gone then AddRefund db SuicideRefundGas else db);
     Some (Inr gas, m\<lparr>m_evm := (m_evm m)\<lparr>e_db := db\<rparr>\<rparr>) }"

definition gasPush :: gasFunc where "gasPush x m memorySize = Some (Inr GasFastestStep, m)"
definition gasSwap :: gasFunc where "gasSwap x m memorySize = Some (Inr GasFastestStep, m)"
definition gasDup :: gasFunc where "gasDup x m memorySize = Some (Inr GasFastestStep, m)"

section \<open>The memory functions\<close>

definition memoryAt :: "nat \<Rightarrow> nat \<Rightarrow> Stack \<Rightarrow> int option" where
  "memoryAt i j st = do { off \<leftarrow> Back st i; l \<leftarrow> Back st j; Some (calcMemSize off l) }"

definition memorySha3 :: "Stack \<Rightarrow> int option" where "memorySha3 st = memoryAt 0 1 st"
definition memoryCallDataCopy :: "Stack \<Rightarrow> int option" where "memoryCallDataCopy st = memoryAt 0 2 st"
definition memoryReturnDataCopy :: "Stack \<Rightarrow> int option" where "memoryReturnDataCopy st = memoryAt 0 2 st"
definition memoryCodeCopy :: "Stack \<Rightarrow> int option" where "memoryCodeCopy st = memoryAt 0 2 st"
definition memoryExtCodeCopy :: "Stack \<Rightarrow> int option" where "memoryExtCodeCopy st = memoryAt 1 3 st"
definition memoryMLoad :: "Stack \<Rightarrow> int option" where "memoryMLoad st = do { off \<leftarrow> Back st 0; Some (calcMemSize off 32) }"
definition memoryMStore8 :: "Stack \<Rightarrow> int option" where "memoryMStore8 st = do { off \<leftarrow> Back st 0; Some (calcMemSize off 1) }"
definition memoryMStore :: "Stack \<Rightarrow> int option" where "memoryMStore st = do { off \<leftarrow> Back st 0; Some (calcMemSize off 32) }"
definition memoryCreate :: "Stack \<Rightarrow> int option" where "memoryCreate st = memoryAt 1 2 st"
definition memoryCreate2 :: "Stack \<Rightarrow> int option" where "memoryCreate2 st = memoryAt 1 2 st"
definition memoryCall :: "Stack \<Rightarrow> int option" where
  "memoryCall st = do { x \<leftarrow> memoryAt 5 6 st; y \<leftarrow> memoryAt 3 4 st; Some (BigMax x y) }"
definition memoryDelegateCall :: "Stack \<Rightarrow> int option" where
  "memoryDelegateCall st = do { x \<leftarrow> memoryAt 4 5 st; y \<leftarrow> memoryAt 2 3 st; Some (BigMax x y) }"
definition memoryStaticCall :: "Stack \<Rightarrow> int option" where
  "memoryStaticCall st = do { x \<leftarrow> memoryAt 4 5 st; y \<leftarrow> memoryAt 2 3 st; Some (BigMax x y) }"
definition memoryReturn :: "Stack \<Rightarrow> int option" where "memoryReturn st = memoryAt 0 1 st"
definition memoryRevert :: "Stack \<Rightarrow> int option" where "memoryRevert st = memoryAt 0 1 st"
definition memoryLog :: "Stack \<Rightarrow> int option" where "memoryLog st = memoryAt 0 1 st"

end
