(* ===== verification/Evm_Calls.thy ===== *)
theory Evm_Calls
  imports Evm_Gas
begin

text \<open>
  The native contracts (\<open>core/vm/contracts.go\<close>) and the calls between contracts (\<open>core/vm/evm.go\<close>). A call is
  given the \<open>Runner\<close> that executes code; the tracer, which is off outside debugging, is left out.
\<close>

section \<open>Native contracts\<close>

datatype PrecompiledContract =
    ecrecover | sha256hash | ripemd160hash | dataCopy | bigModExp | bn256Add | bn256ScalarMul | bn256Pairing

definition PrecompiledContractsHomestead :: "Address \<Rightarrow> PrecompiledContract option" where
  "PrecompiledContractsHomestead = [1 \<mapsto> ecrecover, 2 \<mapsto> sha256hash, 3 \<mapsto> ripemd160hash, 4 \<mapsto> dataCopy]"

definition PrecompiledContractsByzantium :: "Address \<Rightarrow> PrecompiledContract option" where
  "PrecompiledContractsByzantium = [1 \<mapsto> ecrecover, 2 \<mapsto> sha256hash, 3 \<mapsto> ripemd160hash, 4 \<mapsto> dataCopy,
     5 \<mapsto> bigModExp, 6 \<mapsto> bn256Add, 7 \<mapsto> bn256ScalarMul, 8 \<mapsto> bn256Pairing]"

definition precompiles :: "VMContext \<Rightarrow> Address \<Rightarrow> PrecompiledContract option" where
  "precompiles x = (if isByzantium x then PrecompiledContractsByzantium else PrecompiledContractsHomestead)"

text \<open>The three lengths at the head of the input of \<open>bigModExp\<close>, and the rest.\<close>

definition bigModExp_lengths :: "bytes \<Rightarrow> (int \<times> int \<times> int) option" where
  "bigModExp_lengths input = do {
     a \<leftarrow> getData input 0 32;
     b \<leftarrow> getData input 32 32;
     c \<leftarrow> getData input 64 32;
     Some (SetBytes a, SetBytes b, SetBytes c) }"

definition bigModExp_expHead :: "int \<Rightarrow> int \<Rightarrow> bytes \<Rightarrow> int option" where
  "bigModExp_expHead baseLen expLen input =
    (if int (length input) \<le> baseLen then Some 0
     else do {
       d \<leftarrow> getData input (Uint64 baseLen) (if expLen > 32 then 32 else Uint64 expLen);
       Some (SetBytes d) })"

definition bigModExp_complexity :: "int \<Rightarrow> int" where
  "bigModExp_complexity gas =
    (if gas \<le> 64 then gas * gas
     else if gas \<le> 1024 then gas * gas div 4 + (96 * gas - 3072)
     else gas * gas div 16 + (480 * gas - 199680))"

definition bigModExp_RequiredGas :: "bytes \<Rightarrow> uint64 option" where
  "bigModExp_RequiredGas input = do {
     (baseLen, expLen, modLen) \<leftarrow> bigModExp_lengths input;
     expHead \<leftarrow> bigModExp_expHead baseLen expLen (drop 96 input);
     let msb = (if BitLen expHead > 0 then BitLen expHead - 1 else 0);
     let adjExpLen = (if expLen > 32 then 8 * (expLen - 32) else 0) + int msb;
     let gas = bigModExp_complexity (BigMax modLen baseLen) * BigMax adjExpLen 1 div 20;
     Some (if BitLen gas > 64 then - 1 else Uint64 gas) }"

definition bigModExp_Run :: "bytes \<Rightarrow> bytes option" where
  "bigModExp_Run input = do {
     (bl, el, ml) \<leftarrow> bigModExp_lengths input;
     let baseLen = Uint64 bl;
     let expLen = Uint64 el;
     let modLen = Uint64 ml;
     let input = drop 96 input;
     if baseLen = 0 \<and> modLen = 0 then Some []
     else do {
       b \<leftarrow> getData input 0 baseLen;
       e \<leftarrow> getData input baseLen expLen;
       m \<leftarrow> getData input (baseLen + expLen) modLen;
       if SetBytes m = 0 then Some (LeftPadBytes [] (sint modLen))
       else Some (LeftPadBytes (big_bytes (nat (SetBytes b ^ nat (SetBytes e) mod SetBytes m))) (sint modLen)) } }"

definition secp256k1N :: int where
  "secp256k1N = 0xfffffffffffffffffffffffffffffffebaaedce6af48a03bbfd25e8cd0364141"

definition secp256k1halfN :: int where
  "secp256k1halfN = secp256k1N div 2"

definition ValidateSignatureValues :: "uint8 \<Rightarrow> int \<Rightarrow> int \<Rightarrow> bool \<Rightarrow> bool" where
  "ValidateSignatureValues v r s homestead =
    (if r < 1 \<or> s < 1 then False
     else if homestead \<and> s > secp256k1halfN then False
     else r < secp256k1N \<and> s < secp256k1N \<and> (v = 0 \<or> v = 1))"

definition ecrecover_Run :: "Crypto \<Rightarrow> (bytes \<Rightarrow> Hash) \<Rightarrow> bytes \<Rightarrow> bytes" where
  "ecrecover_Run c keccak input = (let
     input = RightPadBytes input 128;
     r = SetBytes (take 32 (drop 64 input));
     s = SetBytes (take 32 (drop 96 input));
     v = input ! 63 - 27
   in if \<not> allZero (take 31 (drop 32 input)) \<or> \<not> ValidateSignatureValues v r s False then []
      else case cr_Ecrecover c (take 32 input) (take 64 (drop 64 input) @ [v]) of
        None \<Rightarrow> []
      | Some pubKey \<Rightarrow> LeftPadBytes (drop 12 (hash_bytes (keccak (drop 1 pubKey)))) 32)"

fun bn256Pairing_points :: "Crypto \<Rightarrow> nat \<Rightarrow> bytes \<Rightarrow> vm_error + bytes list \<times> bytes list" where
  "bn256Pairing_points c 0 input = Inr ([], [])"
| "bn256Pairing_points c (Suc n) input = (case cr_G1 c (take 64 input) of
      None \<Rightarrow> Inl BadCurvePoint
    | Some p \<Rightarrow> (case cr_G2 c (take 128 (drop 64 input)) of
        None \<Rightarrow> Inl BadCurvePoint
      | Some q \<Rightarrow> (case bn256Pairing_points c n (drop 192 input) of
          Inl e \<Rightarrow> Inl e
        | Inr (cs, ts) \<Rightarrow> Inr (p # cs, q # ts))))"

definition bn256Pairing_Run :: "Crypto \<Rightarrow> bytes \<Rightarrow> vm_error + bytes" where
  "bn256Pairing_Run c input =
    (if length input mod 192 > 0 then Inl errBadPairingInput
     else case bn256Pairing_points c (length input div 192) input of
       Inl e \<Rightarrow> Inl e
     | Inr (cs, ts) \<Rightarrow> Inr (if cr_PairingCheck c cs ts then replicate 31 0 @ [1] else replicate 32 0))"

definition bn256Add_Run :: "Crypto \<Rightarrow> bytes \<Rightarrow> (vm_error + bytes) option" where
  "bn256Add_Run c input = do {
     a \<leftarrow> getData input 0 64;
     (case cr_G1 c a of
       None \<Rightarrow> Some (Inl BadCurvePoint)
     | Some p \<Rightarrow> do {
         b \<leftarrow> getData input 64 64;
         Some (case cr_G1 c b of None \<Rightarrow> Inl BadCurvePoint | Some q \<Rightarrow> Inr (cr_Add c p q)) }) }"

definition bn256ScalarMul_Run :: "Crypto \<Rightarrow> bytes \<Rightarrow> (vm_error + bytes) option" where
  "bn256ScalarMul_Run c input = do {
     a \<leftarrow> getData input 0 64;
     (case cr_G1 c a of
       None \<Rightarrow> Some (Inl BadCurvePoint)
     | Some p \<Rightarrow> do { b \<leftarrow> getData input 64 32; Some (Inr (cr_ScalarMult c p (SetBytes b))) }) }"

definition perWord :: "bytes \<Rightarrow> uint64 \<Rightarrow> uint64 \<Rightarrow> uint64" where
  "perWord input price base = of_nat (length input + 31) div 32 * price + base"

definition RequiredGas :: "PrecompiledContract \<Rightarrow> bytes \<Rightarrow> uint64 option" where
  "RequiredGas p input = (case p of
      ecrecover \<Rightarrow> Some 3000
    | sha256hash \<Rightarrow> Some (perWord input 12 60)
    | ripemd160hash \<Rightarrow> Some (perWord input 120 600)
    | dataCopy \<Rightarrow> Some (perWord input 3 15)
    | bigModExp \<Rightarrow> bigModExp_RequiredGas input
    | bn256Add \<Rightarrow> Some 500
    | bn256ScalarMul \<Rightarrow> Some 40000
    | bn256Pairing \<Rightarrow> Some (100000 + of_nat (length input div 192) * 80000))"

definition Precompiled_Run :: "Crypto \<Rightarrow> (bytes \<Rightarrow> Hash) \<Rightarrow> PrecompiledContract \<Rightarrow> bytes \<Rightarrow> (vm_error + bytes) option" where
  "Precompiled_Run c keccak p input = (case p of
      ecrecover \<Rightarrow> Some (Inr (ecrecover_Run c keccak input))
    | sha256hash \<Rightarrow> Some (Inr (cr_Sha256 c input))
    | ripemd160hash \<Rightarrow> Some (Inr (LeftPadBytes (cr_Ripemd160 c input) 32))
    | dataCopy \<Rightarrow> Some (Inr input)
    | bigModExp \<Rightarrow> map_option Inr (bigModExp_Run input)
    | bn256Add \<Rightarrow> bn256Add_Run c input
    | bn256ScalarMul \<Rightarrow> bn256ScalarMul_Run c input
    | bn256Pairing \<Rightarrow> Some (bn256Pairing_Run c input))"

definition RunPrecompiledContract :: "Crypto \<Rightarrow> (bytes \<Rightarrow> Hash) \<Rightarrow> PrecompiledContract \<Rightarrow> bytes \<Rightarrow> Contract \<Rightarrow>
    ((vm_error + bytes) \<times> Contract) option" where
  "RunPrecompiledContract c keccak p input k = do {
     gas \<leftarrow> RequiredGas p input;
     let (enough, k) = UseGas gas k;
     if enough then do { r \<leftarrow> Precompiled_Run c keccak p input; Some (r, k) }
     else Some (Inl ErrOutOfGas, k) }"

section \<open>Transfers\<close>

definition CanTransfer :: "StateDB \<Rightarrow> Address \<Rightarrow> int \<Rightarrow> (bool \<times> StateDB) option" where
  "CanTransfer db addr amount = do {
     (b, db) \<leftarrow> GetBalance db SystemAssetID addr;
     b \<leftarrow> b;
     Some (b \<ge> amount, db) }"

definition Transfer :: "StateDB \<Rightarrow> Address \<Rightarrow> Address \<Rightarrow> int \<Rightarrow> StateDB option" where
  "Transfer db sender recipient amount = do {
     db \<leftarrow> SubBalance db sender SystemAssetID amount;
     AddBalance db recipient SystemAssetID amount }"

section \<open>Calls\<close>

definition CallCreateDepth :: nat where "CallCreateDepth = 1024"

definition codeOf :: "bytes option \<Rightarrow> bytes" where
  "codeOf c = (case c of None \<Rightarrow> [] | Some b \<Rightarrow> b)"

definition run_contract :: "VMContext \<Rightarrow> Runner \<Rightarrow> Contract \<Rightarrow> bytes \<Rightarrow> bool \<Rightarrow> EVM \<Rightarrow> ((bytes \<times> vm_error option) \<times> uint64 \<times> EVM) option" where
  "run_contract x R k input readOnly evm = (case Option.bind (ct_CodeAddr k) (precompiles x) of
      Some p \<Rightarrow> do {
        (r, k) \<leftarrow> RunPrecompiledContract (cx_crypto x) (Keccak256Hash (env (e_db evm))) p input k;
        Some (case r of Inl e \<Rightarrow> ([], Some e) | Inr ret \<Rightarrow> (ret, None), ct_Gas k, evm) }
    | None \<Rightarrow> R k input readOnly evm)"

text \<open>The code of an address, set as the code of a contract.\<close>

definition loadCode :: "Address \<Rightarrow> Contract \<Rightarrow> EVM \<Rightarrow> Contract \<times> EVM" where
  "loadCode addr k evm = (let
     (h, db) = GetCodeHash (e_db evm) addr;
     (c, db) = GetCode db addr
   in (SetCallCode addr h (codeOf c) k, evm\<lparr>e_db := db\<rparr>))"

text \<open>The end of every call: after an error the state is reverted, and the gas is lost unless the callee reverted.\<close>

definition finishCall :: "nat \<Rightarrow> (bytes \<times> vm_error option) \<times> uint64 \<times> EVM \<Rightarrow> (bytes \<times> uint64 \<times> vm_error option \<times> EVM) option" where
  "finishCall snapshot = (\<lambda>((ret, err), gas, evm).
     if err \<noteq> None then do {
       db \<leftarrow> RevertToSnapshot (e_db evm) snapshot;
       Some (ret, if err \<noteq> Some errExecutionReverted then 0 else gas, err, evm\<lparr>e_db := db\<rparr>) }
     else Some (ret, gas, err, evm))"

definition takeSnapshot :: "EVM \<Rightarrow> nat \<times> EVM" where
  "takeSnapshot evm = (let (i, db) = Snapshot (e_db evm) in (i, evm\<lparr>e_db := db\<rparr>))"

definition EVM_Call :: "VMContext \<Rightarrow> Runner \<Rightarrow> ContractRef \<Rightarrow> Address \<Rightarrow> bytes \<Rightarrow> uint64 \<Rightarrow> int \<Rightarrow> EVM \<Rightarrow>
    (bytes \<times> uint64 \<times> vm_error option \<times> EVM) option" where
  "EVM_Call x R caller addr input gas val evm =
    (if cx_NoRecursion x \<and> e_depth evm > 0 then Some ([], gas, None, evm)
     else if e_depth evm > CallCreateDepth then Some ([], gas, Some ErrDepth, evm)
     else do {
       (can, db) \<leftarrow> CanTransfer (e_db evm) (ref_Address caller) val;
       let evm = evm\<lparr>e_db := db\<rparr>;
       if \<not> can then Some ([], gas, Some ErrInsufficientBalance, evm)
       else let (snapshot, evm) = takeSnapshot evm; (ex, db) = Exist (e_db evm) addr; evm = evm\<lparr>e_db := db\<rparr> in
         if \<not> ex \<and> precompiles x addr = None \<and> isEIP158 x \<and> val = 0 then Some ([], gas, None, evm)
         else do {
           db \<leftarrow> (if \<not> ex then CreateAccount (e_db evm) addr else Some (e_db evm));
           db \<leftarrow> Transfer db (ref_Address caller) addr val;
           let (k, evm) = NewContract caller addr (Some val) gas (evm\<lparr>e_db := db\<rparr>);
           let (k, evm) = loadCode addr k evm;
           r \<leftarrow> run_contract x R k input False evm;
           finishCall snapshot r } })"

definition EVM_CallCode :: "VMContext \<Rightarrow> Runner \<Rightarrow> ContractRef \<Rightarrow> Address \<Rightarrow> bytes \<Rightarrow> uint64 \<Rightarrow> int \<Rightarrow> EVM \<Rightarrow>
    (bytes \<times> uint64 \<times> vm_error option \<times> EVM) option" where
  "EVM_CallCode x R caller addr input gas val evm =
    (if cx_NoRecursion x \<and> e_depth evm > 0 then Some ([], gas, None, evm)
     else if e_depth evm > CallCreateDepth then Some ([], gas, Some ErrDepth, evm)
     else do {
       (can, db) \<leftarrow> CanTransfer (e_db evm) (ref_Address caller) val;
       let evm = evm\<lparr>e_db := db\<rparr>;
       if \<not> can then Some ([], gas, Some ErrInsufficientBalance, evm)
       else do {
         let (snapshot, evm) = takeSnapshot evm;
         let (k, evm) = NewContract caller (ref_Address caller) (Some val) gas evm;
         let (k, evm) = loadCode addr k evm;
         r \<leftarrow> run_contract x R k input False evm;
         finishCall snapshot r } })"

definition EVM_DelegateCall :: "VMContext \<Rightarrow> Runner \<Rightarrow> ContractRef \<Rightarrow> Address \<Rightarrow> bytes \<Rightarrow> uint64 \<Rightarrow> EVM \<Rightarrow>
    (bytes \<times> uint64 \<times> vm_error option \<times> EVM) option" where
  "EVM_DelegateCall x R caller addr input gas evm =
    (if cx_NoRecursion x \<and> e_depth evm > 0 then Some ([], gas, None, evm)
     else if e_depth evm > CallCreateDepth then Some ([], gas, Some ErrDepth, evm)
     else do {
       let (snapshot, evm) = takeSnapshot evm;
       let (k, evm) = NewContract caller (ref_Address caller) None gas evm;
       k \<leftarrow> AsDelegate caller k;
       let (k, evm) = loadCode addr k evm;
       r \<leftarrow> run_contract x R k input False evm;
       finishCall snapshot r })"

definition EVM_StaticCall :: "VMContext \<Rightarrow> Runner \<Rightarrow> ContractRef \<Rightarrow> Address \<Rightarrow> bytes \<Rightarrow> uint64 \<Rightarrow> EVM \<Rightarrow>
    (bytes \<times> uint64 \<times> vm_error option \<times> EVM) option" where
  "EVM_StaticCall x R caller addr input gas evm =
    (if cx_NoRecursion x \<and> e_depth evm > 0 then Some ([], gas, None, evm)
     else if e_depth evm > CallCreateDepth then Some ([], gas, Some ErrDepth, evm)
     else do {
       let (snapshot, evm) = takeSnapshot evm;
       let (k, evm) = NewContract caller addr (Some 0) gas evm;
       let (k, evm) = loadCode addr k evm;
       r \<leftarrow> run_contract x R k input True evm;
       finishCall snapshot r })"

section \<open>Creating contracts\<close>

definition MaxCodeSize :: nat where "MaxCodeSize = 24576"

text \<open>
  What follows the run of the creation code: the returned code is stored if it is not too long and can be
  paid for. Before Homestead, code that cannot be paid for is not an error that reverts.
\<close>

definition finishCreate :: "VMContext \<Rightarrow> Address \<Rightarrow> nat \<Rightarrow> (bytes \<times> vm_error option) \<times> uint64 \<times> EVM \<Rightarrow>
    (bytes \<times> Address \<times> uint64 \<times> vm_error option \<times> EVM) option" where
  "finishCreate x address snapshot = (\<lambda>((ret, err), gas, evm). do {
     let maxCodeSizeExceeded = (isEIP158 x \<and> length ret > MaxCodeSize);
     let createDataGas = of_nat (length ret) * CreateDataGas;
     (err, gas, evm) \<leftarrow> (if err = None \<and> \<not> maxCodeSizeExceeded then
         if gas < createDataGas then Some (Some ErrCodeStoreOutOfGas, gas, evm)
         else do { db \<leftarrow> SetCode (e_db evm) address ret; Some (None, gas - createDataGas, evm\<lparr>e_db := db\<rparr>) }
       else Some (err, gas, evm));
     (gas, evm) \<leftarrow> (if maxCodeSizeExceeded \<or> err \<noteq> None \<and> (isHomestead x \<or> err \<noteq> Some ErrCodeStoreOutOfGas) then do {
         db \<leftarrow> RevertToSnapshot (e_db evm) snapshot;
         Some (if err \<noteq> Some errExecutionReverted then 0 else gas, evm\<lparr>e_db := db\<rparr>) }
       else Some (gas, evm));
     Some (ret, address, gas, if maxCodeSizeExceeded \<and> err = None then Some errMaxCodeSizeExceeded else err, evm) })"

definition EVM_create :: "VMContext \<Rightarrow> Runner \<Rightarrow> ContractRef \<Rightarrow> bytes \<Rightarrow> uint64 \<Rightarrow> int \<Rightarrow> Address \<Rightarrow> EVM \<Rightarrow>
    (bytes \<times> Address \<times> uint64 \<times> vm_error option \<times> EVM) option" where
  "EVM_create x R caller code' gas val address evm =
    (if e_depth evm > CallCreateDepth then Some ([], 0, gas, Some ErrDepth, evm)
     else do {
       (can, db) \<leftarrow> CanTransfer (e_db evm) (ref_Address caller) val;
       if \<not> can then Some ([], 0, gas, Some ErrInsufficientBalance, evm\<lparr>e_db := db\<rparr>)
       else do {
         let (nonce, db) = GetNonce db (ref_Address caller);
         db \<leftarrow> SetNonce db (ref_Address caller) (nonce + 1);
         let (contractHash, db) = GetCodeHash db address;
         let (n, db) = GetNonce db address;
         if n \<noteq> 0 \<or> contractHash \<noteq> 0 \<and> contractHash \<noteq> emptyCodeHash (env db) then
           Some ([], 0, 0, Some ErrContractAddressCollision, evm\<lparr>e_db := db\<rparr>)
         else do {
           let (snapshot, db) = Snapshot db;
           db \<leftarrow> CreateAccount db address;
           db \<leftarrow> (if isEIP158 x then SetNonce db address 1 else Some db);
           db \<leftarrow> Transfer db (ref_Address caller) address val;
           let (k, evm) = NewContract caller address (Some val) gas (evm\<lparr>e_db := db\<rparr>);
           let k = SetCallCode address (Keccak256Hash (env db) code') code' k;
           if cx_NoRecursion x \<and> e_depth evm > 0 then Some ([], address, gas, None, evm)
           else do {
             r \<leftarrow> run_contract x R k [] False evm;
             finishCreate x address snapshot r } } } })"

definition CreateAddress :: "(bytes \<Rightarrow> Hash) \<Rightarrow> Address \<Rightarrow> uint64 \<Rightarrow> Address" where
  "CreateAddress keccak b nonce =
    (case rlp_EncodeToBytes (StructT [ByteArrayT 20, UintT 64]) (ListV [BytesV (address_bytes b), UintV nonce]) of
      Some (Inr d) \<Rightarrow> ucast (keccak d)
    | _ \<Rightarrow> ucast (keccak []))"

definition CreateAddress2 :: "(bytes \<Rightarrow> Hash) \<Rightarrow> Address \<Rightarrow> Hash \<Rightarrow> bytes \<Rightarrow> Address" where
  "CreateAddress2 keccak b salt code' =
    ucast (keccak (0xff # address_bytes b @ hash_bytes salt @ hash_bytes (keccak code')))"

definition EVM_Create :: "VMContext \<Rightarrow> Runner \<Rightarrow> ContractRef \<Rightarrow> bytes \<Rightarrow> uint64 \<Rightarrow> int \<Rightarrow> EVM \<Rightarrow>
    (bytes \<times> Address \<times> uint64 \<times> vm_error option \<times> EVM) option" where
  "EVM_Create x R caller code' gas val evm = (let (nonce, db) = GetNonce (e_db evm) (ref_Address caller) in
     EVM_create x R caller code' gas val (CreateAddress (Keccak256Hash (env db)) (ref_Address caller) nonce) (evm\<lparr>e_db := db\<rparr>))"

definition EVM_Create2 :: "VMContext \<Rightarrow> Runner \<Rightarrow> ContractRef \<Rightarrow> bytes \<Rightarrow> uint64 \<Rightarrow> int \<Rightarrow> int \<Rightarrow> EVM \<Rightarrow>
    (bytes \<times> Address \<times> uint64 \<times> vm_error option \<times> EVM) option" where
  "EVM_Create2 x R caller code' gas endowment salt evm =
    EVM_create x R caller code' gas endowment
      (CreateAddress2 (Keccak256Hash (env (e_db evm))) (ref_Address caller) (BigToHash salt) code') evm"

end
