(* ===== verification/Evm_Ops.thy ===== *)
theory Evm_Ops
  imports Evm_Calls
begin

text \<open>
  The operations of the virtual machine (\<open>core/vm/instructions.go\<close>), one definition each. The pool of integers
  is a matter of allocation and does not show.
\<close>

section \<open>Arithmetic and comparison\<close>

definition ok :: "Machine \<Rightarrow> ((vm_error + bytes) \<times> Machine) option" where
  "ok m = Some (Inr [], m)"

definition unary :: "(int \<Rightarrow> int) \<Rightarrow> executionFunc" where
  "unary f x R m = do { (a, st) \<leftarrow> pop (m_stack m); ok (m\<lparr>m_stack := f a # st\<rparr>) }"

definition binary :: "(int \<Rightarrow> int \<Rightarrow> int) \<Rightarrow> executionFunc" where
  "binary f x R m = do {
     (a, st) \<leftarrow> pop (m_stack m);
     (b, st) \<leftarrow> pop st;
     ok (m\<lparr>m_stack := f a b # st\<rparr>) }"

definition ternary :: "(int \<Rightarrow> int \<Rightarrow> int \<Rightarrow> int) \<Rightarrow> executionFunc" where
  "ternary f x R m = do {
     (a, st) \<leftarrow> pop (m_stack m);
     (b, st) \<leftarrow> pop st;
     (c, st) \<leftarrow> pop st;
     ok (m\<lparr>m_stack := f a b c # st\<rparr>) }"

definition opAdd :: executionFunc where "opAdd = binary (\<lambda>x y. U256 (x + y))"
definition opSub :: executionFunc where "opSub = binary (\<lambda>x y. U256 (x - y))"
definition opMul :: executionFunc where "opMul = binary (\<lambda>x y. U256 (x * y))"
definition opDiv :: executionFunc where "opDiv = binary (\<lambda>x y. if y \<noteq> 0 then U256 (x div y) else 0)"

definition opSdiv :: executionFunc where
  "opSdiv = binary (\<lambda>a b. let x = S256 a; y = S256 b in
     if y = 0 \<or> x = 0 then 0
     else if sgn x \<noteq> sgn y then U256 (- (\<bar>x\<bar> div \<bar>y\<bar>))
     else U256 (\<bar>x\<bar> div \<bar>y\<bar>))"

definition opMod :: executionFunc where "opMod = binary (\<lambda>x y. if y = 0 then 0 else U256 (x mod y))"

definition opSmod :: executionFunc where
  "opSmod = binary (\<lambda>a b. let x = S256 a; y = S256 b in
     if y = 0 then 0
     else if x < 0 then U256 (- (\<bar>x\<bar> mod \<bar>y\<bar>))
     else U256 (\<bar>x\<bar> mod \<bar>y\<bar>))"

definition opExp :: executionFunc where "opExp = binary (\<lambda>base exponent. Exp base exponent)"

definition signExtend :: "int \<Rightarrow> int \<Rightarrow> int" where
  "signExtend back num = (let b = unat (Uint64 back * 8 + 7); mask = 2 ^ b - 1 in
     U256 (if bit num b then num OR NOT mask else num AND mask))"

definition opSignExtend :: executionFunc where
  "opSignExtend x R m = do {
     (back, st) \<leftarrow> pop (m_stack m);
     if back < 31 then do {
       (num, st) \<leftarrow> pop st;
       ok (m\<lparr>m_stack := signExtend back num # st\<rparr>) }
     else ok (m\<lparr>m_stack := st\<rparr>) }"

definition opNot :: executionFunc where "opNot = unary (\<lambda>x. U256 (NOT x))"
definition opLt :: executionFunc where "opLt = binary (\<lambda>x y. if x < y then 1 else 0)"
definition opGt :: executionFunc where "opGt = binary (\<lambda>x y. if x > y then 1 else 0)"

definition opSlt :: executionFunc where
  "opSlt = binary (\<lambda>x y.
     if x \<ge> tt255 \<and> y < tt255 then 1
     else if x < tt255 \<and> y \<ge> tt255 then 0
     else if x < y then 1 else 0)"

definition opSgt :: executionFunc where
  "opSgt = binary (\<lambda>x y.
     if x \<ge> tt255 \<and> y < tt255 then 0
     else if x < tt255 \<and> y \<ge> tt255 then 1
     else if x > y then 1 else 0)"

definition opEq :: executionFunc where "opEq = binary (\<lambda>x y. if x = y then 1 else 0)"
definition opIszero :: executionFunc where "opIszero = unary (\<lambda>x. if x > 0 then 0 else 1)"
definition opAnd :: executionFunc where "opAnd = binary (\<lambda>x y. x AND y)"
definition opOr :: executionFunc where "opOr = binary (\<lambda>x y. x OR y)"
definition opXor :: executionFunc where "opXor = binary (\<lambda>x y. x XOR y)"

definition opByte :: executionFunc where
  "opByte = binary (\<lambda>th val. if th < 32 then uint (Byte val 32 (nat (Int64 th))) else 0)"

definition opAddmod :: executionFunc where
  "opAddmod = ternary (\<lambda>x y z. if z > 0 then U256 ((x + y) mod z) else 0)"

definition opMulmod :: executionFunc where
  "opMulmod = ternary (\<lambda>x y z. if z > 0 then U256 ((x * y) mod z) else 0)"

definition opSHL :: executionFunc where
  "opSHL = binary (\<lambda>a b. let shift = U256 a; val = U256 b in
     if shift \<ge> 256 then 0 else U256 (push_bit (unat (Uint64 shift)) val))"

definition opSHR :: executionFunc where
  "opSHR = binary (\<lambda>a b. let shift = U256 a; val = U256 b in
     if shift \<ge> 256 then 0 else U256 (drop_bit (unat (Uint64 shift)) val))"

definition opSAR :: executionFunc where
  "opSAR = binary (\<lambda>a b. let shift = U256 a; val = S256 b in
     if shift \<ge> 256 then U256 (if val \<ge> 0 then 0 else - 1)
     else U256 (drop_bit (unat (Uint64 shift)) val))"

section \<open>The environment\<close>

definition pushes :: "(VMContext \<Rightarrow> Machine \<Rightarrow> int) \<Rightarrow> executionFunc" where
  "pushes f x R m = ok (m\<lparr>m_stack := f x m # m_stack m\<rparr>)"

definition with_db :: "StateDB \<Rightarrow> Machine \<Rightarrow> Machine" where
  "with_db db m = m\<lparr>m_evm := (m_evm m)\<lparr>e_db := db\<rparr>\<rparr>"

abbreviation db_of :: "Machine \<Rightarrow> StateDB" where "db_of m \<equiv> e_db (m_evm m)"

definition opSha3 :: executionFunc where
  "opSha3 x R m = do {
     (offset, st) \<leftarrow> pop (m_stack m);
     (size', st) \<leftarrow> pop st;
     d \<leftarrow> Memory_Get (Int64 offset) (Int64 size') (m_mem m);
     let h = Keccak256Hash (env (db_of m)) d;
     let m = (if cx_EnablePreimageRecording x then with_db (AddPreimage (db_of m) h d) m else m);
     ok (m\<lparr>m_stack := SetBytes (hash_bytes h) # st\<rparr>) }"

definition opAddress :: executionFunc where "opAddress = pushes (\<lambda>x m. AddressBig (ct_self (m_contract m)))"

definition opBalance :: executionFunc where
  "opBalance x R m = do {
     (slot, st) \<leftarrow> pop (m_stack m);
     (b, db) \<leftarrow> GetBalance (db_of m) SystemAssetID (BigToAddress slot);
     b \<leftarrow> b;
     ok (with_db db (m\<lparr>m_stack := b # st\<rparr>)) }"

definition opOrigin :: executionFunc where "opOrigin = pushes (\<lambda>x m. AddressBig (cx_Origin x))"
definition opCaller :: executionFunc where "opCaller = pushes (\<lambda>x m. AddressBig (ct_CallerAddress (m_contract m)))"

definition opCallValue :: executionFunc where
  "opCallValue x R m = do { v \<leftarrow> ct_value (m_contract m); ok (m\<lparr>m_stack := v # m_stack m\<rparr>) }"

definition opCallDataLoad :: executionFunc where
  "opCallDataLoad x R m = do {
     (off, st) \<leftarrow> pop (m_stack m);
     ok (m\<lparr>m_stack := SetBytes (getDataBig (ct_Input (m_contract m)) off 32) # st\<rparr>) }"

definition opCallDataSize :: executionFunc where "opCallDataSize = pushes (\<lambda>x m. int (length (ct_Input (m_contract m))))"

text \<open>The copies: memory offset, data offset and length are on the stack.\<close>

definition copyToMemory :: "bytes \<Rightarrow> Stack \<Rightarrow> Machine \<Rightarrow> ((vm_error + bytes) \<times> Machine) option" where
  "copyToMemory src st m = do {
     (memOffset, st) \<leftarrow> pop st;
     (dataOffset, st) \<leftarrow> pop st;
     (l, st) \<leftarrow> pop st;
     mem \<leftarrow> Memory_Set (Uint64 memOffset) (Uint64 l) (getDataBig src dataOffset l) (m_mem m);
     ok (m\<lparr>m_stack := st, m_mem := mem\<rparr>) }"

definition opCallDataCopy :: executionFunc where
  "opCallDataCopy x R m = copyToMemory (ct_Input (m_contract m)) (m_stack m) m"

definition opReturnDataSize :: executionFunc where "opReturnDataSize = pushes (\<lambda>x m. int (length (e_returnData (m_evm m))))"

definition opReturnDataCopy :: executionFunc where
  "opReturnDataCopy x R m = do {
     (memOffset, st) \<leftarrow> pop (m_stack m);
     (dataOffset, st) \<leftarrow> pop st;
     (l, st) \<leftarrow> pop st;
     let ende = dataOffset + l;
     let rd = e_returnData (m_evm m);
     if BitLen ende > 64 \<or> of_nat (length rd) < Uint64 ende then Some (Inl errReturnDataOutOfBounds, m\<lparr>m_stack := st\<rparr>)
     else do {
       let s = unat (Uint64 dataOffset);
       mem \<leftarrow> Memory_Set (Uint64 memOffset) (Uint64 l) (take (unat (Uint64 ende) - s) (drop s rd)) (m_mem m);
       ok (m\<lparr>m_stack := st, m_mem := mem\<rparr>) } }"

definition GetCodeSize :: "StateDB \<Rightarrow> Address \<Rightarrow> nat \<times> StateDB" where
  "GetCodeSize db addr = (let (so, db) = getStateObject db addr in
     (case so of
        None \<Rightarrow> 0
      | Some s \<Rightarrow> (case code s of Some c \<Rightarrow> length c | None \<Rightarrow> length (codeOf (contractCode (env db) (CodeHash (data s))))), db))"

definition opExtCodeSize :: executionFunc where
  "opExtCodeSize x R m = do {
     (slot, st) \<leftarrow> pop (m_stack m);
     let (n, db) = GetCodeSize (db_of m) (BigToAddress slot);
     ok (with_db db (m\<lparr>m_stack := int n # st\<rparr>)) }"

definition opCodeSize :: executionFunc where "opCodeSize = pushes (\<lambda>x m. int (length (ct_Code (m_contract m))))"
definition opCodeCopy :: executionFunc where "opCodeCopy x R m = copyToMemory (ct_Code (m_contract m)) (m_stack m) m"

definition opExtCodeCopy :: executionFunc where
  "opExtCodeCopy x R m = do {
     (a, st) \<leftarrow> pop (m_stack m);
     let (c, db) = GetCode (db_of m) (BigToAddress a);
     copyToMemory (codeOf c) st (with_db db m) }"

definition opExtCodeHash :: executionFunc where
  "opExtCodeHash x R m = do {
     (slot, st) \<leftarrow> pop (m_stack m);
     let (h, db) = GetCodeHash (db_of m) (BigToAddress slot);
     ok (with_db db (m\<lparr>m_stack := SetBytes (hash_bytes h) # st\<rparr>)) }"

definition opGasprice :: executionFunc where "opGasprice = pushes (\<lambda>x m. cx_GasPrice x)"

definition opBlockhash :: executionFunc where
  "opBlockhash x R m = do {
     (num, st) \<leftarrow> pop (m_stack m);
     ok (m\<lparr>m_stack := (if num > cx_BlockNumber x - 257 \<and> num < cx_BlockNumber x then HashBig (cx_GetHash x (Uint64 num)) else 0) # st\<rparr>) }"

definition opCoinbase :: executionFunc where "opCoinbase = pushes (\<lambda>x m. AddressBig (cx_Coinbase x))"
definition opTimestamp :: executionFunc where "opTimestamp = pushes (\<lambda>x m. U256 (cx_Time x))"
definition opNumber :: executionFunc where "opNumber = pushes (\<lambda>x m. U256 (cx_BlockNumber x))"
definition opDifficulty :: executionFunc where "opDifficulty = pushes (\<lambda>x m. U256 (cx_Difficulty x))"
definition opGasLimit :: executionFunc where "opGasLimit = pushes (\<lambda>x m. U256 (uint (cx_GasLimit x)))"

section \<open>Memory, storage and jumps\<close>

definition opPop :: executionFunc where
  "opPop x R m = do { (_, st) \<leftarrow> pop (m_stack m); ok (m\<lparr>m_stack := st\<rparr>) }"

definition opMload :: executionFunc where
  "opMload x R m = do {
     (offset, st) \<leftarrow> pop (m_stack m);
     d \<leftarrow> Memory_Get (Int64 offset) 32 (m_mem m);
     ok (m\<lparr>m_stack := SetBytes d # st\<rparr>) }"

definition opMstore :: executionFunc where
  "opMstore x R m = do {
     (mStart, st) \<leftarrow> pop (m_stack m);
     (val, st) \<leftarrow> pop st;
     mem \<leftarrow> Memory_Set32 (Uint64 mStart) val (m_mem m);
     ok (m\<lparr>m_stack := st, m_mem := mem\<rparr>) }"

definition opMstore8 :: executionFunc where
  "opMstore8 x R m = do {
     (off, st) \<leftarrow> pop (m_stack m);
     (val, st) \<leftarrow> pop st;
     if Int64 off < 0 then None
     else do {
       s \<leftarrow> goUpdate (store (m_mem m)) (nat (Int64 off)) (of_int (Int64 val AND 0xff));
       ok (m\<lparr>m_stack := st, m_mem := (m_mem m)\<lparr>store := s\<rparr>\<rparr>) } }"

definition opSload :: executionFunc where
  "opSload x R m = do {
     (loc, st) \<leftarrow> pop (m_stack m);
     let (v, db) = GetState (db_of m) (ct_self (m_contract m)) (BigToHash loc);
     ok (with_db db (m\<lparr>m_stack := SetBytes (hash_bytes v) # st\<rparr>)) }"

definition opSstore :: executionFunc where
  "opSstore x R m = do {
     (loc, st) \<leftarrow> pop (m_stack m);
     (val, st) \<leftarrow> pop st;
     db \<leftarrow> SetState (db_of m) (ct_self (m_contract m)) (BigToHash loc) (BigToHash val);
     ok (with_db db (m\<lparr>m_stack := st\<rparr>)) }"

text \<open>The destination is looked up in the shared map, which the look-up may extend.\<close>

definition jumpTo :: "int \<Rightarrow> Machine \<Rightarrow> ((vm_error + bytes) \<times> Machine) option" where
  "jumpTo pos m = do {
     let k = m_contract m;
     (valid, d) \<leftarrow> destinations_has (e_jumpdests (m_evm m)) (ct_CodeHash k) (ct_Code k) pos;
     let m = m\<lparr>m_evm := (m_evm m)\<lparr>e_jumpdests := d\<rparr>\<rparr>;
     if \<not> valid then Some (Inl (InvalidJump (GetByte k (Uint64 pos)) pos), m)
     else ok (m\<lparr>m_pc := Uint64 pos\<rparr>) }"

definition opJump :: executionFunc where
  "opJump x R m = do { (pos, st) \<leftarrow> pop (m_stack m); jumpTo pos (m\<lparr>m_stack := st\<rparr>) }"

definition opJumpi :: executionFunc where
  "opJumpi x R m = do {
     (pos, st) \<leftarrow> pop (m_stack m);
     (cond, st) \<leftarrow> pop st;
     if cond \<noteq> 0 then jumpTo pos (m\<lparr>m_stack := st\<rparr>)
     else ok (m\<lparr>m_stack := st, m_pc := m_pc m + 1\<rparr>) }"

definition opJumpdest :: executionFunc where "opJumpdest x R m = ok m"
definition opPc :: executionFunc where "opPc = pushes (\<lambda>x m. uint (m_pc m))"
definition opMsize :: executionFunc where "opMsize = pushes (\<lambda>x m. int (length (store (m_mem m))))"
definition opGas :: executionFunc where "opGas = pushes (\<lambda>x m. uint (ct_Gas (m_contract m)))"

section \<open>Calls, returns and logs\<close>

definition set_gas :: "uint64 \<Rightarrow> Machine \<Rightarrow> Machine" where
  "set_gas g m = m\<lparr>m_contract := (m_contract m)\<lparr>ct_Gas := g\<rparr>\<rparr>"

abbreviation gas_of :: "Machine \<Rightarrow> uint64" where "gas_of m \<equiv> ct_Gas (m_contract m)"

definition opCreate :: executionFunc where
  "opCreate x R m = do {
     (val, st) \<leftarrow> pop (m_stack m);
     (offset, st) \<leftarrow> pop st;
     (size', st) \<leftarrow> pop st;
     input \<leftarrow> Memory_Get (Int64 offset) (Int64 size') (m_mem m);
     let gas = gas_of m;
     let gas = (if isEIP150 x then gas - gas div 64 else gas);
     let m = set_gas (gas_of m - gas) m;
     (res, addr, returnGas, suberr, evm) \<leftarrow> EVM_Create x R (ContractOf (m_contract m)) input gas val (m_evm m);
     let item = (if isHomestead x \<and> suberr = Some ErrCodeStoreOutOfGas then 0
                 else if suberr \<noteq> None \<and> suberr \<noteq> Some ErrCodeStoreOutOfGas then 0
                 else AddressBig addr);
     let m = set_gas (gas_of m + returnGas) (m\<lparr>m_stack := item # st, m_evm := evm\<rparr>);
     Some (Inr (if suberr = Some errExecutionReverted then res else []), m) }"

definition opCreate2 :: executionFunc where
  "opCreate2 x R m = do {
     (endowment, st) \<leftarrow> pop (m_stack m);
     (offset, st) \<leftarrow> pop st;
     (size', st) \<leftarrow> pop st;
     (salt, st) \<leftarrow> pop st;
     input \<leftarrow> Memory_Get (Int64 offset) (Int64 size') (m_mem m);
     let gas = gas_of m - gas_of m div 64;
     let m = set_gas (gas_of m - gas) m;
     (res, addr, returnGas, suberr, evm) \<leftarrow> EVM_Create2 x R (ContractOf (m_contract m)) input gas endowment salt (m_evm m);
     let item = (if suberr \<noteq> None then 0 else AddressBig addr);
     let m = set_gas (gas_of m + returnGas) (m\<lparr>m_stack := item # st, m_evm := evm\<rparr>);
     Some (Inr (if suberr = Some errExecutionReverted then res else []), m) }"

text \<open>What follows every call: its success, the returned data and the returned gas.\<close>

definition afterCall :: "int \<Rightarrow> int \<Rightarrow> Stack \<Rightarrow> Machine \<Rightarrow> bytes \<times> uint64 \<times> vm_error option \<times> EVM \<Rightarrow> ((vm_error + bytes) \<times> Machine) option" where
  "afterCall retOffset retSize st m = (\<lambda>(ret, returnGas, err, evm). do {
     mem \<leftarrow> (if err = None \<or> err = Some errExecutionReverted then Memory_Set (Uint64 retOffset) (Uint64 retSize) ret (m_mem m)
             else Some (m_mem m));
     let m = m\<lparr>m_stack := (if err \<noteq> None then 0 else 1) # st, m_mem := mem, m_evm := evm\<rparr>;
     Some (Inr ret, set_gas (gas_of m + returnGas) m) })"

definition opCall :: executionFunc where
  "opCall x R m = do {
     (_, st) \<leftarrow> pop (m_stack m);
     let gas = e_callGasTemp (m_evm m);
     (addr, st) \<leftarrow> pop st;
     (val, st) \<leftarrow> pop st;
     (inOffset, st) \<leftarrow> pop st;
     (inSize, st) \<leftarrow> pop st;
     (retOffset, st) \<leftarrow> pop st;
     (retSize, st) \<leftarrow> pop st;
     let val = U256 val;
     args \<leftarrow> Memory_Get (Int64 inOffset) (Int64 inSize) (m_mem m);
     let gas = (if val \<noteq> 0 then gas + CallStipend else gas);
     r \<leftarrow> EVM_Call x R (ContractOf (m_contract m)) (BigToAddress addr) args gas val (m_evm m);
     afterCall retOffset retSize st m r }"

definition opCallCode :: executionFunc where
  "opCallCode x R m = do {
     (_, st) \<leftarrow> pop (m_stack m);
     let gas = e_callGasTemp (m_evm m);
     (addr, st) \<leftarrow> pop st;
     (val, st) \<leftarrow> pop st;
     (inOffset, st) \<leftarrow> pop st;
     (inSize, st) \<leftarrow> pop st;
     (retOffset, st) \<leftarrow> pop st;
     (retSize, st) \<leftarrow> pop st;
     let val = U256 val;
     args \<leftarrow> Memory_Get (Int64 inOffset) (Int64 inSize) (m_mem m);
     let gas = (if val \<noteq> 0 then gas + CallStipend else gas);
     r \<leftarrow> EVM_CallCode x R (ContractOf (m_contract m)) (BigToAddress addr) args gas val (m_evm m);
     afterCall retOffset retSize st m r }"

definition opDelegateCall :: executionFunc where
  "opDelegateCall x R m = do {
     (_, st) \<leftarrow> pop (m_stack m);
     let gas = e_callGasTemp (m_evm m);
     (addr, st) \<leftarrow> pop st;
     (inOffset, st) \<leftarrow> pop st;
     (inSize, st) \<leftarrow> pop st;
     (retOffset, st) \<leftarrow> pop st;
     (retSize, st) \<leftarrow> pop st;
     args \<leftarrow> Memory_Get (Int64 inOffset) (Int64 inSize) (m_mem m);
     r \<leftarrow> EVM_DelegateCall x R (ContractOf (m_contract m)) (BigToAddress addr) args gas (m_evm m);
     afterCall retOffset retSize st m r }"

definition opStaticCall :: executionFunc where
  "opStaticCall x R m = do {
     (_, st) \<leftarrow> pop (m_stack m);
     let gas = e_callGasTemp (m_evm m);
     (addr, st) \<leftarrow> pop st;
     (inOffset, st) \<leftarrow> pop st;
     (inSize, st) \<leftarrow> pop st;
     (retOffset, st) \<leftarrow> pop st;
     (retSize, st) \<leftarrow> pop st;
     args \<leftarrow> Memory_Get (Int64 inOffset) (Int64 inSize) (m_mem m);
     r \<leftarrow> EVM_StaticCall x R (ContractOf (m_contract m)) (BigToAddress addr) args gas (m_evm m);
     afterCall retOffset retSize st m r }"

definition opReturn :: executionFunc where
  "opReturn x R m = do {
     (offset, st) \<leftarrow> pop (m_stack m);
     (size', st) \<leftarrow> pop st;
     ret \<leftarrow> Memory_Get (Int64 offset) (Int64 size') (m_mem m);
     Some (Inr ret, m\<lparr>m_stack := st\<rparr>) }"

definition opRevert :: executionFunc where
  "opRevert x R m = do {
     (offset, st) \<leftarrow> pop (m_stack m);
     (size', st) \<leftarrow> pop st;
     ret \<leftarrow> Memory_Get (Int64 offset) (Int64 size') (m_mem m);
     Some (Inr ret, m\<lparr>m_stack := st\<rparr>) }"

definition opStop :: executionFunc where "opStop x R m = ok m"

definition opSuicide :: executionFunc where
  "opSuicide x R m = do {
     let self = ct_self (m_contract m);
     (b, db) \<leftarrow> GetBalance (db_of m) SystemAssetID self;
     (a, st) \<leftarrow> pop (m_stack m);
     b \<leftarrow> b;
     db \<leftarrow> AddBalance db (BigToAddress a) SystemAssetID b;
     (_, db) \<leftarrow> Suicide db self;
     ok (with_db db (m\<lparr>m_stack := st\<rparr>)) }"

fun pops :: "nat \<Rightarrow> Stack \<Rightarrow> (int list \<times> Stack) option" where
  "pops 0 st = Some ([], st)"
| "pops (Suc n) st = do { (a, st) \<leftarrow> pop st; (as, st) \<leftarrow> pops n st; Some (a # as, st) }"

definition makeLog :: "nat \<Rightarrow> executionFunc" where
  "makeLog n x R m = do {
     (mStart, st) \<leftarrow> pop (m_stack m);
     (mSize, st) \<leftarrow> pop st;
     (ts, st) \<leftarrow> pops n st;
     d \<leftarrow> Memory_Get (Int64 mStart) (Int64 mSize) (m_mem m);
     let db = AddLog (db_of m) \<lparr>L_Address = ct_self (m_contract m), L_Topics = map BigToHash ts, L_Data = d,
       L_BlockNumber = Uint64 (cx_BlockNumber x), L_TxHash = 0, L_TxIndex = 0, L_BlockHash = 0, L_Index = 0, L_Removed = False\<rparr>;
     ok (with_db db (m\<lparr>m_stack := st\<rparr>)) }"

text \<open>The argument of a push that the code ends before is filled with zeros; \<open>pc + 1\<close> wraps like \<open>uint64\<close>.\<close>

definition makePush :: "nat \<Rightarrow> executionFunc" where
  "makePush n x R m = (let
     c = ct_Code (m_contract m);
     i = sint (m_pc m + 1);
     startMin = (if i < int (length c) then i else int (length c));
     endMin = (if startMin + int n < int (length c) then startMin + int n else int (length c))
   in if startMin < 0 \<or> endMin < startMin then None
      else ok (m\<lparr>m_stack := SetBytes (RightPadBytes (take (nat endMin - nat startMin) (drop (nat startMin) c)) (int n)) # m_stack m,
        m_pc := m_pc m + of_nat n\<rparr>))"

definition makeDup :: "nat \<Rightarrow> executionFunc" where
  "makeDup n x R m = do { st \<leftarrow> dup n (m_stack m); ok (m\<lparr>m_stack := st\<rparr>) }"

definition makeSwap :: "nat \<Rightarrow> executionFunc" where
  "makeSwap n x R m = do { st \<leftarrow> swap (n + 1) (m_stack m); ok (m\<lparr>m_stack := st\<rparr>) }"

end
