(* ===== verification/Evm_Machine.thy ===== *)
theory Evm_Machine
  imports Evm_Ops
begin

text \<open>
  The instruction sets (\<open>core/vm/opcodes.go\<close>, \<open>core/vm/jump_table.go\<close>) and the interpreter
  (\<open>core/vm/interpreter.go\<close>). An instruction set lists its valid operations; a later entry of the source's array
  is an earlier entry of the list. The tracer and the abort flag, which only stop a run from outside, are left out.
\<close>

section \<open>Operation codes\<close>

text \<open>The numbered families \<open>PUSH1\<close> to \<open>PUSH32\<close>, \<open>DUP1\<close> to \<open>DUP16\<close>, \<open>SWAP1\<close> to \<open>SWAP16\<close> and
  \<open>LOG0\<close> to \<open>LOG4\<close> take their number as an argument.\<close>

datatype (plugins only: size) OpCode =
    STOP | ADD | MUL | SUB | DIV | SDIV | MOD | SMOD | ADDMOD | MULMOD | EXP | SIGNEXTEND
  | LT | GT | SLT | SGT | EQ | ISZERO | ANDop | ORop | XORop | NOTop | BYTE | SHL | SHR | SAR | SHA3
  | ADDRESS | BALANCE | ORIGIN | CALLER | CALLVALUE | CALLDATALOAD | CALLDATASIZE | CALLDATACOPY | CODESIZE | CODECOPY
  | GASPRICE | EXTCODESIZE | EXTCODECOPY | RETURNDATASIZE | RETURNDATACOPY | EXTCODEHASH
  | BLOCKHASH | COINBASE | TIMESTAMP | NUMBER | DIFFICULTY | GASLIMIT
  | POP | MLOAD | MSTORE | MSTORE8 | SLOAD | SSTORE | JUMP | JUMPI | PC | MSIZE | GAS | JUMPDEST
  | PUSH nat | DUP nat | SWAP nat | LOG nat
  | CREATE | CALL | CALLCODE | RETURN | DELEGATECALL | CREATE2 | STATICCALL | REVERT | SELFDESTRUCT

primrec byteOf :: "OpCode \<Rightarrow> uint8" where
  "byteOf STOP = 0x00"
| "byteOf ADD = 0x01"
| "byteOf MUL = 0x02"
| "byteOf SUB = 0x03"
| "byteOf DIV = 0x04"
| "byteOf SDIV = 0x05"
| "byteOf MOD = 0x06"
| "byteOf SMOD = 0x07"
| "byteOf ADDMOD = 0x08"
| "byteOf MULMOD = 0x09"
| "byteOf EXP = 0x0a"
| "byteOf SIGNEXTEND = 0x0b"
| "byteOf LT = 0x10"
| "byteOf GT = 0x11"
| "byteOf SLT = 0x12"
| "byteOf SGT = 0x13"
| "byteOf EQ = 0x14"
| "byteOf ISZERO = 0x15"
| "byteOf ANDop = 0x16"
| "byteOf ORop = 0x17"
| "byteOf XORop = 0x18"
| "byteOf NOTop = 0x19"
| "byteOf BYTE = 0x1a"
| "byteOf SHL = 0x1b"
| "byteOf SHR = 0x1c"
| "byteOf SAR = 0x1d"
| "byteOf SHA3 = 0x20"
| "byteOf ADDRESS = 0x30"
| "byteOf BALANCE = 0x31"
| "byteOf ORIGIN = 0x32"
| "byteOf CALLER = 0x33"
| "byteOf CALLVALUE = 0x34"
| "byteOf CALLDATALOAD = 0x35"
| "byteOf CALLDATASIZE = 0x36"
| "byteOf CALLDATACOPY = 0x37"
| "byteOf CODESIZE = 0x38"
| "byteOf CODECOPY = 0x39"
| "byteOf GASPRICE = 0x3a"
| "byteOf EXTCODESIZE = 0x3b"
| "byteOf EXTCODECOPY = 0x3c"
| "byteOf RETURNDATASIZE = 0x3d"
| "byteOf RETURNDATACOPY = 0x3e"
| "byteOf EXTCODEHASH = 0x3f"
| "byteOf BLOCKHASH = 0x40"
| "byteOf COINBASE = 0x41"
| "byteOf TIMESTAMP = 0x42"
| "byteOf NUMBER = 0x43"
| "byteOf DIFFICULTY = 0x44"
| "byteOf GASLIMIT = 0x45"
| "byteOf POP = 0x50"
| "byteOf MLOAD = 0x51"
| "byteOf MSTORE = 0x52"
| "byteOf MSTORE8 = 0x53"
| "byteOf SLOAD = 0x54"
| "byteOf SSTORE = 0x55"
| "byteOf JUMP = 0x56"
| "byteOf JUMPI = 0x57"
| "byteOf PC = 0x58"
| "byteOf MSIZE = 0x59"
| "byteOf GAS = 0x5a"
| "byteOf JUMPDEST = 0x5b"
| "byteOf (PUSH n) = 0x5f + of_nat n"
| "byteOf (DUP n) = 0x7f + of_nat n"
| "byteOf (SWAP n) = 0x8f + of_nat n"
| "byteOf (LOG n) = 0xa0 + of_nat n"
| "byteOf CREATE = 0xf0"
| "byteOf CALL = 0xf1"
| "byteOf CALLCODE = 0xf2"
| "byteOf RETURN = 0xf3"
| "byteOf DELEGATECALL = 0xf4"
| "byteOf CREATE2 = 0xf5"
| "byteOf STATICCALL = 0xfa"
| "byteOf REVERT = 0xfd"
| "byteOf SELFDESTRUCT = 0xff"

section \<open>Instruction sets\<close>

record operation =
  op_execute :: executionFunc
  op_gasCost :: gasFunc
  op_validateStack :: "Stack \<Rightarrow> vm_error option"
  op_memorySize :: "(Stack \<Rightarrow> int option) option"
  op_halts :: bool
  op_jumps :: bool
  op_writes :: bool
  op_reverts :: bool
  op_returns :: bool

definition operationOf :: "executionFunc \<Rightarrow> gasFunc \<Rightarrow> (Stack \<Rightarrow> vm_error option) \<Rightarrow> operation" where
  "operationOf execute gasCost validateStack = \<lparr>op_execute = execute, op_gasCost = gasCost,
    op_validateStack = validateStack, op_memorySize = None, op_halts = False, op_jumps = False, op_writes = False,
    op_reverts = False, op_returns = False\<rparr>"

definition arithmeticOps :: "(OpCode \<times> operation) list" where
  "arithmeticOps = [
    (STOP, (operationOf opStop (constGasFunc 0) (makeStackFunc 0 0))\<lparr>op_halts := True\<rparr>),
    (ADD, operationOf opAdd (constGasFunc GasFastestStep) (makeStackFunc 2 1)),
    (MUL, operationOf opMul (constGasFunc GasFastStep) (makeStackFunc 2 1)),
    (SUB, operationOf opSub (constGasFunc GasFastestStep) (makeStackFunc 2 1)),
    (DIV, operationOf opDiv (constGasFunc GasFastStep) (makeStackFunc 2 1)),
    (SDIV, operationOf opSdiv (constGasFunc GasFastStep) (makeStackFunc 2 1)),
    (MOD, operationOf opMod (constGasFunc GasFastStep) (makeStackFunc 2 1)),
    (SMOD, operationOf opSmod (constGasFunc GasFastStep) (makeStackFunc 2 1)),
    (ADDMOD, operationOf opAddmod (constGasFunc GasMidStep) (makeStackFunc 3 1)),
    (MULMOD, operationOf opMulmod (constGasFunc GasMidStep) (makeStackFunc 3 1)),
    (EXP, operationOf opExp gasExp (makeStackFunc 2 1)),
    (SIGNEXTEND, operationOf opSignExtend (constGasFunc GasFastStep) (makeStackFunc 2 1))]"

definition comparisonOps :: "(OpCode \<times> operation) list" where
  "comparisonOps = [
    (LT, operationOf opLt (constGasFunc GasFastestStep) (makeStackFunc 2 1)),
    (GT, operationOf opGt (constGasFunc GasFastestStep) (makeStackFunc 2 1)),
    (SLT, operationOf opSlt (constGasFunc GasFastestStep) (makeStackFunc 2 1)),
    (SGT, operationOf opSgt (constGasFunc GasFastestStep) (makeStackFunc 2 1)),
    (EQ, operationOf opEq (constGasFunc GasFastestStep) (makeStackFunc 2 1)),
    (ISZERO, operationOf opIszero (constGasFunc GasFastestStep) (makeStackFunc 1 1)),
    (ANDop, operationOf opAnd (constGasFunc GasFastestStep) (makeStackFunc 2 1)),
    (XORop, operationOf opXor (constGasFunc GasFastestStep) (makeStackFunc 2 1)),
    (ORop, operationOf opOr (constGasFunc GasFastestStep) (makeStackFunc 2 1)),
    (NOTop, operationOf opNot (constGasFunc GasFastestStep) (makeStackFunc 1 1)),
    (BYTE, operationOf opByte (constGasFunc GasFastestStep) (makeStackFunc 2 1))]"

definition environmentOps :: "(OpCode \<times> operation) list" where
  "environmentOps = [
    (SHA3, (operationOf opSha3 gasSha3 (makeStackFunc 2 1))\<lparr>op_memorySize := Some memorySha3\<rparr>),
    (ADDRESS, operationOf opAddress (constGasFunc GasQuickStep) (makeStackFunc 0 1)),
    (BALANCE, operationOf opBalance gasBalance (makeStackFunc 1 1)),
    (ORIGIN, operationOf opOrigin (constGasFunc GasQuickStep) (makeStackFunc 0 1)),
    (CALLER, operationOf opCaller (constGasFunc GasQuickStep) (makeStackFunc 0 1)),
    (CALLVALUE, operationOf opCallValue (constGasFunc GasQuickStep) (makeStackFunc 0 1)),
    (CALLDATALOAD, operationOf opCallDataLoad (constGasFunc GasFastestStep) (makeStackFunc 1 1)),
    (CALLDATASIZE, operationOf opCallDataSize (constGasFunc GasQuickStep) (makeStackFunc 0 1)),
    (CALLDATACOPY, (operationOf opCallDataCopy gasCallDataCopy (makeStackFunc 3 0))\<lparr>op_memorySize := Some memoryCallDataCopy\<rparr>),
    (CODESIZE, operationOf opCodeSize (constGasFunc GasQuickStep) (makeStackFunc 0 1)),
    (CODECOPY, (operationOf opCodeCopy gasCodeCopy (makeStackFunc 3 0))\<lparr>op_memorySize := Some memoryCodeCopy\<rparr>),
    (GASPRICE, operationOf opGasprice (constGasFunc GasQuickStep) (makeStackFunc 0 1)),
    (EXTCODESIZE, operationOf opExtCodeSize gasExtCodeSize (makeStackFunc 1 1)),
    (EXTCODECOPY, (operationOf opExtCodeCopy gasExtCodeCopy (makeStackFunc 4 0))\<lparr>op_memorySize := Some memoryExtCodeCopy\<rparr>)]"

definition blockOps :: "(OpCode \<times> operation) list" where
  "blockOps = [
    (BLOCKHASH, operationOf opBlockhash (constGasFunc GasExtStep) (makeStackFunc 1 1)),
    (COINBASE, operationOf opCoinbase (constGasFunc GasQuickStep) (makeStackFunc 0 1)),
    (TIMESTAMP, operationOf opTimestamp (constGasFunc GasQuickStep) (makeStackFunc 0 1)),
    (NUMBER, operationOf opNumber (constGasFunc GasQuickStep) (makeStackFunc 0 1)),
    (DIFFICULTY, operationOf opDifficulty (constGasFunc GasQuickStep) (makeStackFunc 0 1)),
    (GASLIMIT, operationOf opGasLimit (constGasFunc GasQuickStep) (makeStackFunc 0 1))]"

definition storageOps :: "(OpCode \<times> operation) list" where
  "storageOps = [
    (POP, operationOf opPop (constGasFunc GasQuickStep) (makeStackFunc 1 0)),
    (MLOAD, (operationOf opMload gasMLoad (makeStackFunc 1 1))\<lparr>op_memorySize := Some memoryMLoad\<rparr>),
    (MSTORE, (operationOf opMstore gasMStore (makeStackFunc 2 0))\<lparr>op_memorySize := Some memoryMStore\<rparr>),
    (MSTORE8, (operationOf opMstore8 gasMStore8 (makeStackFunc 2 0))\<lparr>op_memorySize := Some memoryMStore8\<rparr>),
    (SLOAD, operationOf opSload gasSLoad (makeStackFunc 1 1)),
    (SSTORE, (operationOf opSstore gasSStore (makeStackFunc 2 0))\<lparr>op_writes := True\<rparr>),
    (JUMP, (operationOf opJump (constGasFunc GasMidStep) (makeStackFunc 1 0))\<lparr>op_jumps := True\<rparr>),
    (JUMPI, (operationOf opJumpi (constGasFunc GasSlowStep) (makeStackFunc 2 0))\<lparr>op_jumps := True\<rparr>),
    (PC, operationOf opPc (constGasFunc GasQuickStep) (makeStackFunc 0 1)),
    (MSIZE, operationOf opMsize (constGasFunc GasQuickStep) (makeStackFunc 0 1)),
    (GAS, operationOf opGas (constGasFunc GasQuickStep) (makeStackFunc 0 1)),
    (JUMPDEST, operationOf opJumpdest (constGasFunc JumpdestGas) (makeStackFunc 0 0))]"

definition pushOps :: "(OpCode \<times> operation) list" where
  "pushOps = map (\<lambda>n. (PUSH n, operationOf (makePush n) gasPush (makeStackFunc 0 1))) [1..<33]"

definition dupOps :: "(OpCode \<times> operation) list" where
  "dupOps = map (\<lambda>n. (DUP n, operationOf (makeDup n) gasDup (makeDupStackFunc n))) [1..<17]"

definition swapOps :: "(OpCode \<times> operation) list" where
  "swapOps = map (\<lambda>n. (SWAP n, operationOf (makeSwap n) gasSwap (makeSwapStackFunc (n + 1)))) [1..<17]"

definition logOps :: "(OpCode \<times> operation) list" where
  "logOps = [
    (LOG 0, (operationOf (makeLog 0) (makeGasLog 0) (makeStackFunc 2 0))\<lparr>op_memorySize := Some memoryLog, op_writes := True\<rparr>),
    (LOG 1, (operationOf (makeLog 1) (makeGasLog 1) (makeStackFunc 3 0))\<lparr>op_memorySize := Some memoryLog, op_writes := True\<rparr>),
    (LOG 2, (operationOf (makeLog 2) (makeGasLog 2) (makeStackFunc 4 0))\<lparr>op_memorySize := Some memoryLog, op_writes := True\<rparr>),
    (LOG 3, (operationOf (makeLog 3) (makeGasLog 3) (makeStackFunc 5 0))\<lparr>op_memorySize := Some memoryLog, op_writes := True\<rparr>),
    (LOG 4, (operationOf (makeLog 4) (makeGasLog 4) (makeStackFunc 6 0))\<lparr>op_memorySize := Some memoryLog, op_writes := True\<rparr>)]"

definition closureOps :: "(OpCode \<times> operation) list" where
  "closureOps = [
    (CREATE, (operationOf opCreate gasCreate (makeStackFunc 3 1))\<lparr>op_memorySize := Some memoryCreate, op_writes := True, op_returns := True\<rparr>),
    (CALL, (operationOf opCall gasCall (makeStackFunc 7 1))\<lparr>op_memorySize := Some memoryCall, op_returns := True\<rparr>),
    (CALLCODE, (operationOf opCallCode gasCallCode (makeStackFunc 7 1))\<lparr>op_memorySize := Some memoryCall, op_returns := True\<rparr>),
    (RETURN, (operationOf opReturn gasReturn (makeStackFunc 2 0))\<lparr>op_memorySize := Some memoryReturn, op_halts := True\<rparr>),
    (SELFDESTRUCT, (operationOf opSuicide gasSuicide (makeStackFunc 1 0))\<lparr>op_halts := True, op_writes := True\<rparr>)]"

definition newFrontierInstructionSet :: "(OpCode \<times> operation) list" where
  "newFrontierInstructionSet = arithmeticOps @ comparisonOps @ environmentOps @ blockOps @ storageOps @ pushOps @ dupOps @
    swapOps @ logOps @ closureOps"

definition newHomesteadInstructionSet :: "(OpCode \<times> operation) list" where
  "newHomesteadInstructionSet = [
    (DELEGATECALL, (operationOf opDelegateCall gasDelegateCall (makeStackFunc 6 1))\<lparr>op_memorySize := Some memoryDelegateCall, op_returns := True\<rparr>)] @ newFrontierInstructionSet"

definition newByzantiumInstructionSet :: "(OpCode \<times> operation) list" where
  "newByzantiumInstructionSet = [
    (STATICCALL, (operationOf opStaticCall gasStaticCall (makeStackFunc 6 1))\<lparr>op_memorySize := Some memoryStaticCall, op_returns := True\<rparr>),
    (RETURNDATASIZE, operationOf opReturnDataSize (constGasFunc GasQuickStep) (makeStackFunc 0 1)),
    (RETURNDATACOPY, (operationOf opReturnDataCopy gasReturnDataCopy (makeStackFunc 3 0))\<lparr>op_memorySize := Some memoryReturnDataCopy\<rparr>),
    (REVERT, (operationOf opRevert gasRevert (makeStackFunc 2 0))\<lparr>op_memorySize := Some memoryRevert, op_reverts := True, op_returns := True\<rparr>)] @ newHomesteadInstructionSet"

definition newConstantinopleInstructionSet :: "(OpCode \<times> operation) list" where
  "newConstantinopleInstructionSet = [
    (SHL, operationOf opSHL (constGasFunc GasFastestStep) (makeStackFunc 2 1)),
    (SHR, operationOf opSHR (constGasFunc GasFastestStep) (makeStackFunc 2 1)),
    (SAR, operationOf opSAR (constGasFunc GasFastestStep) (makeStackFunc 2 1)),
    (EXTCODEHASH, operationOf opExtCodeHash gasExtCodeHash (makeStackFunc 1 1)),
    (CREATE2, (operationOf opCreate2 gasCreate2 (makeStackFunc 4 1))\<lparr>op_memorySize := Some memoryCreate2, op_writes := True, op_returns := True\<rparr>)] @ newByzantiumInstructionSet"

section \<open>The interpreter\<close>

definition instructionSet :: "VMContext \<Rightarrow> (OpCode \<times> operation) list" where
  "instructionSet x =
    (if isConstantinople x then newConstantinopleInstructionSet
     else if isByzantium x then newByzantiumInstructionSet
     else if isHomestead x then newHomesteadInstructionSet
     else newFrontierInstructionSet)"

definition JumpTable :: "VMContext \<Rightarrow> uint8 \<Rightarrow> operation option" where
  "JumpTable x b = map_of (map (\<lambda>(op, oper). (byteOf op, oper)) (instructionSet x)) b"

definition enforceRestrictions :: "VMContext \<Rightarrow> uint8 \<Rightarrow> operation \<Rightarrow> Machine \<Rightarrow> vm_error option option" where
  "enforceRestrictions x op oper m =
    (if isByzantium x \<and> e_readOnly (m_evm m) then
       if op_writes oper then Some (Some errWriteProtection)
       else if op = byteOf CALL then do {
         v \<leftarrow> Back (m_stack m) 2;
         Some (if BitLen v > 0 then Some errWriteProtection else None) }
       else Some None
     else Some None)"

definition requiredMemory :: "operation \<Rightarrow> Stack \<Rightarrow> (vm_error + uint64) option" where
  "requiredMemory oper st =
    (case op_memorySize oper of
       None \<Rightarrow> Some (Inr 0)
     | Some f \<Rightarrow> do {
         s \<leftarrow> f st;
         let (memSize, overflow) = bigUint64 s;
         if overflow then Some (Inl errGasUintOverflow)
         else do {
           let (memorySize, overflow) = SafeMul (toWordSize memSize) 32;
           Some (if overflow then Inl errGasUintOverflow else Inr memorySize) } })"

datatype outcome = Done bytes "vm_error option" | Continue

text \<open>The execution of an operation whose gas is paid, and what follows it.\<close>

definition setReturnData :: "bytes \<Rightarrow> Machine \<Rightarrow> Machine" where
  "setReturnData d m = m\<lparr>m_evm := (m_evm m)\<lparr>e_returnData := d\<rparr>\<rparr>"

definition executeOp :: "VMContext \<Rightarrow> Runner \<Rightarrow> operation \<Rightarrow> Machine \<Rightarrow> (outcome \<times> Machine) option" where
  "executeOp x R oper m = do {
     (r, m) \<leftarrow> op_execute oper x R m;
     let res = (case r of Inl _ \<Rightarrow> [] | Inr d \<Rightarrow> d);
     let m = (if op_returns oper then setReturnData res m else m);
     Some (case r of
         Inl e \<Rightarrow> (Done [] (Some e), m)
       | Inr _ \<Rightarrow>
           if op_reverts oper then (Done res (Some errExecutionReverted), m)
           else if op_halts oper then (Done res None, m)
           else if \<not> op_jumps oper then (Continue, m\<lparr>m_pc := m_pc m + 1\<rparr>)
           else (Continue, m)) }"

text \<open>The charge for an operation: its gas is taken from the contract and the memory is expanded.\<close>

definition chargeOp :: "VMContext \<Rightarrow> operation \<Rightarrow> uint64 \<Rightarrow> Machine \<Rightarrow> (vm_error option \<times> Machine) option" where
  "chargeOp x oper memorySize m = do {
     (cost, m) \<leftarrow> op_gasCost oper x m memorySize;
     Some (case cost of
         Inl _ \<Rightarrow> (Some ErrOutOfGas, m)
       | Inr cost \<Rightarrow>
           (case UseGas cost (m_contract m) of
              (paid, c) \<Rightarrow>
                if \<not> paid then (Some ErrOutOfGas, m)
                else (None, m\<lparr>m_contract := c,
                  m_mem := (if memorySize > 0 then Memory_Resize memorySize (m_mem m) else m_mem m)\<rparr>))) }"

definition step :: "VMContext \<Rightarrow> Runner \<Rightarrow> Machine \<Rightarrow> (outcome \<times> Machine) option" where
  "step x R m = (let op = GetByte (m_contract m) (m_pc m) in
     case JumpTable x op of
       None \<Rightarrow> Some (Done [] (Some (InvalidOpcode op)), m)
     | Some oper \<Rightarrow>
         (case op_validateStack oper (m_stack m) of
            Some e \<Rightarrow> Some (Done [] (Some e), m)
          | None \<Rightarrow> do {
              restricted \<leftarrow> enforceRestrictions x op oper m;
              case restricted of
                Some e \<Rightarrow> Some (Done [] (Some e), m)
              | None \<Rightarrow> do {
                  size' \<leftarrow> requiredMemory oper (m_stack m);
                  case size' of
                    Inl e \<Rightarrow> Some (Done [] (Some e), m)
                  | Inr memorySize \<Rightarrow> do {
                      (unpaid, m) \<leftarrow> chargeOp x oper memorySize m;
                      case unpaid of
                        Some e \<Rightarrow> Some (Done [] (Some e), m)
                      | None \<Rightarrow> executeOp x R oper m } } }))"

type_synonym loop = "Machine \<Rightarrow> ((bytes \<times> vm_error option) \<times> Machine) option"

text \<open>What \<open>Run\<close> does around its loop: the call depth, the read-only flag and the returned data.\<close>

definition enterRun :: "bool \<Rightarrow> EVM \<Rightarrow> EVM" where
  "enterRun readOnly e = e\<lparr>e_depth := e_depth e + 1, e_readOnly := e_readOnly e \<or> readOnly, e_returnData := []\<rparr>"

definition leaveRun :: "bool \<Rightarrow> EVM \<Rightarrow> EVM \<Rightarrow> EVM" where
  "leaveRun readOnly e e' = e'\<lparr>e_depth := e_depth e' - 1,
    e_readOnly := (if readOnly \<and> \<not> e_readOnly e then False else e_readOnly e')\<rparr>"

definition startMachine :: "Contract \<Rightarrow> bytes \<Rightarrow> EVM \<Rightarrow> Machine" where
  "startMachine c input e = \<lparr>m_pc = 0, m_contract = c\<lparr>ct_Input := input\<rparr>, m_mem = NewMemory, m_stack = [], m_evm = e\<rparr>"

definition runWith :: "loop \<Rightarrow> Runner" where
  "runWith L c input readOnly e =
    (if ct_Code c = [] then Some (([], None), ct_Gas c, leaveRun readOnly e (enterRun readOnly e))
     else do {
       (r, m) \<leftarrow> L (startMachine c input (enterRun readOnly e));
       Some (r, ct_Gas (m_contract m), leaveRun readOnly e (m_evm m)) })"

text \<open>
  The loop, with fuel; \<open>z\<close> stands for a loop that has no fuel left. Calls that an operation makes run on the fuel that
  remains, so \<open>Suc g\<close> is enough for a contract with gas \<open>g\<close>: every operation that does not halt costs gas, and a call
  is given less gas than the caller has.
\<close>

primrec runLoop :: "VMContext \<Rightarrow> loop \<Rightarrow> nat \<Rightarrow> loop" where
  "runLoop x z 0 = z"
| "runLoop x z (Suc n) = (\<lambda>m. do {
     (out, m) \<leftarrow> step x (runWith (runLoop x z n)) m;
     case out of
       Done ret err \<Rightarrow> Some ((ret, err), m)
     | Continue \<Rightarrow> runLoop x z n m })"

definition EVMInterpreter_Run :: "VMContext \<Rightarrow> Runner" where
  "EVMInterpreter_Run x c = runWith (runLoop x (\<lambda>m. None) (Suc (unat (ct_Gas c)))) c"

end
