(* ===== verification/Evm_Costs.thy ===== *)
theory Evm_Costs
  imports Evm_Machine
begin

text \<open>
  The gas laws of the virtual machine: what an operation leaves alone, what it costs, and that a call gives back
  at most the gas it was given. They bound the loop of the interpreter by the gas of the contract it runs.
\<close>

section \<open>Operations that call nothing\<close>

text \<open>
  A local operation does not use the interpreter, and keeps the contract with its gas, the call depth and the
  read-only flag. A pure one keeps the database as well.
\<close>

definition local_op :: "executionFunc \<Rightarrow> bool" where
  "local_op f \<longleftrightarrow> (\<forall>x R m. (\<forall>R'. f x R' m = f x R m) \<and> (\<forall>r m'. f x R m = Some (r, m') \<longrightarrow>
     m_contract m' = m_contract m \<and> e_depth (m_evm m') = e_depth (m_evm m) \<and> e_readOnly (m_evm m') = e_readOnly (m_evm m)))"

definition pure_op :: "executionFunc \<Rightarrow> bool" where
  "pure_op f \<longleftrightarrow> local_op f \<and> (\<forall>x R m r m'. f x R m = Some (r, m') \<longrightarrow> db_of m' = db_of m)"

named_theorems pure_ops
named_theorems local_ops

lemmas op_eqs = local_op_def pure_op_def ok_def bind_eq_Some_conv Let_def

lemma pure_local: "pure_op f \<Longrightarrow> local_op f"
  by (simp add: pure_op_def)

lemma stack_ops_pure:
  "pure_op (unary u)" "pure_op (binary b)" "pure_op (ternary t)" "pure_op (pushes p)"
  by (auto simp: op_eqs unary_def binary_def ternary_def pushes_def)

lemma arithmetic_pure [pure_ops]:
  "pure_op opAdd" "pure_op opSub" "pure_op opMul" "pure_op opDiv" "pure_op opSdiv" "pure_op opMod" "pure_op opSmod"
  "pure_op opExp" "pure_op opNot" "pure_op opLt" "pure_op opGt" "pure_op opSlt" "pure_op opSgt" "pure_op opEq"
  "pure_op opIszero" "pure_op opAnd" "pure_op opOr" "pure_op opXor" "pure_op opByte" "pure_op opAddmod" "pure_op opMulmod"
  "pure_op opSHL" "pure_op opSHR" "pure_op opSAR"
  unfolding opAdd_def opSub_def opMul_def opDiv_def opSdiv_def opMod_def opSmod_def opExp_def opNot_def opLt_def opGt_def
    opSlt_def opSgt_def opEq_def opIszero_def opAnd_def opOr_def opXor_def opByte_def opAddmod_def opMulmod_def opSHL_def
    opSHR_def opSAR_def
  by (rule stack_ops_pure)+

lemma environment_pure [pure_ops]:
  "pure_op opAddress" "pure_op opOrigin" "pure_op opCaller" "pure_op opCallDataSize" "pure_op opReturnDataSize"
  "pure_op opCodeSize" "pure_op opGasprice" "pure_op opCoinbase" "pure_op opTimestamp" "pure_op opNumber"
  "pure_op opDifficulty" "pure_op opGasLimit"
  unfolding opAddress_def opOrigin_def opCaller_def opCallDataSize_def opReturnDataSize_def opCodeSize_def opGasprice_def
    opCoinbase_def opTimestamp_def opNumber_def opDifficulty_def opGasLimit_def
  by (rule stack_ops_pure)+

lemma copyToMemory_keeps:
  "copyToMemory src st m = Some (r, m') \<Longrightarrow> m_contract m' = m_contract m \<and> m_evm m' = m_evm m"
  by (auto simp: copyToMemory_def op_eqs)

lemma copies_pure [pure_ops]: "pure_op opCallDataCopy" "pure_op opCodeCopy" "pure_op opReturnDataCopy"
  by (auto simp: op_eqs opCallDataCopy_def opCodeCopy_def opReturnDataCopy_def dest!: copyToMemory_keeps split: if_splits)

lemma signExtend_pure [pure_ops]: "pure_op opSignExtend"
  by (auto simp: op_eqs opSignExtend_def split: if_splits)

lemma small_pure [pure_ops]:
  "pure_op opCallValue" "pure_op opCallDataLoad" "pure_op opBlockhash" "pure_op opPop" "pure_op opMload" "pure_op opMstore"
  "pure_op opMstore8"
  by (auto simp: op_eqs opCallValue_def opCallDataLoad_def opBlockhash_def opPop_def opMload_def opMstore_def
      opMstore8_def split: if_splits)

lemma flow_pure [pure_ops]:
  "pure_op opJumpdest" "pure_op opPc" "pure_op opMsize" "pure_op opGas" "pure_op opReturn" "pure_op opRevert" "pure_op opStop"
  by (auto simp: op_eqs opJumpdest_def opPc_def opMsize_def opGas_def opReturn_def opRevert_def opStop_def pushes_def)

lemma jumpTo_keeps:
  "jumpTo pos m = Some (r, m') \<Longrightarrow> m_contract m' = m_contract m \<and> db_of m' = db_of m \<and>
     e_depth (m_evm m') = e_depth (m_evm m) \<and> e_readOnly (m_evm m') = e_readOnly (m_evm m)"
  by (auto simp: jumpTo_def op_eqs split: if_splits)

lemma jumps_pure [pure_ops]: "pure_op opJump" "pure_op opJumpi"
  by (auto simp: op_eqs opJump_def opJumpi_def dest!: jumpTo_keeps split: if_splits)

lemma makers_pure [pure_ops]: "pure_op (makePush n)" "pure_op (makeDup n)" "pure_op (makeSwap n)"
  by (auto simp: op_eqs makePush_def makeDup_def makeSwap_def split: if_splits)

lemma state_local [local_ops]:
  "local_op opSha3" "local_op opBalance" "local_op opExtCodeSize" "local_op opExtCodeHash" "local_op opSload"
  "local_op opSstore" "local_op opSuicide" "local_op (makeLog n)"
  by (auto simp: op_eqs opSha3_def opBalance_def opExtCodeSize_def opExtCodeHash_def opSload_def opSstore_def opSuicide_def
      makeLog_def with_db_def case_prod_unfold split: if_splits)

lemma extCodeCopy_local [local_ops]: "local_op opExtCodeCopy"
  by (auto simp: op_eqs opExtCodeCopy_def with_db_def case_prod_unfold dest!: copyToMemory_keeps)

section \<open>The cost of an operation\<close>

definition gas_keeps :: "VMContext \<Rightarrow> gasFunc \<Rightarrow> bool" where
  "gas_keeps x g \<longleftrightarrow> (\<forall>m ms c m'. g x m ms = Some (c, m') \<longrightarrow> m_contract m' = m_contract m \<and> m_stack m' = m_stack m \<and>
     e_depth (m_evm m') = e_depth (m_evm m) \<and> e_readOnly (m_evm m') = e_readOnly (m_evm m))"

definition gas_costs :: "VMContext \<Rightarrow> gasFunc \<Rightarrow> bool" where
  "gas_costs x g \<longleftrightarrow> (\<forall>m ms n m'. g x m ms = Some (Inr n, m') \<longrightarrow> n > 0)"

named_theorems gas_keep
named_theorems gas_cost

lemma SafeAdd_nat: "SafeAdd a b = (c, False) \<Longrightarrow> unat c = unat a + unat b"
proof -
  assume s: "SafeAdd a b = (c, False)"
  have "unat (- 1 - a) = 2 ^ 64 - 1 - unat a"
    using unat_sub [of a "- 1"] by (simp add: word_order.extremum unsigned_minus_1_eq_mask mask_eq_exp_minus_1)
  with s have "unat b \<le> 2 ^ 64 - 1 - unat a" by (simp add: SafeAdd_def not_less word_le_nat_alt)
  moreover have "unat a < 2 ^ 64" using unsigned_less [of a] by simp
  ultimately show ?thesis using s by (auto simp: SafeAdd_def unat_word_ariths)
qed

lemma plusGas_nat: "plusGas (Inr a) b = Inr c \<Longrightarrow> unat c = unat a + unat b"
  by (auto simp: plusGas_def Let_def dest: SafeAdd_nat split: prod.splits if_splits)

lemma plusGas_Inr: "plusGas r b = Inr c \<Longrightarrow> \<exists>a. r = Inr a \<and> unat c = unat a + unat b"
  by (cases r) (auto simp: plusGas_def [of "Inl _"] dest: plusGas_nat)

lemma memGas_keeps [simp]:
  "m_contract (snd (memGas m ms)) = m_contract m" "m_stack (snd (memGas m ms)) = m_stack m"
  "m_evm (snd (memGas m ms)) = m_evm m"
  by (simp_all add: memGas_def Let_def case_prod_unfold)

lemma memWordsGas_keeps:
  "memWordsGas base price n m ms = Some (r, m') \<Longrightarrow> m_contract m' = m_contract m \<and> m_stack m' = m_stack m \<and> m_evm m' = m_evm m"
  by (cases "plusGas (fst (memGas m ms)) base") (auto simp: memWordsGas_def Let_def case_prod_unfold bind_eq_Some_conv)

lemma memWordsGas_costs:
  assumes "memWordsGas base price n m ms = Some (Inr g, m')"
  shows "unat base \<le> unat g"
proof -
  obtain a y where a: "plusGas (fst (memGas m ms)) base = Inr a" "(case wordGas y price of Inl e \<Rightarrow> Inl e | Inr b \<Rightarrow> plusGas (Inr a) b) = Inr g"
    using assms by (cases "plusGas (fst (memGas m ms)) base") (auto simp: memWordsGas_def Let_def case_prod_unfold bind_eq_Some_conv)
  then obtain b where "plusGas (Inr a) b = Inr g" by (cases "wordGas y price") auto
  with a(1) show ?thesis by (auto dest!: plusGas_Inr plusGas_nat)
qed

lemma memPlusGas_keeps:
  "memPlusGas base m ms = Some (r, m') \<Longrightarrow> m_contract m' = m_contract m \<and> m_stack m' = m_stack m \<and> m_evm m' = m_evm m"
  by (auto simp: memPlusGas_def Let_def case_prod_unfold)

lemma memPlusGas_costs: "memPlusGas base m ms = Some (Inr g, m') \<Longrightarrow> unat base \<le> unat g"
  by (auto simp: memPlusGas_def Let_def case_prod_unfold dest!: plusGas_Inr)

lemma gasTable_pos:
  "0 < gt_Calls (gasTable x)" "0 < gt_Balance (gasTable x)" "0 < gt_ExtcodeSize (gasTable x)" "0 < gt_ExtcodeCopy (gasTable x)"
  "0 < gt_SLoad (gasTable x)" "isConstantinople x \<Longrightarrow> 0 < gt_ExtcodeHash (gasTable x)"
  by (simp_all add: GasTableOf_def GasTableHomestead_def GasTableEIP150_def GasTableEIP158_def GasTableConstantinople_def)

lemmas gas_constants = GasQuickStep_def GasFastestStep_def GasFastStep_def GasMidStep_def GasSlowStep_def GasExtStep_def
  Sha3Gas_def CreateGas_def Create2Gas_def LogGas_def JumpdestGas_def

lemma const_gas [gas_keep, gas_cost]: "gas_keeps x (constGasFunc g)" "0 < g \<Longrightarrow> gas_costs x (constGasFunc g)"
  by (auto simp: gas_keeps_def gas_costs_def constGasFunc_def)

lemma memory_gas_keeps [gas_keep]:
  "gas_keeps x gasCallDataCopy" "gas_keeps x gasReturnDataCopy" "gas_keeps x gasCodeCopy" "gas_keeps x gasExtCodeCopy"
  "gas_keeps x gasSha3" "gas_keeps x gasMLoad" "gas_keeps x gasMStore" "gas_keeps x gasMStore8" "gas_keeps x gasCreate"
  "gas_keeps x gasCreate2" "gas_keeps x gasReturn" "gas_keeps x gasRevert"
  by (auto simp: gas_keeps_def gasCallDataCopy_def gasReturnDataCopy_def gasCodeCopy_def gasExtCodeCopy_def gasSha3_def
      gasMLoad_def gasMStore_def gasMStore8_def gasCreate_def gasCreate2_def gasReturn_def gasRevert_def
      dest!: memWordsGas_keeps memPlusGas_keeps) (metis memGas_keeps snd_conv)+

lemma pos_unat: "0 < (base::uint64) \<Longrightarrow> unat base \<le> unat g \<Longrightarrow> 0 < g"
  by (simp add: word_less_nat_alt)

lemma memory_gas_costs [gas_cost]:
  "gas_costs x gasCallDataCopy" "gas_costs x gasReturnDataCopy" "gas_costs x gasCodeCopy" "gas_costs x gasExtCodeCopy"
  "gas_costs x gasSha3" "gas_costs x gasMLoad" "gas_costs x gasMStore" "gas_costs x gasMStore8" "gas_costs x gasCreate"
  "gas_costs x gasCreate2"
  unfolding gas_costs_def gasCallDataCopy_def gasReturnDataCopy_def gasCodeCopy_def gasExtCodeCopy_def gasSha3_def
    gasMLoad_def gasMStore_def gasMStore8_def gasCreate_def gasCreate2_def
  by (auto dest!: memWordsGas_costs memPlusGas_costs intro: pos_unat [rotated] simp: gasTable_pos gas_constants)

lemma table_gas [gas_keep, gas_cost]:
  "gas_keeps x gasBalance" "gas_costs x gasBalance" "gas_keeps x gasExtCodeSize" "gas_costs x gasExtCodeSize"
  "gas_keeps x gasSLoad" "gas_costs x gasSLoad" "gas_keeps x gasExtCodeHash"
  "isConstantinople x \<Longrightarrow> gas_costs x gasExtCodeHash"
  "gas_keeps x gasPush" "gas_costs x gasPush" "gas_keeps x gasDup" "gas_costs x gasDup" "gas_keeps x gasSwap" "gas_costs x gasSwap"
  by (auto simp: gas_keeps_def gas_costs_def gasBalance_def gasExtCodeSize_def gasSLoad_def gasExtCodeHash_def gasPush_def
      gasDup_def gasSwap_def gasTable_pos gas_constants)

lemma exp_gas [gas_keep, gas_cost]: "gas_keeps x gasExp" "gas_costs x gasExp"
  by (auto simp: gas_keeps_def gas_costs_def gasExp_def Let_def bind_eq_Some_conv gas_constants word_less_nat_alt dest!: plusGas_nat)

lemma makeGasLog_eq:
  "makeGasLog n x m ms = Option.bind (Back (m_stack m) 1) (\<lambda>size'. if snd (bigUint64 size') then Some (Inl errGasUintOverflow, m)
     else Some (case plusGas (plusGas (fst (memGas m ms)) LogGas) (n * LogTopicGas) of Inl e \<Rightarrow> Inl e
       | Inr gas \<Rightarrow> if snd (SafeMul (fst (bigUint64 size')) LogDataGas) then Inl errGasUintOverflow
           else plusGas (Inr gas) (fst (SafeMul (fst (bigUint64 size')) LogDataGas)), snd (memGas m ms)))"
  unfolding makeGasLog_def case_prod_unfold Let_def ..

lemma log_gas [gas_keep, gas_cost]: "gas_keeps x (makeGasLog n)" "gas_costs x (makeGasLog n)"
proof -
  show "gas_keeps x (makeGasLog n)"
    by (auto simp: gas_keeps_def makeGasLog_eq bind_eq_Some_conv split: if_splits)
  show "gas_costs x (makeGasLog n)" unfolding gas_costs_def
  proof (intro allI impI)
    fix m ms g m' assume "makeGasLog n x m ms = Some (Inr g, m')"
    then obtain a b where "plusGas (plusGas (fst (memGas m ms)) LogGas) (n * LogTopicGas) = Inr a" "plusGas (Inr a) b = Inr g"
      by (auto simp: makeGasLog_eq bind_eq_Some_conv split: if_splits sum.splits sum.split_asm)
    then have "unat LogGas \<le> unat g" by (auto dest!: plusGas_Inr plusGas_nat)
    then show "0 < g" by (simp add: LogGas_def word_less_nat_alt)
  qed
qed

lemma sstore_gas [gas_keep, gas_cost]: "gas_keeps x gasSStore" "gas_costs x gasSStore"
proof -
  show "gas_keeps x gasSStore"
    by (auto simp: gas_keeps_def gasSStore_def bind_eq_Some_conv Let_def case_prod_unfold)
  have "gasSStore_legacy c y db = (n, db') \<Longrightarrow> 0 < n" for c y db n db'
    by (auto simp: gasSStore_legacy_def split: if_splits)
  moreover have "gasSStore_net a k c v db = Some (n, db') \<Longrightarrow> 0 < n" for a k c v db n db'
    by (auto simp: gasSStore_net_def bind_eq_Some_conv Let_def case_prod_unfold split: if_splits)
  ultimately show "gas_costs x gasSStore"
    by (fastforce simp: gas_costs_def gasSStore_def bind_eq_Some_conv Let_def case_prod_unfold split: if_splits)
qed

lemma suicide_gas [gas_keep]: "gas_keeps x gasSuicide"
  by (auto simp: gas_keeps_def gasSuicide_def bind_eq_Some_conv Let_def case_prod_unfold)

section \<open>The gas of calls\<close>

lemma bind_SomeE: "Option.bind f g = Some y \<Longrightarrow> (\<And>v. f = Some v \<Longrightarrow> g v = Some y \<Longrightarrow> P) \<Longrightarrow> P"
  by (cases f) auto

lemma finishCallGas_Inr:
  assumes "finishCallGas x (Inr gas) m = Some (c, m')"
  shows "\<exists>temp. m' = m\<lparr>m_evm := (m_evm m)\<lparr>e_callGasTemp := temp\<rparr>\<rparr> \<and> (\<forall>cost. c = Inr cost \<longrightarrow> plusGas (Inr gas) temp = Inr cost)"
proof -
  obtain v where v: "Back (m_stack m) 0 = Some v" using assms by (auto simp: finishCallGas_def elim!: bind_SomeE)
  show ?thesis
    using assms by (cases "callGas (gasTable x) (ct_Gas (m_contract m)) gas v") (auto simp: finishCallGas_def v)
qed

lemma finishCallGas_keeps:
  assumes "finishCallGas x r m = Some (c, m')"
  shows "m_contract m' = m_contract m \<and> m_stack m' = m_stack m \<and>
     e_depth (m_evm m') = e_depth (m_evm m) \<and> e_readOnly (m_evm m') = e_readOnly (m_evm m) \<and> db_of m' = db_of m"
proof (cases r)
  case (Inl e)
  then show ?thesis using assms by (simp add: finishCallGas_def)
next
  case (Inr gas)
  then show ?thesis using finishCallGas_Inr [of x gas m c m'] assms by auto
qed

lemma finishCallGas_cost:
  assumes "finishCallGas x r m = Some (Inr cost, m')"
  shows "\<exists>gas. r = Inr gas \<and> unat cost = unat gas + unat (e_callGasTemp (m_evm m'))"
proof (cases r)
  case (Inl e)
  then show ?thesis using assms by (simp add: finishCallGas_def)
next
  case (Inr gas)
  then show ?thesis using finishCallGas_Inr [of x gas m "Inr cost" m'] assms by (auto dest!: plusGas_nat)
qed

lemma gasCall_finish:
  assumes "gasCall x m ms = Some (c, m')"
  obtains v new r m1 where "Back (m_stack m) 2 = Some v" "m_contract m1 = m_contract m" "m_stack m1 = m_stack m"
    "e_depth (m_evm m1) = e_depth (m_evm m)" "e_readOnly (m_evm m1) = e_readOnly (m_evm m)"
    "finishCallGas x (case r of Inl e \<Rightarrow> Inl e
        | Inr g \<Rightarrow> plusGas (Inr (if v \<noteq> 0 then (if new then gt_Calls (gasTable x) + CallNewAccountGas else gt_Calls (gasTable x)) + CallValueTransferGas
            else (if new then gt_Calls (gasTable x) + CallNewAccountGas else gt_Calls (gasTable x)))) g) m1 = Some (c, m')"
  using assms unfolding gasCall_def Let_def case_prod_unfold
  by (elim bind_SomeE) (rule that [rotated 5], assumption, assumption, simp_all)

lemma call_gas_keeps [gas_keep]:
  "gas_keeps x gasCall" "gas_keeps x gasCallCode" "gas_keeps x gasDelegateCall" "gas_keeps x gasStaticCall"
proof -
  show "gas_keeps x gasCall" unfolding gas_keeps_def
    by (intro allI impI, erule gasCall_finish, drule finishCallGas_keeps) simp
  show "gas_keeps x gasCallCode" unfolding gas_keeps_def gasCallCode_def Let_def case_prod_unfold
    by (intro allI impI, elim bind_SomeE, drule finishCallGas_keeps) simp
  show "gas_keeps x gasDelegateCall" "gas_keeps x gasStaticCall"
    unfolding gas_keeps_def gasDelegateCall_def gasStaticCall_def Let_def case_prod_unfold
    by (intro allI impI, drule finishCallGas_keeps, simp)+
qed

lemma gt_Calls_cases: "gt_Calls (gasTable x) = 40 \<or> gt_Calls (gasTable x) = 700"
  by (simp add: GasTableOf_def GasTableHomestead_def GasTableEIP150_def GasTableEIP158_def GasTableConstantinople_def)

text \<open>The gas that is set aside for the callee, with the stipend of a call that transfers value, is less than the cost.\<close>

definition sets_aside :: "VMContext \<Rightarrow> gasFunc \<Rightarrow> bool" where
  "sets_aside x g \<longleftrightarrow> (\<forall>m ms cost m'. g x m ms = Some (Inr cost, m') \<longrightarrow> unat (e_callGasTemp (m_evm m')) < unat cost)"

definition sets_aside_value :: "VMContext \<Rightarrow> gasFunc \<Rightarrow> bool" where
  "sets_aside_value x g \<longleftrightarrow> (\<forall>m ms cost m'. g x m ms = Some (Inr cost, m') \<longrightarrow>
     (\<exists>v. Back (m_stack m) 2 = Some v \<and> unat (e_callGasTemp (m_evm m')) + (if v \<noteq> 0 then unat CallStipend else 0) < unat cost))"

lemma delegate_gas: "sets_aside x gasDelegateCall" "sets_aside x gasStaticCall"
  using gt_Calls_cases [of x]
  by (auto simp: sets_aside_def gasDelegateCall_def gasStaticCall_def Let_def case_prod_unfold
      dest!: finishCallGas_cost plusGas_Inr)

lemma callee_gas:
  assumes "finishCallGas x (case r of Inl e \<Rightarrow> Inl e | Inr g \<Rightarrow> plusGas (Inr gas) g) m = Some (Inr cost, m')"
  shows "unat gas + unat (e_callGasTemp (m_evm m')) \<le> unat cost"
  using finishCallGas_cost [OF assms] by (cases r) (auto dest!: plusGas_nat)

lemma value_gas: "sets_aside_value x gasCallCode" "sets_aside_value x gasCall"
proof -
  note c = CallStipend_def CallValueTransferGas_def CallNewAccountGas_def
  have base: "(if v \<noteq> 0 then unat CallStipend else 0) < unat (if v \<noteq> 0 then g + CallValueTransferGas else g)"
    if "g = 40 \<or> g = 700 \<or> g = 40 + CallNewAccountGas \<or> g = 700 + CallNewAccountGas" for v :: int and g
    using that by (auto simp: c)
  show "sets_aside_value x gasCallCode" unfolding sets_aside_value_def
  proof (intro allI impI)
    fix m ms cost m' assume "gasCallCode x m ms = Some (Inr cost, m')"
    then obtain v where v: "Back (m_stack m) 2 = Some v"
      and f: "finishCallGas x (case fst (memGas m ms) of Inl e \<Rightarrow> Inl e
        | Inr g \<Rightarrow> plusGas (Inr (if v \<noteq> 0 then gt_Calls (gasTable x) + CallValueTransferGas else gt_Calls (gasTable x))) g)
        (snd (memGas m ms)) = Some (Inr cost, m')"
      by (auto simp: gasCallCode_def Let_def case_prod_unfold bind_eq_Some_conv)
    from callee_gas [OF f] base [of "gt_Calls (gasTable x)" v] gt_Calls_cases [of x] v
    show "\<exists>v. Back (m_stack m) 2 = Some v \<and> unat (e_callGasTemp (m_evm m')) + (if v \<noteq> 0 then unat CallStipend else 0) < unat cost"
      by (intro exI [of _ v]) linarith
  qed
  show "sets_aside_value x gasCall" unfolding sets_aside_value_def
  proof (intro allI impI)
    fix m ms cost m' assume "gasCall x m ms = Some (Inr cost, m')"
    then obtain v r m1 new where v: "Back (m_stack m) 2 = Some v"
      and f: "finishCallGas x (case r of Inl e \<Rightarrow> Inl e
        | Inr g \<Rightarrow> plusGas (Inr (if v \<noteq> 0 then (if new then gt_Calls (gasTable x) + CallNewAccountGas else gt_Calls (gasTable x)) + CallValueTransferGas
            else (if new then gt_Calls (gasTable x) + CallNewAccountGas else gt_Calls (gasTable x)))) g) m1 = Some (Inr cost, m')"
      by (rule gasCall_finish) (rule that)
    from callee_gas [OF f] base [of "if new then gt_Calls (gasTable x) + CallNewAccountGas else gt_Calls (gasTable x)" v]
      gt_Calls_cases [of x] v
    show "\<exists>v. Back (m_stack m) 2 = Some v \<and> unat (e_callGasTemp (m_evm m')) + (if v \<noteq> 0 then unat CallStipend else 0) < unat cost"
      by (intro exI [of _ v]) (auto split: if_splits)
  qed
qed

section \<open>Calls\<close>

text \<open>
  A frugal interpreter gives back at most the gas of the contract; two interpreters agree below a bound if they do
  the same for contracts with less gas.
\<close>

definition frugal :: "Runner \<Rightarrow> bool" where
  "frugal R \<longleftrightarrow> (\<forall>k i ro e r g e'. R k i ro e = Some (r, g, e') \<longrightarrow> g \<le> ct_Gas k)"

definition agree :: "nat \<Rightarrow> Runner \<Rightarrow> Runner \<Rightarrow> bool" where
  "agree n R R' \<longleftrightarrow> (\<forall>k i ro e. unat (ct_Gas k) < n \<longrightarrow> R k i ro e = R' k i ro e)"

lemma contract_gas [simp]:
  "ct_Gas (fst (NewContract c a v g e)) = g" "ct_Gas (SetCallCode a h c' k) = ct_Gas k" "ct_Gas (fst (loadCode a k e)) = ct_Gas k"
  by (simp_all add: NewContract_def SetCallCode_def loadCode_def Let_def case_prod_unfold)

lemma AsDelegate_gas: "AsDelegate c k = Some k' \<Longrightarrow> ct_Gas k' = ct_Gas k"
  by (auto simp: AsDelegate_def split: ContractRef.splits)

lemma sub_le: "(a::uint64) \<le> b \<Longrightarrow> b - a \<le> b"
  by (simp add: word_le_nat_alt unat_sub)

lemma UseGas_gas: "ct_Gas (snd (UseGas g k)) \<le> ct_Gas k"
  by (simp add: UseGas_def not_less sub_le)

lemma precompiled_gas:
  assumes "RunPrecompiledContract c h p i k = Some (r, k')"
  shows "ct_Gas k' \<le> ct_Gas k"
proof -
  obtain g where "k' = snd (UseGas g k)"
    using assms unfolding RunPrecompiledContract_def Let_def case_prod_unfold by (auto elim!: bind_SomeE split: if_split_asm)
  then show ?thesis by (simp add: UseGas_gas)
qed

lemma run_contract_gas:
  assumes "frugal R" "run_contract x R k i ro e = Some (r, g, e')"
  shows "g \<le> ct_Gas k"
proof (cases "Option.bind (ct_CodeAddr k) (precompiles x)")
  case None
  with assms(2) have "R k i ro e = Some (r, g, e')" by (simp add: run_contract_def)
  with assms(1) show ?thesis unfolding frugal_def by blast
next
  case (Some p)
  then obtain q k' where "RunPrecompiledContract (cx_crypto x) (Keccak256Hash (env (e_db e))) p i k = Some (q, k')" "g = ct_Gas k'"
    using assms(2) by (auto simp: run_contract_def elim!: bind_SomeE)
  then show ?thesis by (simp add: precompiled_gas)
qed

lemma run_contract_agree:
  assumes "agree n R R'" "unat (ct_Gas k) < n"
  shows "run_contract x R k i ro e = run_contract x R' k i ro e"
proof -
  have "R k i ro e = R' k i ro e" using assms unfolding agree_def by blast
  then show ?thesis by (simp only: run_contract_def)
qed

lemma finishCall_gas:
  assumes "finishCall i r = Some (ret, g', err, e')"
  shows "g' \<le> fst (snd r)"
proof -
  obtain a b g e where r: "r = ((a, b), g, e)" by (metis surj_pair)
  show ?thesis using assms by (cases b) (auto simp: r finishCall_def elim!: bind_SomeE split: if_split_asm)
qed

lemma finishCreate_gas:
  assumes "finishCreate x a i r = Some (ret, a', g', err, e')"
  shows "g' \<le> fst (snd r)"
proof -
  obtain b er g e where r: "r = ((b, er), g, e)" by (metis surj_pair)
  obtain er1 g1 e1 where s: "(if er = None \<and> \<not> (isEIP158 x \<and> length b > MaxCodeSize) then
         if g < of_nat (length b) * CreateDataGas then Some (Some ErrCodeStoreOutOfGas, g, e)
         else do { db \<leftarrow> SetCode (e_db e) a b; Some (None, g - of_nat (length b) * CreateDataGas, e\<lparr>e_db := db\<rparr>) }
       else Some (er, g, e)) = Some (er1, g1, e1)" and g': "g' = 0 \<or> g' = g1"
    using assms unfolding r finishCreate_def Let_def prod.case
    by (elim bind_SomeE) (auto elim!: bind_SomeE intro: order_trans split: if_split_asm)
  from s have "g1 \<le> g" by (auto simp: not_less sub_le elim!: bind_SomeE intro: order_trans split: if_split_asm)
  with g' show ?thesis by (auto simp: r)
qed

lemma EVM_Call_gas:
  assumes "frugal R" "EVM_Call x R c a i gas v e = Some (ret, g, err, e')"
  shows "g \<le> gas"
  using assms(2) unfolding EVM_Call_def Let_def case_prod_unfold
  by (auto elim!: bind_SomeE dest!: finishCall_gas run_contract_gas [OF assms(1)] intro: order_trans split: if_split_asm)

lemma EVM_CallCode_gas:
  assumes "frugal R" "EVM_CallCode x R c a i gas v e = Some (ret, g, err, e')"
  shows "g \<le> gas"
  using assms(2) unfolding EVM_CallCode_def Let_def case_prod_unfold
  by (auto elim!: bind_SomeE dest!: finishCall_gas run_contract_gas [OF assms(1)] intro: order_trans split: if_split_asm)

lemma EVM_DelegateCall_gas:
  assumes "frugal R" "EVM_DelegateCall x R c a i gas e = Some (ret, g, err, e')"
  shows "g \<le> gas"
  using assms(2) unfolding EVM_DelegateCall_def Let_def case_prod_unfold
  by (auto elim!: bind_SomeE dest!: finishCall_gas run_contract_gas [OF assms(1)] AsDelegate_gas intro: order_trans split: if_split_asm)

lemma EVM_StaticCall_gas:
  assumes "frugal R" "EVM_StaticCall x R c a i gas e = Some (ret, g, err, e')"
  shows "g \<le> gas"
  using assms(2) unfolding EVM_StaticCall_def Let_def case_prod_unfold
  by (auto elim!: bind_SomeE dest!: finishCall_gas run_contract_gas [OF assms(1)] intro: order_trans split: if_split_asm)

lemma EVM_create_gas:
  assumes "frugal R" "EVM_create x R c code' gas v a e = Some (ret, a', g, err, e')"
  shows "g \<le> gas"
  using assms(2) unfolding EVM_create_def Let_def case_prod_unfold
  by (auto elim!: bind_SomeE dest!: finishCreate_gas run_contract_gas [OF assms(1)] split: if_split_asm)
    (rule order_trans, assumption, assumption)+

section \<open>Interpreters that agree\<close>

lemma EVM_Call_agree:
  assumes "agree n R R'" "unat gas < n"
  shows "EVM_Call x R c a i gas v e = EVM_Call x R' c a i gas v e"
  unfolding EVM_Call_def Let_def case_prod_unfold
  by (simp add: run_contract_agree [OF assms(1)] assms(2) cong: if_cong)

lemma EVM_CallCode_agree:
  assumes "agree n R R'" "unat gas < n"
  shows "EVM_CallCode x R c a i gas v e = EVM_CallCode x R' c a i gas v e"
  unfolding EVM_CallCode_def Let_def case_prod_unfold
  by (simp add: run_contract_agree [OF assms(1)] assms(2) cong: if_cong)

lemma EVM_DelegateCall_agree:
  assumes "agree n R R'" "unat gas < n"
  shows "EVM_DelegateCall x R c a i gas e = EVM_DelegateCall x R' c a i gas e"
  unfolding EVM_DelegateCall_def Let_def case_prod_unfold
  by (simp add: run_contract_agree [OF assms(1)] assms(2) AsDelegate_def split: ContractRef.splits cong: if_cong)

lemma EVM_StaticCall_agree:
  assumes "agree n R R'" "unat gas < n"
  shows "EVM_StaticCall x R c a i gas e = EVM_StaticCall x R' c a i gas e"
  unfolding EVM_StaticCall_def Let_def case_prod_unfold
  by (simp add: run_contract_agree [OF assms(1)] assms(2) cong: if_cong)

lemma EVM_create_agree:
  assumes "agree n R R'" "unat gas < n"
  shows "EVM_create x R c code' gas v a e = EVM_create x R' c code' gas v a e"
  unfolding EVM_create_def Let_def case_prod_unfold
  by (simp add: run_contract_agree [OF assms(1)] assms(2) cong: if_cong)

section \<open>Fair operations\<close>

text \<open>
  An operation is fair if, once its cost is paid, it gives back at most that cost, and less unless it ends the run,
  and if it depends on the interpreter only for contracts with less gas than its own contract had.
\<close>

definition paid :: "VMContext \<Rightarrow> gasFunc \<Rightarrow> Machine \<Rightarrow> Machine \<Rightarrow> bool" where
  "paid x g m m' \<longleftrightarrow> (\<exists>ms cost m1. g x m ms = Some (Inr cost, m1) \<and> cost \<le> gas_of m \<and>
     m_contract m' = (m_contract m)\<lparr>ct_Gas := gas_of m - cost\<rparr> \<and> m_stack m' = m_stack m \<and> m_evm m' = m_evm m1)"

definition fair :: "VMContext \<Rightarrow> operation \<Rightarrow> bool" where
  "fair x oper \<longleftrightarrow> gas_keeps x (op_gasCost oper) \<and>
     (\<forall>m m' R R'. paid x (op_gasCost oper) m m' \<longrightarrow> agree (unat (gas_of m)) R R' \<longrightarrow> op_execute oper x R m' = op_execute oper x R' m') \<and>
     (\<forall>m m' R r m2. paid x (op_gasCost oper) m m' \<longrightarrow> frugal R \<longrightarrow> op_execute oper x R m' = Some (r, m2) \<longrightarrow>
        gas_of m2 \<le> gas_of m \<and> (op_halts oper \<or> op_reverts oper \<or> gas_of m2 < gas_of m))"

lemma fair_local:
  assumes "local_op (op_execute oper)" "gas_keeps x (op_gasCost oper)" "op_halts oper \<or> op_reverts oper \<or> gas_costs x (op_gasCost oper)"
  shows "fair x oper"
proof -
  have "gas_of m2 \<le> gas_of m \<and> (op_halts oper \<or> op_reverts oper \<or> gas_of m2 < gas_of m)"
    if p: "paid x (op_gasCost oper) m m'" and e: "op_execute oper x R m' = Some (r, m2)" for m m' R r m2
  proof -
    from p obtain ms cost m1 where c: "op_gasCost oper x m ms = Some (Inr cost, m1)" "cost \<le> gas_of m" "gas_of m' = gas_of m - cost"
      by (auto simp: paid_def)
    have m2: "gas_of m2 = gas_of m - cost" using assms(1) e c(3) unfolding local_op_def by metis
    have "0 < cost \<Longrightarrow> gas_of m - cost < gas_of m" using c(2) by (simp add: word_less_nat_alt word_le_nat_alt unat_sub)
    with m2 c assms(3) sub_le [OF c(2)] show ?thesis unfolding gas_costs_def by metis
  qed
  with assms show ?thesis unfolding fair_def local_op_def by blast
qed

lemma pop_Some [simp]: "pop st = Some (a, st') \<longleftrightarrow> st = a # st'"
  by (cases st) (auto simp: pop_def)

lemma returned_less:
  assumes "cost \<le> (G::uint64)" "unat g < unat cost"
  shows "G - cost + g < G"
proof -
  have "unat (G - cost) = unat G - unat cost" using assms(1) by (rule unat_sub)
  moreover have "unat cost \<le> unat G" using assms(1) by (simp add: word_le_nat_alt)
  moreover have "unat G < 2 ^ 64" using unsigned_less [of G] by simp
  ultimately show ?thesis using assms(2) by (simp add: word_less_nat_alt unat_word_ariths)
qed

lemma afterCall_gas: "afterCall ro rs st m (ret, g, err, e) = Some (r, m') \<Longrightarrow> gas_of m' = gas_of m + g"
  by (auto simp: afterCall_def set_gas_def Let_def elim!: bind_SomeE)

text \<open>The gas of the callee of an operation that may transfer value.\<close>

lemma callee_less:
  assumes "sets_aside_value x g" "paid x g m m'" "m_stack m = a # b # v # st"
  shows "\<exists>cost. cost \<le> gas_of m \<and> gas_of m' = gas_of m - cost \<and>
    unat (if U256 v \<noteq> 0 then e_callGasTemp (m_evm m') + CallStipend else e_callGasTemp (m_evm m')) < unat cost"
proof -
  from assms(2) obtain ms cost m1 where p: "g x m ms = Some (Inr cost, m1)" "cost \<le> gas_of m" "gas_of m' = gas_of m - cost" "m_evm m' = m_evm m1"
    by (auto simp: paid_def)
  let ?t = "e_callGasTemp (m_evm m1)"
  have "Back (m_stack m) 2 = Some v" by (simp add: Back_def assms(3) goIndex_def)
  with assms(1) p(1) have c: "unat ?t + (if v \<noteq> 0 then unat CallStipend else 0) < unat cost"
    unfolding sets_aside_value_def by fastforce
  have "U256 v \<noteq> 0 \<Longrightarrow> v \<noteq> 0" by (auto simp: U256_def)
  moreover have "unat cost < 2 ^ 64" using unsigned_less [of cost] by simp
  ultimately have "unat (if U256 v \<noteq> 0 then ?t + CallStipend else ?t) < unat cost"
    using c unat_add_lem [of ?t CallStipend] by (auto split: if_splits)
  with p show ?thesis by auto
qed

lemma callee_less_plain:
  assumes "sets_aside x g" "paid x g m m'"
  shows "\<exists>cost. cost \<le> gas_of m \<and> gas_of m' = gas_of m - cost \<and> unat (e_callGasTemp (m_evm m')) < unat cost"
  using assms unfolding sets_aside_def paid_def by (metis Contract.select_convs(7) Contract.surjective Contract.update_convs(7))

lemma paid_stack: "paid x g m m' \<Longrightarrow> m_stack m' = m_stack m"
  by (auto simp: paid_def)

lemma unat_le_trans: "cost \<le> (G::uint64) \<Longrightarrow> unat c < unat cost \<Longrightarrow> unat c < unat G"
  by (simp add: word_le_nat_alt)

text \<open>A call operation is fair if what it runs is, for the gas that was set aside.\<close>

lemma call_fair:
  assumes "gas_keeps x (op_gasCost oper)"
    and "\<And>R m. op_execute oper x R m = Option.bind (args m) (\<lambda>p. Option.bind (call p R m) (afterCall (ro p) (rs p) (st p) m))"
    and "\<And>R R' p m n. agree n R R' \<Longrightarrow> unat (given p m) < n \<Longrightarrow> call p R m = call p R' m"
    and "\<And>R p m ret g err e. frugal R \<Longrightarrow> call p R m = Some (ret, g, err, e) \<Longrightarrow> g \<le> given p m"
    and "\<And>m m' p. paid x (op_gasCost oper) m m' \<Longrightarrow> args m' = Some p \<Longrightarrow>
      \<exists>cost. cost \<le> gas_of m \<and> gas_of m' = gas_of m - cost \<and> unat (given p m') < unat cost"
  shows "fair x oper"
proof -
  have "op_execute oper x R m' = op_execute oper x R' m'"
    if p: "paid x (op_gasCost oper) m m'" and a: "agree (unat (gas_of m)) R R'" for m m' R R'
  proof (cases "args m'")
    case (Some p)
    from assms(5) [OF that(1) Some] obtain cost where "cost \<le> gas_of m" "unat (given p m') < unat cost" by blast
    then have "call p R m' = call p R' m'" using assms(3) [OF a, of p m'] unat_le_trans by blast
    then show ?thesis by (simp add: assms(2) Some)
  qed (simp add: assms(2))
  moreover have "gas_of m2 < gas_of m"
    if p: "paid x (op_gasCost oper) m m'" and R: "frugal R" and e: "op_execute oper x R m' = Some (r, m2)" for m m' R r m2
  proof -
    from e obtain p q where p': "args m' = Some p" "call p R m' = Some q" "afterCall (ro p) (rs p) (st p) m' q = Some (r, m2)"
      unfolding assms(2) by (elim bind_SomeE) (rule that)
    obtain ret g err ev where q: "q = (ret, g, err, ev)" by (metis surj_pair)
    have "gas_of m2 = gas_of m' + g" using p'(3) unfolding q by (rule afterCall_gas)
    moreover have "g \<le> given p m'" using assms(4) [OF R p'(2) [unfolded q]] .
    moreover obtain cost where "cost \<le> gas_of m" "gas_of m' = gas_of m - cost" "unat (given p m') < unat cost"
      using assms(5) [OF p p'(1)] by blast
    ultimately show ?thesis using returned_less [of cost "gas_of m" g] by (simp add: word_le_nat_alt)
  qed
  ultimately show ?thesis using assms(1) unfolding fair_def by (blast intro: less_imp_le)
qed

text \<open>The operands of the calls, with and without a value.\<close>

definition valueArgs :: "Machine \<Rightarrow> (int \<times> int \<times> bytes \<times> int \<times> int \<times> Stack) option" where
  "valueArgs m = do {
     (_, st) \<leftarrow> pop (m_stack m);
     (addr, st) \<leftarrow> pop st;
     (val, st) \<leftarrow> pop st;
     (inOffset, st) \<leftarrow> pop st;
     (inSize, st) \<leftarrow> pop st;
     (retOffset, st) \<leftarrow> pop st;
     (retSize, st) \<leftarrow> pop st;
     input \<leftarrow> Memory_Get (Int64 inOffset) (Int64 inSize) (m_mem m);
     Some (addr, val, input, retOffset, retSize, st) }"

definition plainArgs :: "Machine \<Rightarrow> (int \<times> bytes \<times> int \<times> int \<times> Stack) option" where
  "plainArgs m = do {
     (_, st) \<leftarrow> pop (m_stack m);
     (addr, st) \<leftarrow> pop st;
     (inOffset, st) \<leftarrow> pop st;
     (inSize, st) \<leftarrow> pop st;
     (retOffset, st) \<leftarrow> pop st;
     (retSize, st) \<leftarrow> pop st;
     input \<leftarrow> Memory_Get (Int64 inOffset) (Int64 inSize) (m_mem m);
     Some (addr, input, retOffset, retSize, st) }"

definition stipended :: "int \<Rightarrow> Machine \<Rightarrow> uint64" where
  "stipended val m = (if U256 val \<noteq> 0 then e_callGasTemp (m_evm m) + CallStipend else e_callGasTemp (m_evm m))"

lemma opCall_eq:
  "opCall x R m = Option.bind (valueArgs m) (\<lambda>p. Option.bind
     (EVM_Call x R (ContractOf (m_contract m)) (BigToAddress (fst p)) (fst (snd (snd p))) (stipended (fst (snd p)) m) (U256 (fst (snd p))) (m_evm m))
     (afterCall (fst (snd (snd (snd p)))) (fst (snd (snd (snd (snd p))))) (snd (snd (snd (snd (snd p))))) m))"
  by (simp add: opCall_def valueArgs_def stipended_def case_prod_unfold Let_def)

lemma opCallCode_eq:
  "opCallCode x R m = Option.bind (valueArgs m) (\<lambda>p. Option.bind
     (EVM_CallCode x R (ContractOf (m_contract m)) (BigToAddress (fst p)) (fst (snd (snd p))) (stipended (fst (snd p)) m) (U256 (fst (snd p))) (m_evm m))
     (afterCall (fst (snd (snd (snd p)))) (fst (snd (snd (snd (snd p))))) (snd (snd (snd (snd (snd p))))) m))"
  by (simp add: opCallCode_def valueArgs_def stipended_def case_prod_unfold Let_def)

lemma opDelegateCall_eq:
  "opDelegateCall x R m = Option.bind (plainArgs m) (\<lambda>p. Option.bind
     (EVM_DelegateCall x R (ContractOf (m_contract m)) (BigToAddress (fst p)) (fst (snd p)) (e_callGasTemp (m_evm m)) (m_evm m))
     (afterCall (fst (snd (snd p))) (fst (snd (snd (snd p)))) (snd (snd (snd (snd p)))) m))"
  by (simp add: opDelegateCall_def plainArgs_def case_prod_unfold Let_def)

lemma opStaticCall_eq:
  "opStaticCall x R m = Option.bind (plainArgs m) (\<lambda>p. Option.bind
     (EVM_StaticCall x R (ContractOf (m_contract m)) (BigToAddress (fst p)) (fst (snd p)) (e_callGasTemp (m_evm m)) (m_evm m))
     (afterCall (fst (snd (snd p))) (fst (snd (snd (snd p)))) (snd (snd (snd (snd p)))) m))"
  by (simp add: opStaticCall_def plainArgs_def case_prod_unfold Let_def)

lemma valueArgs_stack: "valueArgs m = Some p \<Longrightarrow> \<exists>g st. m_stack m = g # fst p # fst (snd p) # st"
  by (auto simp: valueArgs_def elim!: bind_SomeE)

lemma value_call_paid:
  assumes "sets_aside_value x g" "paid x g m m'" "valueArgs m' = Some p"
  shows "\<exists>cost. cost \<le> gas_of m \<and> gas_of m' = gas_of m - cost \<and> unat (stipended (fst (snd p)) m') < unat cost"
proof -
  obtain a st where "m_stack m' = a # fst p # fst (snd p) # st" using valueArgs_stack [OF assms(3)] by blast
  then have "m_stack m = a # fst p # fst (snd p) # st" using paid_stack [OF assms(2)] by simp
  from callee_less [OF assms(1,2) this] show ?thesis unfolding stipended_def .
qed

lemma opCall_fair: "op_execute oper = opCall \<Longrightarrow> op_gasCost oper = gasCall \<Longrightarrow> fair x oper"
  by (rule call_fair [where args = valueArgs and given = "\<lambda>p. stipended (fst (snd p))", OF _ _ EVM_Call_agree EVM_Call_gas])
    (auto simp: opCall_eq call_gas_keeps intro: value_call_paid [OF value_gas(2)])

lemma opCallCode_fair: "op_execute oper = opCallCode \<Longrightarrow> op_gasCost oper = gasCallCode \<Longrightarrow> fair x oper"
  by (rule call_fair [where args = valueArgs and given = "\<lambda>p. stipended (fst (snd p))", OF _ _ EVM_CallCode_agree EVM_CallCode_gas])
    (auto simp: opCallCode_eq call_gas_keeps intro: value_call_paid [OF value_gas(1)])

lemma opDelegateCall_fair: "op_execute oper = opDelegateCall \<Longrightarrow> op_gasCost oper = gasDelegateCall \<Longrightarrow> fair x oper"
  by (rule call_fair [where args = plainArgs and given = "\<lambda>p m. e_callGasTemp (m_evm m)", OF _ _ EVM_DelegateCall_agree EVM_DelegateCall_gas])
    (auto simp: opDelegateCall_eq call_gas_keeps intro: callee_less_plain [OF delegate_gas(1)])

lemma opStaticCall_fair: "op_execute oper = opStaticCall \<Longrightarrow> op_gasCost oper = gasStaticCall \<Longrightarrow> fair x oper"
  by (rule call_fair [where args = plainArgs and given = "\<lambda>p m. e_callGasTemp (m_evm m)", OF _ _ EVM_StaticCall_agree EVM_StaticCall_gas])
    (auto simp: opStaticCall_eq call_gas_keeps intro: callee_less_plain [OF delegate_gas(2)])

lemma EVM_Create_eq: "EVM_Create x R c code' gas v e = EVM_create x R c code' gas v
    (CreateAddress (Keccak256Hash (env (snd (GetNonce (e_db e) (ref_Address c))))) (ref_Address c) (fst (GetNonce (e_db e) (ref_Address c))))
    (e\<lparr>e_db := snd (GetNonce (e_db e) (ref_Address c))\<rparr>)"
  by (simp add: EVM_Create_def Let_def case_prod_unfold)

lemma set_gas_simps [simp]: "gas_of (set_gas g m) = g" "m_evm (set_gas g m) = m_evm m" "m_stack (set_gas g m) = m_stack m"
  "m_mem (set_gas g m) = m_mem m" "m_pc (set_gas g m) = m_pc m"
  by (simp_all add: set_gas_def)

lemma refund_le:
  assumes "(g::uint64) \<le> h" "h \<le> G"
  shows "G - h + g \<le> G"
proof -
  have "unat (G - h) = unat G - unat h" using assms(2) by (rule unat_sub)
  moreover have "unat g \<le> unat h" "unat h \<le> unat G" using assms by (simp_all add: word_le_nat_alt)
  moreover have "unat G < 2 ^ 64" using unsigned_less [of G] by simp
  ultimately show ?thesis by (simp add: word_le_nat_alt unat_word_ariths)
qed

text \<open>The creation operations spend all but a 64th of the gas.\<close>

lemma create_fair:
  assumes "gas_keeps x (op_gasCost oper)" "gas_costs x (op_gasCost oper)"
    and "\<And>R m. op_execute oper x R m = Option.bind (args m) (\<lambda>p. Option.bind (create p R m)
      (\<lambda>(res, addr, returnGas, suberr, evm). Some (fin res suberr, set_gas (gas_of m - spent m + returnGas) (after p addr suberr evm m))))"
    and "\<And>R R' p m n. agree n R R' \<Longrightarrow> unat (spent m) < n \<Longrightarrow> create p R m = create p R' m"
    and "\<And>R p m ret a g err e. frugal R \<Longrightarrow> create p R m = Some (ret, a, g, err, e) \<Longrightarrow> g \<le> spent m"
    and "\<And>m. spent m \<le> gas_of m"
  shows "fair x oper"
proof -
  have less: "gas_of m' < gas_of m" if "paid x (op_gasCost oper) m m'" for m m'
  proof -
    from that obtain ms cost m1 where c: "op_gasCost oper x m ms = Some (Inr cost, m1)" "cost \<le> gas_of m" "gas_of m' = gas_of m - cost"
      by (auto simp: paid_def)
    then have "0 < cost" using assms(2) unfolding gas_costs_def by blast
    with c show ?thesis by (simp add: word_less_nat_alt word_le_nat_alt unat_sub)
  qed
  have "op_execute oper x R m' = op_execute oper x R' m'"
    if p: "paid x (op_gasCost oper) m m'" and a: "agree (unat (gas_of m)) R R'" for m m' R R'
  proof -
    have "unat (spent m') < unat (gas_of m)" using less [OF p] assms(6) [of m'] by (simp add: word_less_nat_alt word_le_nat_alt)
    then have "create p R m' = create p R' m'" for p using assms(4) [OF a] by blast
    then show ?thesis by (simp only: assms(3))
  qed
  moreover have "gas_of m2 < gas_of m"
    if p: "paid x (op_gasCost oper) m m'" and R: "frugal R" and e: "op_execute oper x R m' = Some (r, m2)" for m m' R r m2
  proof -
    from e obtain p q where p': "create p R m' = Some q"
      "(\<lambda>(res, addr, returnGas, suberr, evm). Some (fin res suberr, set_gas (gas_of m' - spent m' + returnGas) (after p addr suberr evm m'))) q = Some (r, m2)"
      unfolding assms(3) by (elim bind_SomeE) (rule that)
    obtain ret a g err ev where q: "q = (ret, a, g, err, ev)" by (metis surj_pair)
    have "gas_of m2 = gas_of m' - spent m' + g" using p'(2) by (auto simp: q)
    moreover have "g \<le> spent m'" using assms(5) [OF R p'(1) [unfolded q]] .
    ultimately have "gas_of m2 \<le> gas_of m'" using refund_le assms(6) by simp
    from this less [OF p] show ?thesis by (rule le_less_trans)
  qed
  ultimately show ?thesis using assms(1) unfolding fair_def by (blast intro: less_imp_le)
qed

definition createArgs :: "Machine \<Rightarrow> (int \<times> bytes \<times> Stack) option" where
  "createArgs m = do {
     (val, st) \<leftarrow> pop (m_stack m);
     (offset, st) \<leftarrow> pop st;
     (size', st) \<leftarrow> pop st;
     input \<leftarrow> Memory_Get (Int64 offset) (Int64 size') (m_mem m);
     Some (val, input, st) }"

definition create2Args :: "Machine \<Rightarrow> (int \<times> int \<times> bytes \<times> Stack) option" where
  "create2Args m = do {
     (val, st) \<leftarrow> pop (m_stack m);
     (offset, st) \<leftarrow> pop st;
     (size', st) \<leftarrow> pop st;
     (salt, st) \<leftarrow> pop st;
     input \<leftarrow> Memory_Get (Int64 offset) (Int64 size') (m_mem m);
     Some (val, salt, input, st) }"

definition createSpent :: "VMContext \<Rightarrow> Machine \<Rightarrow> uint64" where
  "createSpent x m = (if isEIP150 x then gas_of m - gas_of m div 64 else gas_of m)"

lemma opCreate_eq:
  "opCreate x R m = Option.bind (createArgs m) (\<lambda>p. Option.bind
     (EVM_Create x R (ContractOf (m_contract (set_gas (gas_of m - createSpent x m) m))) (fst (snd p)) (createSpent x m) (fst p) (m_evm m))
     (\<lambda>(res, addr, returnGas, suberr, evm). Some (Inr (if suberr = Some errExecutionReverted then res else []),
        set_gas (gas_of m - createSpent x m + returnGas) ((set_gas (gas_of m - createSpent x m) m)\<lparr>m_stack :=
          (if isHomestead x \<and> suberr = Some ErrCodeStoreOutOfGas then 0
           else if suberr \<noteq> None \<and> suberr \<noteq> Some ErrCodeStoreOutOfGas then 0 else AddressBig addr) # snd (snd p), m_evm := evm\<rparr>))))"
  by (simp add: opCreate_def createArgs_def createSpent_def case_prod_unfold Let_def set_gas_def)

lemma opCreate2_eq:
  "opCreate2 x R m = Option.bind (create2Args m) (\<lambda>p. Option.bind
     (EVM_Create2 x R (ContractOf (m_contract (set_gas (gas_of m div 64) m))) (fst (snd (snd p)))
        (gas_of m - gas_of m div 64) (fst p) (fst (snd p)) (m_evm m))
     (\<lambda>(res, addr, returnGas, suberr, evm). Some (Inr (if suberr = Some errExecutionReverted then res else []),
        set_gas (gas_of m - (gas_of m - gas_of m div 64) + returnGas) ((set_gas (gas_of m div 64) m)\<lparr>m_stack :=
          (if suberr \<noteq> None then 0 else AddressBig addr) # snd (snd (snd p)), m_evm := evm\<rparr>))))"
  by (simp add: opCreate2_def create2Args_def case_prod_unfold Let_def set_gas_def)

lemma div64_le: "(g::uint64) div 64 \<le> g"
  by (simp add: word_le_nat_alt unat_div)

lemma opCreate_fair: "op_execute oper = opCreate \<Longrightarrow> op_gasCost oper = gasCreate \<Longrightarrow> fair x oper"
  by (rule create_fair [where args = createArgs and spent = "createSpent x" and
        create = "\<lambda>p R m. EVM_Create x R (ContractOf (m_contract (set_gas (gas_of m - createSpent x m) m))) (fst (snd p)) (createSpent x m) (fst p) (m_evm m)"])
    (auto simp: opCreate_eq memory_gas_keeps memory_gas_costs EVM_Create_eq createSpent_def div64_le sub_le
      dest: EVM_create_gas intro: EVM_create_agree)

lemma opCreate2_fair: "op_execute oper = opCreate2 \<Longrightarrow> op_gasCost oper = gasCreate2 \<Longrightarrow> fair x oper"
  by (rule create_fair [where args = create2Args and spent = "\<lambda>m. gas_of m - gas_of m div 64" and
        create = "\<lambda>p R m. EVM_Create2 x R (ContractOf (m_contract (set_gas (gas_of m div 64) m))) (fst (snd (snd p)))
          (gas_of m - gas_of m div 64) (fst p) (fst (snd p)) (m_evm m)"])
    (auto simp: opCreate2_eq memory_gas_keeps memory_gas_costs EVM_Create2_def div64_le sub_le
      dest: EVM_create_gas intro: EVM_create_agree)

section \<open>The instruction sets are fair\<close>

lemma operationOf_fields [simp]:
  "op_execute (operationOf e g s) = e" "op_gasCost (operationOf e g s) = g" "op_validateStack (operationOf e g s) = s"
  "op_memorySize (operationOf e g s) = None" "\<not> op_halts (operationOf e g s)" "\<not> op_jumps (operationOf e g s)"
  "\<not> op_writes (operationOf e g s)" "\<not> op_reverts (operationOf e g s)" "\<not> op_returns (operationOf e g s)"
  by (simp_all add: operationOf_def)

definition fair_set :: "VMContext \<Rightarrow> (OpCode \<times> operation) list \<Rightarrow> bool" where
  "fair_set x ops \<longleftrightarrow> (\<forall>(op, oper) \<in> set ops. fair x oper)"

lemma fair_set_simps: "fair_set x []" "fair_set x ((op, oper) # ops) \<longleftrightarrow> fair x oper \<and> fair_set x ops"
  "fair_set x (ops @ ops') \<longleftrightarrow> fair_set x ops \<and> fair_set x ops'"
  by (auto simp: fair_set_def)

lemmas table_fairs = fair_set_simps fair_local pure_local gas_keep gas_cost pure_ops local_ops gas_constants opCall_fair
  opCallCode_fair opDelegateCall_fair opStaticCall_fair opCreate_fair opCreate2_fair

lemma arithmeticOps_fair: "fair_set x arithmeticOps"
  by (simp add: arithmeticOps_def table_fairs)

lemma comparisonOps_fair: "fair_set x comparisonOps"
  by (simp add: comparisonOps_def table_fairs)

lemma environmentOps_fair: "fair_set x environmentOps"
  by (simp add: environmentOps_def table_fairs)

lemma blockOps_fair: "fair_set x blockOps"
  by (simp add: blockOps_def table_fairs)

lemma storageOps_fair: "fair_set x storageOps"
  by (simp add: storageOps_def table_fairs)

lemma numbered_fair: "fair_set x pushOps" "fair_set x dupOps" "fair_set x swapOps"
  by (auto simp: fair_set_def pushOps_def dupOps_def swapOps_def intro!: fair_local simp: pure_local gas_keep gas_cost pure_ops)

lemma logOps_fair: "fair_set x logOps"
  by (simp add: logOps_def table_fairs)

lemma closureOps_fair: "fair_set x closureOps"
  by (simp add: closureOps_def table_fairs)

lemma instructionSet_fair: "fair_set x (instructionSet x)"
proof -
  have f: "fair_set x newFrontierInstructionSet"
    by (simp add: newFrontierInstructionSet_def fair_set_simps arithmeticOps_fair comparisonOps_fair environmentOps_fair
        blockOps_fair storageOps_fair numbered_fair logOps_fair closureOps_fair)
  then have h: "fair_set x newHomesteadInstructionSet" by (simp add: newHomesteadInstructionSet_def table_fairs)
  then have b: "fair_set x newByzantiumInstructionSet" by (simp add: newByzantiumInstructionSet_def table_fairs)
  then have "isConstantinople x \<Longrightarrow> fair_set x newConstantinopleInstructionSet"
    by (simp add: newConstantinopleInstructionSet_def table_fairs)
  with f h b show ?thesis by (simp add: instructionSet_def)
qed

lemma JumpTable_fair: "JumpTable x b = Some oper \<Longrightarrow> fair x oper"
  using instructionSet_fair [of x] by (auto simp: JumpTable_def fair_set_def dest!: map_of_SomeD)

section \<open>Steps\<close>

text \<open>What a step does before the operation runs: it stops with an error, or the operation is paid for.\<close>

definition prepare :: "VMContext \<Rightarrow> Machine \<Rightarrow> ((vm_error \<times> Machine) + (operation \<times> Machine)) option" where
  "prepare x m = (let op = GetByte (m_contract m) (m_pc m) in
     case JumpTable x op of
       None \<Rightarrow> Some (Inl (InvalidOpcode op, m))
     | Some oper \<Rightarrow>
         (case op_validateStack oper (m_stack m) of
            Some e \<Rightarrow> Some (Inl (e, m))
          | None \<Rightarrow> do {
              restricted \<leftarrow> enforceRestrictions x op oper m;
              case restricted of
                Some e \<Rightarrow> Some (Inl (e, m))
              | None \<Rightarrow> do {
                  size' \<leftarrow> requiredMemory oper (m_stack m);
                  case size' of
                    Inl e \<Rightarrow> Some (Inl (e, m))
                  | Inr memorySize \<Rightarrow> do {
                      (unpaid, m) \<leftarrow> chargeOp x oper memorySize m;
                      Some (case unpaid of Some e \<Rightarrow> Inl (e, m) | None \<Rightarrow> Inr (oper, m)) } } }))"

lemma step_eq:
  "step x R m = Option.bind (prepare x m) (\<lambda>p. case p of
      Inl p \<Rightarrow> Some (Done [] (Some (fst p)), snd p) | Inr p \<Rightarrow> executeOp x R (fst p) (snd p))"
proof -
  let ?op = "GetByte (m_contract m) (m_pc m)"
  note d = step_def prepare_def Let_def
  consider (a) "JumpTable x ?op = None" | (b) oper e where "JumpTable x ?op = Some oper" "op_validateStack oper (m_stack m) = Some e"
    | (c) oper where "JumpTable x ?op = Some oper" "op_validateStack oper (m_stack m) = None" by fastforce
  then show ?thesis
  proof cases
    case (c oper)
    consider (d) "enforceRestrictions x ?op oper m = None" | (e) e where "enforceRestrictions x ?op oper m = Some (Some e)"
      | (f) "enforceRestrictions x ?op oper m = Some None" "requiredMemory oper (m_stack m) = None"
      | (g) e where "enforceRestrictions x ?op oper m = Some None" "requiredMemory oper (m_stack m) = Some (Inl e)"
      | (h) ms where "enforceRestrictions x ?op oper m = Some None" "requiredMemory oper (m_stack m) = Some (Inr ms)"
      by (metis not_None_eq old.sum.exhaust)
    then show ?thesis
    proof cases
      case (h ms)
      show ?thesis
      proof (cases "chargeOp x oper ms m")
        case (Some q)
        then show ?thesis by (cases q; cases "fst q") (simp_all add: d c h)
      qed (simp add: d c h)
    qed (simp_all add: d c)
  qed (simp_all add: d)
qed

lemma chargeOp_None:
  assumes "chargeOp x oper ms m = Some (None, m')" "gas_keeps x (op_gasCost oper)"
  shows "paid x (op_gasCost oper) m m'"
proof -
  from assms(1) obtain c m1 where c: "op_gasCost oper x m ms = Some (c, m1)"
    by (auto simp: chargeOp_def elim!: bind_SomeE)
  with assms(1) obtain cost where cost: "c = Inr cost" by (cases c) (auto simp: chargeOp_def)
  have k: "m_contract m1 = m_contract m" "m_stack m1 = m_stack m" using assms(2) c unfolding gas_keeps_def by blast+
  have "cost \<le> gas_of m \<and> m_contract m' = (m_contract m)\<lparr>ct_Gas := gas_of m - cost\<rparr> \<and> m_stack m' = m_stack m \<and> m_evm m' = m_evm m1"
    using assms(1) by (auto simp: chargeOp_def c cost k UseGas_def not_less split: if_split_asm)
  with c cost show ?thesis unfolding paid_def by blast
qed

lemma chargeOp_Some:
  assumes "chargeOp x oper ms m = Some (Some e, m')" "gas_keeps x (op_gasCost oper)"
  shows "m_contract m' = m_contract m"
proof -
  from assms(1) obtain c m1 where c: "op_gasCost oper x m ms = Some (c, m1)" "m' = m1"
    by (auto simp: chargeOp_def case_prod_unfold elim!: bind_SomeE split: sum.split_asm if_split_asm)
  with assms(2) show ?thesis unfolding gas_keeps_def by blast
qed

lemma prepare_cases:
  assumes "prepare x m = Some p"
  shows "(\<exists>e m'. p = Inl (e, m') \<and> gas_of m' = gas_of m) \<or>
    (\<exists>oper m' b. p = Inr (oper, m') \<and> JumpTable x b = Some oper \<and> fair x oper \<and> paid x (op_gasCost oper) m m')"
proof -
  let ?b = "GetByte (m_contract m) (m_pc m)"
  consider (stop) e where "p = Inl (e, m)"
    | (charge) oper ms unpaid m' where "JumpTable x ?b = Some oper" "chargeOp x oper ms m = Some (unpaid, m')"
        "p = (case unpaid of Some e \<Rightarrow> Inl (e, m') | None \<Rightarrow> Inr (oper, m'))"
    using assms unfolding prepare_def Let_def
    by (auto elim!: bind_SomeE split: option.split_asm sum.split_asm)
  then show ?thesis
  proof cases
    case charge
    have f: "fair x oper" "gas_keeps x (op_gasCost oper)" using JumpTable_fair [OF charge(1)] by (auto simp: fair_def)
    show ?thesis
    proof (cases unpaid)
      case None
      then show ?thesis using charge f chargeOp_None by auto
    next
      case (Some e)
      then show ?thesis using charge f chargeOp_Some by auto
    qed
  qed simp
qed

lemma executeOp_agree:
  "op_execute oper x R m = op_execute oper x R' m \<Longrightarrow> executeOp x R oper m = executeOp x R' oper m"
  by (simp add: executeOp_def)

lemma executeOp_gas:
  assumes "executeOp x R oper m = Some (out, m')"
  obtains r m1 where "op_execute oper x R m = Some (r, m1)" "m_contract m' = m_contract m1" "out = Continue \<longrightarrow> \<not> op_halts oper \<and> \<not> op_reverts oper"
proof -
  obtain r m1 where r: "op_execute oper x R m = Some (r, m1)" using assms by (auto simp: executeOp_def elim!: bind_SomeE)
  show thesis
    by (rule that [OF r]; use assms in \<open>cases r\<close>) (auto simp: executeOp_def r Let_def setReturnData_def split: if_split_asm)
qed

lemma fair_agree:
  "fair x oper \<Longrightarrow> paid x (op_gasCost oper) m m' \<Longrightarrow> agree (unat (gas_of m)) R R' \<Longrightarrow> op_execute oper x R m' = op_execute oper x R' m'"
  unfolding fair_def by blast

lemma fair_gas:
  "fair x oper \<Longrightarrow> paid x (op_gasCost oper) m m' \<Longrightarrow> frugal R \<Longrightarrow> op_execute oper x R m' = Some (r, m2) \<Longrightarrow>
     gas_of m2 \<le> gas_of m \<and> (op_halts oper \<or> op_reverts oper \<or> gas_of m2 < gas_of m)"
  unfolding fair_def by blast

lemma step_agree:
  assumes "agree (unat (gas_of m)) R R'"
  shows "step x R m = step x R' m"
proof (cases "prepare x m")
  case (Some p)
  from prepare_cases [OF Some] show ?thesis
  proof (elim disjE exE conjE)
    fix oper m1 b assume f: "p = Inr (oper, m1)" "fair x oper" "paid x (op_gasCost oper) m m1"
    from executeOp_agree [OF fair_agree [OF f(2,3) assms]] show ?thesis by (simp add: step_eq Some f(1))
  qed (simp add: step_eq Some)
qed (simp add: step_eq)

lemma step_gas:
  assumes "frugal R" "step x R m = Some (out, m')"
  shows "gas_of m' \<le> gas_of m \<and> (out = Continue \<longrightarrow> gas_of m' < gas_of m)"
proof -
  from assms(2) obtain p where p: "prepare x m = Some p"
    and q: "(case p of Inl p \<Rightarrow> Some (Done [] (Some (fst p)), snd p) | Inr p \<Rightarrow> executeOp x R (fst p) (snd p)) = Some (out, m')"
    unfolding step_eq by (elim bind_SomeE) (rule that)
  from prepare_cases [OF p] show ?thesis
  proof (elim disjE exE conjE)
    fix e m1 assume "p = Inl (e, m1)" "gas_of m1 = gas_of m"
    with q show ?thesis by auto
  next
    fix oper m1 b assume f: "p = Inr (oper, m1)" "fair x oper" "paid x (op_gasCost oper) m m1"
    with q have "executeOp x R oper m1 = Some (out, m')" by simp
    then obtain r m2 where "op_execute oper x R m1 = Some (r, m2)" "m_contract m' = m_contract m2"
      "out = Continue \<longrightarrow> \<not> op_halts oper \<and> \<not> op_reverts oper"
      by (rule executeOp_gas) (rule that)
    with fair_gas [OF f(2,3) assms(1)] show ?thesis by metis
  qed
qed

section \<open>The loop\<close>

lemma runWith_frugal:
  assumes "\<And>m r m'. L m = Some (r, m') \<Longrightarrow> gas_of m' \<le> gas_of m"
  shows "frugal (runWith L)"
proof -
  have "g \<le> ct_Gas k" if "runWith L k i ro e = Some (r, g, e')" for k i ro e r g e'
  proof (cases "ct_Code k = []")
    case False
    with that obtain q m' where "L (startMachine k i (enterRun ro e)) = Some (q, m')" "g = gas_of m'"
      by (auto simp: runWith_def elim!: bind_SomeE)
    with assms [of "startMachine k i (enterRun ro e)" q m'] show ?thesis by (simp add: startMachine_def)
  qed (use that in \<open>simp add: runWith_def\<close>)
  then show ?thesis unfolding frugal_def by blast
qed

lemma runLoop_frugal: "runLoop x (\<lambda>m. None) n m = Some (r, m') \<Longrightarrow> gas_of m' \<le> gas_of m"
proof (induction n arbitrary: m r m')
  case (Suc n)
  have f: "frugal (runWith (runLoop x (\<lambda>m. None) n))" using Suc.IH by (rule runWith_frugal)
  from Suc.prems obtain out m1 where s: "step x (runWith (runLoop x (\<lambda>m. None) n)) m = Some (out, m1)"
    and q: "(case out of Done ret err \<Rightarrow> Some ((ret, err), m1) | Continue \<Rightarrow> runLoop x (\<lambda>m. None) n m1) = Some (r, m')"
    by (auto elim!: bind_SomeE)
  from step_gas [OF f s] have le: "gas_of m1 \<le> gas_of m" by simp
  show ?case
  proof (cases out)
    case (Done ret err)
    with q le show ?thesis by simp
  next
    case Continue
    with q have "gas_of m' \<le> gas_of m1" by (simp add: Suc.IH)
    then show ?thesis using le by (rule order_trans)
  qed
qed simp

lemma runLoop_fuel:
  "unat (gas_of m) < n \<Longrightarrow> unat (gas_of m) < n' \<Longrightarrow> runLoop x z n m = runLoop x z' n' m"
proof (induction n arbitrary: n' m z z')
  case (Suc k)
  then obtain k' where n': "n' = Suc k'" by (cases n') auto
  let ?R = "\<lambda>z k. runWith (runLoop x z k)"
  have ag: "agree (unat (gas_of m)) (?R z k) (?R z'' k'')" if "unat (gas_of m) \<le> k''" for z'' k''
  proof -
    have "runLoop x z k (startMachine c i e) = runLoop x z'' k'' (startMachine c i e)" if "unat (ct_Gas c) < unat (gas_of m)" for c i e
      using Suc.IH [of "startMachine c i e" k'' z z''] Suc.prems(1) that \<open>unat (gas_of m) \<le> k''\<close> by (simp add: startMachine_def)
    then show ?thesis unfolding agree_def runWith_def by auto
  qed
  have e: "step x (?R z k) m = step x (?R z' k') m" using ag [of k' z'] Suc.prems(2) n' step_agree by simp
  have f: "step x (?R z k) m = step x (?R (\<lambda>m. None) k) m" using ag [of k "\<lambda>m. None"] Suc.prems(1) step_agree by simp
  show ?case
  proof (cases "step x (?R z k) m")
    case (Some q)
    obtain out m1 where q: "q = (out, m1)" by fastforce
    show ?thesis
    proof (cases out)
      case Continue
      have "frugal (?R (\<lambda>m. None) k)" using runLoop_frugal by (rule runWith_frugal)
      from step_gas [OF this, of x m Continue m1] f Some q Continue have "gas_of m1 < gas_of m" by simp
      then have "unat (gas_of m1) < k" "unat (gas_of m1) < k'" using Suc.prems n' by (auto simp: word_less_nat_alt)
      with Suc.IH have "runLoop x z k m1 = runLoop x z' k' m1" by blast
      with Some e q Continue show ?thesis by (simp add: n')
    qed (use Some e q n' in simp)
  qed (use e n' in simp)
qed simp

section \<open>Properties\<close>

lemma interpreter_frugal: "frugal (EVMInterpreter_Run x)"
proof -
  have "frugal (runWith (runLoop x (\<lambda>m. None) n))" for n using runLoop_frugal by (rule runWith_frugal)
  then show ?thesis unfolding frugal_def EVMInterpreter_Run_def by blast
qed

lemma finishCall_fail:
  "finishCall i r = Some (ret, left, err, e') \<Longrightarrow> err = None \<or> err = Some errExecutionReverted \<or> left = 0"
  by (cases r) (auto simp: finishCall_def elim!: bind_SomeE split: if_split_asm)

text \<open>A configuration with every fork at block zero, and an execution that starts on an empty database.\<close>

definition exampleVM :: VMContext where
  "exampleVM = \<lparr>cx_Origin = 5, cx_GasPrice = 1, cx_Coinbase = 9, cx_GasLimit = 8000000, cx_BlockNumber = 10, cx_Time = 100,
     cx_Difficulty = 1, cx_GetHash = (\<lambda>n. 0),
     cx_chain = \<lparr>HomesteadBlock = Some 0, EIP150Block = Some 0, EIP155Block = Some 0, EIP158Block = Some 0, ByzantiumBlock = Some 0, ConstantinopleBlock = Some 0\<rparr>,
     cx_NoRecursion = False, cx_EnablePreimageRecording = False,
     cx_crypto = \<lparr>cr_Ecrecover = (\<lambda>h s. None), cr_Sha256 = (\<lambda>b. b), cr_Ripemd160 = (\<lambda>b. b), cr_G1 = Some, cr_G2 = Some,
       cr_Add = (\<lambda>a b. a), cr_ScalarMult = (\<lambda>a n. a), cr_PairingCheck = (\<lambda>a b. True)\<rparr>\<rparr>"

definition exampleEVM :: EVM where
  "exampleEVM = \<lparr>e_db = New exampleEnv Map.empty 0 emptyTicketSlice, e_depth = 0, e_readOnly = False, e_returnData = [],
     e_callGasTemp = 0, e_jumpdests = Map.empty\<rparr>"

definition exampleLoop :: Contract where
  "exampleLoop = (fst (NewContract (AccountRef 5) 6 (Some 0) 100 exampleEVM))\<lparr>ct_Code := [0x5b, 0x60, 0x00, 0x56]\<rparr>"

lemmas evm_eval = exampleVM_def exampleEVM_def CallCreateDepth_def ref_Address_def takeSnapshot_def Exist_def CreateAccount_def
  SubBalance_def Object_SubBalance_def isEmpty_def loadCode_def NewContract_def SetCallCode_def GetCodeHash_def GetCode_def
  Object_Code_def run_contract_def precompiles_def PrecompiledContractsByzantium_def RunPrecompiledContract_def UseGas_def
  RequiredGas_def perWord_def IsByzantium_def IsEIP158_def isForked_def codeOf_def touch_def emptyCodeHash_def exampleEnv_def
  IsSpecialKeyAddress_def TicketKeyAddress_def NotationKeyAddress_def AssetKeyAddress_def SwapKeyAddress_def MultiSwapKeyAddress_def

text \<open>
  C3. The interpreter always returns. Running a contract with any fuel above its gas gives the result of
  \<open>EVMInterpreter_Run\<close>, whatever a loop without fuel would return: each operation that does not end the run costs gas,
  and a call or a creation runs on less gas than its caller has.
\<close>

theorem evm_run_returns:
  assumes "unat (ct_Gas c) < n"
  shows "runWith (runLoop x z n) c input readOnly e = EVMInterpreter_Run x c input readOnly e"
  using runLoop_fuel [of "startMachine c input (enterRun readOnly e)" n "Suc (unat (ct_Gas c))" x z "\<lambda>m. None"] assms
  by (simp add: runWith_def EVMInterpreter_Run_def startMachine_def)

text \<open>The witness is a contract that jumps back to its first instruction for ever.\<close>

theorem evm_run_returns_witness:
  "runWith (runLoop exampleVM (\<lambda>m. Some (([1], None), m)) 1000)
     exampleLoop [] False exampleEVM =
   EVMInterpreter_Run exampleVM exampleLoop [] False exampleEVM"
  by (rule evm_run_returns) (simp add: exampleLoop_def NewContract_def)

text \<open>
  C4. A call returns at most the gas it was given, whatever code runs; and all of it is consumed if the call fails
  with an error other than the three that leave the gas: reverted, too deep, not enough balance.
\<close>

theorem evm_call_gas:
  assumes "EVM_Call x (EVMInterpreter_Run x) caller addr input gas val e = Some (ret, left, err, e')"
  shows "left \<le> gas \<and> (err \<noteq> None \<and> err \<noteq> Some errExecutionReverted \<and> err \<noteq> Some ErrDepth \<and> err \<noteq> Some ErrInsufficientBalance \<longrightarrow> left = 0)"
proof
  show "left \<le> gas" using interpreter_frugal assms by (rule EVM_Call_gas)
  show "err \<noteq> None \<and> err \<noteq> Some errExecutionReverted \<and> err \<noteq> Some ErrDepth \<and> err \<noteq> Some ErrInsufficientBalance \<longrightarrow> left = 0"
    using assms unfolding EVM_Call_def Let_def case_prod_unfold
    by (auto elim!: bind_SomeE dest!: finishCall_fail split: if_split_asm)
qed

theorem evm_call_gas_witness:
  "\<exists>ret e'. EVM_Call exampleVM (EVMInterpreter_Run exampleVM) (AccountRef 5) 4 [1, 2] 10 0 exampleEVM = Some (ret, 0, Some ErrOutOfGas, e')"
proof -
  have "\<exists>ret left e'. EVM_Call exampleVM (EVMInterpreter_Run exampleVM) (AccountRef 5) 4 [1, 2] 10 0 exampleEVM = Some (ret, left, Some ErrOutOfGas, e')"
    by (simp add: EVM_Call_def CanTransfer_def GetBalance_def Transfer_def evm_eval db_eval Let_def)
      (simp add: finishCall_def RevertToSnapshot_def journal_revert_def sortSearch.simps undirty_def revertObject_def Let_def)
  then obtain ret left e' where
    c: "EVM_Call exampleVM (EVMInterpreter_Run exampleVM) (AccountRef 5) 4 [1, 2] 10 0 exampleEVM = Some (ret, left, Some ErrOutOfGas, e')" by blast
  from evm_call_gas [OF c] c show ?thesis by auto
qed

end
