(* ===== verification/Evm_Words.thy ===== *)
theory Evm_Words
  imports Evm_Machine "HOL-Library.Signed_Division"
begin

text \<open>
  The arithmetic of the virtual machine (\<open>core/vm/instructions.go\<close>, \<open>common/math/big.go\<close>), which works on big
  integers, is the arithmetic of 256-bit words.
\<close>

unbundle bit_operations_syntax

section \<open>Integers as words\<close>

type_synonym word256 = "256 word"

lemma U256_take_bit: "U256 x = take_bit 256 x"
  by (simp add: U256_def tt256m1_def tt256_def take_bit_eq_mask mask_eq_exp_minus_1)

lemma U256_word: "U256 x = uint (word_of_int x :: word256)"
  by (simp add: U256_take_bit unsigned_of_int)

lemma U256_uint [simp]: "U256 (uint (a :: word256)) = uint a"
  by (simp add: U256_word)

lemma uint_bounds: "0 \<le> uint (a :: word256)" "uint a < 2 ^ 256"
  using uint_bounded [of a] by simp_all

lemma bit_255: "bit (uint (a :: word256)) 255 \<longleftrightarrow> 2 ^ 255 \<le> uint a"
proof -
  have "uint a div 2 ^ 255 = (if uint a < 2 ^ 255 then 0 else 1)"
    using uint_bounds [of a] div_pos_geq [of "2 ^ 255" "uint a"] div_pos_pos_trivial [of "uint a - 2 ^ 255" "2 ^ 255"] by auto
  then show ?thesis by (simp add: bit_iff_odd not_less)
qed

lemma S256_uint [simp]: "S256 (uint (a :: word256)) = sint a"
proof -
  have "sint a = take_bit 256 (uint a) - 2 ^ 256 * of_bool (bit (uint a) 255)"
    by (simp add: sint_uint signed_take_bit_eq_take_bit_minus)
  moreover have "take_bit 256 (uint a) = uint a" using U256_uint [of a] by (simp add: U256_take_bit)
  ultimately show ?thesis by (simp add: S256_def tt255_def tt256_def bit_255)
qed

section \<open>Exponentiation\<close>

lemma word_U256 [simp]: "(word_of_int (U256 x) :: word256) = word_of_int x"
  by (simp add: U256_word)

lemma Exp_word_spec:
  assumes "0 \<le> r" "r < 2 ^ 256" "Exp_word i w (r, b) = (r', b')"
  shows "0 \<le> r' \<and> r' < 2 ^ 256 \<and> (word_of_int r' :: word256) = word_of_int r * word_of_int b ^ (unat w mod 2 ^ i) \<and>
    (word_of_int b' :: word256) = word_of_int b ^ 2 ^ i"
  using assms
proof (induction i arbitrary: w r b)
  case (Suc i)
  let ?r = "if w AND 1 = 1 then U256 (r * b) else r" and ?w = "drop_bit 1 w :: uint64"
  have r: "0 \<le> ?r" "?r < 2 ^ 256" using Suc.prems(1,2) uint_bounds by (simp_all add: U256_word)
  have "Exp_word i ?w (?r, U256 (b * b)) = (r', b')" using Suc.prems(3) by simp
  from Suc.IH [OF r this] have IH: "0 \<le> r'" "r' < 2 ^ 256"
    "(word_of_int r' :: word256) = word_of_int ?r * word_of_int (b * b) ^ (unat ?w mod 2 ^ i)"
    "(word_of_int b' :: word256) = word_of_int (b * b) ^ 2 ^ i" by simp_all
  have "bit (unat w) 0 = bit w 0" by (simp only: bit_unsigned_iff) simp
  then have odd: "w AND 1 = 1 \<longleftrightarrow> odd (unat w)" by (simp only: bit_0 and_one_eq odd_iff_mod_2_eq_one)
  have "unat ?w = unat w div 2" by (simp only: unat_drop_bit_eq) (simp add: drop_bit_eq_div)
  moreover have "unat w mod 2 ^ Suc i = unat w mod 2 + 2 * (unat w div 2 mod 2 ^ i)" by (simp add: mod_mult2_eq)
  ultimately have m: "unat w mod 2 ^ Suc i = (if w AND 1 = 1 then 1 else 0) + 2 * (unat ?w mod 2 ^ i)"
    by (simp add: odd mod_2_eq_odd)
  have "(word_of_int (b * b) :: word256) = word_of_int b ^ 2" by (simp add: power2_eq_square)
  then have b2: "(word_of_int (b * b) :: word256) ^ k = word_of_int b ^ (2 * k)" for k by (simp only: power_mult)
  have "(word_of_int ?r :: word256) = word_of_int r * word_of_int b ^ (if w AND 1 = 1 then 1 else 0)" by simp
  with IH(3) have "(word_of_int r' :: word256) = word_of_int r * word_of_int b ^ (unat w mod 2 ^ Suc i)"
    unfolding m b2 power_add by (simp only: mult.assoc)
  with IH(1,2,4) show ?case unfolding b2 power_Suc by blast
qed simp

lemma Exp_fold_spec:
  assumes "0 \<le> r" "r < 2 ^ 256"
  shows "fst (fold (Exp_word 64) (natBits n) (r, b)) = uint (word_of_int r * word_of_int b ^ n :: word256)"
  using assms
proof (induction n arbitrary: r b rule: natBits.induct)
  case (1 n)
  show ?case
  proof (cases "n = 0")
    case False
    obtain r' b' where e: "Exp_word 64 (of_nat n) (r, b) = (r', b')" by fastforce
    from Exp_word_spec [OF 1(2,3) e] have s: "0 \<le> r'" "r' < 2 ^ 256"
      "(word_of_int r' :: word256) = word_of_int r * word_of_int b ^ (n mod 2 ^ 64)" "(word_of_int b' :: word256) = word_of_int b ^ 2 ^ 64"
      by (simp_all add: unat_of_nat)
    have "fst (fold (Exp_word 64) (natBits n) (r, b)) = uint (word_of_int r' * word_of_int b' ^ (n div 2 ^ 64) :: word256)"
      using 1(1) [OF False s(1,2)] False e by (subst natBits.simps) simp
    also have "word_of_int r' * word_of_int b' ^ (n div 2 ^ 64) = (word_of_int r * word_of_int b ^ (n mod 2 ^ 64 + 2 ^ 64 * (n div 2 ^ 64)) :: word256)"
      by (simp only: s(3,4) power_add power_mult mult.assoc)
    also have "n mod 2 ^ 64 + 2 ^ 64 * (n div 2 ^ 64) = n" by (rule mod_mult_div_eq)
    finally show ?thesis .
  next
    case True
    then show ?thesis using 1(2,3) take_bit_int_eq_self [of r 256] by (subst natBits.simps) (simp add: unsigned_of_int)
  qed
qed

lemma Exp_word256: "Exp (uint (a :: word256)) (uint (b :: word256)) = uint (a ^ unat b)"
  by (simp add: Exp_def Bits_def Exp_fold_spec)

section \<open>Operations as functions on words\<close>

definition computes1 :: "executionFunc \<Rightarrow> (word256 \<Rightarrow> word256) \<Rightarrow> bool" where
  "computes1 f g \<longleftrightarrow> (\<forall>x R m a st. m_stack m = uint a # st \<longrightarrow> f x R m = Some (Inr [], m\<lparr>m_stack := uint (g a) # st\<rparr>))"

definition computes2 :: "executionFunc \<Rightarrow> (word256 \<Rightarrow> word256 \<Rightarrow> word256) \<Rightarrow> bool" where
  "computes2 f g \<longleftrightarrow> (\<forall>x R m a b st. m_stack m = uint a # uint b # st \<longrightarrow>
     f x R m = Some (Inr [], m\<lparr>m_stack := uint (g a b) # st\<rparr>))"

definition computes3 :: "executionFunc \<Rightarrow> (word256 \<Rightarrow> word256 \<Rightarrow> word256 \<Rightarrow> word256) \<Rightarrow> bool" where
  "computes3 f g \<longleftrightarrow> (\<forall>x R m a b c st. m_stack m = uint a # uint b # uint c # st \<longrightarrow>
     f x R m = Some (Inr [], m\<lparr>m_stack := uint (g a b c) # st\<rparr>))"

lemma computes1I: "(\<And>a. h (uint a) = uint (g a)) \<Longrightarrow> computes1 (unary h) g"
  by (simp add: computes1_def unary_def ok_def pop_def)

lemma computes2I: "(\<And>a b. h (uint a) (uint b) = uint (g a b)) \<Longrightarrow> computes2 (binary h) g"
  by (simp add: computes2_def binary_def ok_def pop_def)

lemma computes3I: "(\<And>a b c. h (uint a) (uint b) (uint c) = uint (g a b c)) \<Longrightarrow> computes3 (ternary h) g"
  by (simp add: computes3_def ternary_def ok_def pop_def)

lemma ring_ops: "computes2 opAdd (+)" "computes2 opSub (-)" "computes2 opMul (*)"
  unfolding opAdd_def opSub_def opMul_def by (rule computes2I, simp add: U256_word)+

lemma uint_div256: "uint (a div b :: word256) = uint a div uint b"
  by (rule uint_div)

lemma uint_mod256: "uint (a mod b :: word256) = uint a mod uint b"
  by (rule uint_mod)

lemma uint_eq: "uint (a :: word256) = 0 \<longleftrightarrow> a = 0" "uint a = uint b \<longleftrightarrow> a = b" "0 < uint a \<longleftrightarrow> a \<noteq> 0"
proof -
  show z: "uint a = 0 \<longleftrightarrow> a = 0" by (rule unsigned_eq_0_iff)
  show "uint a = uint b \<longleftrightarrow> a = b" by (rule word_uint_eq_iff [symmetric])
  show "0 < uint a \<longleftrightarrow> a \<noteq> 0" using z uint_bounds(1) [of a] by linarith
qed

lemma div_ops: "computes2 opDiv (div)" "computes2 opMod (\<lambda>a b. if b = 0 then 0 else a mod b)"
  unfolding opDiv_def opMod_def by (rule computes2I, simp add: U256_word uint_eq uint_div256 [symmetric] uint_mod256 [symmetric])+

lemma abs_sgn_div: "(if y = 0 \<or> x = 0 then 0 else if sgn x \<noteq> sgn y then - (\<bar>x\<bar> div \<bar>y\<bar>) else \<bar>x\<bar> div \<bar>y\<bar>) = (x::int) sdiv y"
  by (auto simp: signed_divide_int_def sgn_if)

lemma abs_sgn_mod: "y \<noteq> 0 \<Longrightarrow> (if x < 0 then - (\<bar>x\<bar> mod \<bar>y\<bar>) else \<bar>x\<bar> mod \<bar>y\<bar>) = (x::int) smod y"
  by (auto simp: signed_modulo_int_def sgn_if)

lemma sint_eq_0: "sint (a :: word256) = 0 \<longleftrightarrow> a = 0"
  by (rule signed_eq_0_iff)

lemma signed_div_ops:
  "computes2 opSdiv (\<lambda>a b. word_of_int (sint a sdiv sint b))"
  "computes2 opSmod (\<lambda>a b. if b = 0 then 0 else word_of_int (sint a smod sint b))"
proof -
  show "computes2 opSdiv (\<lambda>a b. word_of_int (sint a sdiv sint b))"
    unfolding opSdiv_def by (rule computes2I) (simp add: Let_def U256_word abs_sgn_div [symmetric])
  show "computes2 opSmod (\<lambda>a b. if b = 0 then 0 else word_of_int (sint a smod sint b))"
    unfolding opSmod_def by (rule computes2I) (auto simp: Let_def U256_word sint_eq_0 abs_sgn_mod [symmetric])
qed

lemma modular_ops:
  "computes3 opAddmod (\<lambda>a b n. if n = 0 then 0 else word_of_int ((uint a + uint b) mod uint n))"
  "computes3 opMulmod (\<lambda>a b n. if n = 0 then 0 else word_of_int ((uint a * uint b) mod uint n))"
  unfolding opAddmod_def opMulmod_def by (rule computes3I, simp add: U256_word uint_eq)+

lemma exp_op: "computes2 opExp (\<lambda>a b. a ^ unat b)"
  unfolding opExp_def by (rule computes2I) (rule Exp_word256)

lemma compare_ops:
  "computes2 opLt (\<lambda>a b. of_bool (a < b))" "computes2 opGt (\<lambda>a b. of_bool (b < a))" "computes2 opEq (\<lambda>a b. of_bool (a = b))"
  "computes1 opIszero (\<lambda>a. of_bool (a = 0))"
proof -
  show "computes2 opLt (\<lambda>a b. of_bool (a < b))" "computes2 opGt (\<lambda>a b. of_bool (b < a))" "computes2 opEq (\<lambda>a b. of_bool (a = b))"
    unfolding opLt_def opGt_def opEq_def by (rule computes2I, simp add: word_less_def uint_eq)+
  show "computes1 opIszero (\<lambda>a. of_bool (a = 0))"
    unfolding opIszero_def by (rule computes1I) (simp add: uint_eq)
qed

lemma two_complement_less:
  assumes "0 \<le> x" "x < N" "0 \<le> y" "y < (N::int)"
  shows "(if x \<ge> T \<and> y < T then 1 else if x < T \<and> y \<ge> T then 0 else if x < y then 1 else 0) =
    (of_bool ((if x < T then x else x - N) < (if y < T then y else y - N)) :: int)"
  using assms by auto

lemma signed_compare_ops:
  "computes2 opSlt (\<lambda>a b. of_bool (sint a < sint b))" "computes2 opSgt (\<lambda>a b. of_bool (sint b < sint a))"
proof -
  have less: "uint (of_bool (sint a < sint b) :: word256) = (if uint a \<ge> tt255 \<and> uint b < tt255 then 1
      else if uint a < tt255 \<and> uint b \<ge> tt255 then 0 else if uint a < uint b then 1 else 0)" for a b :: word256
    unfolding two_complement_less [OF uint_bounds [of a] uint_bounds [of b]] S256_uint [symmetric] S256_def tt256_def by simp
  show "computes2 opSlt (\<lambda>a b. of_bool (sint a < sint b))" unfolding opSlt_def by (rule computes2I) (simp only: less)
  show "computes2 opSgt (\<lambda>a b. of_bool (sint b < sint a))"
    unfolding opSgt_def by (rule computes2I) (auto simp: less not_less)
qed

lemma bit_ops:
  "computes2 opAnd (AND)" "computes2 opOr (OR)" "computes2 opXor (XOR)" "computes1 opNot NOT"
proof -
  show "computes2 opAnd (AND)" "computes2 opOr (OR)" "computes2 opXor (XOR)"
    unfolding opAnd_def opOr_def opXor_def by (rule computes2I, simp add: unsigned_and_eq unsigned_or_eq unsigned_xor_eq)+
  show "computes1 opNot NOT"
    unfolding opNot_def by (rule computes1I) (simp add: U256_word of_int_not_eq)
qed

lemma Uint64_small: "uint (a :: word256) < 256 \<Longrightarrow> unat (Uint64 (uint a)) = unat a"
proof -
  assume "uint a < 256"
  then have "take_bit 64 (uint a) = uint a" using uint_bounds [of a] by (intro take_bit_int_eq_self) simp_all
  then have "uint (Uint64 (uint a)) = uint a" unfolding Uint64_def unsigned_of_int by simp
  then have "nat (uint (Uint64 (uint a))) = nat (uint a)" by simp
  then show ?thesis by simp
qed

lemma shift_big: "\<not> uint (a :: word256) < 256 \<Longrightarrow> 256 \<le> unat a"
proof -
  assume "\<not> uint a < 256"
  then have "nat 256 \<le> nat (uint a)" by (intro nat_mono) simp
  then show ?thesis by simp
qed

lemma U256_sint: "U256 (sint (a :: word256)) = uint a"
  by (simp add: U256_word)

lemma drop_bit_sign:
  assumes "256 \<le> n"
  shows "drop_bit n (sint (b :: word256)) = (if 0 \<le> sint b then 0 else - 1)"
proof -
  have "- (2 ^ 255) \<le> sint b" "sint b < 2 ^ 255" using sint_greater_eq [of b] sint_less [of b] by simp_all
  moreover have "(2 ^ 255 :: int) \<le> 2 ^ n" using assms by (intro power_increasing) simp_all
  ultimately have "0 \<le> sint b \<Longrightarrow> sint b div 2 ^ n = 0" "sint b < 0 \<Longrightarrow> sint b div 2 ^ n = - 1"
    using int_div_pos_eq [of "sint b" "2 ^ n" "- 1" "sint b + 2 ^ n"] div_pos_pos_trivial [of "sint b" "2 ^ n"] by simp_all
  then show ?thesis by (simp add: drop_bit_eq_div)
qed

lemma shift_ops:
  "computes2 opSHL (\<lambda>a b. push_bit (unat a) b)" "computes2 opSHR (\<lambda>a b. drop_bit (unat a) b)"
  "computes2 opSAR (\<lambda>a b. signed_drop_bit (unat a) b)"
proof -
  have "U256 (push_bit n (uint b)) = uint (push_bit n b)" for n and b :: word256
    by (simp add: U256_word push_bit_of_int [symmetric])
  moreover have "256 \<le> n \<Longrightarrow> push_bit n b = 0" for n and b :: word256
    by (rule push_bit_word_beyond) simp
  ultimately show "computes2 opSHL (\<lambda>a b. push_bit (unat a) b)"
    unfolding opSHL_def by (intro computes2I) (auto simp: Let_def Uint64_small not_le dest: shift_big [unfolded not_less])
  have "U256 (drop_bit n (uint b)) = uint (drop_bit n b)" for n and b :: word256
    using U256_uint [of "drop_bit n b"] U256_uint [of b] by (simp add: unsigned_drop_bit_eq U256_take_bit)
  moreover have "256 \<le> n \<Longrightarrow> drop_bit n b = 0" for n and b :: word256
    by (rule drop_bit_word_beyond) simp
  ultimately show "computes2 opSHR (\<lambda>a b. drop_bit (unat a) b)"
    unfolding opSHR_def by (intro computes2I) (auto simp: Let_def Uint64_small not_le dest: shift_big [unfolded not_less])
  have *: "U256 (drop_bit n (sint b)) = uint (signed_drop_bit n b)" for n and b :: word256
    using U256_sint [of "signed_drop_bit n b"] by (simp add: sint_signed_drop_bit_eq)
  have "U256 (if 0 \<le> sint b then 0 else - 1) = U256 (drop_bit (unat a) (sint b))" if "256 \<le> uint a" for a b :: word256
    using drop_bit_sign [OF shift_big, of a b] that by simp
  then have "U256 (if 0 \<le> sint b then 0 else - 1) = uint (signed_drop_bit (unat a) b)" if "256 \<le> uint a" for a b :: word256
    using that by (simp only: *)
  with * show "computes2 opSAR (\<lambda>a b. signed_drop_bit (unat a) b)"
    unfolding opSAR_def by (intro computes2I) (simp add: Let_def Uint64_small not_le)
qed

lemma natBits_nth: "(if i < length (natBits n) then natBits n ! i else 0) = of_nat (n div 2 ^ (64 * i))"
proof (induction i arbitrary: n)
  case 0
  show ?case by (subst (1 2) natBits.simps) simp
next
  case (Suc i)
  show ?case
  proof (cases "n = 0")
    case False
    then have e: "natBits n = of_nat n # natBits (n div 2 ^ 64)" by (subst natBits.simps) simp
    have "n div 2 ^ 64 div 2 ^ (64 * i) = n div 2 ^ (64 * Suc i)"
      by (simp add: div_mult2_eq [symmetric] power_add [symmetric] del: power_numeral)
    with Suc.IH [of "n div 2 ^ 64"] show ?thesis unfolding e by (simp only: length_Cons Suc_less_eq nth_Cons_Suc)
  qed (simp add: natBits.simps)
qed

lemma bit_unat: "bit (unat (w :: uint64)) k \<longleftrightarrow> bit w k" "bit (unat (v :: word256)) k \<longleftrightarrow> bit v k" "bit (uint v) k \<longleftrightarrow> bit v k"
  by (simp_all add: bit_unsigned_iff)

lemma bit_of_nat_uint64: "bit (of_nat n :: uint64) k \<longleftrightarrow> k < 64 \<and> bit n k"
  unfolding bit_unat(1) [symmetric] unsigned_of_nat by (simp add: bit_take_bit_iff)

lemma bigEndianByteAt_bit:
  "bit (bigEndianByteAt (uint (a :: word256)) j) t \<longleftrightarrow> t < 8 \<and> bit a (8 * j + t)"
proof (cases "t < 8")
  case True
  let ?w = "of_nat (unat a div 2 ^ (64 * (j div 8))) :: uint64"
  have "bigEndianByteAt (uint a) j = ucast (drop_bit (8 * (j mod 8)) ?w)"
    unfolding natBits_nth [of "j div 8" "unat a", symmetric] by (simp add: bigEndianByteAt_def Bits_def Let_def)
  then have "bit (bigEndianByteAt (uint a) j) t \<longleftrightarrow> bit ?w (8 * (j mod 8) + t)"
    using True by (simp add: bit_unsigned_iff bit_drop_bit_eq)
  also have "\<dots> \<longleftrightarrow> bit (unat a) (64 * (j div 8) + (8 * (j mod 8) + t))"
  proof -
    have "8 * (j mod 8) + t < 64" using True mod_less_divisor [of 8 j] by linarith
    then show ?thesis unfolding drop_bit_eq_div [symmetric] by (simp add: bit_of_nat_uint64 bit_drop_bit_eq)
  qed
  also have "64 * (j div 8) + (8 * (j mod 8) + t) = 8 * j + t" using mult_div_mod_eq [of 8 j] by linarith
  finally show ?thesis using True by (simp add: bit_unat)
qed (auto dest: bit_imp_le_length)

lemma Int64_small:
  assumes "uint (i :: word256) < 32"
  shows "Int64 (uint i) = uint i"
proof -
  have "take_bit 64 (uint i) = uint i" using assms uint_bounds [of i] by (intro take_bit_int_eq_self) simp_all
  then have u: "uint (Uint64 (uint i)) = uint i" unfolding Uint64_def unsigned_of_int by simp
  have "Int64 (uint i) = signed_take_bit 63 (uint i)" unfolding Int64_def sint_uint u by simp
  also have "\<dots> = uint i"
  proof (rule signed_take_bit_int_eq_self)
    show "- (2 ^ 63) \<le> uint i" using uint_bounds(1) [of i] by (rule order_trans [rotated]) simp
    show "uint i < 2 ^ 63" using assms by (rule less_le_trans) simp
  qed
  finally show ?thesis .
qed

lemma byte_op: "computes2 opByte (\<lambda>i a. if i < 32 then drop_bit (8 * (31 - unat i)) a AND 0xff else 0)"
proof -
  have "uint (Byte (uint a) 32 (nat (Int64 (uint i)))) = uint (drop_bit (8 * (31 - unat i)) a AND 0xff)"
    if "uint i < 32" for i a :: word256
  proof (rule bit_eqI)
    fix t
    have i: "unat i < 32" using that by (simp only: unat_eq_nat_uint)
    have n: "nat (Int64 (uint i)) = unat i" using that Int64_small [of i] by simp
    have "bit (0xff :: word256) t \<longleftrightarrow> t < 8" using bit_mask_iff [where 'a = word256, of 8 t] by (auto simp: mask_eq_exp_minus_1)
    then show "bit (uint (Byte (uint a) 32 (nat (Int64 (uint i))))) t = bit (uint (drop_bit (8 * (31 - unat i)) a AND 0xff)) t"
      using i by (simp add: n Byte_def bit_unsigned_iff bigEndianByteAt_bit bit_and_iff bit_drop_bit_eq conj_commute)
  qed
  then show ?thesis unfolding opByte_def by (intro computes2I) (auto simp: word_less_def)
qed

lemma signExtend_word:
  assumes "uint (k :: word256) < 31"
  shows "signExtend (uint k) (uint (a :: word256)) = uint (word_of_int (signed_take_bit (8 * unat k + 7) (uint a)) :: word256)"
proof -
  have k: "unat k < 31" using assms by (simp only: unat_eq_nat_uint)
  have "unat (Uint64 (uint k)) = unat k" using assms by (intro Uint64_small) simp
  then have b: "unat (Uint64 (uint k) * 8 + 7) = 8 * unat k + 7" using k by (simp add: unat_word_ariths)
  have "(if bit v n then v OR NOT (2 ^ n - 1) else v AND (2 ^ n - 1)) = signed_take_bit n v" for v :: int and n
    unfolding mask_eq_exp_minus_1 [symmetric]
    by (rule bit_eqI) (auto simp: bit_signed_take_bit_iff bit_or_iff bit_and_iff bit_not_iff bit_mask_iff min_def not_less)
  then show ?thesis by (simp add: signExtend_def Let_def b U256_word)
qed

lemma signExtend_op:
  "computes2 opSignExtend (\<lambda>k a. if k < 31 then word_of_int (signed_take_bit (8 * unat k + 7) (uint a)) else a)"
  by (auto simp: computes2_def opSignExtend_def pop_def ok_def word_less_def signExtend_word)

section \<open>Properties\<close>

text \<open>
  C9. The arithmetic operations, which compute with big integers and cut the result to 256 bits, are the operations of
  256-bit words: ring operations modulo \<open>2 ^ 256\<close>, division that is zero for a zero divisor, signed division that rounds
  to zero, sums and products modulo a third word without an overflow, powers, comparisons, bitwise operations, shifts,
  single bytes and sign extension.
\<close>

theorem evm_word_arithmetic:
  "computes2 opAdd (+) \<and> computes2 opSub (-) \<and> computes2 opMul (*) \<and> computes2 opDiv (div) \<and>
   computes2 opMod (\<lambda>a b. if b = 0 then 0 else a mod b) \<and>
   computes2 opSdiv (\<lambda>a b. word_of_int (sint a sdiv sint b)) \<and>
   computes2 opSmod (\<lambda>a b. if b = 0 then 0 else word_of_int (sint a smod sint b)) \<and>
   computes3 opAddmod (\<lambda>a b n. if n = 0 then 0 else word_of_int ((uint a + uint b) mod uint n)) \<and>
   computes3 opMulmod (\<lambda>a b n. if n = 0 then 0 else word_of_int ((uint a * uint b) mod uint n)) \<and>
   computes2 opExp (\<lambda>a b. a ^ unat b) \<and>
   computes2 opLt (\<lambda>a b. of_bool (a < b)) \<and> computes2 opGt (\<lambda>a b. of_bool (b < a)) \<and>
   computes2 opSlt (\<lambda>a b. of_bool (sint a < sint b)) \<and> computes2 opSgt (\<lambda>a b. of_bool (sint b < sint a)) \<and>
   computes2 opEq (\<lambda>a b. of_bool (a = b)) \<and> computes1 opIszero (\<lambda>a. of_bool (a = 0)) \<and>
   computes2 opAnd (AND) \<and> computes2 opOr (OR) \<and> computes2 opXor (XOR) \<and> computes1 opNot NOT \<and>
   computes2 opSHL (\<lambda>a b. push_bit (unat a) b) \<and> computes2 opSHR (\<lambda>a b. drop_bit (unat a) b) \<and>
   computes2 opSAR (\<lambda>a b. signed_drop_bit (unat a) b) \<and>
   computes2 opByte (\<lambda>i a. if i < 32 then drop_bit (8 * (31 - unat i)) a AND 0xff else 0) \<and>
   computes2 opSignExtend (\<lambda>k a. if k < 31 then word_of_int (signed_take_bit (8 * unat k + 7) (uint a)) else a)"
  by (intro conjI ring_ops div_ops signed_div_ops modular_ops exp_op compare_ops signed_compare_ops bit_ops shift_ops byte_op signExtend_op)

end
