(* ===== verification/Evm_Jumps.thy ===== *)
theory Evm_Jumps
  imports Evm_Machine
begin

text \<open>
  The analysis of jump destinations (\<open>core/vm/analysis.go\<close>): the bit vector of the code marks the arguments of the push
  instructions, so that a jump goes to an instruction.
\<close>

unbundle bit_operations_syntax

section \<open>Bits of the vector\<close>

definition marked :: "bitvec \<Rightarrow> nat \<Rightarrow> bool" where
  "marked bits q \<longleftrightarrow> bit (bits ! (q div 8)) (7 - q mod 8)"

lemma bit_shifted: "bit (drop_bit k (0x80 :: uint8)) j \<longleftrightarrow> j + k = 7"
  "bit (drop_bit k (0xFF :: uint8)) j \<longleftrightarrow> j + k < 8"
proof -
  have e: "(0x80 :: uint8) = push_bit 7 1" "(0xFF :: uint8) = mask 8" by (simp_all add: mask_eq_exp_minus_1)
  show "bit (drop_bit k (0x80 :: uint8)) j \<longleftrightarrow> j + k = 7" "bit (drop_bit k (0xFF :: uint8)) j \<longleftrightarrow> j + k < 8"
    unfolding e bit_drop_bit_eq bit_push_bit_iff bit_mask_iff bit_1_iff by auto
qed

lemma same_position: "q div 8 = p div 8 \<and> (7 - q mod 8) + p mod 8 = 7 \<longleftrightarrow> q = (p::nat)"
proof -
  have "q mod 8 < 8" "p mod 8 < 8" by simp_all
  then have "(7 - q mod 8) + p mod 8 = 7 \<longleftrightarrow> q mod 8 = p mod 8" by arith
  then show ?thesis using div_mult_mod_eq [of q 8] div_mult_mod_eq [of p 8] by metis
qed

lemma bitvec_set_marks:
  assumes "pos div 8 < length bits"
  obtains bits' where "bitvec_set pos bits = Some bits'" "length bits' = length bits"
    "\<And>q. q div 8 < length bits \<Longrightarrow> marked bits' q \<longleftrightarrow> marked bits q \<or> q = pos"
proof
  let ?b = "bits[pos div 8 := bits ! (pos div 8) OR drop_bit (pos mod 8) 0x80]"
  show "bitvec_set pos bits = Some ?b" using assms by (simp add: bitvec_set_def goIndex_def goUpdate_def)
  show "marked ?b q \<longleftrightarrow> marked bits q \<or> q = pos" if "q div 8 < length bits" for q
    using that assms same_position [of q pos] by (auto simp: marked_def nth_list_update bit_or_iff bit_shifted)
qed simp

lemma eight_positions:
  "(q div 8 = p div 8 \<and> (7 - q mod 8) + p mod 8 < 8) \<or> (q div 8 = p div 8 + 1 \<and> \<not> (7 - q mod 8) + p mod 8 < 8) \<longleftrightarrow> p \<le> q \<and> q < (p::nat) + 8"
proof -
  define a b c d where "a = q div 8" "b = q mod 8" "c = p div 8" "d = p mod 8"
  then have "q = 8 * a + b" "p = 8 * c + d" "b < 8" "d < 8" by simp_all
  then show ?thesis unfolding \<open>a = q div 8\<close> [symmetric] \<open>b = q mod 8\<close> [symmetric] \<open>c = p div 8\<close> [symmetric] \<open>d = p mod 8\<close> [symmetric] by arith
qed

lemma bitvec_set8_marks:
  assumes "pos div 8 + 1 < length bits"
  obtains bits' where "bitvec_set8 pos bits = Some bits'" "length bits' = length bits"
    "\<And>q. q div 8 < length bits \<Longrightarrow> marked bits' q \<longleftrightarrow> marked bits q \<or> pos \<le> q \<and> q < pos + 8"
proof
  let ?b = "bits[pos div 8 := bits ! (pos div 8) OR drop_bit (pos mod 8) 0xFF,
    pos div 8 + 1 := bits ! (pos div 8 + 1) OR NOT (drop_bit (pos mod 8) 0xFF)]"
  show "bitvec_set8 pos bits = Some ?b" using assms by (simp add: bitvec_set8_def goIndex_def goUpdate_def)
  show "marked ?b q \<longleftrightarrow> marked bits q \<or> pos \<le> q \<and> q < pos + 8" if "q div 8 < length bits" for q
    using that assms unfolding eight_positions [of q pos, symmetric]
    by (auto simp: marked_def nth_list_update bit_or_iff bit_not_iff bit_shifted)
qed simp

lemma markPush_marks:
  assumes "n \<le> 32" "pc + n \<le> len + 32" "length bits = len div 8 + 5"
  shows "\<exists>bits'. markPush n pc bits = Some bits' \<and> length bits' = length bits \<and>
    (\<forall>q. q div 8 < length bits \<longrightarrow> marked bits' q = (marked bits q \<or> pc \<le> q \<and> q < pc + n))"
  using assms
proof (induction n pc bits rule: markPush.induct)
  case (1 n pc bits)
  show ?case
  proof (cases "n \<ge> 8")
    case True
    then have "pc div 8 + 1 < length bits" using 1(4,5) by simp
    then obtain b where b: "bitvec_set8 pc bits = Some b" "length b = length bits"
      "\<And>q. q div 8 < length bits \<Longrightarrow> marked b q \<longleftrightarrow> marked bits q \<or> pc \<le> q \<and> q < pc + 8" by (rule bitvec_set8_marks) (rule that)
    have "n - 8 \<le> 32" "pc + 8 + (n - 8) \<le> len + 32" "length b = len div 8 + 5" using 1(3-5) b(2) True by simp_all
    from 1(1) [OF True b(1) this] b True show ?thesis by (subst markPush.simps) fastforce
  next
    case False
    show ?thesis
    proof (cases "n = 0")
      case False
      then have "pc div 8 < length bits" using 1(4,5) \<open>\<not> 8 \<le> n\<close> by simp
      then obtain b where b: "bitvec_set pc bits = Some b" "length b = length bits"
        "\<And>q. q div 8 < length bits \<Longrightarrow> marked b q \<longleftrightarrow> marked bits q \<or> q = pc" by (rule bitvec_set_marks) (rule that)
      have "n - 1 \<le> 32" "pc + 1 + (n - 1) \<le> len + 32" "length b = len div 8 + 5" using 1(3-5) b(2) False by simp_all
      from 1(2) [OF \<open>\<not> 8 \<le> n\<close> _ b(1) this] b False \<open>\<not> 8 \<le> n\<close> show ?thesis by (subst markPush.simps) fastforce
    qed (auto simp: markPush.simps)
  qed
qed

section \<open>Instructions\<close>

text \<open>The instructions of the code, read one after the other from \<open>pc\<close> on: \<open>q\<close> is the position of one of them.\<close>

function instructionAt :: "bytes \<Rightarrow> nat \<Rightarrow> nat \<Rightarrow> bool" where
  "instructionAt code' pc q =
    (if pc < q \<and> pc < length code' then instructionAt code' (pc + 1 + pushSize (code' ! pc)) q else pc = q)"
  by auto
termination by (relation "measure (\<lambda>(c, pc, q). length c - pc)") auto

declare instructionAt.simps [simp del]

lemma pushSize_le: "pushSize op \<le> 32"
proof (cases "0x60 \<le> op \<and> op \<le> 0x7f")
  case True
  then have "unat (op - 0x60) \<le> 31" by (auto simp: word_le_nat_alt unat_sub)
  with True show ?thesis by (simp add: pushSize_def)
next
  case False
  then have "pushSize op = 0" unfolding pushSize_def by (rule if_not_P)
  then show ?thesis by simp
qed

lemma codeBitmap_loop_marks:
  assumes "length bits = length code' div 8 + 5" "\<And>q. pc \<le> q \<Longrightarrow> q div 8 < length bits \<Longrightarrow> \<not> marked bits q"
  shows "\<exists>bits'. codeBitmap_loop code' pc bits = Some bits' \<and> length bits' = length bits \<and>
    (\<forall>q < length code'. marked bits' q = (if q < pc then marked bits q else \<not> instructionAt code' pc q))"
  using assms
proof (induction code' pc bits rule: codeBitmap_loop.induct)
  case (1 code' pc bits)
  show ?case
  proof (cases "pc < length code'")
    case True
    let ?n = "pushSize (code' ! pc)"
    obtain b where b: "markPush ?n (pc + 1) bits = Some b" "length b = length bits"
      "\<forall>q. q div 8 < length bits \<longrightarrow> marked b q = (marked bits q \<or> pc + 1 \<le> q \<and> q < pc + 1 + ?n)"
      using markPush_marks [of ?n "pc + 1" "length code'" bits] pushSize_le [of "code' ! pc"] True 1(2) by auto
    have "\<not> marked b q" if "pc + 1 + ?n \<le> q" "q div 8 < length b" for q
      using b(2,3) that 1(3) [of q] by simp
    from 1(1) [OF True b(1) _ this] b(2) 1(2) obtain b' where b': "codeBitmap_loop code' (pc + 1 + ?n) b = Some b'" "length b' = length bits"
      "\<forall>q < length code'. marked b' q = (if q < pc + 1 + ?n then marked b q else \<not> instructionAt code' (pc + 1 + ?n) q)"
      by auto
    have "marked b' q = (if q < pc then marked bits q else \<not> instructionAt code' pc q)" if q: "q < length code'" for q
    proof -
      have "q div 8 < length bits" using q 1(2) div_le_mono [of q "length code'" 8] by simp
      then show ?thesis using b(3) b'(3) q 1(3) [of q] True instructionAt.simps [of code' pc q]
          instructionAt.simps [of code' "pc + 1 + ?n" q] by auto
    qed
    with b b' True show ?thesis by (subst codeBitmap_loop.simps) auto
  next
    case False
    then show ?thesis by (subst codeBitmap_loop.simps) auto
  qed
qed

lemma codeBitmap_marks:
  obtains bits where "codeBitmap code' = Some bits" "length bits = length code' div 8 + 5"
    "\<And>q. q < length code' \<Longrightarrow> marked bits q \<longleftrightarrow> \<not> instructionAt code' 0 q"
proof -
  let ?z = "replicate (length code' div 8 + 1 + 4) 0 :: bitvec"
  have "\<not> marked ?z q" if "q div 8 < length ?z" for q using that by (simp add: marked_def)
  from codeBitmap_loop_marks [of ?z code' 0] this that show ?thesis by (auto simp: codeBitmap_def)
qed

section \<open>Jumps\<close>

lemma bitLen_le: "n < 2 ^ k \<Longrightarrow> bitLen n \<le> k"
proof (induction n arbitrary: k rule: bitLen.induct)
  case (1 n)
  show ?case
  proof (cases "n = 0")
    case False
    then obtain j where k: "k = Suc j" using 1(2) by (cases k) auto
    have "bitLen (n div 2) \<le> j" using 1(1) [OF False, of j] 1(2) k by simp
    then show ?thesis using False k by (subst bitLen.simps) simp
  qed (simp add: bitLen.simps)
qed

lemma bitLen_bound: "n < 2 ^ bitLen n"
proof (induction n rule: bitLen.induct)
  case (1 n)
  show ?case
  proof (cases "n = 0")
    case False
    have "n < 2 * 2 ^ bitLen (n div 2)" using 1(1) [OF False] by simp
    then show ?thesis using False by (subst bitLen.simps) simp
  qed (simp add: bitLen.simps)
qed

lemma codeSegment_marked:
  assumes "pos div 8 < length bits"
  shows "codeSegment bits pos = Some (\<not> marked bits pos)"
proof -
  have "bits ! (pos div 8) AND drop_bit (pos mod 8) 0x80 = 0 \<longleftrightarrow> \<not> marked bits pos"
  proof
    assume "bits ! (pos div 8) AND drop_bit (pos mod 8) 0x80 = 0"
    then have "\<not> bit (bits ! (pos div 8) AND drop_bit (pos mod 8) 0x80) (7 - pos mod 8)" by simp
    then show "\<not> marked bits pos" using same_position [of pos pos] by (simp add: marked_def bit_and_iff bit_shifted)
  next
    assume n: "\<not> marked bits pos"
    show "bits ! (pos div 8) AND drop_bit (pos mod 8) 0x80 = 0"
    proof (rule bit_eqI)
      fix j
      have "j + pos mod 8 = 7 \<Longrightarrow> j = 7 - pos mod 8" by simp
      with n show "bit (bits ! (pos div 8) AND drop_bit (pos mod 8) 0x80) j = bit 0 j"
        by (auto simp: marked_def bit_and_iff bit_shifted)
    qed
  qed
  then show ?thesis using assms by (simp add: codeSegment_def goIndex_def)
qed

text \<open>
  C10. A jump is allowed exactly to the positions of the code that hold a \<open>JUMPDEST\<close> and are instructions, not arguments of
  a push: the look-up in the map of bit vectors never panics, agrees with reading the code instruction by instruction,
  and caches the bit vector of the code only.
\<close>

theorem jump_destinations_exact:
  assumes "length code' < 2 ^ 62" "d h = None \<or> d h = codeBitmap code'"
  shows "\<exists>d'. destinations_has d h code' (int p) =
      Some (p < length code' \<and> code' ! p = JUMPDEST_byte \<and> instructionAt code' 0 p, d') \<and> (d' h = None \<or> d' h = codeBitmap code')"
proof (cases "p < length code'")
  case True
  obtain bits where bits: "codeBitmap code' = Some bits" "length bits = length code' div 8 + 5"
    "\<And>q. q < length code' \<Longrightarrow> marked bits q \<longleftrightarrow> \<not> instructionAt code' 0 q" by (rule codeBitmap_marks) (rule that)
  have "BitLen (int p) \<le> 62" using assms(1) True bitLen_le [of p 62] by (simp add: BitLen_def)
  then have l: "\<not> BitLen (int p) \<ge> 63" by simp
  have u: "unat (Uint64 (int p)) = p" using assms(1) True by (simp add: Uint64_def unat_of_nat)
  have g: "\<not> Uint64 (int p) \<ge> of_nat (length code')"
    using assms(1) True u by (simp add: word_le_nat_alt unat_of_nat)
  have "p div 8 < length bits" using True bits(2) div_le_mono [of p "length code'" 8] by simp
  from codeSegment_marked [OF this] bits(3) [OF True] have s: "codeSegment bits p = Some (instructionAt code' 0 p)" by simp
  show ?thesis
  proof (cases "d h")
    case None
    then show ?thesis using l g u bits(1) s True by (auto simp: destinations_has_def Let_def)
  next
    case (Some m)
    with assms(2) bits(1) have "d h = Some bits" by simp
    then show ?thesis using l g u bits(1) s True by (auto simp: destinations_has_def Let_def)
  qed
next
  case False
  have "BitLen (int p) \<ge> 63 \<or> Uint64 (int p) \<ge> of_nat (length code')"
  proof (cases "p < 2 ^ 64")
    case True
    then have "unat (Uint64 (int p)) = p" by (simp add: Uint64_def unat_of_nat)
    with False assms(1) show ?thesis by (simp add: word_le_nat_alt unat_of_nat)
  next
    case big: False
    have "\<not> bitLen p \<le> 62"
    proof
      assume "bitLen p \<le> 62"
      then have "p < 2 ^ 62" using bitLen_bound [of p] power_increasing [of "bitLen p" 62 "2::nat"] by simp
      with big show False by simp
    qed
    then show ?thesis by (simp add: BitLen_def)
  qed
  with False assms(2) show ?thesis by (auto simp: destinations_has_def Let_def)
qed

theorem jump_destinations_exact_witness:
  "(\<exists>d'. destinations_has Map.empty 7 [0x60, 0x5b, 0x5b] (int 1) = Some (False, d')) \<and>
   (\<exists>d'. destinations_has Map.empty 7 [0x60, 0x5b, 0x5b] (int 2) = Some (True, d'))"
  using jump_destinations_exact [of "[0x60, 0x5b, 0x5b]" Map.empty 7 1] jump_destinations_exact [of "[0x60, 0x5b, 0x5b]" Map.empty 7 2]
  by (auto simp: instructionAt.simps pushSize_def JUMPDEST_byte_def)

end
