(* ===== verification/Spec2Isabelle.thy ===== *)
theory Spec2Isabelle
  imports Time_Lock_Laws Ticket_Cache Fsn_Types State_Revert Fsn_Swaps Rlp_Records Evm_Costs Evm_Words Evm_Jumps
begin

text \<open>
  Verification of the Fusion node (\<open>efsn\<close>), a fork of go-ethereum with time-locked balances,
  assets, swaps, notations and a ticket-based proof of stake.
\<close>

end
